(* ===== verification/Prelude.thy ===== *)
theory Prelude
  imports Main "HOL-Library.Word" "HOL-Library.Char_ord" "HOL-Library.List_Lexorder"
begin

text \<open>
  Shared vocabulary of the development: Rust's \<^verbatim>\<open>Result\<close>, its machine integers, the
  \<^verbatim>\<open>str\<close> operations the sources use, and the automation collections.

  A Rust \<^verbatim>\<open>&str\<close> is its UTF-8 byte sequence, a HOL \<open>string\<close>: \<open>length\<close> is
  \<^verbatim>\<open>len()\<close>, and a test of every character against an ASCII class is the same test of
  every byte, because the bytes of a non-ASCII character are all outside ASCII.
\<close>

named_theorems str_simps \<open>evaluation of the string operations\<close>
named_theorems wf_intros \<open>introduction rules of the well-formedness predicates\<close>

section \<open>Results\<close>

type_synonym ('t, 'e) result = "'e + 't"

abbreviation Ok :: "'t \<Rightarrow> ('t, 'e) result" where
  "Ok \<equiv> Inr"

abbreviation Err :: "'e \<Rightarrow> ('t, 'e) result" where
  "Err \<equiv> Inl"

fun is_ok :: "('t, 'e) result \<Rightarrow> bool" where
  "is_ok (Ok _) = True"
| "is_ok (Err _) = False"

fun ok :: "('t, 'e) result \<Rightarrow> 't option" where
  "ok (Ok v) = Some v"
| "ok (Err _) = None"

fun map_err :: "('e \<Rightarrow> 'f) \<Rightarrow> ('t, 'e) result \<Rightarrow> ('t, 'f) result" where
  "map_err f (Ok v) = Ok v"
| "map_err f (Err e) = Err (f e)"

fun and_then :: "('t, 'e) result \<Rightarrow> ('t \<Rightarrow> ('u, 'e) result) \<Rightarrow> ('u, 'e) result" where
  "and_then (Ok v) f = f v"
| "and_then (Err e) f = Err e"

lemma ok_Some_iff: "ok r = Some x \<longleftrightarrow> r = Ok x" "Some x = ok r \<longleftrightarrow> r = Ok x"
  by (cases r; auto)+

text \<open>Collecting an iterator of results stops at its first error.\<close>

fun collect_results :: "('t, 'e) result list \<Rightarrow> ('t list, 'e) result" where
  "collect_results [] = Ok []"
| "collect_results (r # rs) =
     (case r of Err e \<Rightarrow> Err e
      | Ok v \<Rightarrow> (case collect_results rs of Err e \<Rightarrow> Err e | Ok vs \<Rightarrow> Ok (v # vs)))"

lemma is_ok_iff: "is_ok r \<longleftrightarrow> (\<exists>v. r = Ok v)"
  by (cases r) auto

lemma map_err_Ok_iff [simp]: "map_err f r = Ok v \<longleftrightarrow> r = Ok v"
  by (cases r) auto

lemma map_err_Err_iff: "map_err f r = Err e \<longleftrightarrow> (\<exists>e'. r = Err e' \<and> e = f e')"
  by (cases r) auto

lemma and_then_Ok_iff: "and_then r f = Ok v \<longleftrightarrow> (\<exists>u. r = Ok u \<and> f u = Ok v)"
  by (cases r) auto

lemma collect_results_map_Ok [simp]: "collect_results (map Ok vs) = Ok vs"
  by (induction vs) auto

lemma collect_results_OkD: "collect_results rs = Ok vs \<Longrightarrow> rs = map Ok vs"
  by (induction rs arbitrary: vs) (auto split: sum.splits)

lemma collect_results_Ok_iff: "collect_results rs = Ok vs \<longleftrightarrow> rs = map Ok vs"
  by (auto dest: collect_results_OkD)

section \<open>Machine integers\<close>

type_synonym u8 = "8 word"
type_synonym u16 = "16 word"
type_synonym u32 = "32 word"
type_synonym u64 = "64 word"
type_synonym uuid = "128 word"

text \<open>\<^verbatim>\<open>saturating_add\<close>: the sum, or the largest value where it does not fit.\<close>

definition sat_add :: "'a::len word \<Rightarrow> 'a word \<Rightarrow> 'a word" where
  "sat_add a b =
     (if unat a + unat b < 2 ^ LENGTH('a) then a + b else of_nat (2 ^ LENGTH('a) - 1))"

lemma unat_sat_add: "unat (sat_add a b) = min (unat a + unat b) (2 ^ LENGTH('a) - 1)"
  for a b :: "'a::len word"
proof (cases "unat a + unat b < 2 ^ LENGTH('a)")
  case True
  then show ?thesis
    by (simp add: sat_add_def unat_word_ariths)
next
  case False
  then show ?thesis
    by (simp add: sat_add_def unat_of_nat take_bit_eq_mod del: of_nat_diff)
qed

text \<open>
  A \<^verbatim>\<open>std::time::Duration\<close> is its number of nanoseconds, at most
  \<^verbatim>\<open>Duration::MAX\<close>.
\<close>

type_synonym duration = nat

definition duration_max :: duration where
  "duration_max = (2 ^ 64 - 1) * 1000000000 + 999999999"

definition from_millis :: "nat \<Rightarrow> duration" where
  "from_millis ms = ms * 1000000"

definition from_secs :: "nat \<Rightarrow> duration" where
  "from_secs s = s * 1000000000"

definition sat_mul_duration :: "duration \<Rightarrow> nat \<Rightarrow> duration" where
  "sat_mul_duration d k = min (d * k) duration_max"

section \<open>Faults of a remote call\<close>

text \<open>
  What the environment does to one call of a database: nothing, or a failure before the call took
  effect, or one after it did, which the caller cannot tell apart.
\<close>

datatype db_fault = NoFault | FailBefore string | FailAfter string

end
