(* ===== verification/Rust_Str.thy ===== *)
theory Rust_Str
  imports Prelude
begin

text \<open>
  The operations of Rust's \<^verbatim>\<open>str\<close> that the sources use, on UTF-8 byte strings:
  ASCII classes, \<^verbatim>\<open>split\<close>, \<^verbatim>\<open>join\<close>, \<^verbatim>\<open>strip_prefix\<close>, \<^verbatim>\<open>trim\<close>, decimal
  formatting and \<^verbatim>\<open>parse\<close> of unsigned and signed integers.
\<close>

section \<open>ASCII classes\<close>

definition byte :: "char \<Rightarrow> nat" where
  "byte c = of_char c"

definition is_ascii_digit :: "char \<Rightarrow> bool" where
  "is_ascii_digit c \<longleftrightarrow> 48 \<le> byte c \<and> byte c \<le> 57"

definition is_ascii_lowercase :: "char \<Rightarrow> bool" where
  "is_ascii_lowercase c \<longleftrightarrow> 97 \<le> byte c \<and> byte c \<le> 122"

definition is_ascii_uppercase :: "char \<Rightarrow> bool" where
  "is_ascii_uppercase c \<longleftrightarrow> 65 \<le> byte c \<and> byte c \<le> 90"

definition is_ascii_alphabetic :: "char \<Rightarrow> bool" where
  "is_ascii_alphabetic c \<longleftrightarrow> is_ascii_lowercase c \<or> is_ascii_uppercase c"

definition is_ascii_alphanumeric :: "char \<Rightarrow> bool" where
  "is_ascii_alphanumeric c \<longleftrightarrow> is_ascii_alphabetic c \<or> is_ascii_digit c"

definition to_ascii_uppercase :: "char \<Rightarrow> char" where
  "to_ascii_uppercase c = (if is_ascii_lowercase c then char_of (byte c - 32) else c)"

lemmas ascii_defs = byte_def is_ascii_digit_def is_ascii_lowercase_def is_ascii_uppercase_def
  is_ascii_alphabetic_def is_ascii_alphanumeric_def

declare ascii_defs [str_simps]

section \<open>Splitting and joining\<close>

fun split_on :: "char \<Rightarrow> string \<Rightarrow> string list" where
  "split_on d [] = [[]]"
| "split_on d (c # cs) =
     (if c = d then [] # split_on d cs
      else (case split_on d cs of [] \<Rightarrow> [[c]] | p # ps \<Rightarrow> (c # p) # ps))"

fun join_on :: "string \<Rightarrow> string list \<Rightarrow> string" where
  "join_on sep [] = []"
| "join_on sep [x] = x"
| "join_on sep (x # y # ys) = x @ sep @ join_on sep (y # ys)"

lemma split_on_nonempty [simp]: "split_on d s \<noteq> []"
  by (cases s) (auto split: list.splits)

lemma split_on_free: "d \<notin> set s \<Longrightarrow> split_on d s = [s]"
  by (induction s) auto

lemma split_on_append: "d \<notin> set x \<Longrightarrow> split_on d (x @ d # s) = x # split_on d s"
  by (induction x) auto

lemma split_on_parts: "p \<in> set (split_on d s) \<Longrightarrow> d \<notin> set p"
  by (induction s arbitrary: p) (auto split: if_splits list.splits)

lemma join_on_Cons_nonempty: "ys \<noteq> [] \<Longrightarrow> join_on sep (x # ys) = x @ sep @ join_on sep ys"
  by (cases ys) auto

lemma join_split_on: "join_on [d] (split_on d s) = s"
proof (induction s)
  case Nil
  then show ?case by simp
next
  case (Cons c s)
  obtain p ps where ps: "split_on d s = p # ps"
    by (cases "split_on d s") auto
  with Cons show ?case
    by (cases ps) auto
qed

lemma split_join_on:
  "xs \<noteq> [] \<Longrightarrow> \<forall>x \<in> set xs. d \<notin> set x \<Longrightarrow> split_on d (join_on [d] xs) = xs"
proof (induction xs)
  case Nil
  then show ?case by simp
next
  case (Cons x xs)
  then show ?case
    by (cases xs) (auto simp: split_on_free split_on_append)
qed

lemma split_on_eq_iff:
  "split_on d s = xs \<longleftrightarrow> xs \<noteq> [] \<and> (\<forall>x \<in> set xs. d \<notin> set x) \<and> s = join_on [d] xs"
  using join_split_on [of d s] split_join_on [of xs d] split_on_parts [of _ d s] by auto

section \<open>Prefixes and trimming\<close>

definition starts_with :: "string \<Rightarrow> string \<Rightarrow> bool" where
  "starts_with p s \<longleftrightarrow> take (length p) s = p"

definition ends_with :: "string \<Rightarrow> string \<Rightarrow> bool" where
  "ends_with p s \<longleftrightarrow> length p \<le> length s \<and> drop (length s - length p) s = p"

definition strip_prefix :: "string \<Rightarrow> string \<Rightarrow> string option" where
  "strip_prefix p s = (if starts_with p s then Some (drop (length p) s) else None)"

lemma starts_with_iff: "starts_with p s \<longleftrightarrow> (\<exists>r. s = p @ r)"
  by (auto simp: starts_with_def) (metis append_take_drop_id)

lemma starts_with_append [simp]: "starts_with p (p @ r)"
  by (simp add: starts_with_def)

lemma strip_prefix_append [simp]: "strip_prefix p (p @ r) = Some r"
  by (simp add: strip_prefix_def)

lemma strip_prefix_Some_iff: "strip_prefix p s = Some r \<longleftrightarrow> s = p @ r"
  by (auto simp: strip_prefix_def starts_with_iff)

text \<open>The UTF-8 encodings of the characters with the Unicode property White_Space.\<close>

definition white_space :: "string list" where
  "white_space =
     [[CHR 0x09], [CHR 0x0A], [CHR 0x0B], [CHR 0x0C], [CHR 0x0D], [CHR 0x20],
      [CHR 0xC2, CHR 0x85], [CHR 0xC2, CHR 0xA0], [CHR 0xE1, CHR 0x9A, CHR 0x80],
      [CHR 0xE2, CHR 0x80, CHR 0x80], [CHR 0xE2, CHR 0x80, CHR 0x81],
      [CHR 0xE2, CHR 0x80, CHR 0x82], [CHR 0xE2, CHR 0x80, CHR 0x83],
      [CHR 0xE2, CHR 0x80, CHR 0x84], [CHR 0xE2, CHR 0x80, CHR 0x85],
      [CHR 0xE2, CHR 0x80, CHR 0x86], [CHR 0xE2, CHR 0x80, CHR 0x87],
      [CHR 0xE2, CHR 0x80, CHR 0x88], [CHR 0xE2, CHR 0x80, CHR 0x89],
      [CHR 0xE2, CHR 0x80, CHR 0x8A], [CHR 0xE2, CHR 0x80, CHR 0xA8],
      [CHR 0xE2, CHR 0x80, CHR 0xA9], [CHR 0xE2, CHR 0x80, CHR 0xAF],
      [CHR 0xE2, CHR 0x81, CHR 0x9F], [CHR 0xE3, CHR 0x80, CHR 0x80]]"

definition leading_ws :: "string \<Rightarrow> nat" where
  "leading_ws s = (case find (\<lambda>w. starts_with w s) white_space of
     None \<Rightarrow> 0 | Some w \<Rightarrow> length w)"

definition trailing_ws :: "string \<Rightarrow> nat" where
  "trailing_ws s = (case find (\<lambda>w. ends_with w s) white_space of
     None \<Rightarrow> 0 | Some w \<Rightarrow> length w)"

lemma white_space_nonempty: "w \<in> set white_space \<Longrightarrow> w \<noteq> []"
  by (auto simp: white_space_def)

lemma leading_ws_0_iff: "leading_ws s = 0 \<longleftrightarrow> (\<forall>w \<in> set white_space. \<not> starts_with w s)"
  by (auto simp: leading_ws_def find_None_iff find_Some_iff split: option.splits
      dest: white_space_nonempty nth_mem)

lemma trailing_ws_0_iff: "trailing_ws s = 0 \<longleftrightarrow> (\<forall>w \<in> set white_space. \<not> ends_with w s)"
  by (auto simp: trailing_ws_def find_None_iff find_Some_iff split: option.splits
      dest: white_space_nonempty nth_mem)

lemma leading_ws_pos: "leading_ws s \<noteq> 0 \<Longrightarrow> s \<noteq> []"
  by (auto simp: leading_ws_0_iff starts_with_def dest: white_space_nonempty)

lemma trailing_ws_pos: "trailing_ws s \<noteq> 0 \<Longrightarrow> s \<noteq> []"
  by (auto simp: trailing_ws_0_iff ends_with_def dest: white_space_nonempty)

function trim_start :: "string \<Rightarrow> string" where
  "trim_start s = (if leading_ws s = 0 then s else trim_start (drop (leading_ws s) s))"
  by pat_completeness auto
termination
  by (relation "measure length") (use leading_ws_pos in auto)

function trim_end :: "string \<Rightarrow> string" where
  "trim_end s =
     (if trailing_ws s = 0 then s else trim_end (take (length s - trailing_ws s) s))"
  by pat_completeness auto
termination
  by (relation "measure length") (use trailing_ws_pos in auto)

declare trim_start.simps [simp del] trim_end.simps [simp del]

definition trim :: "string \<Rightarrow> string" where
  "trim s = trim_end (trim_start s)"

lemma leading_ws_trim_start: "leading_ws (trim_start s) = 0"
  by (induction s rule: trim_start.induct) (subst trim_start.simps, simp)

lemma trailing_ws_trim_end: "trailing_ws (trim_end s) = 0"
  by (induction s rule: trim_end.induct) (subst trim_end.simps, simp)

lemma trim_end_take: "\<exists>n. trim_end s = take n s"
proof (induction s rule: trim_end.induct)
  case (1 s)
  show ?case
  proof (cases "trailing_ws s = 0")
    case True
    then show ?thesis
      by (subst trim_end.simps) (auto intro: exI [of _ "length s"])
  next
    case False
    with 1 obtain n where "trim_end (take (length s - trailing_ws s) s)
        = take n (take (length s - trailing_ws s) s)" by blast
    with False show ?thesis
      by (subst trim_end.simps) (auto simp: take_take min_def)
  qed
qed

lemma leading_ws_take: "leading_ws s = 0 \<Longrightarrow> leading_ws (take n s) = 0"
  by (auto simp: leading_ws_0_iff starts_with_def) (metis append_take_drop_id append_assoc
      append_eq_conv_conj)

text \<open>A trimmed string has no white space at either end, so trimming it again is the identity.\<close>

lemma trim_ends: "leading_ws (trim s) = 0 \<and> trailing_ws (trim s) = 0"
  using trim_end_take [of "trim_start s"]
  by (auto simp: trim_def leading_ws_take leading_ws_trim_start trailing_ws_trim_end)

lemma trim_idem [simp]: "trim (trim s) = trim s"
  using trim_ends [of s] by (simp add: trim_def [of "trim s"] trim_start.simps [of "trim s"]
      trim_end.simps [of "trim s"])

section \<open>Decimal numbers\<close>

definition digit_char :: "nat \<Rightarrow> char" where
  "digit_char d = char_of (48 + d)"

fun show_nat :: "nat \<Rightarrow> string" where
  "show_nat n = (if n < 10 then [digit_char n] else show_nat (n div 10) @ [digit_char (n mod 10)])"

declare show_nat.simps [simp del]

definition digits_value :: "string \<Rightarrow> nat" where
  "digits_value s = foldl (\<lambda>acc c. acc * 10 + (byte c - 48)) 0 s"

text \<open>
  \<^verbatim>\<open>str::parse\<close> of an unsigned integer type with largest value \<open>m\<close>: an optional plus
  sign, then at least one digit, and a value that fits.
\<close>

definition parse_uint :: "nat \<Rightarrow> string \<Rightarrow> nat option" where
  "parse_uint m s =
     (let ds = (case s of [] \<Rightarrow> [] | c # cs \<Rightarrow> if c = CHR ''+'' then cs else s)
      in if ds \<noteq> [] \<and> list_all is_ascii_digit ds \<and> digits_value ds \<le> m
         then Some (digits_value ds) else None)"

lemma byte_digit_char: "d < 10 \<Longrightarrow> byte (digit_char d) = 48 + d"
  by (simp add: byte_def digit_char_def)

lemma is_ascii_digit_digit_char: "d < 10 \<Longrightarrow> is_ascii_digit (digit_char d)"
  by (simp add: is_ascii_digit_def byte_digit_char)

lemma show_nat_digits: "list_all is_ascii_digit (show_nat n)"
proof (induction n rule: show_nat.induct)
  case (1 n)
  then show ?case
    by (subst show_nat.simps) (auto simp: is_ascii_digit_digit_char)
qed

lemma show_nat_nonempty [simp]: "show_nat n \<noteq> []"
  by (subst show_nat.simps) simp

lemma digits_value_snoc: "digits_value (s @ [c]) = digits_value s * 10 + (byte c - 48)"
  by (simp add: digits_value_def)

lemma digits_value_show_nat: "digits_value (show_nat n) = n"
proof (induction n rule: show_nat.induct)
  case (1 n)
  show ?case
  proof (cases "n < 10")
    case True
    then show ?thesis
      by (subst show_nat.simps) (simp add: digits_value_def byte_digit_char)
  next
    case False
    with 1 show ?thesis
      by (subst show_nat.simps) (simp add: digits_value_snoc byte_digit_char)
  qed
qed

lemma digit_not_plus: "is_ascii_digit c \<Longrightarrow> c \<noteq> CHR ''+''"
  by (auto simp: is_ascii_digit_def byte_def)

lemma parse_uint_show_nat:
  assumes "n \<le> m"
  shows "parse_uint m (show_nat n) = Some n"
proof (cases "show_nat n")
  case Nil
  then show ?thesis by simp
next
  case (Cons c cs)
  moreover have "digits_value (show_nat n) = n" and "list_all is_ascii_digit (show_nat n)"
    by (rule digits_value_show_nat, rule show_nat_digits)
  ultimately show ?thesis
    using assms by (auto simp: parse_uint_def Let_def dest: digit_not_plus)
qed

lemma parse_uint_le: "parse_uint m s = Some n \<Longrightarrow> n \<le> m"
  by (auto simp: parse_uint_def Let_def split: if_splits)

lemma parse_uint_chars:
  "parse_uint m s = Some n \<Longrightarrow> c \<in> set s \<Longrightarrow> c = CHR ''+'' \<or> is_ascii_digit c"
  by (auto simp: parse_uint_def Let_def list_all_iff split: if_splits list.splits)

section \<open>Checked string newtypes\<close>

text \<open>
  Most identifiers of the code base are newtypes over \<^verbatim>\<open>String\<close> with one smart
  constructor that validates its argument and one accessor \<^verbatim>\<open>as_str\<close>. The interface:
  the constructor succeeds exactly on the valid strings and keeps the string.
\<close>

locale checked_string =
  fixes mk :: "string \<Rightarrow> ('t, 'e) result"
    and str :: "'t \<Rightarrow> string"
    and valid :: "string \<Rightarrow> bool"
  assumes mk_valid: "valid s \<Longrightarrow> \<exists>v. mk s = Ok v \<and> str v = s"
    and mk_invalid: "\<not> valid s \<Longrightarrow> \<not> is_ok (mk s)"
    and str_inj: "str v = str w \<Longrightarrow> v = w"
begin

lemma mk_Ok_iff: "mk s = Ok v \<longleftrightarrow> valid s \<and> str v = s"
proof
  assume ok: "mk s = Ok v"
  then have "valid s"
    using mk_invalid [of s] by (cases "valid s") auto
  then show "valid s \<and> str v = s"
    using mk_valid [of s] ok by auto
next
  assume "valid s \<and> str v = s"
  then show "mk s = Ok v"
    using mk_valid [of s] str_inj by auto
qed

lemma mk_str: "valid (str v) \<Longrightarrow> mk (str v) = Ok v"
  by (simp add: mk_Ok_iff)

lemma mk_Err_iff: "(\<exists>e. mk s = Err e) \<longleftrightarrow> \<not> valid s"
  using mk_Ok_iff [of s] mk_valid [of s] by (cases "mk s") auto

lemma mk_inj: "mk s = Ok v \<Longrightarrow> mk t = Ok v \<Longrightarrow> s = t"
  by (simp add: mk_Ok_iff)

end

end
