(* ===== verification/Coords.thy ===== *)
theory Coords
  imports Rust_Str
begin

text \<open>
  Message coordinates: the checked segments of \<^verbatim>\<open>br-core-integration/src/coords\<close>, the
  subject grammar of \<^verbatim>\<open>br-util-nats-fabric/src/coords\<close> (rendering and parsing), and the
  wildcard coverage test of \<^verbatim>\<open>consumer/coverage.rs\<close>.
\<close>

section \<open>Segments and coordinates\<close>

datatype coord_error = CoordEmpty string | CoordInvalidChar string string

definition segment_char :: "char \<Rightarrow> bool" where
  "segment_char c \<longleftrightarrow> is_ascii_alphanumeric c \<or> c = CHR ''-'' \<or> c = CHR ''_''"

definition validate_segment :: "string \<Rightarrow> string \<Rightarrow> (unit, coord_error) result" where
  "validate_segment role s =
     (if s = [] then Err (CoordEmpty role)
      else if list_ex (\<lambda>c. \<not> segment_char c) s then Err (CoordInvalidChar role s)
      else Ok ())"

definition valid_segment :: "string \<Rightarrow> bool" where
  "valid_segment s \<longleftrightarrow> s \<noteq> [] \<and> list_all segment_char s"

datatype bc = Bc (bc_str: string)
datatype aggregate = Aggregate (aggregate_str: string)
datatype verb = Verb (verb_str: string)
datatype past_fact = PastFact (past_fact_str: string)

definition bc_new :: "string \<Rightarrow> (bc, coord_error) result" where
  "bc_new s = (case validate_segment ''bc'' s of Err e \<Rightarrow> Err e | Ok _ \<Rightarrow> Ok (Bc s))"

definition aggregate_new :: "string \<Rightarrow> (aggregate, coord_error) result" where
  "aggregate_new s =
     (case validate_segment ''aggregate'' s of Err e \<Rightarrow> Err e | Ok _ \<Rightarrow> Ok (Aggregate s))"

definition verb_new :: "string \<Rightarrow> (verb, coord_error) result" where
  "verb_new s = (case validate_segment ''verb'' s of Err e \<Rightarrow> Err e | Ok _ \<Rightarrow> Ok (Verb s))"

definition past_fact_new :: "string \<Rightarrow> (past_fact, coord_error) result" where
  "past_fact_new s =
     (case validate_segment ''fact'' s of Err e \<Rightarrow> Err e | Ok _ \<Rightarrow> Ok (PastFact s))"

lemma validate_segment_Ok_iff: "validate_segment r s = Ok u \<longleftrightarrow> valid_segment s"
  by (auto simp: validate_segment_def valid_segment_def list_ex_iff list_all_iff)

lemma validate_segment_Err_iff: "(\<exists>e. validate_segment r s = Err e) \<longleftrightarrow> \<not> valid_segment s"
  using validate_segment_Ok_iff [of r s] by (cases "validate_segment r s") auto

lemma validate_segment_ErrD: "validate_segment r s = Err e \<Longrightarrow> \<not> valid_segment s"
  using validate_segment_Err_iff [of r s] by blast

interpretation bc: checked_string bc_new bc_str valid_segment
  by unfold_locales (auto simp: bc_new_def validate_segment_Ok_iff bc.expand
      split: sum.splits dest: validate_segment_ErrD)

interpretation agg: checked_string aggregate_new aggregate_str valid_segment
  by unfold_locales (auto simp: aggregate_new_def validate_segment_Ok_iff aggregate.expand
      split: sum.splits dest: validate_segment_ErrD)

interpretation vrb: checked_string verb_new verb_str valid_segment
  by unfold_locales (auto simp: verb_new_def validate_segment_Ok_iff verb.expand
      split: sum.splits dest: validate_segment_ErrD)

interpretation fct: checked_string past_fact_new past_fact_str valid_segment
  by unfold_locales (auto simp: past_fact_new_def validate_segment_Ok_iff past_fact.expand
      split: sum.splits dest: validate_segment_ErrD)

record command_coords =
  cmd_receiver :: bc
  cmd_aggregate :: aggregate
  cmd_verb :: verb
  cmd_version :: u8

record event_coords =
  evt_producer :: bc
  evt_aggregate :: aggregate
  evt_fact :: past_fact
  evt_version :: u8

text \<open>Coordinates built from segments that their constructors accepted.\<close>

definition command_coords_wf :: "command_coords \<Rightarrow> bool" where
  "command_coords_wf c \<longleftrightarrow> valid_segment (bc_str (cmd_receiver c)) \<and>
     valid_segment (aggregate_str (cmd_aggregate c)) \<and> valid_segment (verb_str (cmd_verb c))"

definition event_coords_wf :: "event_coords \<Rightarrow> bool" where
  "event_coords_wf c \<longleftrightarrow> valid_segment (bc_str (evt_producer c)) \<and>
     valid_segment (aggregate_str (evt_aggregate c)) \<and>
     valid_segment (past_fact_str (evt_fact c))"

section \<open>Rendering and parsing subjects\<close>

definition integration_prefix :: string where "integration_prefix = ''integration''"
definition cmd_token :: string where "cmd_token = ''cmd''"
definition evt_token :: string where "evt_token = ''evt''"

lemmas token_defs = integration_prefix_def cmd_token_def evt_token_def

definition command_subject :: "command_coords \<Rightarrow> string" where
  "command_subject c = integration_prefix @ ''.'' @ cmd_token @ ''.'' @ bc_str (cmd_receiver c)
     @ ''.'' @ aggregate_str (cmd_aggregate c) @ ''.'' @ verb_str (cmd_verb c)
     @ ''.v'' @ show_nat (unat (cmd_version c))"

definition event_subject :: "event_coords \<Rightarrow> string" where
  "event_subject c = integration_prefix @ ''.'' @ evt_token @ ''.'' @ bc_str (evt_producer c)
     @ ''.'' @ aggregate_str (evt_aggregate c) @ ''.'' @ past_fact_str (evt_fact c)
     @ ''.v'' @ show_nat (unat (evt_version c))"

datatype event_subject_parse_error =
  SubjectShape string | SubjectVersion string | SubjectCoord coord_error

fun coord_error_display :: "(string \<Rightarrow> string) \<Rightarrow> coord_error \<Rightarrow> string" where
  "coord_error_display dbg (CoordEmpty role) =
     ''coordinate segment '' @ [CHR 0x27] @ role @ [CHR 0x27] @ '' is empty''"
| "coord_error_display dbg (CoordInvalidChar role value) =
     ''coordinate segment '' @ [CHR 0x27] @ role @ [CHR 0x27]
       @ '' contains a character outside [A-Za-z0-9_-]: '' @ dbg value"

fun parse_error_display :: "(string \<Rightarrow> string) \<Rightarrow> event_subject_parse_error \<Rightarrow> string" where
  "parse_error_display dbg (SubjectShape subject) =
     ''event subject '' @ dbg subject @ '' is not the 6-segment integration.evt grammar''"
| "parse_error_display dbg (SubjectVersion segment) =
     ''event subject version segment '' @ dbg segment @ '' is not '' @ [CHR 0x27] @ ''v<u8>'' @ [CHR 0x27]"
| "parse_error_display dbg (SubjectCoord e) = coord_error_display dbg e"

definition parse_version :: "string \<Rightarrow> u8 option" where
  "parse_version s = (case strip_prefix ''v'' s of None \<Rightarrow> None
     | Some n \<Rightarrow> map_option of_nat (parse_uint 255 n))"

definition parse_event_subject :: "string \<Rightarrow> (event_coords, event_subject_parse_error) result" where
  "parse_event_subject s =
     (case split_on (CHR ''.'') s of
        [pfx, tok, b0, a0, f0, ver] \<Rightarrow>
          if pfx \<noteq> integration_prefix \<or> tok \<noteq> evt_token then Err (SubjectShape s)
          else (case parse_version ver of
              None \<Rightarrow> Err (SubjectVersion ver)
            | Some v \<Rightarrow> (case bc_new b0 of Err e \<Rightarrow> Err (SubjectCoord e) | Ok p \<Rightarrow>
                (case aggregate_new a0 of Err e \<Rightarrow> Err (SubjectCoord e) | Ok a \<Rightarrow>
                (case past_fact_new f0 of Err e \<Rightarrow> Err (SubjectCoord e) | Ok f \<Rightarrow>
                   Ok \<lparr>evt_producer = p, evt_aggregate = a, evt_fact = f, evt_version = v\<rparr>))))
      | _ \<Rightarrow> Err (SubjectShape s))"

lemma segment_char_not_dot: "segment_char c \<Longrightarrow> c \<noteq> CHR ''.''"
  by (auto simp: segment_char_def ascii_defs)

lemma valid_segment_no_dot: "valid_segment s \<Longrightarrow> CHR ''.'' \<notin> set s"
  by (auto simp: valid_segment_def list_all_iff dest: segment_char_not_dot)

lemma show_nat_no_dot: "CHR ''.'' \<notin> set (show_nat n)"
  using show_nat_digits [of n] by (auto simp: list_all_iff ascii_defs)

lemma parse_uint_no_dot: "parse_uint m n = Some k \<Longrightarrow> CHR ''.'' \<notin> set n"
  by (auto simp: ascii_defs dest: parse_uint_chars)

lemma split_event_subject:
  assumes "event_coords_wf c"
  shows "split_on (CHR ''.'') (event_subject c) =
    [integration_prefix, evt_token, bc_str (evt_producer c), aggregate_str (evt_aggregate c),
     past_fact_str (evt_fact c), ''v'' @ show_nat (unat (evt_version c))]"
proof -
  have "event_subject c = join_on ''.'' [integration_prefix, evt_token, bc_str (evt_producer c),
      aggregate_str (evt_aggregate c), past_fact_str (evt_fact c),
      ''v'' @ show_nat (unat (evt_version c))]"
    by (simp add: event_subject_def)
  with assms show ?thesis
    by (auto simp: split_on_eq_iff event_coords_wf_def token_defs show_nat_no_dot
        dest: valid_segment_no_dot)
qed

lemma parse_version_show: "parse_version (''v'' @ show_nat (unat v)) = Some v"
proof -
  have "unat v \<le> 255"
    using unsigned_less [of v, where ?'a = nat] by simp
  then show ?thesis
    using strip_prefix_append [of "''v''" "show_nat (unat v)"]
    by (simp add: parse_version_def parse_uint_show_nat)
qed

text \<open>a rendered event subject parses back to the coordinates it was rendered from.\<close>

theorem event_subject_roundtrip:
  assumes "event_coords_wf c"
  shows "parse_event_subject (event_subject c) = Ok c"
  using assms split_event_subject [OF assms] parse_version_show [of "evt_version c"]
  by (simp add: parse_event_subject_def event_coords_wf_def bc.mk_str agg.mk_str fct.mk_str)

theorem event_subject_roundtrip_witness:
  "parse_event_subject (event_subject \<lparr>evt_producer = Bc ''identity'',
      evt_aggregate = Aggregate ''user'', evt_fact = PastFact ''registered'', evt_version = 12\<rparr>)
    = Ok \<lparr>evt_producer = Bc ''identity'',
      evt_aggregate = Aggregate ''user'', evt_fact = PastFact ''registered'', evt_version = 12\<rparr>"
  by (rule event_subject_roundtrip)
    (simp add: event_coords_wf_def valid_segment_def segment_char_def str_simps)

lemma parse_version_Some_iff:
  "parse_version t = Some v \<longleftrightarrow> (\<exists>n. t = ''v'' @ n \<and> parse_uint 255 n = Some (unat v))"
proof -
  have *: "unat (of_nat k :: u8) = k" if "parse_uint 255 n = Some k" for n k
    using parse_uint_le [OF that] by (simp add: unat_of_nat take_bit_nat_eq_self_iff)
  have eq: "map_option of_nat (parse_uint 255 n) = Some v \<longleftrightarrow> parse_uint 255 n = Some (unat v)"
    for n
    using * [of n] by (cases "parse_uint 255 n") auto
  show ?thesis
  proof (cases "strip_prefix ''v'' t")
    case None
    then have "t \<noteq> ''v'' @ n" for n
      by (metis strip_prefix_append option.distinct(1))
    with None show ?thesis
      by (simp add: parse_version_def)
  next
    case (Some r)
    then have "t = ''v'' @ r"
      by (simp only: strip_prefix_Some_iff)
    with Some show ?thesis
      by (simp add: parse_version_def eq del: map_option_eq_Some)
  qed
qed

lemma parse_event_subject_parts:
  "parse_event_subject s = Ok c \<longleftrightarrow> event_coords_wf c \<and>
     (\<exists>ver. parse_version ver = Some (evt_version c) \<and>
        split_on (CHR ''.'') s = [integration_prefix, evt_token, bc_str (evt_producer c),
          aggregate_str (evt_aggregate c), past_fact_str (evt_fact c), ver])"
proof (cases "\<exists>p t b0 a0 f0 ver. split_on (CHR ''.'') s = [p, t, b0, a0, f0, ver]")
  case True
  then obtain p t b0 a0 f0 ver where sp: "split_on (CHR ''.'') s = [p, t, b0, a0, f0, ver]"
    by blast
  show ?thesis
    by (cases c) (auto simp: parse_event_subject_def sp event_coords_wf_def bc.mk_Ok_iff
        agg.mk_Ok_iff fct.mk_Ok_iff split: option.splits sum.splits
        dest!: bc.mk_Err_iff [THEN iffD1, OF exI] agg.mk_Err_iff [THEN iffD1, OF exI]
          fct.mk_Err_iff [THEN iffD1, OF exI]
        intro: bc.str_inj agg.str_inj fct.str_inj)
next
  case False
  then show ?thesis
    by (auto simp: parse_event_subject_def split: list.splits)
qed

text \<open>C25: what the parser accepts besides rendered subjects: the version is read with
  \<^verbatim>\<open>str::parse\<close>, which also takes leading zeros and a plus sign.
\<close>

theorem parse_event_subject_Ok_iff:
  "parse_event_subject s = Ok c \<longleftrightarrow> event_coords_wf c \<and>
     (\<exists>n. parse_uint 255 n = Some (unat (evt_version c)) \<and>
        s = join_on ''.'' [integration_prefix, evt_token, bc_str (evt_producer c),
              aggregate_str (evt_aggregate c), past_fact_str (evt_fact c), ''v'' @ n])" (is "?l \<longleftrightarrow> ?r")
proof -
  have "?l \<longleftrightarrow> event_coords_wf c \<and> (\<exists>n. parse_uint 255 n = Some (unat (evt_version c)) \<and>
      split_on (CHR ''.'') s = [integration_prefix, evt_token, bc_str (evt_producer c),
        aggregate_str (evt_aggregate c), past_fact_str (evt_fact c), ''v'' @ n])"
    unfolding parse_event_subject_parts parse_version_Some_iff by blast
  also have "\<dots> \<longleftrightarrow> ?r"
    unfolding split_on_eq_iff
    by (auto simp: token_defs event_coords_wf_def dest: valid_segment_no_dot parse_uint_no_dot)
  finally show ?thesis .
qed

theorem parse_event_subject_Ok_iff_witness:
  "parse_event_subject ''integration.evt.identity.user.registered.v+01''
    = Ok \<lparr>evt_producer = Bc ''identity'', evt_aggregate = Aggregate ''user'',
      evt_fact = PastFact ''registered'', evt_version = 1\<rparr>"
  by (rule parse_event_subject_Ok_iff [THEN iffD2])
    (auto simp: event_coords_wf_def valid_segment_def segment_char_def str_simps token_defs
      parse_uint_def digits_value_def intro!: exI [of _ "''+01''"])

section \<open>Wildcard coverage\<close>

fun covers_tokens :: "string list \<Rightarrow> string list \<Rightarrow> bool" where
  "covers_tokens [] ss = (ss = [])"
| "covers_tokens (p # ps) ss =
     (if p = ''>'' then ps = [] \<and> ss \<noteq> []
      else if p = ''*'' then (case ss of [] \<Rightarrow> False | _ # ss' \<Rightarrow> covers_tokens ps ss')
      else (case ss of [] \<Rightarrow> False
            | s # ss' \<Rightarrow> if s = p then covers_tokens ps ss' else False))"

definition pattern_covers :: "string \<Rightarrow> string \<Rightarrow> bool" where
  "pattern_covers pat subject =
     (if pat = [] \<or> subject = [] then False
      else covers_tokens (split_on (CHR ''.'') pat) (split_on (CHR ''.'') subject))"

definition subject_covered :: "string list \<Rightarrow> string \<Rightarrow> bool" where
  "subject_covered configured subject = list_ex (\<lambda>pat. pattern_covers pat subject) configured"

text \<open>
  The reference semantics of a NATS filter: a star stands for one token, a final
  greater-than sign for one or more, and any other token for itself.
\<close>

inductive nats_match :: "string list \<Rightarrow> string list \<Rightarrow> bool" where
  match_end: "nats_match [] []"
| match_star: "nats_match ps ss \<Longrightarrow> nats_match (''*'' # ps) (s # ss)"
| match_literal: "p \<noteq> ''*'' \<Longrightarrow> p \<noteq> ''>'' \<Longrightarrow> nats_match ps ss \<Longrightarrow> nats_match (p # ps) (p # ss)"
| match_tail: "ss \<noteq> [] \<Longrightarrow> nats_match [''>''] ss"

inductive_simps nats_match_Nil: "nats_match [] ss"
inductive_simps nats_match_Cons: "nats_match (p # ps) ss"

lemma covers_tokens_iff: "covers_tokens ps ss \<longleftrightarrow> nats_match ps ss"
proof (induction ps ss rule: covers_tokens.induct)
  case (1 ss)
  then show ?case by (auto simp: nats_match_Nil)
next
  case (2 p ps ss)
  then show ?case
    by (cases ss) (auto simp: nats_match_Cons)
qed

lemma nats_match_tail: "list_all (\<lambda>p. p \<noteq> ''*'' \<and> p \<noteq> ''>'') ps \<Longrightarrow>
    nats_match (ps @ [''>'']) ss \<longleftrightarrow> (\<exists>rest. rest \<noteq> [] \<and> ss = ps @ rest)"
  by (induction ps arbitrary: ss) (auto simp: nats_match_Cons)

text \<open>The token loop of the consumer decides exactly that relation.\<close>

theorem subject_covered_iff:
  "subject_covered configured subject \<longleftrightarrow>
     (\<exists>pat \<in> set configured. pat \<noteq> [] \<and> subject \<noteq> [] \<and>
        nats_match (split_on (CHR ''.'') pat) (split_on (CHR ''.'') subject))"
  by (auto simp: subject_covered_def pattern_covers_def list_ex_iff covers_tokens_iff)

theorem subject_covered_iff_witness:
  "subject_covered [''integration.evt.*.user.>''] ''integration.evt.identity.user.registered.v1''"
  by (rule subject_covered_iff [THEN iffD2]) (simp add: nats_match_Cons)

end
