(* ===== verification/Ord_Map.thy ===== *)
theory Ord_Map
  imports Prelude
begin

text \<open>
  Rust's \<^verbatim>\<open>BTreeMap\<close> and \<^verbatim>\<open>BTreeSet\<close>: a map is the association list of its
  entries in increasing key order, which is the order its iterators visit them in; a set is the
  increasing list of its elements. \<open>bm_ok\<close> and \<open>bs_ok\<close> are the invariants every
  operation keeps.
\<close>

section \<open>Maps\<close>

type_synonym ('k, 'v) bmap = "('k \<times> 'v) list"

definition bm_ok :: "('k::linorder, 'v) bmap \<Rightarrow> bool" where
  "bm_ok m \<longleftrightarrow> sorted_wrt (<) (map fst m)"

abbreviation bm_get :: "('k, 'v) bmap \<Rightarrow> 'k \<Rightarrow> 'v option" where
  "bm_get \<equiv> map_of"

abbreviation bm_keys :: "('k, 'v) bmap \<Rightarrow> 'k list" where
  "bm_keys m \<equiv> map fst m"

definition bm_contains :: "('k, 'v) bmap \<Rightarrow> 'k \<Rightarrow> bool" where
  "bm_contains m k \<longleftrightarrow> bm_get m k \<noteq> None"

fun bm_insert :: "'k::linorder \<Rightarrow> 'v \<Rightarrow> ('k, 'v) bmap \<Rightarrow> ('k, 'v) bmap" where
  "bm_insert k v [] = [(k, v)]"
| "bm_insert k v ((k', v') # m) =
     (if k < k' then (k, v) # (k', v') # m
      else if k = k' then (k, v) # m
      else (k', v') # bm_insert k v m)"

definition bm_remove :: "'k \<Rightarrow> ('k, 'v) bmap \<Rightarrow> ('k, 'v) bmap" where
  "bm_remove k m = filter (\<lambda>(k', _). k' \<noteq> k) m"

text \<open>\<^verbatim>\<open>collect\<close> and \<^verbatim>\<open>extend\<close>: a later entry replaces an earlier one.\<close>

fun bm_extend :: "('k::linorder, 'v) bmap \<Rightarrow> ('k \<times> 'v) list \<Rightarrow> ('k, 'v) bmap" where
  "bm_extend m [] = m"
| "bm_extend m ((k, v) # kvs) = bm_extend (bm_insert k v m) kvs"

abbreviation bm_of_list :: "('k::linorder \<times> 'v) list \<Rightarrow> ('k, 'v) bmap" where
  "bm_of_list \<equiv> bm_extend []"

lemma bm_ok_Nil [simp, intro]: "bm_ok []"
  by (simp add: bm_ok_def)

lemma bm_ok_Cons: "bm_ok ((k, v) # m) \<longleftrightarrow> (\<forall>k' \<in> fst ` set m. k < k') \<and> bm_ok m"
  by (auto simp: bm_ok_def)

lemma bm_ok_distinct: "bm_ok m \<Longrightarrow> distinct (map fst m)"
  by (simp add: bm_ok_def strict_sorted_iff)

lemma bm_get_Some_iff: "bm_ok m \<Longrightarrow> bm_get m k = Some v \<longleftrightarrow> (k, v) \<in> set m"
  by (simp add: bm_ok_distinct map_of_eq_Some_iff)

lemma bm_contains_iff: "bm_contains m k \<longleftrightarrow> k \<in> fst ` set m"
  by (auto simp: bm_contains_def map_of_eq_None_iff)

lemma bm_get_insert [simp]: "bm_get (bm_insert k v m) = (bm_get m)(k \<mapsto> v)"
  by (induction m) (auto simp: fun_eq_iff)

lemma keys_bm_insert [simp]: "fst ` set (bm_insert k v m) = insert k (fst ` set m)"
  by (induction k v m rule: bm_insert.induct) auto

lemma set_bm_insert: "set (bm_insert k v m) \<subseteq> insert (k, v) (set m)"
  by (induction k v m rule: bm_insert.induct) auto

lemma bm_ok_insert [simp, intro]: "bm_ok m \<Longrightarrow> bm_ok (bm_insert k v m)"
proof (induction k v m rule: bm_insert.induct)
  case (1 k v)
  then show ?case by (simp add: bm_ok_def)
next
  case (2 k v k' v' m)
  then show ?case
    by (simp del: ball_simps(9)) (auto simp: bm_ok_Cons simp del: ball_simps(9) intro: less_trans)
qed

lemma bm_get_remove [simp]: "bm_get (bm_remove k m) = (bm_get m)(k := None)"
  by (induction m) (auto simp: bm_remove_def fun_eq_iff)

lemma bm_ok_filter [simp, intro]: "bm_ok m \<Longrightarrow> bm_ok (filter P m)"
  by (induction m) (auto simp: bm_ok_Cons)

lemma bm_ok_remove [simp, intro]: "bm_ok m \<Longrightarrow> bm_ok (bm_remove k m)"
  by (simp add: bm_remove_def)

lemma bm_ok_extend [simp, intro]: "bm_ok m \<Longrightarrow> bm_ok (bm_extend m kvs)"
  by (induction m kvs rule: bm_extend.induct) auto

lemma keys_bm_of_list [simp]: "fst ` set (bm_extend m kvs) = fst ` set m \<union> fst ` set kvs"
  by (induction m kvs rule: bm_extend.induct) auto

lemma keys_bm_remove [simp]: "fst ` set (bm_remove k m) = fst ` set m - {k}"
  by (auto simp: bm_remove_def image_iff)

lemma bm_get_extend: "bm_get (bm_extend m kvs) = bm_get m ++ map_of (rev kvs)"
  by (induction m kvs rule: bm_extend.induct) (auto simp: map_add_def fun_eq_iff split: option.splits)

lemma map_of_rev_distinct: "distinct (map fst xs) \<Longrightarrow> map_of (rev xs) = map_of xs"
  by (subst map_of_inject_set) (auto simp: rev_map [symmetric])

lemma bm_remove_absent: "bm_get m k = None \<Longrightarrow> bm_remove k m = m"
  by (induction m) (auto simp: bm_remove_def split: if_splits)

text \<open>Two maps with the same entries are the same value.\<close>

lemma bm_set_eq: "bm_ok m \<Longrightarrow> set m = {(k, v). bm_get m k = Some v}"
  by (auto simp: bm_get_Some_iff)

lemma bm_ext:
  assumes "bm_ok m" and "bm_ok n" and "bm_get m = bm_get n"
  shows "m = n"
proof (rule map_sorted_distinct_set_unique [where f = fst])
  show "set m = set n"
    using assms by (simp add: bm_set_eq)
  then show "inj_on fst (set m \<union> set n)"
    using bm_ok_distinct [OF assms(1)] by (simp add: distinct_map)
qed (use assms(1,2) in \<open>simp_all add: bm_ok_def strict_sorted_iff\<close>)

section \<open>Sets\<close>

definition bs_ok :: "'a::linorder list \<Rightarrow> bool" where
  "bs_ok xs \<longleftrightarrow> sorted_wrt (<) xs"

definition bs_of_list :: "'a::linorder list \<Rightarrow> 'a list" where
  "bs_of_list xs = sort (remdups xs)"

definition bs_difference :: "'a list \<Rightarrow> 'a list \<Rightarrow> 'a list" where
  "bs_difference xs ys = filter (\<lambda>x. x \<notin> set ys) xs"

lemma bs_ok_of_list [simp, intro]: "bs_ok (bs_of_list xs)"
  by (simp add: bs_ok_def bs_of_list_def strict_sorted_iff)

lemma set_bs_of_list [simp]: "set (bs_of_list xs) = set xs"
  by (simp add: bs_of_list_def)

lemma set_bs_difference [simp]: "set (bs_difference xs ys) = set xs - set ys"
  by (auto simp: bs_difference_def)

lemma bs_ext: "bs_ok xs \<Longrightarrow> bs_ok ys \<Longrightarrow> set xs = set ys \<Longrightarrow> xs = ys"
  by (simp add: bs_ok_def strict_sorted_equal)

lemma bs_difference_Nil_iff: "bs_difference xs ys = [] \<longleftrightarrow> set xs \<subseteq> set ys"
  by (auto simp: bs_difference_def filter_empty_conv)

end
