(* ===== verification/Kv_Key.thy ===== *)
theory Kv_Key
  imports Rust_Str
begin

text \<open>
  Keys and prefixes of the key-value buckets, from
  \<^verbatim>\<open>br-util-nats-fabric/src/kv/key.rs\<close>: checked newtypes over strings, ordered as
  their strings.
\<close>

datatype kv_key_error = KvKeyEmpty | KvKeyInvalidChar string

definition kv_valid_char :: "char \<Rightarrow> bool" where
  "kv_valid_char c \<longleftrightarrow> is_ascii_alphanumeric c \<or>
     c \<in> {CHR ''-'', CHR ''_'', CHR ''.'', CHR ''/''}"

definition kv_validate :: "string \<Rightarrow> (unit, kv_key_error) result" where
  "kv_validate s =
     (if s = [] then Err KvKeyEmpty
      else if list_ex (\<lambda>c. \<not> kv_valid_char c) s then Err (KvKeyInvalidChar s)
      else Ok ())"

definition kv_valid :: "string \<Rightarrow> bool" where
  "kv_valid s \<longleftrightarrow> s \<noteq> [] \<and> list_all kv_valid_char s"

datatype kv_key = KvKey (kv_str: string)
datatype kv_prefix = KvPrefix (prefix_str: string)

definition kv_key_new :: "string \<Rightarrow> (kv_key, kv_key_error) result" where
  "kv_key_new s = (case kv_validate s of Err e \<Rightarrow> Err e | Ok _ \<Rightarrow> Ok (KvKey s))"

definition kv_prefix_new :: "string \<Rightarrow> (kv_prefix, kv_key_error) result" where
  "kv_prefix_new s = (case kv_validate s of Err e \<Rightarrow> Err e | Ok _ \<Rightarrow> Ok (KvPrefix s))"

definition watch_subject :: "kv_prefix \<Rightarrow> string" where
  "watch_subject p = prefix_str p @ ''>''"

definition prefix_matches :: "kv_prefix \<Rightarrow> string \<Rightarrow> bool" where
  "prefix_matches p key = starts_with (prefix_str p) key"

lemma kv_validate_Ok_iff: "kv_validate s = Ok u \<longleftrightarrow> kv_valid s"
  by (auto simp: kv_validate_def kv_valid_def list_ex_iff list_all_iff)

lemma kv_validate_ErrD: "kv_validate s = Err e \<Longrightarrow> \<not> kv_valid s"
  by (metis kv_validate_Ok_iff Inl_Inr_False)

interpretation kvk: checked_string kv_key_new kv_str kv_valid
  by unfold_locales (auto simp: kv_key_new_def kv_validate_Ok_iff kv_key.expand
      split: sum.splits dest: kv_validate_ErrD)

interpretation kvp: checked_string kv_prefix_new prefix_str kv_valid
  by unfold_locales (auto simp: kv_prefix_new_def kv_validate_Ok_iff kv_prefix.expand
      split: sum.splits dest: kv_validate_ErrD)

text \<open>The derived order of \<^verbatim>\<open>KvKey\<close> is the order of its string.\<close>

definition kv_key_le :: "kv_key \<Rightarrow> kv_key \<Rightarrow> bool" where
  "kv_key_le a b \<longleftrightarrow> kv_str a \<le> kv_str b"

definition kv_key_lt :: "kv_key \<Rightarrow> kv_key \<Rightarrow> bool" where
  "kv_key_lt a b \<longleftrightarrow> kv_str a < kv_str b"

instantiation kv_key :: linorder
begin

definition less_eq_kv_key :: "kv_key \<Rightarrow> kv_key \<Rightarrow> bool" where
  "less_eq_kv_key = kv_key_le"

definition less_kv_key :: "kv_key \<Rightarrow> kv_key \<Rightarrow> bool" where
  "less_kv_key = kv_key_lt"

instance
  by standard (auto simp: less_eq_kv_key_def less_kv_key_def kv_key_le_def kv_key_lt_def
      intro: kv_key.expand)

end

lemma prefix_matches_iff: "prefix_matches p key \<longleftrightarrow> (\<exists>r. key = prefix_str p @ r)"
  by (simp add: prefix_matches_def starts_with_iff)

end
