(* ===== verification/Fabric_Error.thy ===== *)
theory Fabric_Error
  imports Coords Kv_Key
begin

text \<open>
  The error values of the fabric, from \<^verbatim>\<open>br-util-nats-fabric/src/error.rs\<close> and
  \<^verbatim>\<open>classify.rs\<close>. The error kinds of the NATS client are datatypes with the variants
  the sources name and one constructor for all others. \<open>dbg\<close> is the
  \<^verbatim>\<open>Debug\<close> rendering of a string.
\<close>

section \<open>Error kinds\<close>

datatype publish_error_kind = PubNoStream | PubTimeout | PubOther

datatype nats_publish_kind = NatsStreamNotFound | NatsTimedOut | NatsPublishKind nat

fun publish_error_kind_display :: "publish_error_kind \<Rightarrow> string" where
  "publish_error_kind_display PubNoStream = ''no stream for subject''"
| "publish_error_kind_display PubTimeout = ''timed out''"
| "publish_error_kind_display PubOther = ''publish failed''"

fun publish_error_kind_from :: "nats_publish_kind \<Rightarrow> publish_error_kind" where
  "publish_error_kind_from NatsStreamNotFound = PubNoStream"
| "publish_error_kind_from NatsTimedOut = PubTimeout"
| "publish_error_kind_from (NatsPublishKind _) = PubOther"

datatype consume_error_kind =
  ConNoStream | ConNoConsumer | ConConsumerGone | ConOther | ConNoDeliveryInfo
  | ConHeartbeatMissed | ConNoResponders

fun consume_error_kind_display :: "consume_error_kind \<Rightarrow> string" where
  "consume_error_kind_display ConNoStream = ''no such stream''"
| "consume_error_kind_display ConNoConsumer = ''no such consumer''"
| "consume_error_kind_display ConConsumerGone = ''consumer gone''"
| "consume_error_kind_display ConNoDeliveryInfo = ''delivery info absent''"
| "consume_error_kind_display ConOther = ''consume failed''"
| "consume_error_kind_display ConHeartbeatMissed = ''missed idle heartbeat''"
| "consume_error_kind_display ConNoResponders = ''no jetstream responders''"

section \<open>The error type\<close>

datatype fabric_error =
  FabConnect string
| FabCoord coord_error
| FabKvKey kv_key_error
| FabPublish publish_error_kind string
| FabConsume consume_error_kind string
| FabFilterMismatch string string string "string list"
| FabSubjectNotCovered string string "string list"
| FabDecode string string
| FabRevisionConflict string u64
| FabKeyAlreadyExists string
| FabKv string
| FabSerialization string

fun kv_key_error_display :: "(string \<Rightarrow> string) \<Rightarrow> kv_key_error \<Rightarrow> string" where
  "kv_key_error_display dbg KvKeyEmpty = ''kv key is empty''"
| "kv_key_error_display dbg (KvKeyInvalidChar v) =
     ''kv key '' @ dbg v @ '' contains a character outside [A-Za-z0-9_./-]''"

definition debug_list :: "(string \<Rightarrow> string) \<Rightarrow> string list \<Rightarrow> string" where
  "debug_list dbg xs = ''['' @ join_on '', '' (map dbg xs) @ '']''"

definition quoted :: "string \<Rightarrow> string" where
  "quoted s = [CHR 0x27] @ s @ [CHR 0x27]"

fun fabric_error_display :: "(string \<Rightarrow> string) \<Rightarrow> fabric_error \<Rightarrow> string" where
  "fabric_error_display dbg (FabConnect d) = ''connection to NATS failed: '' @ d"
| "fabric_error_display dbg (FabCoord e) = ''invalid coordinate: '' @ coord_error_display dbg e"
| "fabric_error_display dbg (FabKvKey e) = ''invalid kv key: '' @ kv_key_error_display dbg e"
| "fabric_error_display dbg (FabPublish k d) =
     ''publish failed ('' @ publish_error_kind_display k @ ''): '' @ d"
| "fabric_error_display dbg (FabConsume k d) =
     ''consume failed ('' @ consume_error_kind_display k @ ''): '' @ d"
| "fabric_error_display dbg (FabFilterMismatch stream durable expected configured) =
     ''durable '' @ quoted durable @ '' on stream '' @ quoted stream @ '' filters ''
       @ debug_list dbg configured @ '', expected exactly ['' @ expected @ '']''"
| "fabric_error_display dbg (FabSubjectNotCovered stream subject configured) =
     ''stream '' @ quoted stream @ '' binds '' @ debug_list dbg configured
       @ '', which does not cover subject '' @ quoted subject"
| "fabric_error_display dbg (FabDecode subject d) =
     ''payload on '' @ quoted subject @ '' failed to deserialize: '' @ d"
| "fabric_error_display dbg (FabRevisionConflict key expected) =
     ''revision conflict on kv key '' @ quoted key @ '' (expected '' @ show_nat (unat expected) @ '')''"
| "fabric_error_display dbg (FabKeyAlreadyExists key) =
     ''kv key '' @ quoted key @ '' already exists''"
| "fabric_error_display dbg (FabKv d) = ''key/value store error: '' @ d"
| "fabric_error_display dbg (FabSerialization d) = ''serialization failed: '' @ d"

text \<open>A client error carries its kind and its message.\<close>

definition from_publish :: "nats_publish_kind \<times> string \<Rightarrow> fabric_error" where
  "from_publish err = FabPublish (publish_error_kind_from (fst err)) (snd err)"

section \<open>Classification of client errors\<close>

text \<open>
  An error kind that wraps a JetStream API error shows its error code, of which the sources
  test one.
\<close>

datatype api_code = StreamNotFoundCode | OtherCode nat

datatype jetstream_kind = JetStream api_code | JetOtherKind nat

definition classify_get_stream :: "jetstream_kind \<Rightarrow> consume_error_kind" where
  "classify_get_stream k = (case k of
     JetStream code \<Rightarrow> if code = StreamNotFoundCode then ConNoStream else ConOther
   | JetOtherKind _ \<Rightarrow> ConOther)"

definition classify_create_consumer :: "jetstream_kind \<Rightarrow> consume_error_kind" where
  "classify_create_consumer k = (case k of
     JetStream code \<Rightarrow> if code = StreamNotFoundCode then ConNoStream else ConOther
   | JetOtherKind _ \<Rightarrow> ConOther)"

datatype messages_kind = MsgConsumerDeleted | MsgNoResponders | MsgMissingHeartbeat | MsgOtherKind nat

fun classify_messages_error :: "messages_kind \<Rightarrow> consume_error_kind" where
  "classify_messages_error MsgConsumerDeleted = ConConsumerGone"
| "classify_messages_error MsgNoResponders = ConNoResponders"
| "classify_messages_error MsgMissingHeartbeat = ConHeartbeatMissed"
| "classify_messages_error (MsgOtherKind _) = ConOther"

text \<open>An acknowledgement error is a boxed error; only the client's send failure is terminal.\<close>

datatype client_publish_kind = ClientSend | ClientOtherKind nat

definition classify_ack_error :: "client_publish_kind option \<Rightarrow> consume_error_kind" where
  "classify_ack_error downcast = (case downcast of
     Some ClientSend \<Rightarrow> ConConsumerGone
   | _ \<Rightarrow> ConOther)"

end
