(* ===== verification/Json.thy ===== *)
theory Json
  imports Rust_Str Ord_Map
begin

text \<open>
  \<^verbatim>\<open>serde_json::Value\<close> and the decoding rules of serde's derived implementations: a
  struct is read from an object, whose unknown fields are ignored, or from an array of its fields
  in order; an enum of unit variants from its name. An object is a \<^verbatim>\<open>BTreeMap\<close>.
\<close>

datatype json =
  JNull | JBool bool | JNat nat | JNeg int | JFloat u64 | JStr string
| JArr "json list" | JObj "(string \<times> json) list"

type_synonym fields = "string \<Rightarrow> json option"

text \<open>\<^verbatim>\<open>Value::get\<close> with a string index, and \<^verbatim>\<open>Value::as_str\<close>.\<close>

fun json_get :: "string \<Rightarrow> json \<Rightarrow> json option" where
  "json_get k (JObj m) = bm_get m k"
| "json_get k _ = None"

fun json_as_str :: "json \<Rightarrow> string option" where
  "json_as_str (JStr s) = Some s"
| "json_as_str _ = None"

fun json_is_object :: "json \<Rightarrow> bool" where
  "json_is_object (JObj _) = True"
| "json_is_object _ = False"

definition json_obj :: "(string \<times> json) list \<Rightarrow> json" where
  "json_obj kvs = JObj (bm_of_list kvs)"

lemma json_get_obj [simp]: "json_get k (json_obj kvs) = map_of (rev kvs) k"
  by (simp add: json_obj_def bm_get_extend)

section \<open>Derived decoders\<close>

text \<open>An error is the message of \<^verbatim>\<open>serde_json::Error\<close>.\<close>

type_synonym 'a decoder = "json \<Rightarrow> ('a, string) result"

definition struct_fields :: "string list \<Rightarrow> fields decoder" where
  "struct_fields names v = (case v of
     JObj m \<Rightarrow> Ok (bm_get m)
   | JArr xs \<Rightarrow> if length xs \<le> length names then Ok (map_of (zip names xs))
               else Err ''invalid length''
   | _ \<Rightarrow> Err ''invalid type'')"

definition required :: "'a decoder \<Rightarrow> string \<Rightarrow> fields \<Rightarrow> ('a, string) result" where
  "required d k fs = (case fs k of None \<Rightarrow> Err (''missing field '' @ k) | Some v \<Rightarrow> d v)"

definition defaulted :: "'a \<Rightarrow> 'a decoder \<Rightarrow> string \<Rightarrow> fields \<Rightarrow> ('a, string) result" where
  "defaulted x d k fs = (case fs k of None \<Rightarrow> Ok x | Some v \<Rightarrow> d v)"

definition opt_decoder :: "'a decoder \<Rightarrow> 'a option decoder" where
  "opt_decoder d v = (if v = JNull then Ok None
     else (case d v of Err e \<Rightarrow> Err e | Ok x \<Rightarrow> Ok (Some x)))"

definition str_decoder :: "string decoder" where
  "str_decoder v = (case v of JStr s \<Rightarrow> Ok s | _ \<Rightarrow> Err ''invalid type'')"

definition bool_decoder :: "bool decoder" where
  "bool_decoder v = (case v of JBool b \<Rightarrow> Ok b | _ \<Rightarrow> Err ''invalid type'')"

definition u8_decoder :: "u8 decoder" where
  "u8_decoder v = (case v of
     JNat n \<Rightarrow> if n \<le> 255 then Ok (of_nat n) else Err ''invalid value''
   | JNeg _ \<Rightarrow> Err ''invalid value''
   | _ \<Rightarrow> Err ''invalid type'')"

text \<open>A \<^verbatim>\<open>usize\<close> has the width of a natural number of JSON.\<close>

definition usize_decoder :: "nat decoder" where
  "usize_decoder v = (case v of JNat n \<Rightarrow> Ok n | _ \<Rightarrow> Err ''invalid type'')"

text \<open>A unit variant is its name, or an object that maps its name to null.\<close>

definition variant_decoder :: "(string \<times> 'a) list \<Rightarrow> 'a decoder" where
  "variant_decoder vs v =
     (let name = (case v of JStr s \<Rightarrow> Some s
                  | JObj [(s, JNull)] \<Rightarrow> Some s
                  | _ \<Rightarrow> None)
      in case name of None \<Rightarrow> Err ''invalid type''
         | Some s \<Rightarrow> (case map_of vs s of None \<Rightarrow> Err ''unknown variant'' | Some x \<Rightarrow> Ok x))"

fun vec_decoder :: "'a decoder \<Rightarrow> 'a list decoder" where
  "vec_decoder d (JArr xs) = collect_results (map d xs)"
| "vec_decoder d _ = Err ''invalid type''"

lemma str_decoder_JStr [simp]: "str_decoder (JStr s) = Ok s"
  by (simp add: str_decoder_def)

lemma bool_decoder_JBool [simp]: "bool_decoder (JBool b) = Ok b"
  by (simp add: bool_decoder_def)

lemma u8_decoder_JNat [simp]: "u8_decoder (JNat (unat v)) = Ok v"
  using unsigned_less [of v, where ?'a = nat] by (simp add: u8_decoder_def)

lemma struct_fields_obj [simp]: "struct_fields names (json_obj kvs) = Ok (map_of (rev kvs))"
  by (simp add: struct_fields_def json_obj_def bm_get_extend)

lemma opt_decoder_some: "v \<noteq> JNull \<Longrightarrow> d v = Ok x \<Longrightarrow> opt_decoder d v = Ok (Some x)"
  by (simp add: opt_decoder_def)

lemma vec_decoder_map: "(\<And>x. x \<in> set xs \<Longrightarrow> d (enc x) = Ok x) \<Longrightarrow> vec_decoder d (JArr (map enc xs)) = Ok xs"
  by (simp add: collect_results_Ok_iff)

text \<open>
  The contract of a value with a JSON form: what a constructor admits reads back from the form it is
  written in, and only that is ever read.
\<close>

locale wire_form =
  fixes enc :: "'a \<Rightarrow> json" and dec :: "'a decoder" and valid :: "'a \<Rightarrow> bool"
  assumes reads_back: "valid x \<Longrightarrow> dec (enc x) = Ok x"
    and reads_valid: "dec v = Ok x \<Longrightarrow> valid x"
begin

lemma enc_inj: "valid x \<Longrightarrow> valid y \<Longrightarrow> enc x = enc y \<Longrightarrow> x = y"
  by (metis reads_back sum.inject(2))

text \<open>Whatever form was read, writing it and reading it again changes nothing.\<close>

lemma reread: "dec v = Ok x \<Longrightarrow> dec (enc x) = Ok x"
  by (intro reads_back reads_valid)

lemma reads_back_iff: "dec (enc x) = Ok x \<longleftrightarrow> valid x"
  using reads_back reads_valid by blast

lemma readable_iff: "(\<exists>v. dec v = Ok x) \<longleftrightarrow> valid x"
  using reads_back reads_valid by blast

lemma list_reads_back: "list_all valid xs \<Longrightarrow> vec_decoder dec (JArr (map enc xs)) = Ok xs"
  by (rule vec_decoder_map) (simp add: list_all_iff reads_back)

lemma list_reads_valid: "vec_decoder dec v = Ok xs \<Longrightarrow> list_all valid xs"
proof (cases v)
  case (JArr vs)
  assume "vec_decoder dec v = Ok xs"
  then have "map dec vs = map Ok xs"
    by (simp add: JArr collect_results_Ok_iff)
  then have "\<exists>v. dec v = Ok x" if "x \<in> set xs" for x
    using that by (metis imageE imageI list.set_map)
  then show ?thesis
    unfolding list_all_iff by (blast intro: reads_valid)
qed simp_all

lemma field_reads_back: "valid x \<Longrightarrow> fs k = Some (enc x) \<Longrightarrow> required dec k fs = Ok x"
  by (simp add: required_def reads_back)

lemma field_reads_valid: "required dec k fs = Ok x \<Longrightarrow> valid x"
  by (auto simp: required_def reads_valid split: option.splits)

end

section \<open>Strict decoders\<close>

text \<open>
  An enum tagged inside its object: the tag is taken out and the variant is read from what is left. A
  struct that denies unknown fields refuses an object with any other field. A buffered value, as
  the nested enum is read from, also names a variant by its index.
\<close>

definition tagged_content :: "string \<Rightarrow> (json \<times> json) decoder" where
  "tagged_content tag v = (case v of
     JObj m \<Rightarrow> (case bm_get m tag of
         None \<Rightarrow> Err (''missing field '' @ tag) | Some t \<Rightarrow> Ok (t, JObj (bm_remove tag m)))
   | JArr (t # xs) \<Rightarrow> Ok (t, JArr xs)
   | JArr [] \<Rightarrow> Err (''missing field '' @ tag)
   | _ \<Rightarrow> Err ''invalid type'')"

definition strict_fields :: "string list \<Rightarrow> fields decoder" where
  "strict_fields names v = (case v of
     JObj m \<Rightarrow> if list_all (\<lambda>k. k \<in> set names) (bm_keys m) then Ok (bm_get m) else Err ''unknown field''
   | _ \<Rightarrow> struct_fields names v)"

definition buffered_tag :: "string list \<Rightarrow> string decoder" where
  "buffered_tag names v = (case v of
     JNat i \<Rightarrow> if i < length names then Ok (names ! i) else Err ''invalid value''
   | _ \<Rightarrow> str_decoder v)"

lemma tagged_content_obj:
  "tagged_content tag (json_obj kvs) = (case map_of (rev kvs) tag of
     None \<Rightarrow> Err (''missing field '' @ tag) | Some t \<Rightarrow> Ok (t, JObj (bm_remove tag (bm_of_list kvs))))"
  by (simp add: tagged_content_def json_obj_def bm_get_extend)

lemma strict_fields_Ok_iff:
  "strict_fields names (JObj m) = Ok fs \<longleftrightarrow> fst ` set m \<subseteq> set names \<and> fs = bm_get m"
  by (auto simp: strict_fields_def list_all_iff)

lemma required_Ok_iff: "required d k fs = Ok x \<longleftrightarrow> (\<exists>v. fs k = Some v \<and> d v = Ok x)"
  by (auto simp: required_def split: option.splits)

lemma bool_decoder_Ok_iff: "bool_decoder v = Ok b \<longleftrightarrow> v = JBool b"
  by (auto simp: bool_decoder_def split: json.splits)

lemma str_decoder_Ok_iff: "str_decoder v = Ok s \<longleftrightarrow> v = JStr s"
  by (auto simp: str_decoder_def split: json.splits)

lemma tagged_content_Ok_iff:
  "tagged_content tag (JObj m) = Ok (t, rest) \<longleftrightarrow> bm_get m tag = Some t \<and> rest = JObj (bm_remove tag m)"
  by (auto simp: tagged_content_def split: option.splits)

section \<open>Identifiers and instants\<close>

text \<open>
  The \<^verbatim>\<open>uuid\<close> and \<^verbatim>\<open>chrono\<close> crates render and parse identifiers and instants;
  an instant is its number of microseconds. What the sources rely on is that parsing reads back
  what rendering wrote.
\<close>

record wire_codec =
  uuid_show :: "uuid \<Rightarrow> string"
  uuid_parse :: "string \<Rightarrow> uuid option"
  time_show :: "int \<Rightarrow> string"
  time_parse :: "string \<Rightarrow> int option"

definition codec_ok :: "wire_codec \<Rightarrow> bool" where
  "codec_ok c \<longleftrightarrow> (\<forall>u. uuid_parse c (uuid_show c u) = Some u) \<and>
     (\<forall>t. time_parse c (time_show c t) = Some t)"

definition uuid_json :: "wire_codec \<Rightarrow> uuid \<Rightarrow> json" where
  "uuid_json c u = JStr (uuid_show c u)"

definition time_json :: "wire_codec \<Rightarrow> int \<Rightarrow> json" where
  "time_json c t = JStr (time_show c t)"

definition uuid_decoder :: "wire_codec \<Rightarrow> uuid decoder" where
  "uuid_decoder c v = (case v of
     JStr s \<Rightarrow> (case uuid_parse c s of None \<Rightarrow> Err ''UUID parsing failed'' | Some u \<Rightarrow> Ok u)
   | _ \<Rightarrow> Err ''invalid type'')"

definition time_decoder :: "wire_codec \<Rightarrow> int decoder" where
  "time_decoder c v = (case v of
     JStr s \<Rightarrow> (case time_parse c s of None \<Rightarrow> Err ''invalid instant'' | Some u \<Rightarrow> Ok u)
   | _ \<Rightarrow> Err ''invalid type'')"

lemma uuid_decoder_json [simp]: "codec_ok c \<Longrightarrow> uuid_decoder c (uuid_json c u) = Ok u"
  by (simp add: uuid_decoder_def uuid_json_def codec_ok_def)

lemma time_decoder_json [simp]: "codec_ok c \<Longrightarrow> time_decoder c (time_json c t) = Ok t"
  by (simp add: time_decoder_def time_json_def codec_ok_def)

text \<open>JSON text, which \<^verbatim>\<open>serde_json\<close> prints and parses.\<close>

record json_text =
  jt_print :: "json \<Rightarrow> string"
  jt_parse :: "string \<Rightarrow> (json, string) result"

text \<open>An instance of the codec, decimal on both sides, shows that its laws can hold.\<close>

definition show_int :: "int \<Rightarrow> string" where
  "show_int i = (if i < 0 then ''-'' @ show_nat (nat (- i)) else show_nat (nat i))"

definition parse_int :: "string \<Rightarrow> int option" where
  "parse_int s = (case s of
     [] \<Rightarrow> None
   | c # cs \<Rightarrow> if c = CHR ''-'' then map_option (\<lambda>n. - int n) (parse_uint (digits_value cs) cs)
              else map_option int (parse_uint (digits_value s) s))"

definition decimal_codec :: wire_codec where
  "decimal_codec = \<lparr>uuid_show = \<lambda>u. show_nat (unat u),
     uuid_parse = \<lambda>s. map_option of_nat (parse_uint (2 ^ 128 - 1) s),
     time_show = show_int, time_parse = parse_int\<rparr>"

lemma parse_int_show_int: "parse_int (show_int i) = Some i"
proof (cases "i < 0")
  case True
  then show ?thesis
    using parse_uint_show_nat [of "nat (- i)" "nat (- i)"]
    by (simp add: show_int_def parse_int_def digits_value_show_nat)
next
  case False
  obtain c cs where c: "show_nat (nat i) = c # cs"
    using show_nat_nonempty by (cases "show_nat (nat i)") auto
  have "c \<noteq> CHR ''-''"
    using show_nat_digits [of "nat i"] by (auto simp: c ascii_defs)
  with False show ?thesis
    using parse_uint_show_nat [of "nat i" "nat i"] c [symmetric] digits_value_show_nat [of "nat i"]
    by (auto simp: show_int_def parse_int_def split: list.splits)
qed

lemma decimal_codec_ok [simp]: "codec_ok decimal_codec"
proof -
  have "unat (u :: uuid) \<le> 2 ^ 128 - 1" for u
    using unsigned_less [of u, where ?'a = nat] by simp
  then show ?thesis
    by (simp add: codec_ok_def decimal_codec_def parse_uint_show_nat parse_int_show_int)
qed

end
