(* ===== verification/Core_Types.thy ===== *)
theory Core_Types
  imports Json
begin

text \<open>
  The shared vocabulary of the services: identifiers and actors
  (\<^verbatim>\<open>br-core-kernel\<close>), event metadata and domain events (\<^verbatim>\<open>br-core-events\<close>)
  and the integration envelopes (\<^verbatim>\<open>br-core-integration/src/envelopes.rs\<close>), with
  their JSON forms.
\<close>

section \<open>Actors\<close>

datatype user_id = UserId (user_uuid: uuid)
datatype service_account_id = ServiceAccountId (service_account_uuid: uuid)

datatype actor = Human user_id | Service service_account_id

fun actor_id :: "actor \<Rightarrow> uuid" where
  "actor_id (Human i) = user_uuid i"
| "actor_id (Service i) = service_account_uuid i"

fun is_human :: "actor \<Rightarrow> bool" where
  "is_human (Human _) = True"
| "is_human (Service _) = False"

fun is_service :: "actor \<Rightarrow> bool" where
  "is_service (Human _) = False"
| "is_service (Service _) = True"

fun actor_json :: "wire_codec \<Rightarrow> actor \<Rightarrow> json" where
  "actor_json c (Human i) =
     json_obj [(''kind'', JStr ''human''), (''id'', uuid_json c (user_uuid i))]"
| "actor_json c (Service i) =
     json_obj [(''kind'', JStr ''service''), (''id'', uuid_json c (service_account_uuid i))]"

definition actor_decoder :: "wire_codec \<Rightarrow> actor decoder" where
  "actor_decoder c v = and_then (struct_fields [''kind'', ''id''] v) (\<lambda>fs.
     and_then (required str_decoder ''kind'' fs) (\<lambda>kind.
       if kind = ''human'' then and_then (required (uuid_decoder c) ''id'' fs) (\<lambda>u. Ok (Human (UserId u)))
       else if kind = ''service'' then
         and_then (required (uuid_decoder c) ''id'' fs) (\<lambda>u. Ok (Service (ServiceAccountId u)))
       else Err ''unknown variant''))"

lemma actor_decoder_json: "codec_ok c \<Longrightarrow> actor_decoder c (actor_json c a) = Ok a"
  by (cases a) (simp_all add: actor_decoder_def required_def)

section \<open>Event metadata\<close>

record event_metadata =
  md_actor :: actor
  md_correlation_id :: uuid
  md_causation_id :: "uuid option"

definition metadata_new :: "actor \<Rightarrow> uuid \<Rightarrow> event_metadata" where
  "metadata_new a corr = \<lparr>md_actor = a, md_correlation_id = corr, md_causation_id = None\<rparr>"

definition with_causation :: "uuid \<Rightarrow> event_metadata \<Rightarrow> event_metadata" where
  "with_causation u m = m\<lparr>md_causation_id := Some u\<rparr>"

datatype actor_kind_wire = KindHuman | KindService

definition actor_kind_decoder :: "actor_kind_wire decoder" where
  "actor_kind_decoder = variant_decoder [(''human'', KindHuman), (''service'', KindService)]"

definition metadata_json :: "wire_codec \<Rightarrow> event_metadata \<Rightarrow> json" where
  "metadata_json c m = json_obj
     ([(''actor_id'', uuid_json c (actor_id (md_actor m))),
       (''actor_kind'', JStr (if is_human (md_actor m) then ''human'' else ''service'')),
       (''correlation_id'', uuid_json c (md_correlation_id m))]
      @ (case md_causation_id m of None \<Rightarrow> [] | Some u \<Rightarrow> [(''causation_id'', uuid_json c u)]))"

definition metadata_decoder :: "wire_codec \<Rightarrow> event_metadata decoder" where
  "metadata_decoder c v =
     and_then (struct_fields [''actor_id'', ''actor_kind'', ''correlation_id'', ''causation_id''] v) (\<lambda>fs.
     and_then (required (uuid_decoder c) ''actor_id'' fs) (\<lambda>aid.
     and_then (defaulted None (opt_decoder actor_kind_decoder) ''actor_kind'' fs) (\<lambda>kind.
     and_then (required (uuid_decoder c) ''correlation_id'' fs) (\<lambda>corr.
     and_then (defaulted None (opt_decoder (uuid_decoder c)) ''causation_id'' fs) (\<lambda>caus.
       Ok \<lparr>md_actor = (case kind of Some KindService \<Rightarrow> Service (ServiceAccountId aid)
                                    | _ \<Rightarrow> Human (UserId aid)),
           md_correlation_id = corr, md_causation_id = caus\<rparr>)))))"

lemma uuid_json_not_null [simp]: "uuid_json c u \<noteq> JNull"
  by (simp add: uuid_json_def)

lemma actor_kind_decoder_simps [simp]:
  "actor_kind_decoder (JStr ''human'') = Ok KindHuman"
  "actor_kind_decoder (JStr ''service'') = Ok KindService"
  by (simp_all add: actor_kind_decoder_def variant_decoder_def)

lemma metadata_decoder_json: "codec_ok c \<Longrightarrow> metadata_decoder c (metadata_json c m) = Ok m"
  by (cases m; cases "md_actor m"; cases "md_causation_id m")
    (auto simp: metadata_decoder_def metadata_json_def required_def defaulted_def opt_decoder_def)

text \<open>metadata read back from its JSON form is the same metadata, and a form written
  before \<^verbatim>\<open>actor_kind\<close> existed reads as the same metadata with a human actor.
\<close>

theorem metadata_roundtrip:
  assumes "codec_ok c"
  shows "metadata_decoder c (metadata_json c m) = Ok m \<and>
    (case metadata_json c m of JObj kvs \<Rightarrow>
       metadata_decoder c (JObj (bm_remove ''actor_kind'' kvs))
         = Ok (m\<lparr>md_actor := Human (UserId (actor_id (md_actor m)))\<rparr>)
     | _ \<Rightarrow> False)"
  using assms metadata_decoder_json [OF assms, of m]
  by (cases m; cases "md_causation_id m")
    (auto simp: metadata_decoder_def metadata_json_def json_obj_def struct_fields_def
      required_def defaulted_def opt_decoder_def bm_get_extend)

theorem metadata_roundtrip_witness:
  "metadata_decoder decimal_codec
     (metadata_json decimal_codec (metadata_new (Service (ServiceAccountId 7)) 9))
     = Ok (metadata_new (Service (ServiceAccountId 7)) 9)"
  using metadata_roundtrip [OF decimal_codec_ok, of "metadata_new (Service (ServiceAccountId 7)) 9"]
  by (rule conjunct1)

section \<open>Envelopes\<close>

record domain_event =
  de_id :: uuid
  de_aggregate_id :: uuid
  de_aggregate_type :: string
  de_event_type :: string
  de_payload :: json
  de_metadata :: event_metadata
  de_occurred_at :: int

definition domain_event_new ::
    "uuid \<Rightarrow> uuid \<Rightarrow> string \<Rightarrow> string \<Rightarrow> json \<Rightarrow> event_metadata \<Rightarrow> int \<Rightarrow> domain_event" where
  "domain_event_new i agg_id agg_ty ty p md at =
     \<lparr>de_id = i, de_aggregate_id = agg_id, de_aggregate_type = agg_ty, de_event_type = ty,
      de_payload = p, de_metadata = md, de_occurred_at = at\<rparr>"

record 'a integration_event =
  ie_event_id :: uuid
  ie_event_type :: string
  ie_version :: u8
  ie_occurred_at :: int
  ie_metadata :: event_metadata
  ie_payload :: 'a

record 'a integration_command =
  ic_command_id :: uuid
  ic_command_type :: string
  ic_version :: u8
  ic_issued_at :: int
  ic_metadata :: event_metadata
  ic_payload :: 'a

definition integration_event_new ::
    "uuid \<Rightarrow> string \<Rightarrow> u8 \<Rightarrow> int \<Rightarrow> event_metadata \<Rightarrow> 'a \<Rightarrow> 'a integration_event" where
  "integration_event_new i ty v at md p =
     \<lparr>ie_event_id = i, ie_event_type = ty, ie_version = v, ie_occurred_at = at,
      ie_metadata = md, ie_payload = p\<rparr>"

definition integration_command_new ::
    "uuid \<Rightarrow> string \<Rightarrow> u8 \<Rightarrow> int \<Rightarrow> event_metadata \<Rightarrow> 'a \<Rightarrow> 'a integration_command" where
  "integration_command_new i ty v at md p =
     \<lparr>ic_command_id = i, ic_command_type = ty, ic_version = v, ic_issued_at = at,
      ic_metadata = md, ic_payload = p\<rparr>"

definition event_json :: "wire_codec \<Rightarrow> ('a \<Rightarrow> json) \<Rightarrow> 'a integration_event \<Rightarrow> json" where
  "event_json c enc e = json_obj
     [(''event_id'', uuid_json c (ie_event_id e)), (''event_type'', JStr (ie_event_type e)),
      (''version'', JNat (unat (ie_version e))), (''occurred_at'', time_json c (ie_occurred_at e)),
      (''metadata'', metadata_json c (ie_metadata e)), (''payload'', enc (ie_payload e))]"

definition event_decoder :: "wire_codec \<Rightarrow> 'a decoder \<Rightarrow> 'a integration_event decoder" where
  "event_decoder c dec v =
     and_then (struct_fields [''event_id'', ''event_type'', ''version'', ''occurred_at'',
       ''metadata'', ''payload''] v) (\<lambda>fs.
     and_then (required (uuid_decoder c) ''event_id'' fs) (\<lambda>i.
     and_then (required str_decoder ''event_type'' fs) (\<lambda>ty.
     and_then (required u8_decoder ''version'' fs) (\<lambda>ver.
     and_then (required (time_decoder c) ''occurred_at'' fs) (\<lambda>at.
     and_then (required (metadata_decoder c) ''metadata'' fs) (\<lambda>md.
     and_then (required dec ''payload'' fs) (\<lambda>p.
       Ok (integration_event_new i ty ver at md p))))))))"

definition command_json :: "wire_codec \<Rightarrow> ('a \<Rightarrow> json) \<Rightarrow> 'a integration_command \<Rightarrow> json" where
  "command_json c enc e = json_obj
     [(''command_id'', uuid_json c (ic_command_id e)), (''command_type'', JStr (ic_command_type e)),
      (''version'', JNat (unat (ic_version e))), (''issued_at'', time_json c (ic_issued_at e)),
      (''metadata'', metadata_json c (ic_metadata e)), (''payload'', enc (ic_payload e))]"

definition command_decoder :: "wire_codec \<Rightarrow> 'a decoder \<Rightarrow> 'a integration_command decoder" where
  "command_decoder c dec v =
     and_then (struct_fields [''command_id'', ''command_type'', ''version'', ''issued_at'',
       ''metadata'', ''payload''] v) (\<lambda>fs.
     and_then (required (uuid_decoder c) ''command_id'' fs) (\<lambda>i.
     and_then (required str_decoder ''command_type'' fs) (\<lambda>ty.
     and_then (required u8_decoder ''version'' fs) (\<lambda>ver.
     and_then (required (time_decoder c) ''issued_at'' fs) (\<lambda>at.
     and_then (required (metadata_decoder c) ''metadata'' fs) (\<lambda>md.
     and_then (required dec ''payload'' fs) (\<lambda>p.
       Ok (integration_command_new i ty ver at md p))))))))"

lemma event_decoder_json:
  "codec_ok c \<Longrightarrow> dec (enc (ie_payload e)) = Ok (ie_payload e) \<Longrightarrow>
     event_decoder c dec (event_json c enc e) = Ok e"
  by (simp add: event_decoder_def event_json_def required_def metadata_decoder_json
      integration_event_new_def)

lemma command_decoder_json:
  "codec_ok c \<Longrightarrow> dec (enc (ic_payload e)) = Ok (ic_payload e) \<Longrightarrow>
     command_decoder c dec (command_json c enc e) = Ok e"
  by (simp add: command_decoder_def command_json_def required_def metadata_decoder_json
      integration_command_new_def)

end
