(* ===== verification/Fabric.thy ===== *)
theory Fabric
  imports Fabric_Error Core_Types
begin

text \<open>
  Publishing through the fabric, from \<^verbatim>\<open>br-util-nats-fabric/src/fabric\<close>. The
  JetStream context of the NATS client is a parameter: a record of its operations over an abstract
  broker state. Publishing answers in two stages, the send and the acknowledgement it awaits.
  \<open>to_vec\<close> is the serializer of the envelope, whose error is its message.
\<close>

record publish_ack =
  pa_sequence :: u64
  pa_duplicate :: bool

type_synonym nats_error = "nats_publish_kind \<times> string"
type_synonym headers = "(string \<times> string) list"

record 'b jet_context =
  jc_publish :: "string \<Rightarrow> headers \<Rightarrow> string \<Rightarrow> 'b \<Rightarrow>
    ((publish_ack, nats_error) result, nats_error) result \<times> 'b"

section \<open>Outcomes\<close>

datatype publish_outcome = Stored u64 | Duplicate u64

fun outcome_sequence :: "publish_outcome \<Rightarrow> u64" where
  "outcome_sequence (Stored s) = s"
| "outcome_sequence (Duplicate s) = s"

fun outcome_is_duplicate :: "publish_outcome \<Rightarrow> bool" where
  "outcome_is_duplicate (Stored _) = False"
| "outcome_is_duplicate (Duplicate _) = True"

definition outcome_from_ack :: "publish_ack \<Rightarrow> publish_outcome" where
  "outcome_from_ack a =
     (if pa_duplicate a then Duplicate (pa_sequence a) else Stored (pa_sequence a))"

section \<open>Publishing\<close>

definition nats_message_id :: string where
  "nats_message_id = ''Nats-Msg-Id''"

definition publish :: "'b jet_context \<Rightarrow> ('a \<Rightarrow> (string, string) result) \<Rightarrow> string \<Rightarrow> 'a \<Rightarrow> 'b
    \<Rightarrow> (unit, fabric_error) result \<times> 'b" where
  "publish ctx to_vec subject envelope b =
     (case to_vec envelope of
        Err e \<Rightarrow> (Err (FabSerialization e), b)
      | Ok bytes \<Rightarrow> (case jc_publish ctx subject [] bytes b of
          (Err e, b') \<Rightarrow> (Err (from_publish e), b')
        | (Ok ack, b') \<Rightarrow> (case ack of
            Err e \<Rightarrow> (Err (from_publish e), b')
          | Ok _ \<Rightarrow> (Ok (), b'))))"

definition publish_with_id :: "'b jet_context \<Rightarrow> ('a \<Rightarrow> (string, string) result) \<Rightarrow> string \<Rightarrow> 'a
    \<Rightarrow> string \<Rightarrow> 'b \<Rightarrow> (publish_outcome, fabric_error) result \<times> 'b" where
  "publish_with_id ctx to_vec subject envelope message_id b =
     (case to_vec envelope of
        Err e \<Rightarrow> (Err (FabSerialization e), b)
      | Ok bytes \<Rightarrow> (case jc_publish ctx subject [(nats_message_id, message_id)] bytes b of
          (Err e, b') \<Rightarrow> (Err (from_publish e), b')
        | (Ok ack, b') \<Rightarrow> (case ack of
            Err e \<Rightarrow> (Err (from_publish e), b')
          | Ok a \<Rightarrow> (Ok (outcome_from_ack a), b'))))"

text \<open>The best-effort form drops the error after logging it.\<close>

definition publish_if_connected :: "'b jet_context \<Rightarrow> ('a \<Rightarrow> (string, string) result) \<Rightarrow> string
    \<Rightarrow> 'a \<Rightarrow> 'b \<Rightarrow> 'b" where
  "publish_if_connected ctx to_vec subject envelope b = snd (publish ctx to_vec subject envelope b)"

definition publish_command where
  "publish_command ctx to_vec coords command b =
     publish ctx to_vec (command_subject coords) (command :: 'a integration_command) b"

definition publish_event where
  "publish_event ctx to_vec coords event b =
     publish ctx to_vec (event_subject coords) (event :: 'a integration_event) b"

definition publish_command_with_id_outcome where
  "publish_command_with_id_outcome ctx to_vec coords command message_id b =
     publish_with_id ctx to_vec (command_subject coords) (command :: 'a integration_command) message_id b"

definition publish_event_with_id_outcome where
  "publish_event_with_id_outcome ctx to_vec coords event message_id b =
     publish_with_id ctx to_vec (event_subject coords) (event :: 'a integration_event) message_id b"

definition discard :: "('x, 'e) result \<times> 'b \<Rightarrow> (unit, 'e) result \<times> 'b" where
  "discard r = (case fst r of Err e \<Rightarrow> (Err e, snd r) | Ok _ \<Rightarrow> (Ok (), snd r))"

definition publish_command_with_id where
  "publish_command_with_id ctx to_vec coords command message_id b =
     discard (publish_command_with_id_outcome ctx to_vec coords command message_id b)"

definition publish_event_with_id where
  "publish_event_with_id ctx to_vec coords event message_id b =
     discard (publish_event_with_id_outcome ctx to_vec coords event message_id b)"

definition publish_command_if_connected where
  "publish_command_if_connected ctx to_vec coords command b =
     publish_if_connected ctx to_vec (command_subject coords) (command :: 'a integration_command) b"

definition publish_event_if_connected where
  "publish_event_if_connected ctx to_vec coords event b =
     publish_if_connected ctx to_vec (event_subject coords) (event :: 'a integration_event) b"

definition publish_event_value_with_id :: "'b jet_context \<Rightarrow> (json \<Rightarrow> (string, string) result)
    \<Rightarrow> event_coords \<Rightarrow> json \<Rightarrow> string \<Rightarrow> 'b
    \<Rightarrow> (publish_outcome, fabric_error) result \<times> 'b" where
  "publish_event_value_with_id ctx to_vec coords payload message_id b =
     publish_with_id ctx to_vec (event_subject coords) payload message_id b"

lemma publish_with_id_Ok_iff:
  "publish_with_id ctx to_vec subject envelope mid b = (Ok oc, b') \<longleftrightarrow>
     (\<exists>bytes a. to_vec envelope = Ok bytes \<and>
        jc_publish ctx subject [(nats_message_id, mid)] bytes b = (Ok (Ok a), b') \<and>
        oc = outcome_from_ack a)"
  by (auto simp: publish_with_id_def split: sum.splits prod.splits)

lemma outcome_from_ack_simps [simp]:
  "outcome_sequence (outcome_from_ack a) = pa_sequence a"
  "outcome_is_duplicate (outcome_from_ack a) = pa_duplicate a"
  by (simp_all add: outcome_from_ack_def)

section \<open>Connection\<close>

datatype nats_state = NatsPending | NatsConnected | NatsDisconnected
datatype connection_state = ConnPending | ConnConnected | ConnDisconnected

fun connection_state_from :: "nats_state \<Rightarrow> connection_state" where
  "connection_state_from NatsPending = ConnPending"
| "connection_state_from NatsConnected = ConnConnected"
| "connection_state_from NatsDisconnected = ConnDisconnected"

record nats_auth =
  na_user :: string
  na_password :: string

text \<open>The derived credentials print their user and never their password.\<close>

definition nats_auth_debug :: "(string \<Rightarrow> string) \<Rightarrow> nats_auth \<Rightarrow> string" where
  "nats_auth_debug dbg a =
     ''NatsAuth { user: '' @ dbg (na_user a) @ '', password: '' @ dbg ''***'' @ '' }''"

definition fabric_reachable :: "nats_state \<Rightarrow> bool" where
  "fabric_reachable st \<longleftrightarrow> connection_state_from st = ConnConnected"

definition fabric_ping :: "(unit, string) result \<Rightarrow> (unit, fabric_error) result" where
  "fabric_ping flushed = map_err FabConnect flushed"

lemma nats_auth_debug_hides: "nats_auth_debug dbg (a\<lparr>na_password := p\<rparr>) = nats_auth_debug dbg a"
  by (simp add: nats_auth_debug_def)

end
