(* ===== verification/Outbox_State.thy ===== *)
theory Outbox_State
  imports Rust_Str
begin

text \<open>
  The status machine of an outbox row and its retry schedule, from
  \<^verbatim>\<open>br-core-integration/src/outbox/status.rs\<close>, \<^verbatim>\<open>retry.rs\<close> and
  \<^verbatim>\<open>outcome.rs\<close>.
\<close>

section \<open>Status\<close>

datatype outbox_status = Pending | Published | Failed

datatype unknown_outbox_status = UnknownOutboxStatus string

fun as_db_str :: "outbox_status \<Rightarrow> string" where
  "as_db_str Pending = ''PENDING''"
| "as_db_str Published = ''PUBLISHED''"
| "as_db_str Failed = ''FAILED''"

definition from_db_str :: "string \<Rightarrow> (outbox_status, unknown_outbox_status) result" where
  "from_db_str s =
     (if s = ''PENDING'' then Ok Pending
      else if s = ''PUBLISHED'' then Ok Published
      else if s = ''FAILED'' then Ok Failed
      else Err (UnknownOutboxStatus s))"

fun is_terminal :: "outbox_status \<Rightarrow> bool" where
  "is_terminal Pending = False"
| "is_terminal Published = True"
| "is_terminal Failed = True"

lemma from_db_str_Ok_iff: "from_db_str s = Ok st \<longleftrightarrow> s = as_db_str st"
  by (cases st) (auto simp: from_db_str_def)

lemma as_db_str_inj [simp]: "as_db_str a = as_db_str b \<longleftrightarrow> a = b"
  by (cases a; cases b) auto

lemma is_terminal_iff: "is_terminal st \<longleftrightarrow> st \<noteq> Pending"
  by (cases st) auto

section \<open>Transitions\<close>

record transition =
  tr_status :: outbox_status
  tr_attempts :: u32

definition next_after_attempt :: "u32 \<Rightarrow> u32 \<Rightarrow> bool \<Rightarrow> transition" where
  "next_after_attempt prior_attempts max_attempts succeeded =
     (let attempts = sat_add prior_attempts 1;
          cap = max max_attempts 1;
          st = (if succeeded then Published else if cap \<le> attempts then Failed else Pending)
      in \<lparr>tr_status = st, tr_attempts = attempts\<rparr>)"

lemma tr_attempts_next: "unat (tr_attempts (next_after_attempt p m b)) = min (unat p + 1) (2 ^ 32 - 1)"
  by (simp add: next_after_attempt_def Let_def unat_sat_add)

lemma tr_status_next: "tr_status (next_after_attempt p m b) =
    (if b then Published
     else if max (unat m) 1 \<le> min (unat p + 1) (2 ^ 32 - 1) then Failed else Pending)"
  by (auto simp: next_after_attempt_def Let_def word_le_nat_alt unat_sat_add max_def)

text \<open>The transition after \<open>n\<close> more failed attempts on a row with \<open>p\<close> attempts.\<close>

fun after_failures :: "u32 \<Rightarrow> nat \<Rightarrow> u32 \<Rightarrow> transition" where
  "after_failures m 0 p = \<lparr>tr_status = Pending, tr_attempts = p\<rparr>"
| "after_failures m (Suc n) p = next_after_attempt (tr_attempts (after_failures m n p)) m False"

lemma after_failures_attempts:
  "unat p + n < 2 ^ 32 \<Longrightarrow> unat (tr_attempts (after_failures m n p)) = unat p + n"
  by (induction n) (auto simp: tr_attempts_next)

text \<open>a freshly staged row is still pending after fewer than \<open>max 1 max_attempts\<close> failed
  attempts and has failed after exactly that many: a bound of zero counts as one, and the
  row never fails early.
\<close>

theorem failed_after_exactly_max_attempts:
  assumes "0 < n" and "n \<le> max (unat m) 1"
  shows "unat (tr_attempts (after_failures m n 0)) = n \<and>
    (tr_status (after_failures m n 0) = Failed \<longleftrightarrow> n = max (unat m) 1) \<and>
    (tr_status (after_failures m n 0) = Pending \<longleftrightarrow> n < max (unat m) 1)"
proof -
  have m: "unat m < 2 ^ 32"
    using unsigned_less [of m, where ?'a = nat] by simp
  obtain k where k: "n = Suc k"
    using assms(1) by (cases n) auto
  have "unat (tr_attempts (after_failures m k 0)) = k"
    using after_failures_attempts [of 0 k m] assms m k by simp
  with assms m k show ?thesis
    by (auto simp: tr_attempts_next tr_status_next)
qed

theorem failed_after_exactly_max_attempts_witness:
  "unat (tr_attempts (after_failures 5 5 0)) = 5 \<and>
   (tr_status (after_failures 5 5 0) = Failed \<longleftrightarrow> (5::nat) = max (unat (5::u32)) 1) \<and>
   (tr_status (after_failures 5 5 0) = Pending \<longleftrightarrow> (5::nat) < max (unat (5::u32)) 1)"
  by (rule failed_after_exactly_max_attempts) simp_all

section \<open>Retry schedule\<close>

definition retry_backoff_base :: duration where
  "retry_backoff_base = from_millis 500"

definition retry_backoff_max :: duration where
  "retry_backoff_max = from_secs 30"

definition as_millis :: "duration \<Rightarrow> nat" where
  "as_millis d = d div 1000000"

text \<open>\<^verbatim>\<open>u64::checked_shl\<close> refuses a shift of 64 or more.\<close>

definition checked_shl :: "u64 \<Rightarrow> u32 \<Rightarrow> u64 option" where
  "checked_shl a k = (if unat k < 64 then Some (push_bit (unat k) a) else None)"

definition retry_backoff :: "u32 \<Rightarrow> duration" where
  "retry_backoff attempts0 =
     (let attempts = max attempts0 1;
          shift = attempts - 1;
          factor = (case checked_shl 1 shift of None \<Rightarrow> - 1 | Some f \<Rightarrow> f);
          millis = min (as_millis retry_backoff_base * unat factor) (2 ^ 128 - 1);
          capped = min millis (as_millis retry_backoff_max)
      in from_millis (unat (of_nat capped :: u64)))"

lemma retry_factor:
  "unat ((case checked_shl 1 k of None \<Rightarrow> - 1 | Some f \<Rightarrow> f) :: u64) =
     (if unat k < 64 then 2 ^ unat k else 2 ^ 64 - 1)"
proof (cases "unat k < 64")
  case True
  then have "(2::nat) ^ unat k < 2 ^ 64"
    by (intro power_strict_increasing) auto
  moreover have "unat (push_bit (unat k) (1 :: u64)) = take_bit 64 (push_bit (unat k) 1)"
    by (subst unsigned_push_bit_eq) simp
  ultimately show ?thesis
    using True by (simp add: checked_shl_def push_bit_eq_mult take_bit_nat_eq_self)
next
  case False
  then show ?thesis
    by (simp add: checked_shl_def unsigned_minus_1_eq_mask mask_eq_exp_minus_1)
qed

lemma retry_backoff_eq: "retry_backoff a = from_millis (min 30000 (500 * 2 ^ (unat a - 1)))"
proof -
  have sub: "unat (max a 1 - 1) = unat a - 1"
  proof (cases "a = 0")
    case False
    then have "1 \<le> a"
      by (simp add: word_le_nat_alt) (metis unat_eq_zero not_less_eq_eq le_zero_eq One_nat_def)
    then show ?thesis
      by (simp add: max_def unat_sub)
  qed simp
  have big: "30000 \<le> 500 * (2::nat) ^ k" if "6 \<le> k" for k
  proof -
    have "(2::nat) ^ 6 \<le> 2 ^ k"
      using that by (intro power_increasing) auto
    then show ?thesis by simp
  qed
  define k where "k = unat a - 1"
  have "retry_backoff a = from_millis (unat (of_nat (min (min (500 *
      (if k < 64 then 2 ^ k else 2 ^ 64 - 1)) (2 ^ 128 - 1)) 30000) :: u64))"
    unfolding retry_backoff_def Let_def retry_factor sub k_def [symmetric]
    by (simp add: as_millis_def retry_backoff_base_def retry_backoff_max_def from_millis_def
        from_secs_def)
  moreover have "min (min (500 * (if k < 64 then 2 ^ k else 2 ^ 64 - 1)) (2 ^ 128 - 1)) 30000
      = min 30000 (500 * (2::nat) ^ k)"
    using big [of k] by (cases "k < 6") (auto simp: min_def)
  ultimately show ?thesis
    by (simp add: k_def unat_of_nat take_bit_nat_eq_self_iff)
qed

text \<open>the delay before a retry is half a second doubled per earlier attempt, never more than
  thirty seconds, so it grows with the attempts and no count overflows it.
\<close>

theorem retry_backoff_schedule:
  "retry_backoff a = from_millis (min 30000 (500 * 2 ^ (unat a - 1))) \<and>
   retry_backoff_base \<le> retry_backoff a \<and> retry_backoff a \<le> retry_backoff_max \<and>
   (a \<le> b \<longrightarrow> retry_backoff a \<le> retry_backoff b)"
proof -
  have le: "500 * 2 ^ (unat a - 1) \<le> 500 * (2::nat) ^ (unat b - 1)" if "a \<le> b"
    using that by (auto simp: word_le_nat_alt intro!: power_increasing)
  have "min 30000 (500 * 2 ^ (unat a - 1)) \<le> min 30000 (500 * (2::nat) ^ (unat b - 1))" if "a \<le> b"
    using le [OF that] by linarith
  then show ?thesis
    by (auto simp: retry_backoff_eq from_millis_def retry_backoff_base_def retry_backoff_max_def
        from_secs_def)
qed

theorem retry_backoff_schedule_witness:
  "retry_backoff 3 = from_millis 2000 \<and> retry_backoff 40 = retry_backoff_max \<and>
   retry_backoff 3 \<le> retry_backoff 40"
  using retry_backoff_schedule [of 3 40] retry_backoff_schedule [of 40 40]
  by (simp add: retry_backoff_max_def from_secs_def from_millis_def)

section \<open>Message outcomes\<close>

datatype message_outcome = OAck | ONak "duration option" | OTerm

end
