(* ===== verification/Outbox_Relay.thy ===== *)
theory Outbox_Relay
  imports Fabric Outbox_State
begin

text \<open>
  The transactional outbox of \<^verbatim>\<open>br-util-nats-fabric/src/outbox\<close>: records, their
  staging, the store's statements on the outbox table, the relay's pass over the pending rows, its
  health and its driver loop. The table is a map from row ids to rows in id order. What the
  database and the clock answer during one iteration of a pass is a \<open>relay_env\<close>; the
  broker is the JetStream context of \<open>Fabric\<close>.
\<close>

section \<open>Records and message ids\<close>

record outbox_record =
  rec_id :: uuid
  rec_destination :: event_coords
  rec_payload :: json
  rec_status :: outbox_status
  rec_attempts :: u32

definition record_stage :: "uuid \<Rightarrow> event_coords \<Rightarrow> json \<Rightarrow> outbox_record" where
  "record_stage i dest p =
     \<lparr>rec_id = i, rec_destination = dest, rec_payload = p, rec_status = Pending, rec_attempts = 0\<rparr>"

definition record_stage_event :: "('a integration_event \<Rightarrow> (json, string) result) \<Rightarrow> uuid
    \<Rightarrow> event_coords \<Rightarrow> 'a integration_event \<Rightarrow> (outbox_record, fabric_error) result" where
  "record_stage_event to_value i dest e =
     (case to_value e of Err m \<Rightarrow> Err (FabSerialization m) | Ok p \<Rightarrow> Ok (record_stage i dest p))"

definition record_subject :: "outbox_record \<Rightarrow> string" where
  "record_subject r = event_subject (rec_destination r)"

datatype message_id_source = Envelope | Row

fun message_id_source_str :: "message_id_source \<Rightarrow> string" where
  "message_id_source_str Envelope = ''envelope''"
| "message_id_source_str Row = ''row''"

definition message_id_for :: "wire_codec \<Rightarrow> uuid \<Rightarrow> json \<Rightarrow> uuid \<times> message_id_source" where
  "message_id_for c row_id p =
     (case Option.bind (json_get ''event_id'' p) json_as_str of
        Some raw \<Rightarrow> (case uuid_parse c raw of
            Some event_id \<Rightarrow> (event_id, Envelope)
          | None \<Rightarrow> (row_id, Row))
      | None \<Rightarrow> (row_id, Row))"

lemma message_id_of_event:
  "codec_ok c \<Longrightarrow> message_id_for c row_id (event_json c enc e) = (ie_event_id e, Envelope)"
  by (simp add: message_id_for_def event_json_def uuid_json_def codec_ok_def)

section \<open>Pass reports\<close>

record relay_policy =
  max_attempts :: u32
  max_messages :: nat

definition relay_policy_default :: relay_policy where
  "relay_policy_default = \<lparr>max_attempts = 5, max_messages = 256\<rparr>"

record relay_pass =
  p_picked :: nat
  p_published :: nat
  p_duplicates :: nat
  p_row_id_fallbacks :: nat
  p_failed :: nat
  p_retried :: nat
  p_structural :: nat
  p_min_retry :: "u32 option"

definition pass_default :: relay_pass where
  "pass_default = \<lparr>p_picked = 0, p_published = 0, p_duplicates = 0, p_row_id_fallbacks = 0,
     p_failed = 0, p_retried = 0, p_structural = 0, p_min_retry = None\<rparr>"

record relay_report =
  r_picked :: nat
  r_published :: nat
  r_failed :: nat
  r_retried :: nat
  r_structural :: nat
  r_min_retry :: "u32 option"

definition report_from :: "relay_pass \<Rightarrow> relay_report" where
  "report_from p = \<lparr>r_picked = p_picked p, r_published = p_published p, r_failed = p_failed p,
     r_retried = p_retried p, r_structural = p_structural p, r_min_retry = p_min_retry p\<rparr>"

datatype failure_class = Structural | Transient

fun classify_failure :: "fabric_error \<Rightarrow> failure_class" where
  "classify_failure (FabPublish PubNoStream _) = Structural"
| "classify_failure _ = Transient"

definition classify_pass :: "relay_pass \<Rightarrow> (publish_outcome, fabric_error) result \<Rightarrow> transition
    \<Rightarrow> bool \<Rightarrow> relay_pass" where
  "classify_pass p publish_result tr structural =
     (case publish_result of
        Ok oc \<Rightarrow> (let p1 = p\<lparr>p_published := p_published p + 1\<rparr>
                  in if outcome_is_duplicate oc then p1\<lparr>p_duplicates := p_duplicates p1 + 1\<rparr> else p1)
      | Err _ \<Rightarrow>
          if structural then p\<lparr>p_structural := p_structural p + 1\<rparr>
          else if tr_status tr = Failed then p\<lparr>p_failed := p_failed p + 1\<rparr>
          else p\<lparr>p_retried := p_retried p + 1,
                 p_min_retry := Some (case p_min_retry p of
                     Some prev \<Rightarrow> min prev (tr_attempts tr)
                   | None \<Rightarrow> tr_attempts tr)\<rparr>)"

section \<open>The table and its statements\<close>

record outbox_row =
  row_subject :: string
  row_payload :: json
  row_status :: string
  row_attempts :: int
  row_last_error :: "string option"
  row_published_at :: "int option"

type_synonym outbox_table = "(uuid, outbox_row) bmap"

definition outbox_notify_channel :: string where
  "outbox_notify_channel = ''integration_outbox''"

text \<open>
  Staging inserts the record unless its id is taken, and notifies the channel in either case; the
  caller's transaction makes both visible together.
\<close>

record outbox_db =
  db_outbox :: outbox_table
  db_notified :: "string list"

datatype store_error = StoreSql string | StoreDestination uuid event_subject_parse_error

definition row_of_record :: "outbox_record \<Rightarrow> outbox_row" where
  "row_of_record r = \<lparr>row_subject = record_subject r, row_payload = rec_payload r,
     row_status = as_db_str (rec_status r), row_attempts = int (unat (rec_attempts r)),
     row_last_error = None, row_published_at = None\<rparr>"

definition stage :: "string option \<Rightarrow> outbox_record \<Rightarrow> outbox_db
    \<Rightarrow> (unit, store_error) result \<times> outbox_db" where
  "stage fault r db =
     (case fault of Some e \<Rightarrow> (Err (StoreSql e), db)
      | None \<Rightarrow> (Ok (),
          db\<lparr>db_outbox := (if bm_contains (db_outbox db) (rec_id r) then db_outbox db
                           else bm_insert (rec_id r) (row_of_record r) (db_outbox db)),
             db_notified := db_notified db @ [outbox_notify_channel]\<rparr>))"

record pending_outbox =
  po_id :: uuid
  po_destination :: event_coords
  po_payload :: json
  po_attempts :: u32

definition into_pending :: "uuid \<Rightarrow> outbox_row \<Rightarrow> (pending_outbox, store_error) result" where
  "into_pending i r =
     (case parse_event_subject (row_subject r) of
        Err e \<Rightarrow> Err (StoreDestination i e)
      | Ok dest \<Rightarrow> Ok \<lparr>po_id = i, po_destination = dest, po_payload = row_payload r,
                       po_attempts = of_int (max (row_attempts r) 0)\<rparr>)"

text \<open>The first pending row after the cursor that no other transaction holds.\<close>

definition selectable :: "uuid list \<Rightarrow> uuid \<Rightarrow> uuid \<times> outbox_row \<Rightarrow> bool" where
  "selectable locked after kv \<longleftrightarrow>
     row_status (snd kv) = ''PENDING'' \<and> after < fst kv \<and> fst kv \<notin> set locked"

definition fetch_one_pending :: "uuid list \<Rightarrow> string option \<Rightarrow> uuid \<Rightarrow> outbox_table
    \<Rightarrow> (pending_outbox option, store_error) result" where
  "fetch_one_pending locked fault after t =
     (case fault of Some e \<Rightarrow> Err (StoreSql e)
      | None \<Rightarrow> (case find (selectable locked after) t of
          None \<Rightarrow> Ok None
        | Some (i, r) \<Rightarrow> (case into_pending i r of Err e \<Rightarrow> Err e | Ok p \<Rightarrow> Ok (Some p))))"

definition apply_transition :: "string option \<Rightarrow> int \<Rightarrow> uuid \<Rightarrow> transition \<Rightarrow> string option
    \<Rightarrow> outbox_table \<Rightarrow> (unit, store_error) result \<times> outbox_table" where
  "apply_transition fault now i tr last_error t =
     (case fault of Some e \<Rightarrow> (Err (StoreSql e), t)
      | None \<Rightarrow> (Ok (), map (\<lambda>(k, r). (k, if k = i then r\<lparr>
            row_status := as_db_str (tr_status tr),
            row_attempts := int (unat (tr_attempts tr)),
            row_last_error := last_error,
            row_published_at := (if tr_status tr = Published then Some now else row_published_at r)\<rparr>
          else r)) t))"

section \<open>One pass\<close>

text \<open>
  A commit either takes effect, or fails without effect, or takes effect although the client sees
  an error because the connection was lost.
\<close>

datatype commit_fault = CommitOk | CommitRejected string | CommitUnknown string

definition commit :: "commit_fault \<Rightarrow> 'd \<Rightarrow> 'd \<Rightarrow> (unit, store_error) result \<times> 'd" where
  "commit f before after = (case f of
     CommitOk \<Rightarrow> (Ok (), after)
   | CommitRejected e \<Rightarrow> (Err (StoreSql e), before)
   | CommitUnknown e \<Rightarrow> (Err (StoreSql e), after))"

record relay_env =
  re_begin :: "string option"
  re_locked :: "uuid list"
  re_fetch :: "string option"
  re_apply :: "string option"
  re_commit :: commit_fault
  re_now :: int

record 'b relay =
  rl_context :: "'b jet_context"
  rl_to_vec :: "json \<Rightarrow> (string, string) result"
  rl_codec :: wire_codec
  rl_dbg :: "string \<Rightarrow> string"
  rl_policy :: relay_policy

definition attempt_transition :: "'b relay \<Rightarrow> pending_outbox
    \<Rightarrow> (publish_outcome, fabric_error) result \<Rightarrow> bool \<times> transition" where
  "attempt_transition rl p publish_result =
     (let structural = (case publish_result of
            Err e \<Rightarrow> classify_failure e = Structural | Ok _ \<Rightarrow> False)
      in (structural,
          if structural then \<lparr>tr_status = Pending, tr_attempts = po_attempts p\<rparr>
          else next_after_attempt (po_attempts p) (max_attempts (rl_policy rl)) (is_ok publish_result)))"

definition process_one :: "'b relay \<Rightarrow> relay_env \<Rightarrow> uuid \<Rightarrow> outbox_table \<Rightarrow> 'b \<Rightarrow> relay_pass
    \<Rightarrow> (uuid option, store_error) result \<times> outbox_table \<times> 'b \<times> relay_pass" where
  "process_one rl env after t b pass =
     (case re_begin env of Some e \<Rightarrow> (Err (StoreSql e), t, b, pass)
      | None \<Rightarrow>
     (case fetch_one_pending (re_locked env) (re_fetch env) after t of
        Err e \<Rightarrow> (Err e, t, b, pass)
      | Ok None \<Rightarrow> (case commit (re_commit env) t t of
            (Err e, t') \<Rightarrow> (Err e, t', b, pass)
          | (Ok _, t') \<Rightarrow> (Ok None, t', b, pass))
      | Ok (Some p) \<Rightarrow>
         (let (mid, src) = message_id_for (rl_codec rl) (po_id p) (po_payload p);
              (publish_result, b') = publish_event_value_with_id (rl_context rl) (rl_to_vec rl)
                 (po_destination p) (po_payload p) (uuid_show (rl_codec rl) mid) b;
              (structural, tr) = attempt_transition rl p publish_result;
              last_error = (case publish_result of
                 Err e \<Rightarrow> Some (fabric_error_display (rl_dbg rl) e) | Ok _ \<Rightarrow> None)
          in case apply_transition (re_apply env) (re_now env) (po_id p) tr last_error t of
               (Err e, _) \<Rightarrow> (Err e, t, b', pass)
             | (Ok _, t') \<Rightarrow> (case commit (re_commit env) t t' of
                 (Err e, t'') \<Rightarrow> (Err e, t'', b', pass)
               | (Ok _, t'') \<Rightarrow>
                   (let p1 = pass\<lparr>p_picked := p_picked pass + 1\<rparr>;
                        p2 = (if src = Row then p1\<lparr>p_row_id_fallbacks := p_row_id_fallbacks p1 + 1\<rparr> else p1)
                    in (Ok (Some (po_id p)), t'', b',
                        classify_pass p2 publish_result tr structural))))))"

text \<open>The loop of a pass, with the iterations left and one environment per iteration.\<close>

fun relay_loop :: "'b relay \<Rightarrow> (nat \<Rightarrow> relay_env) \<Rightarrow> nat \<Rightarrow> nat \<Rightarrow> uuid \<Rightarrow> outbox_table \<Rightarrow> 'b
    \<Rightarrow> relay_pass \<Rightarrow> (relay_pass, store_error) result \<times> outbox_table \<times> 'b" where
  "relay_loop rl envs i 0 cursor t b pass = (Ok pass, t, b)"
| "relay_loop rl envs i (Suc n) cursor t b pass =
     (case process_one rl (envs i) cursor t b pass of
        (Err e, t', b', _) \<Rightarrow> (Err e, t', b')
      | (Ok None, t', b', pass') \<Rightarrow> (Ok pass', t', b')
      | (Ok (Some k), t', b', pass') \<Rightarrow> relay_loop rl envs (Suc i) n k t' b' pass')"

definition relay_cap :: "'b relay \<Rightarrow> nat" where
  "relay_cap rl = max (max_messages (rl_policy rl)) 1"

definition run_once_detailed :: "'b relay \<Rightarrow> (nat \<Rightarrow> relay_env) \<Rightarrow> outbox_table \<Rightarrow> 'b
    \<Rightarrow> (relay_pass, store_error) result \<times> outbox_table \<times> 'b" where
  "run_once_detailed rl envs t b = relay_loop rl envs 0 (relay_cap rl) 0 t b pass_default"

definition run_once :: "'b relay \<Rightarrow> (nat \<Rightarrow> relay_env) \<Rightarrow> outbox_table \<Rightarrow> 'b
    \<Rightarrow> (relay_report, store_error) result \<times> outbox_table \<times> 'b" where
  "run_once rl envs t b = (case run_once_detailed rl envs t b of
     (Err e, s) \<Rightarrow> (Err e, s) | (Ok p, s) \<Rightarrow> (Ok (report_from p), s))"

section \<open>Health and the driver\<close>

datatype relay_health = RelayHealthy | RelayDegraded string

definition reason_no_stream :: string where
  "reason_no_stream = ''outbox.publish.no_stream''"

text \<open>A watch channel notifies its receivers only when the value changes.\<close>

definition health_set :: "'h \<Rightarrow> 'h \<Rightarrow> bool \<times> 'h" where
  "health_set new current = (if current = new then (False, current) else (True, new))"

definition update_health :: "relay_pass \<Rightarrow> relay_health \<Rightarrow> relay_health" where
  "update_health pass h =
     snd (health_set (if 0 < p_structural pass then RelayDegraded reason_no_stream else RelayHealthy) h)"

definition schedule_after :: "relay_pass \<Rightarrow> nat \<Rightarrow> duration option" where
  "schedule_after pass cap =
     (let saturated = cap \<le> p_picked pass;
          made_progress = 0 < p_published pass \<or> 0 < p_failed pass
      in if saturated \<and> made_progress then Some 0
         else map_option retry_backoff (p_min_retry pass))"

datatype relay_run_error = RunListener string | RunStore store_error

fun store_error_display :: "wire_codec \<Rightarrow> (string \<Rightarrow> string) \<Rightarrow> store_error \<Rightarrow> string" where
  "store_error_display c dbg (StoreSql e) = ''outbox query failed: '' @ e"
| "store_error_display c dbg (StoreDestination i e) = ''outbox row '' @ uuid_show c i
     @ '' has an unrenderable destination: '' @ parse_error_display dbg e"

fun relay_run_error_display :: "wire_codec \<Rightarrow> (string \<Rightarrow> string) \<Rightarrow> relay_run_error \<Rightarrow> string" where
  "relay_run_error_display c dbg (RunListener e) = ''outbox relay listener failed: '' @ e"
| "relay_run_error_display c dbg (RunStore e) = ''outbox relay drain failed: '' @ store_error_display c dbg e"

record 'b driver_state =
  dr_table :: outbox_table
  dr_broker :: 'b
  dr_health :: relay_health
  dr_next_retry :: "duration option"

definition drain_and_update_health :: "'b relay \<Rightarrow> (nat \<Rightarrow> relay_env) \<Rightarrow> 'b driver_state
    \<Rightarrow> (unit, relay_run_error) result \<times> 'b driver_state" where
  "drain_and_update_health rl envs s =
     (case run_once_detailed rl envs (dr_table s) (dr_broker s) of
        (Err e, t', b') \<Rightarrow> (Err (RunStore e), s\<lparr>dr_table := t', dr_broker := b'\<rparr>)
      | (Ok pass, t', b') \<Rightarrow> (Ok (), s\<lparr>dr_table := t', dr_broker := b',
            dr_health := update_health pass (dr_health s),
            dr_next_retry := schedule_after pass (relay_cap rl)\<rparr>))"

text \<open>
  What the driver's \<^verbatim>\<open>select!\<close> picks: a change of the shutdown signal (its value, or
  the loss of its sender), a notification or its error, or the end of the retry sleep, which is
  never picked while no retry is scheduled. A drain takes its environments and the table as the
  other sessions left it.
\<close>

datatype driver_event =
  ShutdownChanged "bool option"
| NotifyRecv "string option" "nat \<Rightarrow> relay_env" outbox_table
| SleepElapsed "nat \<Rightarrow> relay_env" outbox_table

definition driver_step :: "'b relay \<Rightarrow> driver_event \<Rightarrow> 'b driver_state
    \<Rightarrow> (unit, relay_run_error) result option \<times> 'b driver_state" where
  "driver_step rl ev s =
     (case ev of
        ShutdownChanged v \<Rightarrow> (if v \<noteq> Some False then Some (Ok ()) else None, s)
      | NotifyRecv (Some e) _ _ \<Rightarrow> (Some (Err (RunListener e)), s)
      | NotifyRecv None envs t \<Rightarrow>
          (case drain_and_update_health rl envs (s\<lparr>dr_table := t\<rparr>) of
             (Err e, s') \<Rightarrow> (Some (Err e), s') | (Ok _, s') \<Rightarrow> (None, s'))
      | SleepElapsed envs t \<Rightarrow>
          if dr_next_retry s = None then (None, s)
          else (case drain_and_update_health rl envs (s\<lparr>dr_table := t\<rparr>) of
             (Err e, s') \<Rightarrow> (Some (Err e), s') | (Ok _, s') \<Rightarrow> (None, s')))"

fun driver_loop :: "'b relay \<Rightarrow> driver_event list \<Rightarrow> 'b driver_state
    \<Rightarrow> (unit, relay_run_error) result option \<times> 'b driver_state" where
  "driver_loop rl [] s = (None, s)"
| "driver_loop rl (ev # evs) s = (case driver_step rl ev s of
     (Some r, s') \<Rightarrow> (Some r, s')
   | (None, s') \<Rightarrow> driver_loop rl evs s')"

definition run_driver :: "'b relay \<Rightarrow> string option \<Rightarrow> string option \<Rightarrow> (nat \<Rightarrow> relay_env)
    \<Rightarrow> driver_event list \<Rightarrow> 'b driver_state
    \<Rightarrow> (unit, relay_run_error) result option \<times> 'b driver_state" where
  "run_driver rl connect_fault listen_fault envs evs s =
     (case connect_fault of Some e \<Rightarrow> (Some (Err (RunListener e)), s)
      | None \<Rightarrow> (case listen_fault of Some e \<Rightarrow> (Some (Err (RunListener e)), s)
      | None \<Rightarrow> (case drain_and_update_health rl envs s of
          (Err e, s') \<Rightarrow> (Some (Err e), s')
        | (Ok _, s') \<Rightarrow> driver_loop rl evs s')))"

end
