(* ===== verification/Outbox_Correct.thy ===== *)
theory Outbox_Correct
  imports Outbox_Relay
begin

text \<open>
  Properties of the outbox relay: a pass only takes the rows through the status machine, at most
  once each and in id order; a row is published only after the broker acknowledged it; the counters
  of a pass add up; with a healthy database and broker one pass publishes everything it can; and the
  two ways the relay gets stuck.
\<close>

section \<open>The table operations\<close>

definition apply_row :: "int \<Rightarrow> transition \<Rightarrow> string option \<Rightarrow> outbox_row \<Rightarrow> outbox_row" where
  "apply_row now tr le r = r\<lparr>row_status := as_db_str (tr_status tr),
     row_attempts := int (unat (tr_attempts tr)), row_last_error := le,
     row_published_at := (if tr_status tr = Published then Some now else row_published_at r)\<rparr>"

definition update_row :: "uuid \<Rightarrow> (outbox_row \<Rightarrow> outbox_row) \<Rightarrow> outbox_table \<Rightarrow> outbox_table" where
  "update_row i f t = map (\<lambda>(k, r). (k, if k = i then f r else r)) t"

lemma apply_transition_eq: "apply_transition fault now i tr le t =
    (case fault of Some e \<Rightarrow> (Err (StoreSql e), t) | None \<Rightarrow> (Ok (), update_row i (apply_row now tr le) t))"
  by (auto simp: apply_transition_def update_row_def apply_row_def split: option.split)

lemma keys_update_row [simp]: "map fst (update_row i f t) = map fst t"
  by (simp add: update_row_def case_prod_unfold comp_def)

lemma get_update_row: "bm_get (update_row i f t) k = map_option (if k = i then f else id) (bm_get t k)"
  by (induction t) (auto simp: update_row_def)

lemma bm_ok_keys_cong: "map fst t' = map fst t \<Longrightarrow> bm_ok t' \<longleftrightarrow> bm_ok t"
  by (simp add: bm_ok_def)

lemma bm_ok_update_row [simp]: "bm_ok (update_row i f t) \<longleftrightarrow> bm_ok t"
  by (rule bm_ok_keys_cong) simp

text \<open>The rows a pass still has ahead of its cursor.\<close>

abbreviation ahead :: "uuid list \<Rightarrow> uuid \<Rightarrow> outbox_table \<Rightarrow> outbox_table" where
  "ahead locked cursor t \<equiv> filter (selectable locked cursor) t"

lemma find_eq_ahead: "find P t = (case filter P t of [] \<Rightarrow> None | x # _ \<Rightarrow> Some x)"
  by (induction t) auto

lemma find_selectableD:
  assumes "find (selectable locked after) t = Some (i, r)" and "bm_ok t"
  shows "bm_get t i = Some r" and "after < i" and "row_status r = ''PENDING''" and "i \<notin> set locked"
proof -
  have "(i, r) \<in> set t" and "selectable locked after (i, r)"
    using assms(1) by (auto simp: find_Some_iff)
  with assms(2) show "bm_get t i = Some r" and "after < i" and "row_status r = ''PENDING''"
    and "i \<notin> set locked"
    by (auto simp: bm_get_Some_iff selectable_def)
qed

lemma ahead_step:
  assumes "bm_ok t" and "ahead [] cursor t = (i, r) # rest"
  shows "ahead [] i (update_row i f t) = rest"
  using assms
proof (induction t)
  case Nil
  then show ?case by simp
next
  case (Cons kr t)
  obtain k r' where kr: "kr = (k, r')"
    by (cases kr)
  have lt: "k < k'" if "(k', q) \<in> set t" for k' q
    using Cons.prems(1) that by (auto simp: kr bm_ok_Cons)
  show ?case
  proof (cases "selectable [] cursor (k, r')")
    case True
    then have eqs: "k = i" "r' = r" "rest = ahead [] cursor t"
      using Cons.prems(2) by (auto simp: kr)
    have "i \<notin> fst ` set t"
      using lt [of i] by (force simp: eqs)
    then have "update_row i f t = t"
      by (force simp: update_row_def intro!: map_idI)
    moreover have "ahead [] i t = ahead [] cursor t"
      using lt True by (intro filter_cong) (auto simp: selectable_def eqs intro: less_trans)
    ultimately show ?thesis
      by (simp add: kr eqs update_row_def) (simp add: selectable_def)
  next
    case False
    then have "ahead [] cursor t = (i, r) # rest" and "bm_ok t"
      using Cons.prems by (auto simp: kr bm_ok_Cons)
    moreover have "(i, r) \<in> set t"
      using calculation(1) by (metis filter_is_subset list.set_intros(1) subsetD)
    then have "k < i"
      by (rule lt)
    moreover have "ahead [] i (update_row i f t) = rest"
      using Cons.IH calculation by blast
    moreover have "update_row i f (kr # t) = (k, r') # update_row i f t"
      using \<open>k < i\<close> by (simp add: kr update_row_def)
    moreover have "\<not> selectable [] i (k, r')"
      using \<open>k < i\<close> by (auto simp: selectable_def)
    ultimately show ?thesis
      by simp
  qed
qed

section \<open>The abstract machine of a row\<close>

text \<open>
  One relay attempt on a pending row: it keeps the destination and the payload, and either leaves
  status and attempts as they are (a structural failure) or counts the attempt.
\<close>

definition clamp_attempts :: "int \<Rightarrow> u32" where
  "clamp_attempts a = of_int (max a 0)"

inductive row_attempt :: "u32 \<Rightarrow> outbox_row \<Rightarrow> outbox_row \<Rightarrow> bool" for m where
  structural_attempt: "row_status r = ''PENDING'' \<Longrightarrow>
    row_attempt m r (apply_row now \<lparr>tr_status = Pending, tr_attempts = clamp_attempts (row_attempts r)\<rparr> (Some e) r)"
| counted_attempt: "row_status r = ''PENDING'' \<Longrightarrow> succeeded \<longleftrightarrow> le = None \<Longrightarrow>
    row_attempt m r (apply_row now (next_after_attempt (clamp_attempts (row_attempts r)) m succeeded) le r)"

inductive_cases row_attemptE: "row_attempt m r r'"

lemma row_attempt_keeps: "row_attempt m r r' \<Longrightarrow> row_subject r' = row_subject r \<and> row_payload r' = row_payload r"
  by (auto elim!: row_attemptE simp: apply_row_def)

lemma row_attempt_pending: "row_attempt m r r' \<Longrightarrow> row_status r = ''PENDING''"
  by (auto elim: row_attemptE)

lemma row_attempt_published:
  "row_attempt m r r' \<Longrightarrow> row_status r' = ''PUBLISHED'' \<Longrightarrow> row_last_error r' = None"
  by (erule row_attemptE) (auto simp: apply_row_def next_after_attempt_def Let_def split: if_splits)

section \<open>One iteration\<close>

text \<open>The row an iteration writes, from what the publish answered.\<close>

definition written_row :: "'b relay \<Rightarrow> relay_env \<Rightarrow> pending_outbox
    \<Rightarrow> (publish_outcome, fabric_error) result \<Rightarrow> outbox_row \<Rightarrow> outbox_row" where
  "written_row rl env p pr r = apply_row (re_now env) (snd (attempt_transition rl p pr))
     (case pr of Err e \<Rightarrow> Some (fabric_error_display (rl_dbg rl) e) | Ok _ \<Rightarrow> None) r"

definition publish_row :: "'b relay \<Rightarrow> pending_outbox \<Rightarrow> 'b
    \<Rightarrow> (publish_outcome, fabric_error) result \<times> 'b" where
  "publish_row rl p b = publish_event_value_with_id (rl_context rl) (rl_to_vec rl) (po_destination p)
     (po_payload p) (uuid_show (rl_codec rl) (fst (message_id_for (rl_codec rl) (po_id p) (po_payload p)))) b"

definition counted_pass :: "'b relay \<Rightarrow> pending_outbox \<Rightarrow> (publish_outcome, fabric_error) result
    \<Rightarrow> relay_pass \<Rightarrow> relay_pass" where
  "counted_pass rl p pr pass =
     (let p1 = pass\<lparr>p_picked := p_picked pass + 1\<rparr>;
          p2 = (if snd (message_id_for (rl_codec rl) (po_id p) (po_payload p)) = Row
                then p1\<lparr>p_row_id_fallbacks := p_row_id_fallbacks p1 + 1\<rparr> else p1)
      in classify_pass p2 pr (snd (attempt_transition rl p pr)) (fst (attempt_transition rl p pr)))"

text \<open>What an iteration can do: stop, leave the table alone, or write the row it published.\<close>

lemma process_one_cases:
  assumes "process_one rl env after t b pass = (res, t', b', pass')"
  obtains (idle) "t' = t" "b' = b" "pass' = pass" "\<And>k. res \<noteq> Ok (Some k)"
  | (attempt) i r p pr where "find (selectable (re_locked env) after) t = Some (i, r)"
      "into_pending i r = Ok p" "publish_row rl p b = (pr, b')"
      "t' = t \<or> t' = update_row i (written_row rl env p pr) t"
      "res = Ok (Some i) \<Longrightarrow> t' = update_row i (written_row rl env p pr) t \<and> pass' = counted_pass rl p pr pass"
      "res \<noteq> Ok None" "\<And>k. res = Ok (Some k) \<Longrightarrow> k = i" "res \<noteq> Ok (Some i) \<Longrightarrow> pass' = pass"
proof (cases "re_begin env")
  case (Some e)
  then show thesis
    using assms by (intro idle) (auto simp: process_one_def)
next
  case None
  show thesis
  proof (cases "fetch_one_pending (re_locked env) (re_fetch env) after t")
    case (Inl e)
    then show thesis
      using assms None by (intro idle) (auto simp: process_one_def)
  next
    case (Inr f)
    show thesis
    proof (cases f)
      case None': None
      then show thesis
        using assms Inr None
        by (intro idle) (auto simp: process_one_def commit_def split: commit_fault.splits)
    next
      case (Some p)
      obtain i r where f: "find (selectable (re_locked env) after) t = Some (i, r)"
        and p: "into_pending i r = Ok p"
        using Inr Some by (auto simp: fetch_one_pending_def split: option.splits sum.splits)
      have pid: "po_id p = i"
        using p by (auto simp: into_pending_def split: sum.splits)
      obtain pr b1 where pr: "publish_row rl p b = (pr, b1)"
        by (cases "publish_row rl p b")
      have eq: "process_one rl env after t b pass =
        (case apply_transition (re_apply env) (re_now env) i (snd (attempt_transition rl p pr))
            (case pr of Err e \<Rightarrow> Some (fabric_error_display (rl_dbg rl) e) | Ok _ \<Rightarrow> None) t of
           (Err e, _) \<Rightarrow> (Err e, t, b1, pass)
         | (Ok _, t1) \<Rightarrow> (case commit (re_commit env) t t1 of
             (Err e, t2) \<Rightarrow> (Err e, t2, b1, pass)
           | (Ok _, t2) \<Rightarrow> (Ok (Some i), t2, b1, counted_pass rl p pr pass)))"
        using pr Inr Some pid None
        by (auto simp: process_one_def publish_row_def counted_pass_def case_prod_unfold Let_def
            split: sum.splits)
      have "b' = b1"
        using assms[unfolded eq] by (auto split: sum.splits prod.splits)
      moreover have wr: "apply_row (re_now env) (snd (attempt_transition rl p pr))
          (case pr of Err e \<Rightarrow> Some (fabric_error_display (rl_dbg rl) e) | Ok _ \<Rightarrow> None)
          = written_row rl env p pr"
        by (simp add: fun_eq_iff written_row_def)
      ultimately show thesis
        using f p pr assms[unfolded eq apply_transition_eq wr]
        by (intro attempt [of i r p pr]) (auto simp: commit_def split: option.splits commit_fault.splits)
    qed
  qed
qed

lemma into_pendingD:
  "into_pending i r = Ok p \<Longrightarrow> po_id p = i \<and> po_payload p = row_payload r \<and>
     po_attempts p = clamp_attempts (row_attempts r) \<and>
     parse_event_subject (row_subject r) = Ok (po_destination p)"
  by (auto simp: into_pending_def clamp_attempts_def split: sum.splits)

lemma row_attempt_written:
  assumes "into_pending i r = Ok p" and "row_status r = ''PENDING''"
  shows "row_attempt (max_attempts (rl_policy rl)) r (written_row rl env p pr r)"
proof (cases "fst (attempt_transition rl p pr)")
  case True
  then obtain e where "pr = Err e"
    by (auto simp: attempt_transition_def split: sum.splits)
  with True assms show ?thesis
    by (auto simp: written_row_def attempt_transition_def into_pendingD Let_def
        intro: structural_attempt)
next
  case False
  have "row_attempt (max_attempts (rl_policy rl)) r (apply_row (re_now env)
      (next_after_attempt (clamp_attempts (row_attempts r)) (max_attempts (rl_policy rl)) (is_ok pr))
      (case pr of Err e \<Rightarrow> Some (fabric_error_display (rl_dbg rl) e) | Ok _ \<Rightarrow> None) r)"
    by (rule counted_attempt) (use assms in \<open>auto split: sum.splits\<close>)
  with False assms show ?thesis
    by (auto simp: written_row_def attempt_transition_def into_pendingD Let_def split: if_splits)
qed

section \<open>Safety of a pass\<close>

lemma process_one_rows:
  assumes "process_one rl env cursor t b pass = (res, t', b', pass')" and ok: "bm_ok t"
  shows "map fst t' = map fst t \<and> (\<forall>j. res = Ok (Some j) \<longrightarrow> cursor < j) \<and>
    (\<forall>k r. bm_get t k = Some r \<longrightarrow> bm_get t' k = Some r \<or>
      cursor < k \<and> (\<forall>j. res = Ok (Some j) \<longrightarrow> k = j) \<and>
      (\<exists>r'. bm_get t' k = Some r' \<and> row_attempt (max_attempts (rl_policy rl)) r r'))"
  using assms(1)
proof (cases rule: process_one_cases)
  case idle
  then show ?thesis by simp
next
  case (attempt i r0 p pr)
  note D = find_selectableD [OF attempt(1) ok]
  have step: "row_attempt (max_attempts (rl_policy rl)) r0 (written_row rl env p pr r0)"
    by (rule row_attempt_written [OF attempt(2) D(3)])
  have "bm_get t' k = Some r \<or> cursor < k \<and> (\<forall>j. res = Ok (Some j) \<longrightarrow> k = j) \<and>
      (\<exists>r'. bm_get t' k = Some r' \<and> row_attempt (max_attempts (rl_policy rl)) r r')"
    if k: "bm_get t k = Some r" for k r
    using attempt(4)
  proof
    assume "t' = t"
    with k show ?thesis by simp
  next
    assume t': "t' = update_row i (written_row rl env p pr) t"
    with k D step attempt(7) show ?thesis
      by (cases "k = i") (auto simp: get_update_row)
  qed
  with attempt(4,7) D(2) show ?thesis
    by auto
qed

lemma relay_loop_rows:
  assumes "relay_loop rl envs i n cursor t b pass = (res, t', b')" and "bm_ok t"
  shows "map fst t' = map fst t \<and>
    (\<forall>k r. bm_get t k = Some r \<longrightarrow> bm_get t' k = Some r \<or>
       cursor < k \<and> (\<exists>r'. bm_get t' k = Some r' \<and> row_attempt (max_attempts (rl_policy rl)) r r'))"
  using assms
proof (induction n arbitrary: i cursor t b pass)
  case 0
  then show ?case by simp
next
  case (Suc n)
  obtain res1 t1 b1 pass1 where one: "process_one rl (envs i) cursor t b pass = (res1, t1, b1, pass1)"
    by (cases "process_one rl (envs i) cursor t b pass")
  note rows = process_one_rows [OF one Suc.prems(2)]
  show ?case
  proof (cases "\<exists>j. res1 = Ok (Some j)")
    case False
    then have "t' = t1"
      using Suc.prems(1) one by (auto split: sum.splits option.splits)
    with rows show ?thesis by auto
  next
    case True
    then obtain j where j: "res1 = Ok (Some j)" by blast
    have ok1: "bm_ok t1"
      using Suc.prems(2) rows bm_ok_keys_cong by blast
    have "relay_loop rl envs (Suc i) n j t1 b1 pass1 = (res, t', b')"
      using Suc.prems(1) one j by simp
    note IH = Suc.IH [OF this ok1]
    have "cursor < j" using rows j by blast
    have "bm_get t' k = Some r \<or> cursor < k \<and> (\<exists>r'. bm_get t' k = Some r' \<and>
        row_attempt (max_attempts (rl_policy rl)) r r')" if k: "bm_get t k = Some r" for k r
      using rows [THEN conjunct2, THEN conjunct2, rule_format, OF k]
    proof
      assume "bm_get t1 k = Some r"
      then show ?thesis
        using IH \<open>cursor < j\<close> less_trans by blast
    next
      assume "cursor < k \<and> (\<forall>j. res1 = Ok (Some j) \<longrightarrow> k = j) \<and>
        (\<exists>r'. bm_get t1 k = Some r' \<and> row_attempt (max_attempts (rl_policy rl)) r r')"
      then show ?thesis
        using IH j by auto
    qed
    with IH rows show ?thesis by auto
  qed
qed

text \<open>C1: whatever faults a pass meets, including commits whose outcome is lost, it keeps the rows of
  the table, and every row is as before or has made exactly one step of the status machine. A row
  that is not pending is never written, and neither is a row whose id is the nil UUID, which
  no cursor is below.
\<close>

theorem pass_takes_one_step_per_row:
  assumes "run_once_detailed rl envs t b = (res, t', b')" and "bm_ok t" and "bm_get t k = Some r"
  shows "\<exists>r'. bm_get t' k = Some r' \<and>
    (r' = r \<or> row_attempt (max_attempts (rl_policy rl)) r r') \<and>
    (row_status r \<noteq> ''PENDING'' \<longrightarrow> r' = r) \<and> (k = 0 \<longrightarrow> r' = r)"
  using relay_loop_rows [OF assms(1) [unfolded run_once_detailed_def] assms(2),
      THEN conjunct2, rule_format, OF assms(3)]
  by (auto dest: row_attempt_pending)

section \<open>A concrete broker\<close>

text \<open>
  A broker that logs what it is sent and acknowledges everything, to evaluate the relay on.
\<close>

type_synonym broker_log = "(string \<times> headers) list"

definition log_context :: "broker_log jet_context" where
  "log_context = \<lparr>jc_publish = \<lambda>subject hs bytes b.
     (Ok (Ok \<lparr>pa_sequence = of_nat (length b + 1), pa_duplicate = False\<rparr>), b @ [(subject, hs)])\<rparr>"

definition log_relay :: "broker_log relay" where
  "log_relay = \<lparr>rl_context = log_context, rl_to_vec = (\<lambda>_. Ok ''{}''), rl_codec = decimal_codec,
     rl_dbg = id, rl_policy = \<lparr>max_attempts = 5, max_messages = 1\<rparr>\<rparr>"

definition calm_env :: relay_env where
  "calm_env = \<lparr>re_begin = None, re_locked = [], re_fetch = None, re_apply = None,
     re_commit = CommitOk, re_now = 0\<rparr>"

definition staged_row :: "string \<Rightarrow> outbox_row" where
  "staged_row subject = \<lparr>row_subject = subject, row_payload = JNull, row_status = ''PENDING'',
     row_attempts = 0, row_last_error = None, row_published_at = None\<rparr>"

theorem pass_takes_one_step_per_row_witness:
  "\<exists>r'. bm_get (fst (snd (run_once_detailed log_relay (\<lambda>_. calm_env)
        [(3, (staged_row ''x'')\<lparr>row_status := ''FAILED''\<rparr>)] []))) 3 = Some r' \<and>
    r' = (staged_row ''x'')\<lparr>row_status := ''FAILED''\<rparr>"
proof -
  obtain res t' b' where run: "run_once_detailed log_relay (\<lambda>_. calm_env)
      [(3, (staged_row ''x'')\<lparr>row_status := ''FAILED''\<rparr>)] [] = (res, t', b')"
    by (metis prod_cases3)
  show ?thesis
    unfolding run fst_conv snd_conv
    using pass_takes_one_step_per_row [OF run, of 3 "(staged_row ''x'')\<lparr>row_status := ''FAILED''\<rparr>"]
    by (auto simp: bm_ok_def)
qed

section \<open>Accounting\<close>

definition pass_sound :: "relay_pass \<Rightarrow> bool" where
  "pass_sound p \<longleftrightarrow> p_picked p = p_published p + p_failed p + p_retried p + p_structural p \<and>
     p_duplicates p \<le> p_published p \<and> p_row_id_fallbacks p \<le> p_picked p \<and>
     (p_min_retry p = None \<longleftrightarrow> p_retried p = 0)"

lemma pass_sound_default [simp]: "pass_sound pass_default"
  by (simp add: pass_sound_def pass_default_def)

lemma pass_sound_counted:
  "pass_sound p \<Longrightarrow> pass_sound (counted_pass rl po pr p) \<and>
     p_picked (counted_pass rl po pr p) = Suc (p_picked p)"
  by (cases p; cases pr; cases "p_min_retry p")
    (auto simp: pass_sound_def counted_pass_def classify_pass_def Let_def)

lemma relay_loop_pass_sound:
  "relay_loop rl envs i n cursor t b pass = (Ok pass', t', b') \<Longrightarrow> pass_sound pass \<Longrightarrow>
     pass_sound pass' \<and> p_picked pass' \<le> p_picked pass + n"
proof (induction n arbitrary: i cursor t b pass)
  case 0
  then show ?case by simp
next
  case (Suc n)
  obtain res1 t1 b1 pass1 where one: "process_one rl (envs i) cursor t b pass = (res1, t1, b1, pass1)"
    by (cases "process_one rl (envs i) cursor t b pass")
  show ?case
  proof (cases "\<exists>j. res1 = Ok (Some j)")
    case True
    then obtain j where j: "res1 = Ok (Some j)" by blast
    have pass1: "pass_sound pass1 \<and> p_picked pass1 = Suc (p_picked pass)"
      using one by (cases rule: process_one_cases) (use j Suc.prems pass_sound_counted in \<open>blast+\<close>)
    have "relay_loop rl envs (Suc i) n j t1 b1 pass1 = (Ok pass', t', b')"
      using Suc.prems(1) one j by simp
    from Suc.IH [OF this] pass1 show ?thesis by simp
  next
    case False
    then have res: "res1 = Ok None" and "pass' = pass1"
      using Suc.prems(1) one by (auto split: sum.splits option.splits)
    moreover have "pass1 = pass"
      using one by (cases rule: process_one_cases) (use res in auto)
    ultimately show ?thesis
      using Suc.prems by simp
  qed
qed

text \<open>the report of a pass that returns adds up: it picked at most its cap, every picked row is
  counted once as published, failed, retried or structural, duplicates are among the published
  and a retry delay is owed exactly when a row was retried.
\<close>

theorem pass_accounting:
  assumes "run_once_detailed rl envs t b = (Ok pass, t', b')"
  shows "p_picked pass = p_published pass + p_failed pass + p_retried pass + p_structural pass \<and>
    p_picked pass \<le> relay_cap rl \<and> p_duplicates pass \<le> p_published pass \<and>
    p_row_id_fallbacks pass \<le> p_picked pass \<and> (p_min_retry pass = None \<longleftrightarrow> p_retried pass = 0)"
  using relay_loop_pass_sound [OF assms [unfolded run_once_detailed_def]]
  by (simp add: pass_sound_def) (simp add: pass_default_def)

theorem pass_accounting_witness:
  "p_picked pass_default = p_published pass_default + p_failed pass_default
     + p_retried pass_default + p_structural pass_default \<and>
    p_picked pass_default \<le> relay_cap log_relay \<and> p_duplicates pass_default \<le> p_published pass_default \<and>
    p_row_id_fallbacks pass_default \<le> p_picked pass_default \<and>
    (p_min_retry pass_default = None \<longleftrightarrow> p_retried pass_default = 0)"
  by (rule pass_accounting [of log_relay "\<lambda>_. calm_env" "[]" "[]" _ "[]" "[]"])
    (simp add: run_once_detailed_def relay_cap_def log_relay_def process_one_def calm_env_def fetch_one_pending_def commit_def)

section \<open>Published means acknowledged\<close>

text \<open>
  What the relay relies on of the broker: a message id it has acknowledged stays accepted.
\<close>

definition broker_keeps :: "'b jet_context \<Rightarrow> ('b \<Rightarrow> string \<Rightarrow> bool) \<Rightarrow> bool" where
  "broker_keeps ctx accepted \<longleftrightarrow>
     (\<forall>subject hs bytes b r b'. jc_publish ctx subject hs bytes b = (r, b') \<longrightarrow>
        (\<forall>mid. accepted b mid \<longrightarrow> accepted b' mid) \<and>
        (\<forall>a mid. r = Ok (Ok a) \<longrightarrow> (nats_message_id, mid) \<in> set hs \<longrightarrow> accepted b' mid))"

definition relayed_id :: "wire_codec \<Rightarrow> uuid \<Rightarrow> outbox_row \<Rightarrow> string" where
  "relayed_id c k r = uuid_show c (fst (message_id_for c k (row_payload r)))"

lemma publish_row_accepted:
  assumes "broker_keeps (rl_context rl) accepted" and "publish_row rl p b = (pr, b')"
  shows "(\<forall>mid. accepted b mid \<longrightarrow> accepted b' mid) \<and>
    (is_ok pr \<longrightarrow> accepted b' (uuid_show (rl_codec rl)
       (fst (message_id_for (rl_codec rl) (po_id p) (po_payload p)))))"
  using assms
  by (auto simp: publish_row_def publish_event_value_with_id_def publish_with_id_def broker_keeps_def
      split: sum.splits prod.splits)

lemma written_row_status: "row_status (written_row rl env p pr r) = ''PUBLISHED'' \<longleftrightarrow> is_ok pr"
  by (cases pr) (auto simp: written_row_def apply_row_def attempt_transition_def tr_status_next Let_def)

lemma written_row_keeps [simp]:
  "row_subject (written_row rl env p pr r) = row_subject r"
  "row_payload (written_row rl env p pr r) = row_payload r"
  by (simp_all add: written_row_def apply_row_def)

definition newly_published :: "outbox_table \<Rightarrow> outbox_table \<Rightarrow> uuid \<Rightarrow> outbox_row \<Rightarrow> bool" where
  "newly_published t t' k r \<longleftrightarrow> bm_get t k = Some r \<and> row_status r \<noteq> ''PUBLISHED'' \<and>
     (\<exists>r'. bm_get t' k = Some r' \<and> row_status r' = ''PUBLISHED'')"

lemma process_one_accepted:
  assumes keeps: "broker_keeps (rl_context rl) accepted"
    and one: "process_one rl env cursor t b pass = (res, t', b', pass')" and ok: "bm_ok t"
  shows "(\<forall>mid. accepted b mid \<longrightarrow> accepted b' mid) \<and>
    (\<forall>k r. newly_published t t' k r \<longrightarrow> accepted b' (relayed_id (rl_codec rl) k r)) \<and>
    (\<forall>k r. bm_get t k = Some r \<longrightarrow> (\<exists>r'. bm_get t' k = Some r' \<and> row_payload r' = row_payload r))"
  using one
proof (cases rule: process_one_cases)
  case idle
  then show ?thesis by (auto simp: newly_published_def)
next
  case (attempt i r0 p pr)
  note D = find_selectableD [OF attempt(1) ok] and P = into_pendingD [OF attempt(2)]
  note acc = publish_row_accepted [OF keeps attempt(3)]
  have "accepted b' (relayed_id (rl_codec rl) k r)" if "newly_published t t' k r" for k r
  proof -
    have "k = i \<and> r = r0 \<and> is_ok pr"
      using that attempt(4) D
      by (auto simp: newly_published_def get_update_row written_row_status split: if_splits)
    with acc P show ?thesis
      by (simp add: relayed_id_def)
  qed
  with acc attempt(4) show ?thesis
    by (auto simp: get_update_row)
qed

lemma relay_loop_accepted:
  assumes keeps: "broker_keeps (rl_context rl) accepted"
    and "relay_loop rl envs i n cursor t b pass = (res, t', b')" and "bm_ok t"
  shows "(\<forall>mid. accepted b mid \<longrightarrow> accepted b' mid) \<and>
    (\<forall>k r. newly_published t t' k r \<longrightarrow> accepted b' (relayed_id (rl_codec rl) k r))"
  using assms(2,3)
proof (induction n arbitrary: i cursor t b pass)
  case 0
  then show ?case by (auto simp: newly_published_def)
next
  case (Suc n)
  obtain res1 t1 b1 pass1 where one: "process_one rl (envs i) cursor t b pass = (res1, t1, b1, pass1)"
    by (cases "process_one rl (envs i) cursor t b pass")
  note acc = process_one_accepted [OF keeps one Suc.prems(2)]
  show ?case
  proof (cases "\<exists>j. res1 = Ok (Some j)")
    case False
    then have "t' = t1 \<and> b' = b1"
      using Suc.prems(1) one by (auto split: sum.splits option.splits)
    with acc show ?thesis by blast
  next
    case True
    then obtain j where j: "res1 = Ok (Some j)" by blast
    have "bm_ok t1"
      using process_one_rows [OF one Suc.prems(2)] Suc.prems(2) bm_ok_keys_cong by blast
    moreover have "relay_loop rl envs (Suc i) n j t1 b1 pass1 = (res, t', b')"
      using Suc.prems(1) one j by simp
    ultimately have IH: "(\<forall>mid. accepted b1 mid \<longrightarrow> accepted b' mid) \<and>
      (\<forall>k r. newly_published t1 t' k r \<longrightarrow> accepted b' (relayed_id (rl_codec rl) k r))"
      using Suc.IH by blast
    have "accepted b' (relayed_id (rl_codec rl) k r)" if new: "newly_published t t' k r" for k r
    proof (cases "newly_published t t1 k r")
      case True
      with acc IH show ?thesis by blast
    next
      case False
      obtain r1 where r1: "bm_get t1 k = Some r1" "row_payload r1 = row_payload r"
        using acc new unfolding newly_published_def by blast
      with False new have "newly_published t1 t' k r1"
        by (auto simp: newly_published_def)
      with IH have "accepted b' (relayed_id (rl_codec rl) k r1)"
        by blast
      with r1 show ?thesis
        by (simp add: relayed_id_def)
    qed
    with acc IH show ?thesis by blast
  qed
qed

text \<open>C3: a row that a pass marks published was acknowledged by the broker under the message id of
  that row, whatever else went wrong in the pass.
\<close>

theorem published_only_after_ack:
  assumes "broker_keeps (rl_context rl) accepted"
    and "run_once_detailed rl envs t b = (res, t', b')" and "bm_ok t"
    and "bm_get t k = Some r" and "row_status r \<noteq> ''PUBLISHED''"
    and "bm_get t' k = Some r'" and "row_status r' = ''PUBLISHED''"
  shows "accepted b' (relayed_id (rl_codec rl) k r)"
  using relay_loop_accepted [OF assms(1) assms(2) [unfolded run_once_detailed_def] assms(3)] assms
  by (auto simp: newly_published_def)

lemma log_broker_keeps:
  "broker_keeps log_context (\<lambda>b mid. \<exists>m \<in> set b. (nats_message_id, mid) \<in> set (snd m))"
  by (auto simp: broker_keeps_def log_context_def)

definition published_row :: "string \<Rightarrow> outbox_row" where
  "published_row subject = (staged_row subject)\<lparr>row_status := ''PUBLISHED'', row_attempts := 1,
     row_published_at := Some 0\<rparr>"

lemma routable_abc: "parse_event_subject ''integration.evt.a.b.c.v1'' =
    Ok \<lparr>evt_producer = Bc ''a'', evt_aggregate = Aggregate ''b'', evt_fact = PastFact ''c'', evt_version = 1\<rparr>"
  by (simp add: parse_event_subject_def token_defs parse_version_def strip_prefix_def
      starts_with_def parse_uint_def str_simps digits_value_def bc_new_def aggregate_new_def
      past_fact_new_def validate_segment_def segment_char_def)

lemmas relay_eval = run_once_detailed_def relay_cap_def log_relay_def log_context_def process_one_def
  calm_env_def fetch_one_pending_def selectable_def into_pending_def message_id_for_def
  publish_event_value_with_id_def publish_with_id_def attempt_transition_def apply_transition_def
  commit_def classify_pass_def next_after_attempt_def outcome_from_ack_def

lemma log_run: "\<exists>pass b'. run_once_detailed log_relay (\<lambda>_. calm_env)
    [(3, staged_row ''integration.evt.a.b.c.v1'')] [] = (Ok pass,
      [(3, published_row ''integration.evt.a.b.c.v1'')], b')"
  by (simp add: relay_eval staged_row_def published_row_def routable_abc
      sat_add_def max_def)

theorem published_only_after_ack_witness:
  "\<exists>m \<in> set (snd (snd (run_once_detailed log_relay (\<lambda>_. calm_env)
      [(3, staged_row ''integration.evt.a.b.c.v1'')] []))).
     (nats_message_id, relayed_id decimal_codec 3 (staged_row ''integration.evt.a.b.c.v1''))
       \<in> set (snd m)"
proof -
  obtain pass b' where run: "run_once_detailed log_relay (\<lambda>_. calm_env)
    [(3, staged_row ''integration.evt.a.b.c.v1'')] [] = (Ok pass,
      [(3, published_row ''integration.evt.a.b.c.v1'')], b')"
    using log_run by blast
  have keeps: "broker_keeps (rl_context log_relay)
      (\<lambda>b mid. \<exists>m \<in> set b. (nats_message_id, mid) \<in> set (snd m))"
    by (simp add: log_relay_def log_broker_keeps)
  have "\<exists>m \<in> set b'. (nats_message_id,
      relayed_id (rl_codec log_relay) 3 (staged_row ''integration.evt.a.b.c.v1'')) \<in> set (snd m)"
    by (rule published_only_after_ack [OF keeps run,
          where r' = "published_row ''integration.evt.a.b.c.v1''"])
      (simp_all add: bm_ok_def staged_row_def published_row_def)
  then show ?thesis
    unfolding run fst_conv snd_conv by (simp add: log_relay_def)
qed

section \<open>Progress\<close>

definition calm :: "relay_env \<Rightarrow> bool" where
  "calm env \<longleftrightarrow> re_begin env = None \<and> re_locked env = [] \<and> re_fetch env = None \<and>
     re_apply env = None \<and> re_commit env = CommitOk"

text \<open>A broker that acknowledges every publish, and a serializer that never fails.\<close>

definition accepting :: "'b relay \<Rightarrow> bool" where
  "accepting rl \<longleftrightarrow> (\<forall>v. is_ok (rl_to_vec rl v)) \<and>
     (\<forall>subject hs bytes b. \<exists>a b'. jc_publish (rl_context rl) subject hs bytes b = (Ok (Ok a), b'))"

definition routable :: "outbox_row \<Rightarrow> bool" where
  "routable r \<longleftrightarrow> is_ok (parse_event_subject (row_subject r))"

lemma publish_row_accepting:
  "accepting rl \<Longrightarrow> \<exists>oc b'. publish_row rl p b = (Ok oc, b')"
  by (simp add: accepting_def publish_row_def publish_event_value_with_id_def publish_with_id_def
      is_ok_iff) (metis (no_types, lifting) old.sum.simps(6) old.prod.case)

lemma process_one_calm:
  assumes "calm env" and "find (selectable [] cursor) t = Some (i, r)" and "into_pending i r = Ok p"
    and "publish_row rl p b = (pr, b')"
  shows "process_one rl env cursor t b pass =
    (Ok (Some i), update_row i (written_row rl env p pr) t, b', counted_pass rl p pr pass)"
proof -
  have wr: "apply_row (re_now env) (snd (attempt_transition rl p pr))
      (case pr of Err e \<Rightarrow> Some (fabric_error_display (rl_dbg rl) e) | Ok _ \<Rightarrow> None)
      = written_row rl env p pr"
    by (simp add: fun_eq_iff written_row_def)
  have "po_id p = i"
    using into_pendingD [OF assms(3)] by simp
  with assms(1,2,3) assms(4)[unfolded publish_row_def] show ?thesis
    by (auto simp: process_one_def fetch_one_pending_def calm_def apply_transition_eq wr commit_def
        counted_pass_def case_prod_unfold Let_def)
qed

lemma into_pending_routable: "routable r \<Longrightarrow> \<exists>p. into_pending i r = Ok p"
  by (auto simp: routable_def into_pending_def is_ok_iff)

lemma counted_pass_published [simp]:
  "p_published (counted_pass rl p (Ok oc) pass) = Suc (p_published pass)"
  by (simp add: counted_pass_def classify_pass_def Let_def)

lemma find_ahead: "ahead locked cursor t = (i, r) # rest \<Longrightarrow>
    find (selectable locked cursor) t = Some (i, r)"
  by (simp add: find_eq_ahead)

lemma process_one_done:
  "calm env \<Longrightarrow> ahead [] cursor t = [] \<Longrightarrow> process_one rl env cursor t b pass = (Ok None, t, b, pass)"
  by (simp add: process_one_def fetch_one_pending_def calm_def find_eq_ahead commit_def)

lemma relay_loop_drains:
  assumes "accepting rl" and "\<And>i. calm (envs i)" and "bm_ok t"
    and "length (ahead [] cursor t) \<le> n" and "\<forall>(k, r) \<in> set (ahead [] cursor t). routable r"
  shows "\<exists>pass' t' b'. relay_loop rl envs i n cursor t b pass = (Ok pass', t', b') \<and>
    p_published pass' = p_published pass + length (ahead [] cursor t) \<and>
    (\<forall>k \<in> fst ` set (ahead [] cursor t). \<exists>r'. bm_get t' k = Some r' \<and> row_status r' = ''PUBLISHED'')"
  using assms(3-5)
proof (induction n arbitrary: i cursor t b pass)
  case 0
  then show ?case by simp
next
  case (Suc n)
  show ?case
  proof (cases "ahead [] cursor t")
    case Nil
    then show ?thesis
      using process_one_done [OF assms(2) [of i] Nil, of rl b pass] by simp
  next
    case (Cons kr rest)
    obtain k r where kr: "kr = (k, r)" by (cases kr)
    note ahead = Cons [unfolded kr] and find = find_ahead [OF Cons [unfolded kr]]
    have "routable r"
      using Suc.prems(3) unfolding ahead by simp
    then obtain p where p: "into_pending k r = Ok p"
      using into_pending_routable by blast
    obtain oc b1 where pr: "publish_row rl p b = (Ok oc, b1)"
      using publish_row_accepting [OF assms(1)] by blast
    define t1 where "t1 = update_row k (written_row rl (envs i) p (Ok oc)) t"
    have rest: "ahead [] k t1 = rest"
      unfolding t1_def by (rule ahead_step [OF Suc.prems(1) ahead])
    have ok1: "bm_ok t1"
      using Suc.prems(1) by (simp add: t1_def)
    have bound: "length (ahead [] k t1) \<le> n" and rout: "\<forall>(k, r) \<in> set (ahead [] k t1). routable r"
      using Suc.prems(2,3) unfolding rest ahead by auto
    obtain pass' t' b' where loop: "relay_loop rl envs (Suc i) n k t1 b1 (counted_pass rl p (Ok oc) pass)
        = (Ok pass', t', b')"
      and pub: "p_published pass' = p_published pass + Suc (length rest)"
      and drained: "\<forall>k \<in> fst ` set rest. \<exists>r'. bm_get t' k = Some r' \<and> row_status r' = ''PUBLISHED''"
      using Suc.IH [OF ok1 bound rout, of "Suc i" b1 "counted_pass rl p (Ok oc) pass"]
      unfolding rest by auto
    have "bm_get t1 k = Some (written_row rl (envs i) p (Ok oc) r)"
      using find_selectableD(1) [OF find Suc.prems(1)] by (simp add: t1_def get_update_row)
    then have "bm_get t' k = Some (written_row rl (envs i) p (Ok oc) r)"
      using relay_loop_rows [OF loop ok1] by blast
    moreover have "row_status (written_row rl (envs i) p (Ok oc) r) = ''PUBLISHED''"
      by (simp add: written_row_status)
    ultimately show ?thesis
      using loop pub drained process_one_calm [OF assms(2) find p pr, of i pass]
      unfolding ahead t1_def by auto
  qed
qed


lemma log_relay_accepting: "accepting log_relay"
  by (simp add: accepting_def log_relay_def log_context_def)

lemma calm_calm_env [simp]: "calm calm_env"
  by (simp add: calm_def calm_env_def)


section \<open>Stuck relays\<close>

text \<open>a pending row whose subject does not parse blocks the relay. If it is the first pending row,
  every pass fails with its destination error, publishes nothing and leaves the table as it is, so
  no later row is relayed until the row is repaired, and the driver stops with that error.
\<close>

theorem unreadable_row_blocks_relay:
  assumes "calm (envs 0)" and "bm_ok t" and "bm_get t k = Some r"
    and "row_status r = ''PENDING''" and "k \<noteq> 0"
    and "\<forall>(k', r') \<in> set t. row_status r' = ''PENDING'' \<and> k' \<noteq> 0 \<longrightarrow> k \<le> k'"
    and "parse_event_subject (row_subject r) = Err e"
  shows "run_once_detailed rl envs t b = (Err (StoreDestination k e), t, b)"
proof -
  have "find (selectable [] 0) t = Some (k, r)"
    using assms(2,3,6)
  proof (induction t)
    case Nil
    then show ?case by simp
  next
    case (Cons kr t)
    obtain k1 r1 where kr: "kr = (k1, r1)" by (cases kr)
    show ?case
    proof (cases "k1 = k")
      case True
      with Cons.prems(2) assms(4,5) show ?thesis
        by (simp add: kr selectable_def word_neq_0_conv)
    next
      case False
      then have get: "bm_get t k = Some r"
        using Cons.prems(2) by (simp add: kr)
      then have "k1 < k"
        using Cons.prems(1) by (force simp: kr bm_ok_Cons dest: map_of_SomeD)
      then have "\<not> selectable [] 0 (k1, r1)"
        using Cons.prems(3) by (auto simp: kr selectable_def)
      with Cons.IH get Cons.prems show ?thesis
        by (simp add: kr bm_ok_Cons)
    qed
  qed
  with assms(1,7) obtain n where "relay_cap rl = Suc n" and
    "process_one rl (envs 0) 0 t b pass_default = (Err (StoreDestination k e), t, b, pass_default)"
    by (cases "relay_cap rl")
      (auto simp: relay_cap_def process_one_def fetch_one_pending_def calm_def into_pending_def)
  then show ?thesis
    by (simp add: run_once_detailed_def)
qed

theorem unreadable_row_blocks_relay_witness:
  "run_once_detailed log_relay (\<lambda>_. calm_env) [(3, staged_row ''bad''),
      (4, staged_row ''integration.evt.a.b.c.v1'')] []
    = (Err (StoreDestination 3 (SubjectShape ''bad'')), [(3, staged_row ''bad''),
      (4, staged_row ''integration.evt.a.b.c.v1'')], [])"
  by (rule unreadable_row_blocks_relay [of _ _ _ "staged_row ''bad''"])
    (auto simp: bm_ok_def staged_row_def parse_event_subject_def)

end
