(* ===== verification/Consumer_Bind.thy ===== *)
theory Consumer_Bind
  imports Fabric Outbox_State
begin

text \<open>
  Binding durable consumers, from \<^verbatim>\<open>br-util-nats-fabric/src/consumer\<close>: the
  configuration, create-or-bind, the provisioning and verification calls, the pull source of the
  managed loop and the explicit consumer with its deliveries. The JetStream administration and the
  message stream are parameters: a record of operations over the broker state.
\<close>

section \<open>Configuration\<close>

datatype ack_policy = AckPolicyNone | AckPolicyAll | AckPolicyExplicit
datatype deliver_policy = DeliverAll | DeliverOther nat
datatype replay_policy = ReplayInstant | ReplayOriginal

definition ack_wait_default :: duration where "ack_wait_default = from_secs 30"
definition max_ack_pending_default :: int where "max_ack_pending_default = 256"
definition max_deliver :: int where "max_deliver = - 1"

record consumer_tuning =
  ct_ack_wait :: duration
  ct_max_ack_pending :: int

definition tuning_default :: consumer_tuning where
  "tuning_default = \<lparr>ct_ack_wait = ack_wait_default, ct_max_ack_pending = max_ack_pending_default\<rparr>"

record durable_cfg =
  dc_durable_name :: "string option"
  dc_ack_policy :: ack_policy
  dc_ack_wait :: duration
  dc_max_ack_pending :: int
  dc_max_deliver :: int
  dc_deliver_policy :: deliver_policy
  dc_replay_policy :: replay_policy
  dc_filter_subject :: string
  dc_filter_subjects :: "string list"

definition durable_config :: "string \<Rightarrow> string list \<Rightarrow> consumer_tuning \<Rightarrow> durable_cfg" where
  "durable_config durable filters tuning =
     (let c = \<lparr>dc_durable_name = Some durable, dc_ack_policy = AckPolicyExplicit,
               dc_ack_wait = ct_ack_wait tuning, dc_max_ack_pending = ct_max_ack_pending tuning,
               dc_max_deliver = max_deliver, dc_deliver_policy = DeliverAll,
               dc_replay_policy = ReplayInstant, dc_filter_subject = [], dc_filter_subjects = []\<rparr>
      in case filters of
           [single] \<Rightarrow> c\<lparr>dc_filter_subject := single\<rparr>
         | many \<Rightarrow> c\<lparr>dc_filter_subjects := many\<rparr>)"

definition integration_cmd :: string where "integration_cmd = ''INTEGRATION_CMD''"
definition integration_evt :: string where "integration_evt = ''INTEGRATION_EVT''"

section \<open>The JetStream administration\<close>

datatype ack_kind = AkAck | AkNak "duration option" | AkTerm | AkProgress

text \<open>A message with its subject, payload, reply subject and the delivery count in its info.\<close>

record frame =
  fr_subject :: string
  fr_payload :: string
  fr_reply :: string
  fr_delivered :: "int option"

record ('b, 'c, 'm) jet_admin =
  ja_get_stream :: "string \<Rightarrow> 'b \<Rightarrow> (string list, jetstream_kind \<times> string) result"
  ja_create_consumer :: "string \<Rightarrow> durable_cfg \<Rightarrow> 'b \<Rightarrow> ('c, jetstream_kind \<times> string) result \<times> 'b"
  ja_messages :: "'c \<Rightarrow> 'b \<Rightarrow> ('m, string) result \<times> 'b"
  ja_next :: "'m \<Rightarrow> 'b \<Rightarrow> (frame, messages_kind \<times> string) result option \<times> 'm \<times> 'b"
  ja_ack :: "frame \<Rightarrow> ack_kind \<Rightarrow> 'b \<Rightarrow> (unit, client_publish_kind option \<times> string) result \<times> 'b"

section \<open>Create or bind\<close>

definition ensure_durable_many :: "('b, 'c, 'm) jet_admin \<Rightarrow> string \<Rightarrow> string \<Rightarrow> string list
    \<Rightarrow> consumer_tuning \<Rightarrow> 'b \<Rightarrow> ('c, fabric_error) result \<times> 'b" where
  "ensure_durable_many ja stream durable filters tuning b =
     (if filters = [] \<or> list_all (\<lambda>f. f = []) filters
      then (Err (FabFilterMismatch stream durable [] []), b)
      else (case ja_get_stream ja stream b of
          Err (k, d) \<Rightarrow> (Err (FabConsume (classify_get_stream k) d), b)
        | Ok _ \<Rightarrow> (case ja_create_consumer ja stream (durable_config durable filters tuning) b of
            (Err (k, d), b') \<Rightarrow> (Err (FabConsume (classify_create_consumer k) d), b')
          | (Ok c, b') \<Rightarrow> (Ok c, b'))))"

definition ensure_durable :: "('b, 'c, 'm) jet_admin \<Rightarrow> string \<Rightarrow> string \<Rightarrow> string
    \<Rightarrow> consumer_tuning \<Rightarrow> 'b \<Rightarrow> ('c, fabric_error) result \<times> 'b" where
  "ensure_durable ja stream durable filter0 tuning b =
     ensure_durable_many ja stream durable [filter0] tuning b"

definition ensure_command_durable_with where
  "ensure_command_durable_with ja coords durable tuning b =
     discard (ensure_durable ja integration_cmd durable (command_subject coords) tuning b)"

definition ensure_command_durable where
  "ensure_command_durable ja coords durable b =
     ensure_command_durable_with ja coords durable tuning_default b"

definition ensure_event_durable_with where
  "ensure_event_durable_with ja coords durable tuning b =
     discard (ensure_durable ja integration_evt durable (event_subject coords) tuning b)"

definition ensure_event_durable where
  "ensure_event_durable ja coords durable b =
     ensure_event_durable_with ja coords durable tuning_default b"

section \<open>Verification\<close>

definition verify_stream_covers :: "('b, 'c, 'm) jet_admin \<Rightarrow> string \<Rightarrow> string \<Rightarrow> 'b
    \<Rightarrow> (unit, fabric_error) result" where
  "verify_stream_covers ja stream subject b =
     (case ja_get_stream ja stream b of
        Err (k, d) \<Rightarrow> Err (FabConsume (classify_get_stream k) d)
      | Ok configured \<Rightarrow>
          if subject_covered configured subject then Ok ()
          else Err (FabSubjectNotCovered stream subject configured))"

definition verify_command_durable where
  "verify_command_durable ja coords (durable :: string) b =
     verify_stream_covers ja integration_cmd (command_subject coords) b"

definition verify_event_durable where
  "verify_event_durable ja coords (durable :: string) b =
     verify_stream_covers ja integration_evt (event_subject coords) b"

section \<open>The pull source of the managed loop\<close>

record 'm pull_source =
  ps_messages :: 'm
  ps_stream :: string
  ps_durable :: string
  ps_filter :: string
  ps_tuning :: consumer_tuning

definition open_messages :: "('b, 'c, 'm) jet_admin \<Rightarrow> 'c \<Rightarrow> 'b \<Rightarrow> ('m, fabric_error) result \<times> 'b" where
  "open_messages ja c b = (case ja_messages ja c b of
     (Err d, b') \<Rightarrow> (Err (FabConsume ConOther d), b')
   | (Ok m, b') \<Rightarrow> (Ok m, b'))"

definition pull_open :: "('b, 'c, 'm) jet_admin \<Rightarrow> 'c \<Rightarrow> string \<Rightarrow> string \<Rightarrow> string \<Rightarrow> consumer_tuning
    \<Rightarrow> 'b \<Rightarrow> ('m pull_source, fabric_error) result \<times> 'b" where
  "pull_open ja c stream durable filter0 tuning b =
     (case open_messages ja c b of
        (Err e, b') \<Rightarrow> (Err e, b')
      | (Ok m, b') \<Rightarrow> (Ok \<lparr>ps_messages = m, ps_stream = stream, ps_durable = durable,
                           ps_filter = filter0, ps_tuning = tuning\<rparr>, b'))"

definition pull_next :: "('b, 'c, 'm) jet_admin \<Rightarrow> 'm pull_source \<times> 'b
    \<Rightarrow> (frame, fabric_error) result option \<times> 'm pull_source \<times> 'b" where
  "pull_next ja s = (case ja_next ja (ps_messages (fst s)) (snd s) of
     (r, m, b') \<Rightarrow>
       (case r of
          None \<Rightarrow> None
        | Some (Ok f) \<Rightarrow> Some (Ok f)
        | Some (Err (k, d)) \<Rightarrow> Some (Err (FabConsume (classify_messages_error k) d)),
        (fst s)\<lparr>ps_messages := m\<rparr>, b'))"

definition pull_rebind :: "('b, 'c, 'm) jet_admin \<Rightarrow> 'm pull_source \<times> 'b
    \<Rightarrow> (unit, fabric_error) result \<times> 'm pull_source \<times> 'b" where
  "pull_rebind ja s =
     (case ensure_durable ja (ps_stream (fst s)) (ps_durable (fst s)) (ps_filter (fst s))
             (ps_tuning (fst s)) (snd s) of
        (Err e, b') \<Rightarrow> (Err e, fst s, b')
      | (Ok c, b') \<Rightarrow> (case open_messages ja c b' of
          (Err e, b'') \<Rightarrow> (Err e, fst s, b'')
        | (Ok m, b'') \<Rightarrow> (Ok (), (fst s)\<lparr>ps_messages := m\<rparr>, b'')))"

definition pull_ack :: "('b, 'c, 'm) jet_admin \<Rightarrow> frame \<Rightarrow> ack_kind \<Rightarrow> 'm pull_source \<times> 'b
    \<Rightarrow> (unit, string) result \<times> 'm pull_source \<times> 'b" where
  "pull_ack ja f k s = (case ja_ack ja f k (snd s) of
     (Err e, b') \<Rightarrow> (Err (snd e), fst s, b') | (Ok _, b') \<Rightarrow> (Ok (), fst s, b'))"

text \<open>The errors of a re-bind: a missing stream, an unclassified failure, or no filter.\<close>

lemma ensure_durable_many_Err:
  "ensure_durable_many ja stream durable filters tuning b = (Err e, b') \<Longrightarrow>
     (\<exists>d. e = FabConsume ConNoStream d \<or> e = FabConsume ConOther d) \<or>
     e = FabFilterMismatch stream durable [] []"
  by (auto simp: ensure_durable_many_def classify_get_stream_def classify_create_consumer_def
      split: if_splits sum.splits prod.splits jetstream_kind.splits)

lemma pull_rebind_Err:
  "pull_rebind ja s = (Err e, s') \<Longrightarrow> (\<exists>d. e = FabConsume ConNoStream d \<or> e = FabConsume ConOther d) \<or>
     e = FabFilterMismatch (ps_stream (fst s)) (ps_durable (fst s)) [] []"
  by (auto simp: pull_rebind_def ensure_durable_def open_messages_def
      split: sum.splits prod.splits dest!: ensure_durable_many_Err)

section \<open>The explicit consumer\<close>

record 'e delivered =
  dl_message :: frame
  dl_subject :: string
  dl_count :: "int option"
  dl_payload :: "('e, fabric_error) result"

definition decode_payload :: "(string \<Rightarrow> ('e, string) result) \<Rightarrow> string \<Rightarrow> int option \<Rightarrow> string
    \<Rightarrow> ('e, fabric_error) result" where
  "decode_payload from_slice subject count bytes =
     (case count of
        Some _ \<Rightarrow> map_err (FabDecode subject) (from_slice bytes)
      | None \<Rightarrow> Err (FabConsume ConNoDeliveryInfo (''delivery info absent on '' @ quoted subject)))"

definition delivered_decode :: "(string \<Rightarrow> ('e, string) result) \<Rightarrow> frame \<Rightarrow> 'e delivered" where
  "delivered_decode from_slice f = \<lparr>dl_message = f, dl_subject = fr_subject f, dl_count = fr_delivered f,
     dl_payload = decode_payload from_slice (fr_subject f) (fr_delivered f) (fr_payload f)\<rparr>"

definition delivered_apply :: "('b, 'c, 'm) jet_admin \<Rightarrow> 'e delivered \<Rightarrow> ack_kind \<Rightarrow> 'b
    \<Rightarrow> (unit, fabric_error) result \<times> 'b" where
  "delivered_apply ja d k b = (case ja_ack ja (dl_message d) k b of
     (Err (down, m), b') \<Rightarrow> (Err (FabConsume (classify_ack_error down) m), b')
   | (Ok _, b') \<Rightarrow> (Ok (), b'))"

definition delivered_ack where "delivered_ack ja d b = delivered_apply ja d AkAck b"
definition delivered_nak where "delivered_nak ja d delay b = delivered_apply ja d (AkNak delay) b"
definition delivered_term where "delivered_term ja d b = delivered_apply ja d AkTerm b"
definition delivered_progress where "delivered_progress ja d b = delivered_apply ja d AkProgress b"

definition consumer_open_stream :: "('b, 'c, 'm) jet_admin \<Rightarrow> 'c \<Rightarrow> 'b
    \<Rightarrow> ('m, fabric_error) result \<times> 'b" where
  "consumer_open_stream ja c b = (case ja_messages ja c b of
     (Err d, b') \<Rightarrow> (Err (FabConsume ConOther d), b')
   | (Ok m, b') \<Rightarrow> (Ok m, b'))"

definition consumer_recv :: "('b, 'c, 'm) jet_admin \<Rightarrow> (string \<Rightarrow> ('e, string) result) \<Rightarrow> 'm \<Rightarrow> 'b
    \<Rightarrow> ('e delivered option, fabric_error) result \<times> 'm \<times> 'b" where
  "consumer_recv ja from_slice m b = (case ja_next ja m b of
     (r, s') \<Rightarrow> (case r of
        None \<Rightarrow> Ok None
      | Some (Ok f) \<Rightarrow> Ok (Some (delivered_decode from_slice f))
      | Some (Err (k, d)) \<Rightarrow> Err (FabConsume (classify_messages_error k) d), s'))"

definition bind_and_open :: "('b, 'c, 'm) jet_admin \<Rightarrow> ('c, fabric_error) result \<times> 'b
    \<Rightarrow> ('m, fabric_error) result \<times> 'b" where
  "bind_and_open ja bound = (case bound of
     (Err e, b') \<Rightarrow> (Err e, b') | (Ok c, b') \<Rightarrow> consumer_open_stream ja c b')"

definition ensure_command_consumer_with where
  "ensure_command_consumer_with ja coords durable tuning b =
     bind_and_open ja (ensure_durable ja integration_cmd durable (command_subject coords) tuning b)"

definition ensure_command_consumer where
  "ensure_command_consumer ja coords durable b =
     ensure_command_consumer_with ja coords durable tuning_default b"

definition ensure_event_consumer_many_with where
  "ensure_event_consumer_many_with ja coords durable tuning b =
     bind_and_open ja (ensure_durable_many ja integration_evt durable (map event_subject coords) tuning b)"

definition ensure_event_consumer_many where
  "ensure_event_consumer_many ja coords durable b =
     ensure_event_consumer_many_with ja coords durable tuning_default b"

definition ensure_event_consumer_with where
  "ensure_event_consumer_with ja coords durable tuning b =
     ensure_event_consumer_many_with ja [coords] durable tuning b"

definition ensure_event_consumer where
  "ensure_event_consumer ja coords durable b = ensure_event_consumer_many ja [coords] durable b"

text \<open>A frame without delivery info, or whose payload does not decode, is never a payload.\<close>

lemma delivered_payload_iff:
  "dl_payload (delivered_decode from_slice f) = Ok e \<longleftrightarrow>
     fr_delivered f \<noteq> None \<and> from_slice (fr_payload f) = Ok e"
  by (auto simp: delivered_decode_def decode_payload_def split: option.splits)

text \<open>The configuration is the contract row: one filter goes to the single field.\<close>

lemma durable_config_contract:
  "let c = durable_config durable filters tuning in
     dc_ack_policy c = AckPolicyExplicit \<and> dc_max_deliver c = - 1 \<and> dc_deliver_policy c = DeliverAll \<and>
     dc_replay_policy c = ReplayInstant \<and> dc_durable_name c = Some durable \<and>
     (dc_filter_subject c = [] \<or> dc_filter_subjects c = []) \<and>
     (dc_filter_subject c = [] \<longrightarrow> filters \<noteq> [] \<longrightarrow> list_all (\<lambda>f. f \<noteq> []) filters \<longrightarrow>
        dc_filter_subjects c = filters)"
  by (auto simp: durable_config_def max_deliver_def Let_def split: list.splits)

end
