(* ===== verification/Consumer_Loop.thy ===== *)
theory Consumer_Loop
  imports Consumer_Bind
begin

text \<open>
  The managed consumer loop of \<^verbatim>\<open>consumer/run.rs\<close> with its recovery
  (\<^verbatim>\<open>recovery.rs\<close>) and back-off (\<^verbatim>\<open>backoff.rs\<close>). The loop never
  has to end, so it is a step function iterated with fuel; one step is one turn of the
  \<^verbatim>\<open>loop\<close> of \<^verbatim>\<open>run_inner\<close> or of \<^verbatim>\<open>recover\<close>. The state carries a log of the calls the
  loop made and of the errors its source reported, in order; the log decides nothing.
\<close>

section \<open>Back-off\<close>

record backoff =
  bo_current :: duration
  bo_initial :: duration
  bo_cap :: duration

definition backoff_new :: "duration \<Rightarrow> duration \<Rightarrow> backoff" where
  "backoff_new initial cap = \<lparr>bo_current = initial, bo_initial = initial, bo_cap = cap\<rparr>"

definition backoff_production :: backoff where
  "backoff_production = backoff_new (from_millis 200) (from_secs 30)"

definition backoff_reset :: "backoff \<Rightarrow> backoff" where
  "backoff_reset b = b\<lparr>bo_current := bo_initial b\<rparr>"

definition next_delay :: "backoff \<Rightarrow> duration \<times> backoff" where
  "next_delay b = (bo_current b,
     b\<lparr>bo_current := min (sat_mul_duration (bo_current b) 2) (bo_cap b)\<rparr>)"

definition backoff_ok :: "backoff \<Rightarrow> bool" where
  "backoff_ok b \<longleftrightarrow> bo_initial b \<le> bo_current b \<and> bo_current b \<le> bo_cap b \<and> bo_cap b \<le> duration_max"

lemma backoff_ok_production [simp]: "backoff_ok backoff_production"
  by (simp add: backoff_ok_def backoff_production_def backoff_new_def from_millis_def from_secs_def
      duration_max_def)

lemma backoff_ok_reset [simp]: "backoff_ok b \<Longrightarrow> backoff_ok (backoff_reset b)"
  by (simp add: backoff_ok_def backoff_reset_def)

lemma backoff_ok_next [simp]: "backoff_ok b \<Longrightarrow> backoff_ok (snd (next_delay b))"
  by (simp add: backoff_ok_def next_delay_def sat_mul_duration_def)

lemma backoff_params [simp]:
  "bo_initial (backoff_reset b) = bo_initial b" "bo_cap (backoff_reset b) = bo_cap b"
  "bo_initial (snd (next_delay b)) = bo_initial b" "bo_cap (snd (next_delay b)) = bo_cap b"
  by (simp_all add: backoff_reset_def next_delay_def)

text \<open>The \<open>n\<close>-th delay in a row: the initial delay doubled \<open>n\<close> times, up to the cap.\<close>

lemma backoff_nth_delay:
  assumes "bo_initial b \<le> bo_cap b" and "bo_cap b \<le> duration_max" and "bo_current b = bo_initial b"
  shows "bo_current (((\<lambda>b. snd (next_delay b)) ^^ n) b) = min (bo_initial b * 2 ^ n) (bo_cap b)"
proof -
  have par: "bo_initial (((\<lambda>b. snd (next_delay b)) ^^ n) b) = bo_initial b \<and>
    bo_cap (((\<lambda>b. snd (next_delay b)) ^^ n) b) = bo_cap b" for n
    by (induction n) auto
  show ?thesis
  proof (induction n)
    case 0
    with assms show ?case by simp
  next
    case (Suc n)
    have "bo_current (((\<lambda>b. snd (next_delay b)) ^^ Suc n) b) =
        min (min (min (bo_initial b * 2 ^ n) (bo_cap b) * 2) duration_max) (bo_cap b)"
      using Suc par [of n] by (simp add: next_delay_def sat_mul_duration_def)
    with assms(2) show ?case
      by (auto simp: min_def)
  qed
qed

section \<open>Recovery decisions\<close>

definition other_failure_budget :: nat where
  "other_failure_budget = 10"

fun should_recover :: "fabric_error \<Rightarrow> bool" where
  "should_recover (FabConsume ConHeartbeatMissed _) = True"
| "should_recover (FabConsume ConNoResponders _) = True"
| "should_recover (FabConsume ConOther _) = True"
| "should_recover _ = False"

fun counts_against_budget :: "fabric_error \<Rightarrow> bool" where
  "counts_against_budget (FabConsume ConOther _) = True"
| "counts_against_budget _ = False"

lemma counts_should_recover: "counts_against_budget e \<Longrightarrow> should_recover e"
  by (cases e rule: counts_against_budget.cases) auto

record recovery =
  rc_backoff :: backoff
  rc_other_failures :: nat

definition recovery_new :: "backoff \<Rightarrow> recovery" where
  "recovery_new b = \<lparr>rc_backoff = b, rc_other_failures = 0\<rparr>"

definition note_delivery :: "recovery \<Rightarrow> recovery" where
  "note_delivery r = \<lparr>rc_backoff = backoff_reset (rc_backoff r), rc_other_failures = 0\<rparr>"

section \<open>The loop\<close>

record 'e delivery =
  dv_subject :: string
  dv_envelope :: 'e

text \<open>
  What the loop is given: the message source, the decoder of envelopes, and the handler and the
  poison callback, which share the mutable environment \<open>'h\<close> of the caller's closures.
\<close>

record ('s, 'e, 'h) consumer_loop =
  cl_next :: "'s \<Rightarrow> (frame, fabric_error) result option \<times> 's"
  cl_rebind :: "'s \<Rightarrow> (unit, fabric_error) result \<times> 's"
  cl_ack :: "frame \<Rightarrow> ack_kind \<Rightarrow> 's \<Rightarrow> (unit, string) result \<times> 's"
  cl_decode :: "string \<Rightarrow> ('e, string) result"
  cl_handler :: "'e delivery \<Rightarrow> 'h \<Rightarrow> message_outcome \<times> 'h"
  cl_poison :: "fabric_error \<Rightarrow> 'h \<Rightarrow> 'h"

datatype loop_event =
  EvTook frame | EvHandled frame message_outcome | EvAcked frame ack_kind | EvPoison fabric_error
| EvFailed fabric_error | EvSlept duration | EvRebind "(unit, fabric_error) result"

datatype loop_mode = Polling | Recovering fabric_error

record ('s, 'h) loop_state =
  ls_source :: 's
  ls_env :: 'h
  ls_recovery :: recovery
  ls_mode :: loop_mode
  ls_log :: "loop_event list"

fun ack_kind_of :: "message_outcome \<Rightarrow> ack_kind" where
  "ack_kind_of OAck = AkAck"
| "ack_kind_of (ONak d) = AkNak d"
| "ack_kind_of OTerm = AkTerm"

text \<open>The acknowledgement of a frame; its failure is logged and otherwise ignored.\<close>

definition apply_ack :: "('s, 'e, 'h) consumer_loop \<Rightarrow> frame \<Rightarrow> ack_kind \<Rightarrow> ('s, 'h) loop_state
    \<Rightarrow> ('s, 'h) loop_state" where
  "apply_ack L f k s = s\<lparr>ls_source := snd (cl_ack L f k (ls_source s)),
     ls_log := ls_log s @ [EvAcked f k]\<rparr>"

definition handle_frame :: "('s, 'e, 'h) consumer_loop \<Rightarrow> frame \<Rightarrow> ('s, 'h) loop_state
    \<Rightarrow> ('s, 'h) loop_state" where
  "handle_frame L f s =
     (case cl_decode L (fr_payload f) of
        Ok envelope \<Rightarrow>
          (let s1 = s\<lparr>ls_recovery := note_delivery (ls_recovery s)\<rparr>;
               (oc, h) = cl_handler L \<lparr>dv_subject = fr_subject f, dv_envelope = envelope\<rparr> (ls_env s1);
               s2 = s1\<lparr>ls_env := h, ls_log := ls_log s1 @ [EvHandled f oc]\<rparr>
           in apply_ack L f (ack_kind_of oc) s2)
      | Err decode_err \<Rightarrow>
          (let s1 = apply_ack L f AkTerm s;
               e = FabDecode (fr_subject f) decode_err
           in s1\<lparr>ls_env := cl_poison L e (ls_env s1), ls_log := ls_log s1 @ [EvPoison e]\<rparr>))"

text \<open>One turn of the recovery loop on its current error.\<close>

definition recover_step :: "('s, 'e, 'h) consumer_loop \<Rightarrow> fabric_error \<Rightarrow> ('s, 'h) loop_state
    \<Rightarrow> (unit, fabric_error) result option \<times> ('s, 'h) loop_state" where
  "recover_step L current s =
     (let r = ls_recovery s;
          r1 = (if counts_against_budget current
                then r\<lparr>rc_other_failures := rc_other_failures r + 1\<rparr> else r)
      in if counts_against_budget current \<and> other_failure_budget < rc_other_failures r1
         then (Some (Err current), s\<lparr>ls_recovery := r1\<rparr>)
         else (let (delay, bo) = next_delay (rc_backoff r1);
                   (res, src) = cl_rebind L (ls_source s);
                   s1 = s\<lparr>ls_recovery := r1\<lparr>rc_backoff := bo\<rparr>, ls_source := src,
                          ls_log := ls_log s @ [EvSlept delay, EvRebind res]\<rparr>
               in case res of
                    Ok _ \<Rightarrow> (None, s1\<lparr>ls_mode := Polling\<rparr>)
                  | Err e \<Rightarrow> if should_recover e then (None, s1\<lparr>ls_mode := Recovering e\<rparr>)
                            else (Some (Err e), s1)))"

definition poll_step :: "('s, 'e, 'h) consumer_loop \<Rightarrow> ('s, 'h) loop_state
    \<Rightarrow> (unit, fabric_error) result option \<times> ('s, 'h) loop_state" where
  "poll_step L s =
     (case cl_next L (ls_source s) of
        (None, src) \<Rightarrow> (Some (Ok ()), s\<lparr>ls_source := src\<rparr>)
      | (Some (Err e), src) \<Rightarrow>
          (let s1 = s\<lparr>ls_source := src, ls_log := ls_log s @ [EvFailed e]\<rparr>
           in if should_recover e then (None, s1\<lparr>ls_mode := Recovering e\<rparr>) else (Some (Err e), s1))
      | (Some (Ok f), src) \<Rightarrow>
          (None, handle_frame L f (s\<lparr>ls_source := src, ls_log := ls_log s @ [EvTook f]\<rparr>)))"

definition loop_step :: "('s, 'e, 'h) consumer_loop \<Rightarrow> ('s, 'h) loop_state
    \<Rightarrow> (unit, fabric_error) result option \<times> ('s, 'h) loop_state" where
  "loop_step L s = (case ls_mode s of
     Polling \<Rightarrow> poll_step L s | Recovering e \<Rightarrow> recover_step L e s)"

fun loop_run :: "('s, 'e, 'h) consumer_loop \<Rightarrow> nat \<Rightarrow> ('s, 'h) loop_state
    \<Rightarrow> (unit, fabric_error) result option \<times> ('s, 'h) loop_state" where
  "loop_run L 0 s = (None, s)"
| "loop_run L (Suc n) s = (case loop_step L s of
     (Some r, s') \<Rightarrow> (Some r, s') | (None, s') \<Rightarrow> loop_run L n s')"

definition run_inner :: "('s, 'e, 'h) consumer_loop \<Rightarrow> nat \<Rightarrow> backoff \<Rightarrow> 's \<Rightarrow> 'h
    \<Rightarrow> (unit, fabric_error) result option \<times> ('s, 'h) loop_state" where
  "run_inner L fuel bo src h = loop_run L fuel \<lparr>ls_source = src, ls_env = h,
     ls_recovery = recovery_new bo, ls_mode = Polling, ls_log = []\<rparr>"

section \<open>The public entry points\<close>

definition pull_loop :: "('b, 'c, 'm) jet_admin \<Rightarrow> (string \<Rightarrow> ('e, string) result)
    \<Rightarrow> ('e delivery \<Rightarrow> 'h \<Rightarrow> message_outcome \<times> 'h) \<Rightarrow> (fabric_error \<Rightarrow> 'h \<Rightarrow> 'h)
    \<Rightarrow> ('m pull_source \<times> 'b, 'e, 'h) consumer_loop" where
  "pull_loop ja from_slice handler poison =
     \<lparr>cl_next = pull_next ja, cl_rebind = pull_rebind ja, cl_ack = pull_ack ja,
      cl_decode = from_slice, cl_handler = handler, cl_poison = poison\<rparr>"

definition run_durable :: "('b, 'c, 'm) jet_admin \<Rightarrow> (string \<Rightarrow> ('e, string) result) \<Rightarrow> nat \<Rightarrow> string
    \<Rightarrow> string \<Rightarrow> string \<Rightarrow> consumer_tuning \<Rightarrow> ('e delivery \<Rightarrow> 'h \<Rightarrow> message_outcome \<times> 'h)
    \<Rightarrow> (fabric_error \<Rightarrow> 'h \<Rightarrow> 'h) \<Rightarrow> 'h \<Rightarrow> 'b \<Rightarrow> (unit, fabric_error) result option \<times> 'h \<times> 'b" where
  "run_durable ja from_slice fuel stream filter0 durable tuning handler poison h b =
     (case ensure_durable ja stream durable filter0 tuning b of
        (Err e, b1) \<Rightarrow> (Some (Err e), h, b1)
      | (Ok c, b1) \<Rightarrow> (case pull_open ja c stream durable filter0 tuning b1 of
          (Err e, b2) \<Rightarrow> (Some (Err e), h, b2)
        | (Ok src, b2) \<Rightarrow>
            (case run_inner (pull_loop ja from_slice handler poison) fuel backoff_production (src, b2) h of
               (r, s) \<Rightarrow> (r, ls_env s, snd (ls_source s)))))"

definition run_commands_with where
  "run_commands_with ja from_slice fuel coords durable tuning handler poison h b =
     run_durable ja from_slice fuel integration_cmd (command_subject coords) durable tuning
       (handler :: 'a integration_command delivery \<Rightarrow> 'h \<Rightarrow> message_outcome \<times> 'h) poison h b"

definition run_commands where
  "run_commands ja from_slice fuel coords durable handler poison h b =
     run_commands_with ja from_slice fuel coords durable tuning_default handler poison h b"

definition run_events_with where
  "run_events_with ja from_slice fuel coords durable tuning handler poison h b =
     run_durable ja from_slice fuel integration_evt (event_subject coords) durable tuning
       (handler :: 'a integration_event delivery \<Rightarrow> 'h \<Rightarrow> message_outcome \<times> 'h) poison h b"

definition run_events where
  "run_events ja from_slice fuel coords durable handler poison h b =
     run_events_with ja from_slice fuel coords durable tuning_default handler poison h b"

end
