(* ===== verification/Consumer_Correct.thy ===== *)
theory Consumer_Correct
  imports Consumer_Loop
begin

text \<open>
  Properties of the managed consumer loop. A run leaves a history of its calls, through which the
  source and the environment of the closures are threaded: every frame is acknowledged exactly once
  with the verdict its decoding and its handler gave, the delays stay within the back-off's bounds,
  recovery ends within its budget on the pull source, and what the history shows of the reason for
  which the loop returned.
\<close>

section \<open>The log\<close>

text \<open>The verdict an outcome of the handler asks for.\<close>

definition verdict :: "message_outcome \<Rightarrow> ack_kind \<Rightarrow> bool" where
  "verdict oc k \<longleftrightarrow> oc = OAck \<and> k = AkAck \<or> (\<exists>d. oc = ONak d \<and> k = AkNak d) \<or> oc = OTerm \<and> k = AkTerm"

lemma verdict_ack_kind: "verdict oc (ack_kind_of oc)"
  by (cases oc) (simp_all add: verdict_def)

text \<open>
  The histories of a loop that starts with a source and the environment of its closures: the calls it
  has made, in order, and the source and the environment they left. A frame the source gives is
  followed at once by its verdict: the handler is run on what the payload decodes to and its outcome
  is acknowledged, or the frame is terminated and the poison callback is told. No other step touches
  the environment, and none touches the source but the calls that are listed.
\<close>

inductive frame_blocks :: "('s, 'e, 'h) consumer_loop \<Rightarrow> 's \<Rightarrow> 'h \<Rightarrow> loop_event list \<Rightarrow> 's \<Rightarrow> 'h \<Rightarrow> bool"
  for L src0 h0 where
  no_block: "frame_blocks L src0 h0 [] src0 h0"
| handled_block: "frame_blocks L src0 h0 log src h \<Longrightarrow> cl_next L src = (Some (Ok f), src1) \<Longrightarrow>
    cl_decode L (fr_payload f) = Ok e \<Longrightarrow>
    cl_handler L \<lparr>dv_subject = fr_subject f, dv_envelope = e\<rparr> h = (oc, h') \<Longrightarrow>
    verdict oc k \<Longrightarrow> cl_ack L f k src1 = (acked, src2) \<Longrightarrow>
    frame_blocks L src0 h0 (log @ [EvTook f, EvHandled f oc, EvAcked f k]) src2 h'"
| poison_block: "frame_blocks L src0 h0 log src h \<Longrightarrow> cl_next L src = (Some (Ok f), src1) \<Longrightarrow>
    cl_decode L (fr_payload f) = Err d \<Longrightarrow> cl_ack L f AkTerm src1 = (acked, src2) \<Longrightarrow>
    frame_blocks L src0 h0 (log @ [EvTook f, EvAcked f AkTerm, EvPoison (FabDecode (fr_subject f) d)])
      src2 (cl_poison L (FabDecode (fr_subject f) d) h)"
| failed_block: "frame_blocks L src0 h0 log src h \<Longrightarrow> cl_next L src = (Some (Err e), src1) \<Longrightarrow>
    frame_blocks L src0 h0 (log @ [EvFailed e]) src1 h"
| ended_block: "frame_blocks L src0 h0 log src h \<Longrightarrow> cl_next L src = (None, src1) \<Longrightarrow>
    frame_blocks L src0 h0 log src1 h"
| recovery_block: "frame_blocks L src0 h0 log src h \<Longrightarrow> cl_rebind L src = (r, src1) \<Longrightarrow>
    frame_blocks L src0 h0 (log @ [EvSlept d, EvRebind r]) src1 h"

fun taken :: "loop_event list \<Rightarrow> frame list" where
  "taken [] = []"
| "taken (EvTook f # evs) = f # taken evs"
| "taken (_ # evs) = taken evs"

fun acked :: "loop_event list \<Rightarrow> (frame \<times> ack_kind) list" where
  "acked [] = []"
| "acked (EvAcked f k # evs) = (f, k) # acked evs"
| "acked (_ # evs) = acked evs"

fun rebinds :: "loop_event list \<Rightarrow> nat" where
  "rebinds [] = 0"
| "rebinds (EvRebind _ # evs) = Suc (rebinds evs)"
| "rebinds (_ # evs) = rebinds evs"

lemma taken_append [simp]: "taken (xs @ ys) = taken xs @ taken ys"
  by (induction xs rule: taken.induct) auto

lemma acked_append [simp]: "acked (xs @ ys) = acked xs @ acked ys"
  by (induction xs rule: acked.induct) auto

lemma rebinds_append [simp]: "rebinds (xs @ ys) = rebinds xs + rebinds ys"
  by (induction xs rule: rebinds.induct) auto

lemma frame_blocks_acked: "frame_blocks L src h log src' h' \<Longrightarrow> map fst (acked log) = taken log"
  by (induction rule: frame_blocks.induct) auto

text \<open>The history of a state of the loop.\<close>

abbreviation history :: "('s, 'e, 'h) consumer_loop \<Rightarrow> 's \<Rightarrow> 'h \<Rightarrow> ('s, 'h) loop_state \<Rightarrow> bool" where
  "history L src h s \<equiv> frame_blocks L src h (ls_log s) (ls_source s) (ls_env s)"

lemma handle_frame_blocks:
  assumes "frame_blocks L src h log src0 (ls_env s)" and "cl_next L src0 = (Some (Ok f), ls_source s)"
    and "ls_log s = log @ [EvTook f]"
  shows "history L src h (handle_frame L f s)"
proof (cases "cl_decode L (fr_payload f)")
  case (Inl d)
  show ?thesis
    using poison_block [OF assms(1,2) Inl surjective_pairing] by (simp add: handle_frame_def apply_ack_def Let_def Inl assms(3))
next
  case (Inr e)
  obtain oc h' where run: "cl_handler L \<lparr>dv_subject = fr_subject f, dv_envelope = e\<rparr> (ls_env s) = (oc, h')"
    by (cases "cl_handler L \<lparr>dv_subject = fr_subject f, dv_envelope = e\<rparr> (ls_env s)")
  show ?thesis
    using handled_block [OF assms(1,2) Inr run verdict_ack_kind surjective_pairing]
    by (simp add: handle_frame_def apply_ack_def Let_def Inr run assms(3))
qed

lemma poll_step_blocks: "poll_step L s = (r, s') \<Longrightarrow> history L src h s \<Longrightarrow> history L src h s'"
  by (auto simp: poll_step_def Let_def split: prod.splits option.splits sum.splits if_splits
      intro: failed_block ended_block handle_frame_blocks)

lemma recover_step_blocks: "recover_step L e s = (r, s') \<Longrightarrow> history L src h s \<Longrightarrow> history L src h s'"
  by (auto simp: recover_step_def Let_def split: prod.splits sum.splits if_splits intro: recovery_block)

lemma loop_step_blocks: "loop_step L s = (r, s') \<Longrightarrow> history L src h s \<Longrightarrow> history L src h s'"
  by (auto simp: loop_step_def split: loop_mode.splits intro: poll_step_blocks recover_step_blocks)

lemma loop_run_blocks: "loop_run L n s = (r, s') \<Longrightarrow> history L src h s \<Longrightarrow> history L src h s'"
proof (induction n arbitrary: s)
  case 0
  then show ?case by simp
next
  case (Suc n)
  obtain r1 s1 where step: "loop_step L s = (r1, s1)"
    by (cases "loop_step L s")
  then show ?case
    using Suc loop_step_blocks [OF step] by (auto split: option.splits)
qed

lemma run_inner_blocks: "run_inner L fuel bo src h = (r, s) \<Longrightarrow> history L src h s"
  unfolding run_inner_def by (erule loop_run_blocks) (simp add: no_block)

text \<open>C7: at every moment between two turns the loop is at the end of a history: every frame its source gave
  was acknowledged exactly once, in order and before the next one was asked for. A frame that decodes
  was given to the handler, in the environment the earlier frames left, and acknowledged with the
  verdict the handler returned on it; a frame that does not was terminated and reported to the
  poison callback, and the handler never saw it.
\<close>

theorem every_frame_acked_once:
  assumes "run_inner L fuel bo src h = (r, s)"
  shows "frame_blocks L src h (ls_log s) (ls_source s) (ls_env s) \<and> map fst (acked (ls_log s)) = taken (ls_log s)"
  using run_inner_blocks [OF assms] frame_blocks_acked [OF run_inner_blocks [OF assms]] ..

section \<open>Back-off\<close>

definition slept_within :: "backoff \<Rightarrow> loop_event list \<Rightarrow> bool" where
  "slept_within b log \<longleftrightarrow> (\<forall>d. EvSlept d \<in> set log \<longrightarrow> bo_initial b \<le> d \<and> d \<le> bo_cap b)"

definition loop_backoff_ok :: "backoff \<Rightarrow> ('s, 'h) loop_state \<Rightarrow> bool" where
  "loop_backoff_ok b s \<longleftrightarrow> slept_within b (ls_log s) \<and> backoff_ok (rc_backoff (ls_recovery s)) \<and>
     bo_initial (rc_backoff (ls_recovery s)) = bo_initial b \<and>
     bo_cap (rc_backoff (ls_recovery s)) = bo_cap b"

lemma recover_step_backoff:
  "recover_step L e s = (r, s') \<Longrightarrow> loop_backoff_ok b s \<Longrightarrow> loop_backoff_ok b s'"
  by (cases s)
    (auto simp: recover_step_def Let_def case_prod_unfold loop_backoff_ok_def slept_within_def
      split: sum.splits prod.splits if_splits,
     auto simp: next_delay_def backoff_ok_def sat_mul_duration_def)

lemma handle_frame_backoff: "loop_backoff_ok b s \<Longrightarrow> loop_backoff_ok b (handle_frame L f s)"
  by (cases s)
    (auto simp: handle_frame_def apply_ack_def Let_def case_prod_unfold loop_backoff_ok_def
      slept_within_def note_delivery_def split: sum.splits)

lemma poll_step_backoff: "poll_step L s = (r, s') \<Longrightarrow> loop_backoff_ok b s \<Longrightarrow> loop_backoff_ok b s'"
  by (auto simp: poll_step_def Let_def split: prod.splits option.splits sum.splits if_splits
      intro!: handle_frame_backoff) (auto simp: loop_backoff_ok_def slept_within_def)

lemma loop_run_backoff: "loop_run L n s = (r, s') \<Longrightarrow> loop_backoff_ok b s \<Longrightarrow> loop_backoff_ok b s'"
proof (induction n arbitrary: s)
  case 0
  then show ?case by simp
next
  case (Suc n)
  obtain r1 s1 where step: "loop_step L s = (r1, s1)"
    by (cases "loop_step L s")
  then have "loop_backoff_ok b s1"
    using Suc.prems(2) recover_step_backoff poll_step_backoff
    by (auto simp: loop_step_def split: loop_mode.splits) blast+
  with Suc step show ?case
    by (auto split: option.splits)
qed

text \<open>every delay of the managed loop lies between 200 milliseconds and 30 seconds.\<close>

theorem production_delays_bounded:
  assumes "run_inner L fuel backoff_production src h = (r, s)" and "EvSlept d \<in> set (ls_log s)"
  shows "from_millis 200 \<le> d \<and> d \<le> from_secs 30"
proof -
  have "loop_backoff_ok backoff_production s"
    using loop_run_backoff [OF assms(1) [unfolded run_inner_def], of backoff_production]
    by (simp add: loop_backoff_ok_def slept_within_def recovery_new_def)
  with assms(2) show ?thesis
    by (auto simp: loop_backoff_ok_def slept_within_def backoff_production_def backoff_new_def)
qed

section \<open>Recovery\<close>

lemma loop_run_mono:
  "loop_run L n s = (Some r, s') \<Longrightarrow> n \<le> m \<Longrightarrow> loop_run L m s = (Some r, s')"
proof (induction n arbitrary: m s)
  case 0
  then show ?case by simp
next
  case (Suc n)
  obtain m' where "m = Suc m'" and "n \<le> m'"
    using Suc.prems(2) by (cases m) auto
  with Suc show ?case
    by (auto split: prod.splits option.splits)
qed

text \<open>The loop has stopped recovering: it returned, or it polls again.\<close>

definition settled :: "('s, 'e, 'h) consumer_loop \<Rightarrow> nat \<Rightarrow> ('s, 'h) loop_state \<Rightarrow> bool" where
  "settled L n s \<longleftrightarrow> fst (loop_run L n s) \<noteq> None \<or> ls_mode (snd (loop_run L n s)) = Polling"

lemma settled_1:
  "loop_step L s = (r, s') \<Longrightarrow> r \<noteq> None \<or> ls_mode s' = Polling \<Longrightarrow> settled L 1 s"
  by (cases r) (auto simp: settled_def)

lemma settled_Suc: "loop_step L s = (None, s') \<Longrightarrow> settled L n s' \<Longrightarrow> settled L (Suc n) s"
  by (simp add: settled_def)

lemma recover_step_eq:
  assumes "cl_rebind L (ls_source s) = (res, src)"
  shows "recover_step L e s =
    (let r1 = (ls_recovery s)\<lparr>rc_other_failures := rc_other_failures (ls_recovery s)
           + (if counts_against_budget e then 1 else 0)\<rparr>;
         s1 = s\<lparr>ls_source := src, ls_recovery := r1\<lparr>rc_backoff := snd (next_delay (rc_backoff r1))\<rparr>,
                ls_log := ls_log s @ [EvSlept (bo_current (rc_backoff r1)), EvRebind res]\<rparr>
     in if counts_against_budget e \<and> 10 \<le> rc_other_failures (ls_recovery s)
        then (Some (Err e), s\<lparr>ls_recovery := r1\<rparr>)
        else (case res of Ok _ \<Rightarrow> (None, s1\<lparr>ls_mode := Polling\<rparr>)
              | Err e' \<Rightarrow> if should_recover e' then (None, s1\<lparr>ls_mode := Recovering e'\<rparr>)
                         else (Some (Err e'), s1)))"
  by (cases "ls_recovery s")
    (simp add: recover_step_def assms Let_def next_delay_def other_failure_budget_def split: sum.split)

text \<open>
  The interface of a message source, as far as recovery depends on it: of the errors recovery
  retries, a re-bind only yields those that count against the budget.
\<close>

locale message_source =
  fixes rebind :: "'s \<Rightarrow> (unit, fabric_error) result \<times> 's"
  assumes rebind_err: "rebind s = (Err e, s') \<Longrightarrow> should_recover e \<Longrightarrow> counts_against_budget e"
begin

lemma recover_turn:
  assumes "cl_rebind L = rebind" and "ls_mode s = Recovering e" and "loop_step L s = (None, s')"
  shows "ls_mode s' = Polling \<or> (\<exists>e'. ls_mode s' = Recovering e' \<and> counts_against_budget e' \<and>
    rc_other_failures (ls_recovery s') = rc_other_failures (ls_recovery s)
      + (if counts_against_budget e then 1 else 0))"
proof -
  obtain res src where rb: "rebind (ls_source s) = (res, src)"
    by (cases "rebind (ls_source s)")
  then have "cl_rebind L (ls_source s) = (res, src)"
    by (simp add: assms(1))
  note step = assms(3) [unfolded loop_step_def assms(2) loop_mode.case recover_step_eq [OF this]]
  have "counts_against_budget e'" if "res = Err e'" "should_recover e'" for e'
    using rebind_err [of "ls_source s" e' src] rb that by simp
  with step show ?thesis
    by (simp add: Let_def split: if_splits sum.splits) auto
qed

lemma counted_settles:
  "cl_rebind L = rebind \<Longrightarrow> ls_mode s = Recovering e \<Longrightarrow> counts_against_budget e \<Longrightarrow>
     k = 10 - rc_other_failures (ls_recovery s) \<Longrightarrow> \<exists>n \<le> Suc k. settled L n s"
proof (induction k arbitrary: s e)
  case 0
  then have "\<exists>s'. loop_step L s = (Some (Err e), s')"
    by (simp add: loop_step_def recover_step_def other_failure_budget_def Let_def)
  then have "settled L 1 s"
    using settled_1 by fastforce
  then show ?case by (intro exI [of _ 1]) simp
next
  case (Suc k)
  obtain r s' where step: "loop_step L s = (r, s')"
    by (cases "loop_step L s")
  show ?case
  proof (cases r)
    case (Some r0)
    then have "settled L 1 s"
      by (intro settled_1 [OF step]) simp
    then show ?thesis by (intro exI [of _ 1]) simp
  next
    case None
    with step have step: "loop_step L s = (None, s')" by simp
    from recover_turn [OF Suc.prems(1,2) step] show ?thesis
    proof
      assume "ls_mode s' = Polling"
      then have "settled L 1 s"
        by (intro settled_1 [OF step]) simp
      then show ?thesis by (intro exI [of _ 1]) simp
    next
      assume "\<exists>e'. ls_mode s' = Recovering e' \<and> counts_against_budget e' \<and>
        rc_other_failures (ls_recovery s') = rc_other_failures (ls_recovery s)
          + (if counts_against_budget e then 1 else 0)"
      then obtain n where "n \<le> Suc k" and "settled L n s'"
        using Suc.IH [OF Suc.prems(1)] Suc.prems(3,4) by fastforce
      with settled_Suc [OF step] show ?thesis
        by (intro exI [of _ "Suc n"]) simp
    qed
  qed
qed

lemma recovery_settles:
  assumes "cl_rebind L = rebind" and "ls_mode s = Recovering e"
  shows "\<exists>n \<le> 12. settled L n s"
proof (cases "counts_against_budget e")
  case True
  then obtain n where "n \<le> Suc (10 - rc_other_failures (ls_recovery s))" and "settled L n s"
    using counted_settles [OF assms True refl] by blast
  then show ?thesis by (intro exI [of _ n]) simp
next
  case False
  obtain r s' where step: "loop_step L s = (r, s')"
    by (cases "loop_step L s")
  show ?thesis
  proof (cases "r \<noteq> None \<or> ls_mode s' = Polling")
    case True
    then have "settled L 1 s"
      by (rule settled_1 [OF step])
    then show ?thesis by (intro exI [of _ 1]) simp
  next
    case rec: False
    then have step: "loop_step L s = (None, s')"
      using step by simp
    obtain e' where "ls_mode s' = Recovering e'" "counts_against_budget e'"
      using recover_turn [OF assms step] rec by blast
    then obtain n where "n \<le> Suc (10 - rc_other_failures (ls_recovery s'))" and "settled L n s'"
      using counted_settles [OF assms(1) _ _ refl] by blast
    with settled_Suc [OF step] show ?thesis
      by (intro exI [of _ "Suc n"]) simp
  qed
qed

end

interpretation pull: message_source "pull_rebind ja"
  for ja :: "('b, 'c, 'm) jet_admin"
  by unfold_locales (auto dest!: pull_rebind_Err)

text \<open>C19: on the pull source recovery is finite. Whatever the broker answers, within twelve turns the
  loop polls again or has returned the error.
\<close>

theorem recovery_is_finite:
  assumes "ls_mode s = Recovering e"
  shows "\<exists>n \<le> 12. settled (pull_loop ja from_slice handler poison) n s"
  by (rule pull.recovery_settles [OF _ assms]) (simp add: pull_loop_def)

section \<open>How the loop returns\<close>

text \<open>The unclassified failures a history has seen since the last delivery that decoded.\<close>

fun streak_after :: "nat \<Rightarrow> loop_event \<Rightarrow> nat" where
  "streak_after n (EvHandled _ _) = 0"
| "streak_after n (EvFailed (FabConsume ConOther _)) = Suc n"
| "streak_after n (EvRebind (Err (FabConsume ConOther _))) = Suc n"
| "streak_after n _ = n"

definition unclassified_streak :: "loop_event list \<Rightarrow> nat" where
  "unclassified_streak log = foldl streak_after 0 log"

lemma unclassified_streak_simps [simp]:
  "unclassified_streak [] = 0"
  "unclassified_streak (log @ evs) = foldl streak_after (unclassified_streak log) evs"
  by (simp_all add: unclassified_streak_def)

lemma streak_after_failure [simp]:
  "streak_after n (EvFailed e) = n + (if counts_against_budget e then 1 else 0)"
  "streak_after n (EvRebind (Err e)) = n + (if counts_against_budget e then 1 else 0)"
  by (cases e rule: counts_against_budget.cases; simp)+

text \<open>Between two turns the counter is that of the history, but for the error recovery is about to count,
  which is the last thing the source reported.\<close>

definition budget_counted :: "('s, 'h) loop_state \<Rightarrow> bool" where
  "budget_counted s \<longleftrightarrow> rc_other_failures (ls_recovery s) \<le> 10 \<and> (case ls_mode s of
     Polling \<Rightarrow> unclassified_streak (ls_log s) = rc_other_failures (ls_recovery s)
   | Recovering e \<Rightarrow> should_recover e \<and> (\<exists>log. ls_log s = log @ [EvFailed e] \<or> ls_log s = log @ [EvRebind (Err e)]) \<and>
       unclassified_streak (ls_log s) = rc_other_failures (ls_recovery s) + (if counts_against_budget e then 1 else 0))"

lemma budget_counted_new: "budget_counted \<lparr>ls_source = src, ls_env = h, ls_recovery = recovery_new bo,
    ls_mode = Polling, ls_log = []\<rparr>"
  by (simp add: budget_counted_def recovery_new_def)

lemma handle_frame_counted:
  "ls_mode s = Polling \<Longrightarrow> rc_other_failures (ls_recovery s) \<le> 10 \<Longrightarrow>
   unclassified_streak (ls_log s) = rc_other_failures (ls_recovery s) \<Longrightarrow> budget_counted (handle_frame L f s)"
  by (auto simp: handle_frame_def apply_ack_def Let_def case_prod_unfold budget_counted_def note_delivery_def
      split: sum.splits)

lemma poll_step_counted: "poll_step L s = (None, s') \<Longrightarrow> ls_mode s = Polling \<Longrightarrow> budget_counted s \<Longrightarrow> budget_counted s'"
  by (auto simp: poll_step_def Let_def split: prod.splits option.splits sum.splits if_splits
      intro!: handle_frame_counted) (auto simp: budget_counted_def)

lemma recover_step_counted:
  "recover_step L e s = (None, s') \<Longrightarrow> ls_mode s = Recovering e \<Longrightarrow> budget_counted s \<Longrightarrow> budget_counted s'"
  by (cases "cl_rebind L (ls_source s)")
    (auto simp: recover_step_eq Let_def budget_counted_def split: sum.splits if_splits)

lemma loop_step_counted: "loop_step L s = (None, s') \<Longrightarrow> budget_counted s \<Longrightarrow> budget_counted s'"
  by (auto simp: loop_step_def split: loop_mode.splits intro: poll_step_counted recover_step_counted)

text \<open>What a history tells of the error the loop returns after it.\<close>

definition error_justified :: "fabric_error \<Rightarrow> loop_event list \<Rightarrow> bool" where
  "error_justified e log \<longleftrightarrow> (\<exists>before. log = before @ [EvFailed e] \<or> log = before @ [EvRebind (Err e)]) \<and>
     (\<forall>k d. e = FabConsume k d \<and> k \<in> {ConHeartbeatMissed, ConNoResponders, ConOther} \<longrightarrow>
        k = ConOther \<and> unclassified_streak log = 11)"

lemma error_justified_terminal:
  "\<not> should_recover e \<Longrightarrow> log = before @ [EvFailed e] \<or> log = before @ [EvRebind (Err e)] \<Longrightarrow> error_justified e log"
  by (auto simp: error_justified_def)

lemma error_justified_budget:
  assumes "budget_counted s" and "ls_mode s = Recovering e" and "counts_against_budget e"
    and "10 \<le> rc_other_failures (ls_recovery s)"
  shows "error_justified e (ls_log s)"
proof -
  have "unclassified_streak (ls_log s) = 11"
    and "\<exists>log. ls_log s = log @ [EvFailed e] \<or> ls_log s = log @ [EvRebind (Err e)]"
    using assms by (auto simp: budget_counted_def)
  moreover have "\<exists>d. e = FabConsume ConOther d"
    using assms(3) by (cases e rule: counts_against_budget.cases) auto
  ultimately show ?thesis
    by (auto simp: error_justified_def)
qed

lemma loop_step_returns_Err:
  assumes "loop_step L s = (Some (Err e), s')" and "budget_counted s"
  shows "error_justified e (ls_log s')"
proof (cases "ls_mode s")
  case Polling
  then show ?thesis
    using assms(1) by (auto simp: loop_step_def poll_step_def Let_def intro!: error_justified_terminal
        split: prod.splits option.splits sum.splits if_splits)
next
  case (Recovering e0)
  obtain res src where rb: "cl_rebind L (ls_source s) = (res, src)"
    by (cases "cl_rebind L (ls_source s)")
  show ?thesis
    using assms(1) error_justified_budget [OF assms(2) Recovering]
      error_justified_terminal [of e "ls_log s @ [EvSlept (bo_current (rc_backoff (ls_recovery s))), EvRebind res]"
        "ls_log s @ [EvSlept (bo_current (rc_backoff (ls_recovery s)))]"]
    by (auto simp: loop_step_def Recovering recover_step_eq [OF rb] Let_def split: sum.splits if_splits)
qed

lemma loop_step_returns_Ok:
  assumes "loop_step L s = (Some (Ok u), s')"
  shows "cl_next L (ls_source s) = (None, ls_source s') \<and> ls_log s' = ls_log s \<and> ls_env s' = ls_env s"
proof (cases "ls_mode s")
  case Polling
  then show ?thesis
    using assms by (auto simp: loop_step_def poll_step_def Let_def
        split: prod.splits option.splits sum.splits if_splits)
next
  case (Recovering e0)
  then show ?thesis
    using assms by (auto simp: loop_step_def recover_step_def Let_def split: prod.splits sum.splits if_splits)
qed

lemma budget_counted_streak: "budget_counted s \<Longrightarrow> unclassified_streak (ls_log s) \<le> 11"
  by (auto simp: budget_counted_def split: loop_mode.splits if_splits)

lemma loop_run_returns:
  assumes "loop_run L n s = (r, s')" and "history L src h s" and "budget_counted s"
  shows "case r of
      None \<Rightarrow> unclassified_streak (ls_log s') \<le> 11
    | Some (Ok _) \<Rightarrow> \<exists>src1. frame_blocks L src h (ls_log s') src1 (ls_env s') \<and> cl_next L src1 = (None, ls_source s')
    | Some (Err e) \<Rightarrow> error_justified e (ls_log s')"
  using assms
proof (induction n arbitrary: s)
  case 0
  then show ?case using budget_counted_streak by auto
next
  case (Suc n)
  obtain r1 s1 where step: "loop_step L s = (r1, s1)"
    by (cases "loop_step L s")
  show ?case
  proof (cases r1)
    case None
    then show ?thesis
      using Suc step loop_step_blocks [OF step] loop_step_counted [of L s s1] by simp
  next
    case (Some res)
    then have "r = Some res" "s' = s1"
      using Suc.prems(1) step by simp_all
    then show ?thesis
      using step Some Suc.prems(2,3) loop_step_returns_Err [of L s _ s1] loop_step_returns_Ok [of L s _ s1]
      by (cases res) auto
  qed
qed

text \<open>C26: how the loop returns. It returns success only if the source, in the state the calls of its history
  left it in, answered that it has ended. It returns an error only if that is the last thing the
  source reported, and one of the three errors it retries only if it is unclassified and was the
  eleventh unclassified failure since the last delivery that decoded, or since the start; a heartbeat,
  an absent responder, a successful re-bind or a poisoned frame does not end that streak. While it
  runs the streak is not longer than that.
\<close>

theorem loop_return_reasons:
  assumes "run_inner L fuel bo src h = (r, s)"
  shows "case r of
      None \<Rightarrow> unclassified_streak (ls_log s) \<le> 11
    | Some (Ok _) \<Rightarrow> \<exists>src1. frame_blocks L src h (ls_log s) src1 (ls_env s) \<and> cl_next L src1 = (None, ls_source s)
    | Some (Err e) \<Rightarrow> (\<exists>before. ls_log s = before @ [EvFailed e] \<or> ls_log s = before @ [EvRebind (Err e)]) \<and>
        (\<forall>k d. e = FabConsume k d \<and> k \<in> {ConHeartbeatMissed, ConNoResponders, ConOther} \<longrightarrow>
           k = ConOther \<and> unclassified_streak (ls_log s) = 11)"
  using loop_run_returns [OF assms [unfolded run_inner_def] _ budget_counted_new, of src h]
  unfolding error_justified_def by (simp add: no_block)

lemma recovering_outage:
  assumes rb: "\<And>s. \<exists>s'. cl_rebind L s = (Err (FabConsume ConOther d), s')"
  shows "ls_mode s = Recovering (FabConsume ConOther d') \<Longrightarrow>
    rc_other_failures (ls_recovery s) + k = 10 \<Longrightarrow>
    \<exists>s' e. loop_run L (Suc k) s = (Some (Err e), s') \<and> counts_against_budget e \<and>
      rebinds (ls_log s') = rebinds (ls_log s) + k"
proof (induction k arbitrary: s d')
  case 0
  then show ?case
    by (simp add: loop_step_def recover_step_def other_failure_budget_def Let_def)
next
  case (Suc k)
  obtain src where src: "cl_rebind L (ls_source s) = (Err (FabConsume ConOther d), src)"
    using rb by blast
  obtain s1 where "loop_step L s = (None, s1)" and "ls_mode s1 = Recovering (FabConsume ConOther d)"
    and "rc_other_failures (ls_recovery s1) + k = 10" and "rebinds (ls_log s1) = Suc (rebinds (ls_log s))"
    using Suc.prems by (auto simp: loop_step_def recover_step_eq [OF src] Let_def)
  with Suc.IH [of s1 d] show ?case
    by auto
qed

text \<open>C23: during an outage, where every re-bind fails with an unclassified error, the loop gives up
  after exactly ten re-binds if the trigger was unclassified itself, and after eleven if it was a
  missed heartbeat or an absent responder, whose first re-bind is free.
\<close>

theorem outage_exhausts_budget:
  assumes "\<forall>s. \<exists>s'. cl_rebind L s = (Err (FabConsume ConOther d), s')"
    and "cl_next L src = (Some (Err e0), src0)" and "should_recover e0" and "13 \<le> fuel"
  shows "\<exists>e s. run_inner L fuel bo src h = (Some (Err e), s) \<and> counts_against_budget e \<and>
    rebinds (ls_log s) = (if counts_against_budget e0 then 10 else 11)"
proof -
  define s0 where "s0 = \<lparr>ls_source = src0, ls_env = h, ls_recovery = recovery_new bo,
     ls_mode = Recovering e0, ls_log = [EvFailed e0]\<rparr>"
  have first: "run_inner L (Suc n) bo src h = loop_run L n s0" for n
    using assms(2,3) by (simp add: run_inner_def loop_step_def poll_step_def s0_def)
  have zero: "rc_other_failures (ls_recovery s0) = 0" "ls_mode s0 = Recovering e0" "rebinds (ls_log s0) = 0"
    by (simp_all add: s0_def recovery_new_def)
  have "\<exists>n e s. n \<le> 12 \<and> loop_run L n s0 = (Some (Err e), s) \<and> counts_against_budget e \<and>
    rebinds (ls_log s) = (if counts_against_budget e0 then 10 else 11)"
  proof (cases "counts_against_budget e0")
    case True
    then obtain d' where "e0 = FabConsume ConOther d'"
      by (cases e0 rule: counts_against_budget.cases) auto
    with recovering_outage [of L d s0 d' 10] assms(1) zero True show ?thesis
      by (intro exI [of _ 11]) auto
  next
    case False
    obtain src1 where src1: "cl_rebind L (ls_source s0) = (Err (FabConsume ConOther d), src1)"
      using assms(1) by blast
    obtain s1 where "loop_step L s0 = (None, s1)" and "ls_mode s1 = Recovering (FabConsume ConOther d)"
      and "rc_other_failures (ls_recovery s1) + 10 = 10" and "rebinds (ls_log s1) = 1"
      using zero False by (auto simp: loop_step_def recover_step_eq [OF src1] Let_def)
    with recovering_outage [of L d s1 d 10] assms(1) False show ?thesis
      by (intro exI [of _ 12]) (auto simp: numeral_eq_Suc)
  qed
  then obtain n e s where n: "n \<le> 12" "loop_run L n s0 = (Some (Err e), s)" "counts_against_budget e"
    "rebinds (ls_log s) = (if counts_against_budget e0 then 10 else 11)"
    by blast
  obtain m where "fuel = Suc m" and "12 \<le> m"
    using assms(4) by (cases fuel) auto
  with n first [of m] loop_run_mono [OF n(2), of m] show ?thesis
    by auto
qed

text \<open>a source that only misses heartbeats and whose re-binds succeed never makes the loop
  return: the budget counts unclassified errors alone, so this kind of flapping is retried for ever
  without a single delivery.
\<close>

theorem heartbeat_flapping_never_escalates:
  assumes "\<forall>s. \<exists>d s'. cl_next L s = (Some (Err (FabConsume ConHeartbeatMissed d)), s')"
    and "\<forall>s. \<exists>s'. cl_rebind L s = (Ok (), s')"
  shows "fst (run_inner L fuel bo src h) = None"
proof -
  have "fst (loop_run L n s) = None"
    if "ls_mode s = Polling \<or> (\<exists>d. ls_mode s = Recovering (FabConsume ConHeartbeatMissed d))" for n s
    using that
  proof (induction n arbitrary: s)
    case 0
    then show ?case by simp
  next
    case (Suc n)
    obtain d src1 where next1: "cl_next L (ls_source s) = (Some (Err (FabConsume ConHeartbeatMissed d)), src1)"
      using assms(1) by blast
    obtain src2 where rb: "cl_rebind L (ls_source s) = (Ok (), src2)"
      using assms(2) by blast
    from Suc.prems show ?case
    proof
      assume "ls_mode s = Polling"
      then have "loop_step L s = (None, s\<lparr>ls_source := src1,
          ls_log := ls_log s @ [EvFailed (FabConsume ConHeartbeatMissed d)],
          ls_mode := Recovering (FabConsume ConHeartbeatMissed d)\<rparr>)"
        by (simp add: loop_step_def poll_step_def next1)
      then show ?thesis
        using Suc.IH by simp
    next
      assume "\<exists>d. ls_mode s = Recovering (FabConsume ConHeartbeatMissed d)"
      then obtain s' where "loop_step L s = (None, s')" and "ls_mode s' = Polling"
        by (auto simp: loop_step_def recover_step_eq [OF rb] Let_def)
      then show ?thesis
        using Suc.IH by simp
    qed
  qed
  then show ?thesis
    by (simp add: run_inner_def)
qed

section \<open>Witnesses\<close>

text \<open>A scripted source: it delivers the results of a list, then ends; its broker is down.\<close>

definition script_loop :: "((frame, fabric_error) result list, string, nat) consumer_loop" where
  "script_loop = \<lparr>
     cl_next = (\<lambda>s. case s of [] \<Rightarrow> (None, []) | x # xs \<Rightarrow> (Some x, xs)),
     cl_rebind = (\<lambda>s. (Err (FabConsume ConOther ''down''), s)),
     cl_ack = (\<lambda>f k s. (Ok (), s)),
     cl_decode = (\<lambda>p. if p = [] then Err ''EOF'' else Ok p),
     cl_handler = (\<lambda>d h. (OAck, Suc h)), cl_poison = (\<lambda>e h. h)\<rparr>"

definition script_frame :: "string \<Rightarrow> frame" where
  "script_frame p = \<lparr>fr_subject = ''s'', fr_payload = p, fr_reply = ''r'', fr_delivered = Some 1\<rparr>"

definition flapping_loop :: "(unit, string, nat) consumer_loop" where
  "flapping_loop = \<lparr>
     cl_next = (\<lambda>s. (Some (Err (FabConsume ConHeartbeatMissed ''idle'')), s)),
     cl_rebind = (\<lambda>s. (Ok (), s)), cl_ack = (\<lambda>f k s. (Ok (), s)), cl_decode = Ok,
     cl_handler = (\<lambda>d h. (OAck, h)), cl_poison = (\<lambda>e h. h)\<rparr>"

theorem every_frame_acked_once_witness:
  "\<exists>r s. run_inner script_loop 3 backoff_production [Ok (script_frame ''x''), Ok (script_frame [])] 0
     = (r, s) \<and> frame_blocks script_loop [Ok (script_frame ''x''), Ok (script_frame [])] 0 (ls_log s) (ls_source s) (ls_env s)
     \<and> map fst (acked (ls_log s)) = taken (ls_log s)"
proof -
  obtain r s where run: "run_inner script_loop 3 backoff_production
      [Ok (script_frame ''x''), Ok (script_frame [])] 0 = (r, s)"
    by fastforce
  with every_frame_acked_once [OF run] show ?thesis by blast
qed

theorem production_delays_bounded_witness: "from_millis 200 \<le> from_millis 200 \<and> from_millis 200 \<le> from_secs 30"
proof -
  obtain r s where run: "run_inner script_loop 2 backoff_production
      [Err (FabConsume ConNoResponders [])] 0 = (r, s)"
    by fastforce
  then have "EvSlept (from_millis 200) \<in> set (ls_log s)"
    by (auto simp: run_inner_def numeral_2_eq_2 loop_step_def poll_step_def recover_step_def
        script_loop_def next_delay_def Let_def recovery_new_def backoff_production_def backoff_new_def
        other_failure_budget_def)
  from production_delays_bounded [OF run this] show ?thesis .
qed

definition absent_admin :: "(unit, unit, unit) jet_admin" where
  "absent_admin = \<lparr>ja_get_stream = (\<lambda>_ _. Err (JetStream StreamNotFoundCode, ''stream not found'')),
     ja_create_consumer = (\<lambda>_ _ b. (Ok (), b)), ja_messages = (\<lambda>_ b. (Ok (), b)),
     ja_next = (\<lambda>_ b. (None, (), b)), ja_ack = (\<lambda>_ _ b. (Ok (), b))\<rparr>"

theorem recovery_is_finite_witness:
  "\<exists>n \<le> 12. settled (pull_loop absent_admin Ok (\<lambda>d h. (OAck, Suc h)) (\<lambda>e h. h)) n
     \<lparr>ls_source = (\<lparr>ps_messages = (), ps_stream = integration_evt, ps_durable = ''d'',
        ps_filter = ''f'', ps_tuning = tuning_default\<rparr>, ()), ls_env = 0,
      ls_recovery = recovery_new backoff_production,
      ls_mode = Recovering (FabConsume ConNoResponders []), ls_log = []\<rparr>"
  by (rule recovery_is_finite) simp

theorem loop_return_reasons_witness:
  "unclassified_streak (ls_log (snd (run_inner script_loop 12 backoff_production [Err (FabConsume ConOther [])] 0))) = 11"
proof -
  let ?run = "run_inner script_loop 12 backoff_production [Err (FabConsume ConOther [])] 0"
  define s1 :: "((frame, fabric_error) result list, nat) loop_state" where
    "s1 = \<lparr>ls_source = [], ls_env = 0, ls_recovery = recovery_new backoff_production,
       ls_mode = Recovering (FabConsume ConOther []), ls_log = [EvFailed (FabConsume ConOther [])]\<rparr>"
  have "run_inner script_loop (Suc n) backoff_production [Err (FabConsume ConOther [])] 0 = loop_run script_loop n s1" for n
    by (simp add: run_inner_def loop_step_def poll_step_def script_loop_def s1_def)
  from this [of 11] have start: "?run = loop_run script_loop 11 s1"
    by simp
  have down: "\<exists>s'. cl_rebind script_loop s = (Err (FabConsume ConOther ''down''), s')" for s
    by (simp add: script_loop_def)
  obtain e where run: "fst ?run = Some (Err e)" and "counts_against_budget e"
    using recovering_outage [OF down, of s1 "[]" 10] by (auto simp: start s1_def recovery_new_def)
  moreover from this obtain d where "e = FabConsume ConOther d"
    by (cases e rule: counts_against_budget.cases) auto
  ultimately have "?run = (Some (Err (FabConsume ConOther d)), snd ?run)"
    by (simp add: prod_eq_iff)
  from loop_return_reasons [OF this] show ?thesis by simp
qed

theorem outage_exhausts_budget_witness:
  "\<exists>e s. run_inner script_loop 13 backoff_production [Err (FabConsume ConNoResponders [])] 0
     = (Some (Err e), s) \<and> counts_against_budget e \<and> rebinds (ls_log s) = 11"
  using outage_exhausts_budget [of script_loop "''down''" "[Err (FabConsume ConNoResponders [])]"
      "FabConsume ConNoResponders []" "[]" 13 backoff_production 0]
  by (simp add: script_loop_def)

theorem heartbeat_flapping_never_escalates_witness:
  "fst (run_inner flapping_loop 1000 backoff_production () 0) = None"
  by (rule heartbeat_flapping_never_escalates) (auto simp: flapping_loop_def)

end
