(* ===== verification/Kv_Store.thy ===== *)
theory Kv_Store
  imports Fabric Kv_Key
begin

text \<open>
  The key-value surfaces of \<^verbatim>\<open>br-util-nats-fabric/src/kv\<close>: codec, scans, the
  revision-checked operations, the reconciliation plan and the publisher, reader and
  ephemeral-auth stores. The bucket is a parameter: a record of its operations over an abstract
  state, which can hold other writers and faults. \<open>enc\<close> and \<open>dec\<close> are the serde
  functions of the value type.
\<close>

section \<open>The bucket\<close>

datatype kv_operation = OpPut | OpDelete | OpPurge

record kv_entry =
  ke_key :: string
  ke_value :: string
  ke_revision :: u64
  ke_operation :: kv_operation

datatype update_error_kind = WrongLastRevision | UpdateOtherKind nat
datatype create_error_kind = AlreadyExists | CreateOtherKind nat

record 's kv_bucket =
  kb_entry :: "string \<Rightarrow> 's \<Rightarrow> (kv_entry option, string) result \<times> 's"
  kb_get :: "string \<Rightarrow> 's \<Rightarrow> (string option, string) result \<times> 's"
  kb_keys :: "'s \<Rightarrow> ((string, string) result list, string) result \<times> 's"
  kb_put :: "string \<Rightarrow> string \<Rightarrow> 's \<Rightarrow> (u64, string) result \<times> 's"
  kb_create :: "string \<Rightarrow> string \<Rightarrow> 's \<Rightarrow> (u64, create_error_kind \<times> string) result \<times> 's"
  kb_create_ttl :: "string \<Rightarrow> string \<Rightarrow> duration \<Rightarrow> 's \<Rightarrow> (u64, create_error_kind \<times> string) result \<times> 's"
  kb_update :: "string \<Rightarrow> string \<Rightarrow> u64 \<Rightarrow> 's \<Rightarrow> (u64, update_error_kind \<times> string) result \<times> 's"
  kb_delete :: "string \<Rightarrow> 's \<Rightarrow> (unit, string) result \<times> 's"
  kb_delete_expect :: "string \<Rightarrow> u64 option \<Rightarrow> 's \<Rightarrow> (unit, update_error_kind \<times> string) result \<times> 's"
  kb_status :: "'s \<Rightarrow> (unit, string) result \<times> 's"
  kb_watch_all :: "'s \<Rightarrow> ((kv_entry, string) result list, string) result \<times> 's"

definition kv_published_language :: string where "kv_published_language = ''PUBLISHED_LANGUAGE''"
definition kv_ephemeral_auth :: string where "kv_ephemeral_auth = ''EPHEMERAL_AUTH''"

text \<open>Opening a surface looks its fixed bucket up and never creates it.\<close>

definition open_bucket :: "(string \<Rightarrow> ('b, string) result) \<Rightarrow> string \<Rightarrow> ('b, fabric_error) result" where
  "open_bucket get_key_value name = map_err FabKv (get_key_value name)"

section \<open>Codec\<close>

type_synonym 'v encoder = "'v \<Rightarrow> (string, string) result"
type_synonym 'v bytes_decoder = "string \<Rightarrow> ('v, string) result"

definition kv_encode :: "'v encoder \<Rightarrow> 'v \<Rightarrow> (string, fabric_error) result" where
  "kv_encode enc v = map_err FabSerialization (enc v)"

definition kv_decode :: "'v bytes_decoder \<Rightarrow> string \<Rightarrow> string \<Rightarrow> ('v, fabric_error) result" where
  "kv_decode dec key bytes = map_err (FabDecode key) (dec bytes)"

section \<open>Revisions\<close>

datatype revision = Revision (revision_get: u64)

fun map_revision_error :: "kv_key \<Rightarrow> revision \<Rightarrow> update_error_kind \<Rightarrow> string \<Rightarrow> fabric_error" where
  "map_revision_error key expected WrongLastRevision d =
     FabRevisionConflict (kv_str key) (revision_get expected)"
| "map_revision_error key expected (UpdateOtherKind _) d = FabKv d"

fun map_create_error :: "kv_key \<Rightarrow> create_error_kind \<Rightarrow> string \<Rightarrow> fabric_error" where
  "map_create_error key AlreadyExists d = FabKeyAlreadyExists (kv_str key)"
| "map_create_error key (CreateOtherKind _) d = FabKv d"

definition read_with_revision :: "'s kv_bucket \<Rightarrow> 'v bytes_decoder \<Rightarrow> kv_key \<Rightarrow> 's
    \<Rightarrow> (('v \<times> revision) option, fabric_error) result \<times> 's" where
  "read_with_revision kv dec key s = (case kb_entry kv (kv_str key) s of
     (Err d, s') \<Rightarrow> (Err (FabKv d), s')
   | (Ok None, s') \<Rightarrow> (Ok None, s')
   | (Ok (Some entry), s') \<Rightarrow>
       (if ke_operation entry \<in> {OpDelete, OpPurge} then (Ok None, s')
        else (case kv_decode dec (kv_str key) (ke_value entry) of
            Err e \<Rightarrow> (Err e, s')
          | Ok v \<Rightarrow> (Ok (Some (v, Revision (ke_revision entry))), s'))))"

definition create_absent :: "'s kv_bucket \<Rightarrow> 'v encoder \<Rightarrow> kv_key \<Rightarrow> 'v \<Rightarrow> 's
    \<Rightarrow> (revision, fabric_error) result \<times> 's" where
  "create_absent kv enc key v s = (case kv_encode enc v of
     Err e \<Rightarrow> (Err e, s)
   | Ok bytes \<Rightarrow> (case kb_create kv (kv_str key) bytes s of
       (Ok r, s') \<Rightarrow> (Ok (Revision r), s')
     | (Err (k, d), s') \<Rightarrow> (Err (map_create_error key k d), s')))"

definition update_expecting :: "'s kv_bucket \<Rightarrow> 'v encoder \<Rightarrow> kv_key \<Rightarrow> 'v \<Rightarrow> revision \<Rightarrow> 's
    \<Rightarrow> (revision, fabric_error) result \<times> 's" where
  "update_expecting kv enc key v expected s = (case kv_encode enc v of
     Err e \<Rightarrow> (Err e, s)
   | Ok bytes \<Rightarrow> (case kb_update kv (kv_str key) bytes (revision_get expected) s of
       (Ok r, s') \<Rightarrow> (Ok (Revision r), s')
     | (Err (k, d), s') \<Rightarrow> (Err (map_revision_error key expected k d), s')))"

definition delete_expecting :: "'s kv_bucket \<Rightarrow> kv_key \<Rightarrow> revision \<Rightarrow> 's
    \<Rightarrow> (unit, fabric_error) result \<times> 's" where
  "delete_expecting kv key expected s =
     (case kb_delete_expect kv (kv_str key) (Some (revision_get expected)) s of
       (Ok _, s') \<Rightarrow> (Ok (), s')
     | (Err (k, d), s') \<Rightarrow> (Err (map_revision_error key expected k d), s'))"

section \<open>Scans\<close>

text \<open>The loops over the key stream, with the entries and keys collected so far.\<close>

fun scan_entries_loop :: "'s kv_bucket \<Rightarrow> 'v bytes_decoder \<Rightarrow> kv_prefix \<Rightarrow> (string, string) result list
    \<Rightarrow> (kv_key, 'v) bmap \<Rightarrow> 's \<Rightarrow> ((kv_key, 'v) bmap, fabric_error) result \<times> 's" where
  "scan_entries_loop kv dec p [] entries s = (Ok entries, s)"
| "scan_entries_loop kv dec p (k # ks) entries s =
     (case k of Err d \<Rightarrow> (Err (FabKv d), s)
      | Ok key \<Rightarrow>
          if \<not> prefix_matches p key then scan_entries_loop kv dec p ks entries s
          else (case kb_get kv key s of
              (Err d, s') \<Rightarrow> (Err (FabKv d), s')
            | (Ok None, s') \<Rightarrow> scan_entries_loop kv dec p ks entries s'
            | (Ok (Some bytes), s') \<Rightarrow> (case kv_decode dec key bytes of
                Err e \<Rightarrow> (Err e, s')
              | Ok v \<Rightarrow> (case kv_key_new key of
                  Err e \<Rightarrow> (Err (FabKvKey e), s')
                | Ok kk \<Rightarrow> scan_entries_loop kv dec p ks (bm_insert kk v entries) s'))))"

definition scan_entries :: "'s kv_bucket \<Rightarrow> 'v bytes_decoder \<Rightarrow> kv_prefix \<Rightarrow> 's
    \<Rightarrow> ((kv_key, 'v) bmap, fabric_error) result \<times> 's" where
  "scan_entries kv dec p s = (case kb_keys kv s of
     (Err d, s') \<Rightarrow> (Err (FabKv d), s')
   | (Ok ks, s') \<Rightarrow> scan_entries_loop kv dec p ks [] s')"

fun scan_keys_loop :: "kv_prefix \<Rightarrow> (string, string) result list \<Rightarrow> kv_key list
    \<Rightarrow> (kv_key list, fabric_error) result" where
  "scan_keys_loop p [] matched = Ok matched"
| "scan_keys_loop p (k # ks) matched =
     (case k of Err d \<Rightarrow> Err (FabKv d)
      | Ok key \<Rightarrow>
          if \<not> prefix_matches p key then scan_keys_loop p ks matched
          else (case kv_key_new key of
              Err e \<Rightarrow> Err (FabKvKey e)
            | Ok kk \<Rightarrow> scan_keys_loop p ks (matched @ [kk])))"

definition scan_keys :: "'s kv_bucket \<Rightarrow> kv_prefix \<Rightarrow> 's \<Rightarrow> (kv_key list, fabric_error) result \<times> 's" where
  "scan_keys kv p s = (case kb_keys kv s of
     (Err d, s') \<Rightarrow> (Err (FabKv d), s')
   | (Ok ks, s') \<Rightarrow> (case scan_keys_loop p ks [] of
       Err e \<Rightarrow> (Err e, s') | Ok matched \<Rightarrow> (Ok (sort matched), s')))"

section \<open>The reconciliation plan\<close>

datatype ('k, 'v) kv_op = KvPut 'k 'v | KvDelete 'k

definition reconcile_plan :: "('k, 'v) bmap \<Rightarrow> ('k, 'v) bmap \<Rightarrow> ('k, 'v) kv_op list" where
  "reconcile_plan desired observed =
     map (\<lambda>(k, v). KvPut k v) (filter (\<lambda>(k, v). bm_get observed k \<noteq> Some v) desired)
     @ map KvDelete (filter (\<lambda>k. \<not> bm_contains desired k) (bm_keys observed))"

fun op_key :: "('k, 'v) kv_op \<Rightarrow> 'k" where
  "op_key (KvPut k v) = k"
| "op_key (KvDelete k) = k"

fun apply_op :: "('k, 'v) kv_op \<Rightarrow> ('k \<Rightarrow> 'v option) \<Rightarrow> ('k \<Rightarrow> 'v option)" where
  "apply_op (KvPut k v) m = m(k \<mapsto> v)"
| "apply_op (KvDelete k) m = m(k := None)"

section \<open>Publisher and reader\<close>

definition publisher_put :: "'s kv_bucket \<Rightarrow> 'v encoder \<Rightarrow> kv_key \<Rightarrow> 'v \<Rightarrow> 's
    \<Rightarrow> (unit, fabric_error) result \<times> 's" where
  "publisher_put kv enc key v s = (case kv_encode enc v of
     Err e \<Rightarrow> (Err e, s)
   | Ok bytes \<Rightarrow> (case kb_put kv (kv_str key) bytes s of
       (Err d, s') \<Rightarrow> (Err (FabKv d), s') | (Ok _, s') \<Rightarrow> (Ok (), s')))"

definition publisher_update where
  "publisher_update kv enc key v s = publisher_put kv enc key v s"

definition publisher_retract :: "'s kv_bucket \<Rightarrow> kv_key \<Rightarrow> 's \<Rightarrow> (unit, fabric_error) result \<times> 's" where
  "publisher_retract kv key s = (case kb_delete kv (kv_str key) s of
     (Err d, s') \<Rightarrow> (Err (FabKv d), s') | (Ok _, s') \<Rightarrow> (Ok (), s'))"

definition publisher_get_with_revision where
  "publisher_get_with_revision kv dec key s = read_with_revision kv dec key s"
definition publisher_update_if where
  "publisher_update_if kv enc key v expected s = update_expecting kv enc key v expected s"
definition publisher_delete_if where
  "publisher_delete_if kv key expected s = delete_expecting kv key expected s"

definition publisher_apply :: "'s kv_bucket \<Rightarrow> 'v encoder \<Rightarrow> (kv_key, 'v) kv_op \<Rightarrow> 's
    \<Rightarrow> (unit, fabric_error) result \<times> 's" where
  "publisher_apply kv enc op s = (case op of
     KvPut key v \<Rightarrow> publisher_put kv enc key v s
   | KvDelete key \<Rightarrow> publisher_retract kv key s)"

fun publisher_apply_all :: "'s kv_bucket \<Rightarrow> 'v encoder \<Rightarrow> (kv_key, 'v) kv_op list \<Rightarrow> 's
    \<Rightarrow> (unit, fabric_error) result \<times> 's" where
  "publisher_apply_all kv enc [] s = (Ok (), s)"
| "publisher_apply_all kv enc (op # ops) s = (case publisher_apply kv enc op s of
     (Err e, s') \<Rightarrow> (Err e, s') | (Ok _, s') \<Rightarrow> publisher_apply_all kv enc ops s')"

definition publisher_reconcile :: "'s kv_bucket \<Rightarrow> 'v encoder \<Rightarrow> 'v bytes_decoder \<Rightarrow> kv_prefix
    \<Rightarrow> (kv_key, 'v) bmap \<Rightarrow> 's \<Rightarrow> (unit, fabric_error) result \<times> 's" where
  "publisher_reconcile kv enc dec p desired s = (case scan_entries kv dec p s of
     (Err e, s') \<Rightarrow> (Err e, s')
   | (Ok observed, s') \<Rightarrow> publisher_apply_all kv enc (reconcile_plan desired observed) s')"

definition publisher_repair_drift where
  "publisher_repair_drift kv enc dec p desired s = publisher_reconcile kv enc dec p desired s"

definition reader_get :: "'s kv_bucket \<Rightarrow> 'v bytes_decoder \<Rightarrow> kv_key \<Rightarrow> 's
    \<Rightarrow> ('v option, fabric_error) result \<times> 's" where
  "reader_get kv dec key s = (case kb_get kv (kv_str key) s of
     (Err d, s') \<Rightarrow> (Err (FabKv d), s')
   | (Ok None, s') \<Rightarrow> (Ok None, s')
   | (Ok (Some bytes), s') \<Rightarrow> (case kv_decode dec (kv_str key) bytes of
       Err e \<Rightarrow> (Err e, s') | Ok v \<Rightarrow> (Ok (Some v), s')))"

definition reader_get_with_revision where
  "reader_get_with_revision kv dec key s = read_with_revision kv dec key s"
definition reader_keys where "reader_keys kv p s = scan_keys kv p s"
definition reader_entries where "reader_entries kv dec p s = scan_entries kv dec p s"

section \<open>The ephemeral-auth store\<close>

definition ephemeral_status :: "'s kv_bucket \<Rightarrow> 's \<Rightarrow> (unit, fabric_error) result \<times> 's" where
  "ephemeral_status kv s = (case kb_status kv s of
     (Err d, s') \<Rightarrow> (Err (FabKv d), s') | (Ok _, s') \<Rightarrow> (Ok (), s'))"

definition ephemeral_create where
  "ephemeral_create kv enc key v s = discard (create_absent kv enc key v s)"

definition ephemeral_update_if_returning_revision where
  "ephemeral_update_if_returning_revision kv enc key v expected s = update_expecting kv enc key v expected s"

definition ephemeral_update_if where
  "ephemeral_update_if kv enc key v expected s =
     discard (ephemeral_update_if_returning_revision kv enc key v expected s)"

definition ephemeral_delete :: "'s kv_bucket \<Rightarrow> kv_key \<Rightarrow> 's \<Rightarrow> (unit, fabric_error) result \<times> 's" where
  "ephemeral_delete kv key s = (case kb_delete kv (kv_str key) s of
     (Err d, s') \<Rightarrow> (Err (FabKv d), s') | (Ok _, s') \<Rightarrow> (Ok (), s'))"

definition ephemeral_delete_if where
  "ephemeral_delete_if kv key expected s = delete_expecting kv key expected s"

definition ephemeral_put :: "'s kv_bucket \<Rightarrow> 'v encoder \<Rightarrow> kv_key \<Rightarrow> 'v \<Rightarrow> 's
    \<Rightarrow> (unit, fabric_error) result \<times> 's" where
  "ephemeral_put kv enc key v s = (case kv_encode enc v of
     Err e \<Rightarrow> (Err e, s)
   | Ok bytes \<Rightarrow> (case kb_put kv (kv_str key) bytes s of
       (Err d, s') \<Rightarrow> (Err (FabKv d), s') | (Ok _, s') \<Rightarrow> (Ok (), s')))"

definition ephemeral_create_with_ttl :: "'s kv_bucket \<Rightarrow> 'v encoder \<Rightarrow> kv_key \<Rightarrow> 'v \<Rightarrow> duration \<Rightarrow> 's
    \<Rightarrow> (unit, fabric_error) result \<times> 's" where
  "ephemeral_create_with_ttl kv enc key v ttl s = (case kv_encode enc v of
     Err e \<Rightarrow> (Err e, s)
   | Ok bytes \<Rightarrow> (case kb_create_ttl kv (kv_str key) bytes ttl s of
       (Ok _, s') \<Rightarrow> (Ok (), s')
     | (Err (k, d), s') \<Rightarrow> (Err (map_create_error key k d), s')))"

definition ephemeral_get_with_revision where
  "ephemeral_get_with_revision kv dec key s = read_with_revision kv dec key s"
definition ephemeral_keys where "ephemeral_keys kv p s = scan_keys kv p s"
definition ephemeral_entries where "ephemeral_entries kv dec p s = scan_entries kv dec p s"

end
