(* ===== verification/Kv_Correct.thy ===== *)
theory Kv_Correct
  imports Kv_Store Ord_Map
begin

text \<open>
  Properties of the published-language publisher: the reconciliation plan is exact and minimal, and
  on a reliable bucket a reconcile leaves the prefix equal to the desired entries and everything
  else alone.
\<close>

section \<open>The plan\<close>

lemma fold_ops_other: "k \<notin> op_key ` set ops \<Longrightarrow> fold apply_op ops m k = m k"
proof (induction ops arbitrary: m)
  case Nil
  then show ?case by simp
next
  case (Cons op ops)
  then show ?case by (cases op) auto
qed

lemma fold_ops_put:
  "distinct (map op_key ops) \<Longrightarrow> KvPut k v \<in> set ops \<Longrightarrow> fold apply_op ops m k = Some v"
proof (induction ops arbitrary: m)
  case Nil
  then show ?case by simp
next
  case (Cons op ops)
  then show ?case
    using fold_ops_other [of k ops] by (cases "op = KvPut k v") (auto simp: image_iff)
qed

lemma fold_ops_delete:
  "distinct (map op_key ops) \<Longrightarrow> KvDelete k \<in> set ops \<Longrightarrow> fold apply_op ops m k = None"
proof (induction ops arbitrary: m)
  case Nil
  then show ?case by simp
next
  case (Cons op ops)
  then show ?case
    using fold_ops_other [of k ops] by (cases "op = KvDelete k") (auto simp: image_iff)
qed

lemma set_reconcile_plan:
  "bm_ok d \<Longrightarrow> set (reconcile_plan d obs) =
     {KvPut k v | k v. bm_get d k = Some v \<and> bm_get obs k \<noteq> Some v} \<union>
     {KvDelete k | k. bm_contains obs k \<and> \<not> bm_contains d k}"
  by (auto simp: reconcile_plan_def bm_get_Some_iff bm_contains_iff image_iff)

lemma op_keys_plan: "map op_key (reconcile_plan d obs) =
    map fst (filter (\<lambda>(k, v). bm_get obs k \<noteq> Some v) d) @
    filter (\<lambda>k. \<not> bm_contains d k) (bm_keys obs)"
  by (simp add: reconcile_plan_def comp_def case_prod_unfold)

lemma distinct_plan: "bm_ok d \<Longrightarrow> bm_ok obs \<Longrightarrow> distinct (map op_key (reconcile_plan d obs))"
  unfolding op_keys_plan
  by (auto simp: bm_contains_iff distinct_map_filter bm_ok_distinct)

text \<open>The effect of the plan, with the values written through an encoding \<open>f\<close>.\<close>

lemma fold_plan:
  assumes "bm_ok d" and "bm_ok obs"
  shows "fold apply_op (map (map_kv_op id f) (reconcile_plan d obs)) m k =
    (case bm_get d k of
       Some v \<Rightarrow> if bm_get obs k = Some v then m k else Some (f v)
     | None \<Rightarrow> if bm_contains obs k then None else m k)"
proof -
  have keys: "op_key (map_kv_op id f op) = op_key op" for op
    by (cases op) auto
  let ?ops = "map (map_kv_op id f) (reconcile_plan d obs)"
  have dist: "distinct (map op_key ?ops)"
    using distinct_plan [OF assms] by (simp add: comp_def keys)
  note set = set_reconcile_plan [OF assms(1), of obs]
  have other: "fold apply_op ?ops m k = m k" if "k \<notin> op_key ` set (reconcile_plan d obs)"
    using that by (intro fold_ops_other) (auto simp: keys image_iff)
  show ?thesis
  proof (cases "bm_get d k")
    case (Some v)
    show ?thesis
    proof (cases "bm_get obs k = Some v")
      case True
      with Some show ?thesis
        by (auto simp: set bm_contains_def intro!: other)
    next
      case False
      then have "KvPut k v \<in> set (reconcile_plan d obs)"
        using Some by (simp add: set)
      then have "map_kv_op id f (KvPut k v) \<in> set ?ops"
        by (simp only: set_map) (rule imageI)
      then have "KvPut k (f v) \<in> set ?ops"
        by simp
      from fold_ops_put [OF dist this] False Some show ?thesis by simp
    qed
  next
    case None
    show ?thesis
    proof (cases "bm_contains obs k")
      case True
      then have "KvDelete k \<in> set (reconcile_plan d obs)"
        using None by (simp add: set bm_contains_def)
      then have "map_kv_op id f (KvDelete k) \<in> set ?ops"
        by (simp only: set_map) (rule imageI)
      then have "KvDelete k \<in> set ?ops"
        by simp
      from fold_ops_delete [OF dist this] True None show ?thesis by simp
    next
      case False
      with None show ?thesis
        by (auto simp: set bm_contains_def intro!: other)
    qed
  qed
qed

text \<open>C30: applying the plan to what was observed gives exactly what is desired, each key is
  written at most once, and only a key whose observed value differs from the desired one is
  written, so the plan of a bucket that already agrees is empty.
\<close>

theorem reconcile_plan_exact:
  assumes "bm_ok desired" and "bm_ok observed"
  shows "fold apply_op (reconcile_plan desired observed) (bm_get observed) = bm_get desired \<and>
    distinct (map op_key (reconcile_plan desired observed)) \<and>
    (\<forall>op \<in> set (reconcile_plan desired observed).
       bm_get observed (op_key op) \<noteq> bm_get desired (op_key op)) \<and>
    (reconcile_plan desired observed = [] \<longleftrightarrow> desired = observed)"
proof (intro conjI)
  have "map (map_kv_op id id) (reconcile_plan desired observed) = reconcile_plan desired observed"
    by (simp add: kv_op.map_id0)
  with fold_plan [OF assms, of id "bm_get observed"]
  have fold: "fold apply_op (reconcile_plan desired observed) (bm_get observed) k = bm_get desired k" for k
    by (simp add: bm_contains_def split: option.split)
  then show "fold apply_op (reconcile_plan desired observed) (bm_get observed) = bm_get desired"
    by blast
  show "distinct (map op_key (reconcile_plan desired observed))"
    by (rule distinct_plan [OF assms])
  show min: "\<forall>op \<in> set (reconcile_plan desired observed).
      bm_get observed (op_key op) \<noteq> bm_get desired (op_key op)"
    by (auto simp: set_reconcile_plan [OF assms(1)] bm_contains_def)
  show "reconcile_plan desired observed = [] \<longleftrightarrow> desired = observed"
  proof
    assume "reconcile_plan desired observed = []"
    with fold have "bm_get observed k = bm_get desired k" for k
      by (metis fold_simps(1))
    then show "desired = observed"
      using assms by (intro bm_ext) auto
  next
    assume "desired = observed"
    with min show "reconcile_plan desired observed = []"
      by (cases "reconcile_plan desired observed") auto
  qed
qed

theorem reconcile_plan_exact_witness:
  "fold apply_op (reconcile_plan [(1::nat, ''a''), (2, ''b'')] [(2, ''c''), (3, ''d'')])
     (bm_get [(2, ''c''), (3, ''d'')]) = bm_get [(1::nat, ''a''), (2, ''b'')]"
  using reconcile_plan_exact [of "[(1::nat, ''a''), (2, ''b'')]" "[(2, ''c''), (3, ''d'')]"]
  by (simp add: bm_ok_def)

section \<open>Reconciling over a reliable bucket\<close>

text \<open>
  The documented behaviour of a bucket while no other writer and no fault interferes: \<open>view\<close>
  is its current content.
\<close>

definition kv_reliable :: "'s kv_bucket \<Rightarrow> ('s \<Rightarrow> string \<Rightarrow> string option) \<Rightarrow> bool" where
  "kv_reliable kv view \<longleftrightarrow>
     (\<forall>s. \<exists>ks s'. kb_keys kv s = (Ok (map Ok ks), s') \<and> set ks = dom (view s) \<and> view s' = view s) \<and>
     (\<forall>k s. \<exists>s'. kb_get kv k s = (Ok (view s k), s') \<and> view s' = view s) \<and>
     (\<forall>k b s. \<exists>r s'. kb_put kv k b s = (Ok r, s') \<and> view s' = (view s)(k \<mapsto> b)) \<and>
     (\<forall>k s. \<exists>s'. kb_delete kv k s = (Ok (), s') \<and> view s' = (view s)(k := None))"

text \<open>What a scan makes of a content: the decoded entries under the prefix.\<close>

definition scanned :: "'v bytes_decoder \<Rightarrow> kv_prefix \<Rightarrow> (string \<Rightarrow> string option) \<Rightarrow> kv_key \<Rightarrow> 'v option" where
  "scanned dec p content k =
     (if prefix_matches p (kv_str k) then Option.bind (content (kv_str k)) (ok \<circ> dec) else None)"

definition readable :: "'v bytes_decoder \<Rightarrow> kv_prefix \<Rightarrow> (string \<Rightarrow> string option) \<Rightarrow> bool" where
  "readable dec p content \<longleftrightarrow> (\<forall>key b. prefix_matches p key \<longrightarrow> content key = Some b \<longrightarrow>
     kv_valid key \<and> is_ok (dec b))"

lemma kv_key_new_valid: "kv_valid s \<Longrightarrow> kv_key_new s = Ok (KvKey s)"
  by (simp add: kvk.mk_Ok_iff)

lemma scan_entries_loop_reliable:
  assumes "kv_reliable kv view"
  shows "readable dec p (view s) \<Longrightarrow> bm_ok entries \<Longrightarrow> set ks \<subseteq> dom (view s) \<Longrightarrow>
    \<exists>res s'. scan_entries_loop kv dec p (map Ok ks) entries s = (Ok res, s') \<and> view s' = view s \<and>
      bm_ok res \<and> (\<forall>k. bm_get res k =
        (if kv_str k \<in> set ks \<and> prefix_matches p (kv_str k) then scanned dec p (view s) k
         else bm_get entries k))"
proof (induction ks arbitrary: entries s)
  case Nil
  then show ?case by simp
next
  case (Cons key ks)
  obtain s1 where get: "kb_get kv key s = (Ok (view s key), s1)" and view: "view s1 = view s"
    using assms unfolding kv_reliable_def by blast
  show ?case
  proof (cases "prefix_matches p key")
    case False
    then show ?thesis
      using Cons.IH [OF Cons.prems(1,2)] Cons.prems(3) by fastforce
  next
    case True
    obtain b where b: "view s key = Some b"
      using Cons.prems(3) by auto
    then have valid: "kv_valid key" and "is_ok (dec b)"
      using Cons.prems(1) True by (auto simp: readable_def)
    then obtain v where v: "dec b = Ok v"
      by (auto simp: is_ok_iff)
    have loop: "scan_entries_loop kv dec p (map Ok (key # ks)) entries s =
        scan_entries_loop kv dec p (map Ok ks) (bm_insert (KvKey key) v entries) s1"
      using True get b v by (simp add: kv_decode_def kv_key_new_valid [OF valid])
    obtain res s' where "scan_entries_loop kv dec p (map Ok ks) (bm_insert (KvKey key) v entries) s1
        = (Ok res, s')" and "view s' = view s1" and "bm_ok res"
      and get': "\<forall>k. bm_get res k = (if kv_str k \<in> set ks \<and> prefix_matches p (kv_str k)
        then scanned dec p (view s1) k else bm_get (bm_insert (KvKey key) v entries) k)"
      using Cons.IH [of s1 "bm_insert (KvKey key) v entries"] Cons.prems view by auto
    moreover have "kv_str k = key \<longleftrightarrow> k = KvKey key" for k
      by (cases k) auto
    ultimately show ?thesis
      using loop view True b v by (auto simp: scanned_def)
  qed
qed

lemma scan_entries_reliable:
  assumes "kv_reliable kv view" and "readable dec p (view s)"
  shows "\<exists>res s'. scan_entries kv dec p s = (Ok res, s') \<and> view s' = view s \<and> bm_ok res \<and>
    bm_get res = scanned dec p (view s)"
proof -
  obtain ks s1 where keys: "kb_keys kv s = (Ok (map Ok ks), s1)" "set ks = dom (view s)" "view s1 = view s"
    using assms(1) unfolding kv_reliable_def by blast
  obtain res s' where "scan_entries_loop kv dec p (map Ok ks) [] s1 = (Ok res, s')"
    "view s' = view s1" "bm_ok res"
    "\<forall>k. bm_get res k = (if kv_str k \<in> set ks \<and> prefix_matches p (kv_str k)
       then scanned dec p (view s1) k else bm_get [] k)"
    using scan_entries_loop_reliable [OF assms(1), of dec p s1 "[]" ks] keys assms(2) by auto
  then show ?thesis
    using keys by (auto simp: scan_entries_def fun_eq_iff scanned_def domIff)
qed

lemma publisher_apply_all_reliable:
  assumes rel: "kv_reliable kv view" and enc: "\<And>v. enc v = Ok (f v)"
  shows "\<exists>s'. publisher_apply_all kv enc ops s = (Ok (), s') \<and>
    (\<forall>k. view s' (kv_str k) = fold apply_op (map (map_kv_op id f) ops) (\<lambda>k. view s (kv_str k)) k)"
proof (induction ops arbitrary: s)
  case Nil
  then show ?case by simp
next
  case (Cons op ops)
  have "\<exists>s1. publisher_apply kv enc op s = (Ok (), s1) \<and>
    (\<lambda>k. view s1 (kv_str k)) = apply_op (map_kv_op id f op) (\<lambda>k. view s (kv_str k))"
  proof (cases op)
    case (KvPut k v)
    obtain r s1 where "kb_put kv (kv_str k) (f v) s = (Ok r, s1)" "view s1 = (view s)(kv_str k \<mapsto> f v)"
      using rel unfolding kv_reliable_def by blast
    with KvPut enc show ?thesis
      by (auto simp: publisher_apply_def publisher_put_def kv_encode_def fun_eq_iff kv_key.expand)
  next
    case (KvDelete k)
    obtain s1 where "kb_delete kv (kv_str k) s = (Ok (), s1)" "view s1 = (view s)(kv_str k := None)"
      using rel unfolding kv_reliable_def by blast
    with KvDelete show ?thesis
      by (auto simp: publisher_apply_def publisher_retract_def fun_eq_iff kv_key.expand)
  qed
  then obtain s1 where s1: "publisher_apply kv enc op s = (Ok (), s1)"
    "(\<lambda>k. view s1 (kv_str k)) = apply_op (map_kv_op id f op) (\<lambda>k. view s (kv_str k))"
    by blast
  show ?case
    using Cons [of s1] by (simp add: s1 [unfolded id_def])
qed

lemma publisher_reconcile_reliable:
  assumes "kv_reliable kv view" and "\<And>v. enc v = Ok (f v)"
    and dec_f: "\<And>k v. bm_get desired k = Some v \<Longrightarrow> dec (f v) = Ok v"
    and readable: "readable dec p (view s)" and ok: "bm_ok desired"
  shows "\<exists>s'. publisher_reconcile kv enc dec p desired s = (Ok (), s') \<and>
    (\<forall>k. case bm_get desired k of
       Some v \<Rightarrow> \<exists>b. view s' (kv_str k) = Some b \<and> dec b = Ok v
     | None \<Rightarrow> view s' (kv_str k) = (if prefix_matches p (kv_str k) then None else view s (kv_str k)))"
proof -
  obtain obs s1 where scan: "scan_entries kv dec p s = (Ok obs, s1)" "view s1 = view s" "bm_ok obs"
    "bm_get obs = scanned dec p (view s)"
    using scan_entries_reliable [OF assms(1) readable] by blast
  obtain s' where s': "publisher_apply_all kv enc (reconcile_plan desired obs) s1 = (Ok (), s')"
    "\<forall>k. view s' (kv_str k) =
       fold apply_op (map (map_kv_op id f) (reconcile_plan desired obs)) (\<lambda>k. view s1 (kv_str k)) k"
    using publisher_apply_all_reliable [OF assms(1), of enc f "reconcile_plan desired obs" s1] assms(2)
    by blast
  have view': "view s' (kv_str k) =
    (case bm_get desired k of
       Some v \<Rightarrow> if bm_get obs k = Some v then view s (kv_str k) else Some (f v)
     | None \<Rightarrow> if bm_contains obs k then None else view s (kv_str k))" for k
    using s'(2) by (simp only: fold_plan [OF ok scan(3)] scan(2))
  have "case bm_get desired k of
       Some v \<Rightarrow> \<exists>b. view s' (kv_str k) = Some b \<and> dec b = Ok v
     | None \<Rightarrow> view s' (kv_str k) = (if prefix_matches p (kv_str k) then None else view s (kv_str k))" for k
  proof (cases "bm_get desired k")
    case (Some v)
    show ?thesis
    proof (cases "bm_get obs k = Some v")
      case True
      then obtain b where "view s (kv_str k) = Some b" and "ok (dec b) = Some v"
        by (auto simp: scan(4) scanned_def bind_eq_Some_conv split: if_splits)
      with Some True view' [of k] show ?thesis
        by (cases "dec b") simp_all
    next
      case False
      with Some view' [of k] dec_f show ?thesis
        by simp
    qed
  next
    case None
    have "bm_contains obs k \<longleftrightarrow> prefix_matches p (kv_str k) \<and> view s (kv_str k) \<noteq> None"
    proof (cases "prefix_matches p (kv_str k)")
      case True
      show ?thesis
      proof (cases "view s (kv_str k)")
        case (Some b)
        then have "is_ok (dec b)"
          using readable True by (simp add: readable_def)
        then obtain v where "dec b = Ok v"
          unfolding is_ok_iff by blast
        with True Some show ?thesis
          by (simp add: bm_contains_def scan(4) scanned_def)
      qed (simp add: bm_contains_def scan(4) scanned_def)
    qed (simp add: bm_contains_def scan(4) scanned_def)
    with None view' [of k] show ?thesis
      by auto
  qed
  with scan s' show ?thesis
    by (auto simp: publisher_reconcile_def)
qed

text \<open>C10: on a reliable bucket whose entries under the prefix are readable, a reconcile succeeds; then
  every key under the prefix holds the encoding of its desired value, or an encoding that already
  decoded to it, or nothing if it is not desired; and a key outside the prefix that is not desired
  keeps its content.
\<close>

theorem publisher_reconcile_converges:
  assumes "kv_reliable kv view" and "\<forall>v. enc v = Ok (f v)"
    and "\<forall>v \<in> snd ` set desired. dec (f v) = Ok v"
    and "readable dec p (view s)" and "bm_ok desired"
  shows "\<exists>s'. publisher_reconcile kv enc dec p desired s = (Ok (), s') \<and>
    (\<forall>k. case bm_get desired k of
       Some v \<Rightarrow> \<exists>b. view s' (kv_str k) = Some b \<and> dec b = Ok v
     | None \<Rightarrow> view s' (kv_str k) = (if prefix_matches p (kv_str k) then None else view s (kv_str k)))"
proof (rule publisher_reconcile_reliable [OF assms(1) _ _ assms(4,5)])
  show "dec (f v) = Ok v" if "bm_get desired k = Some v" for k v
    using that assms(3,5) by (force simp: bm_get_Some_iff)
qed (use assms(2) in simp)

text \<open>A bucket in memory, which shows that a reliable bucket exists.\<close>

definition memory_bucket :: "(string, string) bmap kv_bucket" where
  "memory_bucket = \<lparr>
     kb_entry = (\<lambda>k s. (Ok (map_option (\<lambda>b. \<lparr>ke_key = k, ke_value = b, ke_revision = 1,
        ke_operation = OpPut\<rparr>) (bm_get s k)), s)),
     kb_get = (\<lambda>k s. (Ok (bm_get s k), s)),
     kb_keys = (\<lambda>s. (Ok (map Ok (bm_keys s)), s)),
     kb_put = (\<lambda>k b s. (Ok 1, bm_insert k b s)),
     kb_create = (\<lambda>k b s. if bm_contains s k then (Err (AlreadyExists, ''exists''), s)
        else (Ok 1, bm_insert k b s)),
     kb_create_ttl = (\<lambda>k b ttl s. if bm_contains s k then (Err (AlreadyExists, ''exists''), s)
        else (Ok 1, bm_insert k b s)),
     kb_update = (\<lambda>k b r s. (Ok 1, bm_insert k b s)),
     kb_delete = (\<lambda>k s. (Ok (), bm_remove k s)),
     kb_delete_expect = (\<lambda>k r s. (Ok (), bm_remove k s)),
     kb_status = (\<lambda>s. (Ok (), s)),
     kb_watch_all = (\<lambda>s. (Ok [], s))\<rparr>"

lemma memory_bucket_reliable: "kv_reliable memory_bucket bm_get"
proof -
  have "\<exists>ks. (map Ok (bm_keys s) :: (string, string) result list) = map Ok ks \<and> set ks = dom (bm_get s)"
    for s :: "(string, string) bmap"
    by (intro exI [of _ "bm_keys s"]) (simp add: dom_map_of_conv_image_fst)
  then show ?thesis
    by (simp add: kv_reliable_def memory_bucket_def del: map_map)
qed

theorem publisher_reconcile_converges_witness:
  "\<exists>s'. publisher_reconcile memory_bucket Ok Ok (KvPrefix ''a/'') [(KvKey ''a/1'', ''x'')]
      [(''a/2'', ''y''), (''b/1'', ''z'')] = (Ok (), s') \<and>
     bm_get s' ''a/1'' = Some ''x'' \<and> bm_get s' ''a/2'' = None \<and> bm_get s' ''b/1'' = Some ''z''"
proof -
  have "readable Ok (KvPrefix ''a/'') (bm_get [(''a/2'', ''y''), (''b/1'', ''z'')])"
    by (auto simp: readable_def kv_valid_def kv_valid_char_def str_simps prefix_matches_def
        starts_with_def split: if_splits)
  moreover have "\<forall>v::string. Ok v = (Ok v :: (string, string) result)"
    by simp
  ultimately obtain s' where s': "publisher_reconcile memory_bucket Ok Ok (KvPrefix ''a/'')
      [(KvKey ''a/1'', ''x'')] [(''a/2'', ''y''), (''b/1'', ''z'')] = (Ok (), s')"
    and "\<forall>k. case bm_get [(KvKey ''a/1'', ''x'')] k of
       Some v \<Rightarrow> \<exists>b. bm_get s' (kv_str k) = Some b \<and> Ok b = (Ok v :: (string, string) result)
     | None \<Rightarrow> bm_get s' (kv_str k) = (if prefix_matches (KvPrefix ''a/'') (kv_str k) then None
         else bm_get [(''a/2'', ''y''), (''b/1'', ''z'')] (kv_str k))"
    using publisher_reconcile_converges [OF memory_bucket_reliable, of Ok "\<lambda>v. v"
        "[(KvKey ''a/1'', ''x'')]" Ok "KvPrefix ''a/''" "[(''a/2'', ''y''), (''b/1'', ''z'')]"]
    by (auto simp: bm_ok_def)
  note this(2) [rule_format, of "KvKey ''a/1''"] this(2) [rule_format, of "KvKey ''a/2''"]
    this(2) [rule_format, of "KvKey ''b/1''"]
  with s' show ?thesis
    by (simp add: prefix_matches_def starts_with_def)
qed

end
