(* ===== verification/Kv_Mirror.thy ===== *)
theory Kv_Mirror
  imports Kv_Correct Consumer_Loop
begin

text \<open>
  Mirroring the published language into a local projection, and watching the ephemeral-auth bucket
  (\<^verbatim>\<open>kv/consumer.rs\<close>, \<^verbatim>\<open>sink.rs\<close>, \<^verbatim>\<open>reconcile_ops.rs\<close>, \<^verbatim>\<open>supervisor.rs\<close>,
  \<^verbatim>\<open>health.rs\<close>, \<^verbatim>\<open>progress.rs\<close>, \<^verbatim>\<open>ephemeral_auth_watch.rs\<close> and
  \<^verbatim>\<open>ephemeral_auth_supervise.rs\<close>). A sink is a record of its three operations over the
  state \<open>'d\<close> of the consumer's database; the bucket state is \<open>'s\<close>.
\<close>

section \<open>Sinks\<close>

record ('v, 'd, 'e) sink =
  sk_project :: "kv_key \<Rightarrow> 'v \<Rightarrow> 'd \<Rightarrow> (unit, 'e) result \<times> 'd"
  sk_retract :: "kv_key \<Rightarrow> 'd \<Rightarrow> (unit, 'e) result \<times> 'd"
  sk_known_keys :: "'d \<Rightarrow> (kv_key list, 'e) result \<times> 'd"

datatype 'e projection_error = ProjFabric fabric_error | ProjSink 'e

datatype entry_action = Project | Retract

definition decide_put :: "('v \<Rightarrow> bool) \<Rightarrow> 'v \<Rightarrow> entry_action" where
  "decide_put copy_filter v = (if copy_filter v then Project else Retract)"

definition orphans :: "kv_key list \<Rightarrow> kv_key list \<Rightarrow> kv_prefix list \<Rightarrow> kv_key list" where
  "orphans observed desired prefixes =
     filter (\<lambda>k. k \<notin> set desired)
       (filter (\<lambda>k. list_ex (\<lambda>p. prefix_matches p (kv_str k)) prefixes) observed)"

section \<open>The published-language consumer\<close>

record ('s, 'v, 'd, 'e) pl_consumer =
  pc_kv :: "'s kv_bucket"
  pc_decode :: "'v bytes_decoder"
  pc_prefixes :: "kv_prefix list"
  pc_copy_filter :: "'v \<Rightarrow> bool"
  pc_sink :: "('v, 'd, 'e) sink"

definition selected :: "('s, 'v, 'd, 'e) pl_consumer \<Rightarrow> string \<Rightarrow> bool" where
  "selected c key \<longleftrightarrow> list_ex (\<lambda>p. prefix_matches p key) (pc_prefixes c)"

fun scan_passing_loop :: "('s, 'v, 'd, 'e) pl_consumer \<Rightarrow> (string, string) result list
    \<Rightarrow> (kv_key, 'v) bmap \<Rightarrow> 's \<Rightarrow> ((kv_key, 'v) bmap, 'e projection_error) result \<times> 's" where
  "scan_passing_loop c [] passing s = (Ok passing, s)"
| "scan_passing_loop c (k # ks) passing s =
     (case k of Err d \<Rightarrow> (Err (ProjFabric (FabKv d)), s)
      | Ok key \<Rightarrow>
          if \<not> selected c key then scan_passing_loop c ks passing s
          else (case kb_get (pc_kv c) key s of
              (Err d, s') \<Rightarrow> (Err (ProjFabric (FabKv d)), s')
            | (Ok None, s') \<Rightarrow> scan_passing_loop c ks passing s'
            | (Ok (Some bytes), s') \<Rightarrow> (case kv_decode (pc_decode c) key bytes of
                Err e \<Rightarrow> (Err (ProjFabric e), s')
              | Ok v \<Rightarrow>
                  if pc_copy_filter c v
                  then (case kv_key_new key of
                      Err e \<Rightarrow> (Err (ProjFabric (FabKvKey e)), s')
                    | Ok kk \<Rightarrow> scan_passing_loop c ks (bm_insert kk v passing) s')
                  else scan_passing_loop c ks passing s')))"

definition scan_passing :: "('s, 'v, 'd, 'e) pl_consumer \<Rightarrow> 's
    \<Rightarrow> ((kv_key, 'v) bmap, 'e projection_error) result \<times> 's" where
  "scan_passing c s = (case kb_keys (pc_kv c) s of
     (Err d, s') \<Rightarrow> (Err (ProjFabric (FabKv d)), s')
   | (Ok ks, s') \<Rightarrow> scan_passing_loop c ks [] s')"

fun project_all :: "('v, 'd, 'e) sink \<Rightarrow> (kv_key \<times> 'v) list \<Rightarrow> 'd \<Rightarrow> (unit, 'e) result \<times> 'd" where
  "project_all sk [] d = (Ok (), d)"
| "project_all sk ((k, v) # kvs) d = (case sk_project sk k v d of
     (Err e, d') \<Rightarrow> (Err e, d') | (Ok _, d') \<Rightarrow> project_all sk kvs d')"

fun retract_all :: "('v, 'd, 'e) sink \<Rightarrow> kv_key list \<Rightarrow> 'd \<Rightarrow> (unit, 'e) result \<times> 'd" where
  "retract_all sk [] d = (Ok (), d)"
| "retract_all sk (k # ks) d = (case sk_retract sk k d of
     (Err e, d') \<Rightarrow> (Err e, d') | (Ok _, d') \<Rightarrow> retract_all sk ks d')"

definition bootstrap :: "('s, 'v, 'd, 'e) pl_consumer \<Rightarrow> 's \<Rightarrow> 'd
    \<Rightarrow> (unit, 'e projection_error) result \<times> 's \<times> 'd" where
  "bootstrap c s d = (case scan_passing c s of
     (Err e, s') \<Rightarrow> (Err e, s', d)
   | (Ok desired, s') \<Rightarrow> (case project_all (pc_sink c) desired d of
       (Err e, d') \<Rightarrow> (Err (ProjSink e), s', d')
     | (Ok _, d') \<Rightarrow> (case sk_known_keys (pc_sink c) d' of
         (Err e, d'') \<Rightarrow> (Err (ProjSink e), s', d'')
       | (Ok observed, d'') \<Rightarrow>
           (case retract_all (pc_sink c) (orphans observed (bm_keys desired) (pc_prefixes c)) d'' of
              (Err e, d3) \<Rightarrow> (Err (ProjSink e), s', d3)
            | (Ok _, d3) \<Rightarrow> (Ok (), s', d3)))))"

definition apply_entry :: "('s, 'v, 'd, 'e) pl_consumer \<Rightarrow> kv_entry \<Rightarrow> 'd
    \<Rightarrow> (unit, 'e projection_error) result \<times> 'd" where
  "apply_entry c entry d = (case kv_key_new (ke_key entry) of
     Err e \<Rightarrow> (Err (ProjFabric (FabKvKey e)), d)
   | Ok key \<Rightarrow>
       (if ke_operation entry \<in> {OpDelete, OpPurge}
        then (case sk_retract (pc_sink c) key d of
            (Err e, d') \<Rightarrow> (Err (ProjSink e), d') | (Ok _, d') \<Rightarrow> (Ok (), d'))
        else (case kv_decode (pc_decode c) (ke_key entry) (ke_value entry) of
            Err e \<Rightarrow> (Err (ProjFabric e), d)
          | Ok v \<Rightarrow> (case decide_put (pc_copy_filter c) v of
              Project \<Rightarrow> (case sk_project (pc_sink c) key v d of
                  (Err e, d') \<Rightarrow> (Err (ProjSink e), d') | (Ok _, d') \<Rightarrow> (Ok (), d'))
            | Retract \<Rightarrow> (case sk_retract (pc_sink c) key d of
                  (Err e, d') \<Rightarrow> (Err (ProjSink e), d') | (Ok _, d') \<Rightarrow> (Ok (), d'))))))"

text \<open>The watch delivers a list of entries or errors; the flag tells whether any entry came.\<close>

fun follow_entries :: "('s, 'v, 'd, 'e) pl_consumer \<Rightarrow> (kv_entry, string) result list \<Rightarrow> bool \<Rightarrow> 'd
    \<Rightarrow> (bool \<times> (unit, 'e projection_error) result) \<times> 'd" where
  "follow_entries c [] delivered d = ((delivered, Ok ()), d)"
| "follow_entries c (r # rs) delivered d =
     (case r of Err e \<Rightarrow> ((delivered, Err (ProjFabric (FabKv e))), d)
      | Ok entry \<Rightarrow>
          if selected c (ke_key entry)
          then (case apply_entry c entry d of
              (Err e, d') \<Rightarrow> ((True, Err e), d')
            | (Ok _, d') \<Rightarrow> follow_entries c rs True d')
          else follow_entries c rs True d)"

definition follow_once :: "('s, 'v, 'd, 'e) pl_consumer \<Rightarrow> 's \<Rightarrow> 'd
    \<Rightarrow> (bool \<times> (unit, 'e projection_error) result) \<times> 's \<times> 'd" where
  "follow_once c s d = (case kb_watch_all (pc_kv c) s of
     (Err e, s') \<Rightarrow> ((False, Err (ProjFabric (FabKv e))), s', d)
   | (Ok rs, s') \<Rightarrow> (case follow_entries c rs False d of (r, d') \<Rightarrow> (r, s', d')))"

definition pl_watch where
  "pl_watch c s d = (case follow_once c s d of ((_, r), sd) \<Rightarrow> (r, sd))"

section \<open>Health and progress channels\<close>

datatype watch_health = WatchHealthy | WatchDegraded

definition watch_health_initial :: watch_health where
  "watch_health_initial = WatchDegraded"

definition watch_health_set :: "watch_health \<Rightarrow> watch_health \<Rightarrow> bool \<times> watch_health" where
  "watch_health_set new current = (if current = new then (False, current) else (True, new))"

lemma snd_watch_health_set [simp]: "snd (watch_health_set new current) = new"
  by (simp add: watch_health_set_def)

record watch_progress =
  wp_changes :: u64
  wp_skipped :: u64

definition progress_observed :: "watch_progress \<Rightarrow> u64" where
  "progress_observed p = sat_add (wp_changes p) (wp_skipped p)"

definition record_change :: "watch_progress \<Rightarrow> watch_progress" where
  "record_change p = p\<lparr>wp_changes := sat_add (wp_changes p) 1\<rparr>"

definition record_skip :: "watch_progress \<Rightarrow> watch_progress" where
  "record_skip p = p\<lparr>wp_skipped := sat_add (wp_skipped p) 1\<rparr>"

section \<open>Supervision\<close>

record follow_report =
  fo_progressed :: bool
  fo_outcome :: "(unit, string) result"

record 'c reconcile_cycle =
  cy_reconcile :: "'c \<Rightarrow> (unit, string) result \<times> 'c"
  cy_follow :: "'c \<Rightarrow> follow_report \<times> 'c"

datatype supervisor_mode = Reconciling | Following

record 'c supervised =
  sv_cycle :: 'c
  sv_backoff :: backoff
  sv_health :: watch_health
  sv_mode :: supervisor_mode
  sv_slept :: "duration list"

definition supervise_start :: "backoff \<Rightarrow> 'c \<Rightarrow> watch_health \<Rightarrow> 'c supervised" where
  "supervise_start b c h = \<lparr>sv_cycle = c, sv_backoff = b,
     sv_health = snd (watch_health_set WatchDegraded h), sv_mode = Reconciling, sv_slept = []\<rparr>"

definition sleep_backoff :: "'c supervised \<Rightarrow> 'c supervised" where
  "sleep_backoff s = (case next_delay (sv_backoff s) of
     (delay, b) \<Rightarrow> s\<lparr>sv_backoff := b, sv_slept := sv_slept s @ [delay]\<rparr>)"

text \<open>One attempt to reconcile, or one watch from its start to its end.\<close>

definition supervise_step :: "'c reconcile_cycle \<Rightarrow> 'c supervised \<Rightarrow> 'c supervised" where
  "supervise_step cy s = (case sv_mode s of
     Reconciling \<Rightarrow> (case cy_reconcile cy (sv_cycle s) of
         (Err _, c) \<Rightarrow> sleep_backoff (s\<lparr>sv_cycle := c,
             sv_health := snd (watch_health_set WatchDegraded (sv_health s))\<rparr>)
       | (Ok _, c) \<Rightarrow> s\<lparr>sv_cycle := c,
             sv_health := snd (watch_health_set WatchHealthy (sv_health s)), sv_mode := Following\<rparr>)
   | Following \<Rightarrow> (case cy_follow cy (sv_cycle s) of
         (report, c) \<Rightarrow> sleep_backoff (s\<lparr>sv_cycle := c,
             sv_backoff := (if fo_progressed report then backoff_reset (sv_backoff s) else sv_backoff s),
             sv_health := snd (watch_health_set WatchDegraded (sv_health s)),
             sv_mode := Reconciling\<rparr>)))"

fun supervise :: "'c reconcile_cycle \<Rightarrow> nat \<Rightarrow> 'c supervised \<Rightarrow> 'c supervised" where
  "supervise cy 0 s = s"
| "supervise cy (Suc n) s = supervise cy n (supervise_step cy s)"

definition consumer_cycle :: "('e projection_error \<Rightarrow> string) \<Rightarrow> ('s, 'v, 'd, 'e) pl_consumer
    \<Rightarrow> ('s \<times> 'd) reconcile_cycle" where
  "consumer_cycle render c = \<lparr>
     cy_reconcile = (\<lambda>(s, d). case bootstrap c s d of (r, s', d') \<Rightarrow> (map_err render r, s', d')),
     cy_follow = (\<lambda>(s, d). case follow_once c s d of ((progressed, r), s', d') \<Rightarrow>
        (\<lparr>fo_progressed = progressed, fo_outcome = map_err render r\<rparr>, s', d'))\<rparr>"

definition consumer_run where
  "consumer_run render c fuel s d =
     supervise (consumer_cycle render c) fuel (supervise_start backoff_production (s, d) watch_health_initial)"

section \<open>The ephemeral-auth watch\<close>

datatype 'v auth_change = AuthSet kv_key 'v | AuthRemoved kv_key

datatype skip_reason = SkipInvalidKey | SkipUndecodableValue

fun skip_reason_str :: "skip_reason \<Rightarrow> string" where
  "skip_reason_str SkipInvalidKey = ''invalid key''"
| "skip_reason_str SkipUndecodableValue = ''undecodable value''"

datatype change_kind = ChangeSet | ChangeRemoved

fun classify_operation :: "kv_operation \<Rightarrow> change_kind" where
  "classify_operation OpDelete = ChangeRemoved"
| "classify_operation OpPurge = ChangeRemoved"
| "classify_operation OpPut = ChangeSet"

definition change_from :: "'v bytes_decoder \<Rightarrow> kv_entry \<Rightarrow> ('v auth_change, skip_reason) result" where
  "change_from dec entry = (case kv_key_new (ke_key entry) of
     Err _ \<Rightarrow> Err SkipInvalidKey
   | Ok key \<Rightarrow> (case classify_operation (ke_operation entry) of
       ChangeRemoved \<Rightarrow> Ok (AuthRemoved key)
     | ChangeSet \<Rightarrow> (case dec (ke_value entry) of
         Err _ \<Rightarrow> Err SkipUndecodableValue
       | Ok v \<Rightarrow> Ok (AuthSet key v))))"

record 'h watcher =
  wa_health :: watch_health
  wa_progress :: watch_progress
  wa_handler :: 'h

definition set_health :: "watch_health \<Rightarrow> 'h watcher \<Rightarrow> 'h watcher" where
  "set_health h w = w\<lparr>wa_health := snd (watch_health_set h (wa_health w))\<rparr>"

fun watch_entries :: "'v bytes_decoder \<Rightarrow> ('v auth_change \<Rightarrow> 'h \<Rightarrow> 'h)
    \<Rightarrow> (kv_entry, string) result list \<Rightarrow> 'h watcher \<Rightarrow> (unit, fabric_error) result \<times> 'h watcher" where
  "watch_entries dec on_change [] w = (Ok (), set_health WatchDegraded w)"
| "watch_entries dec on_change (r # rs) w =
     (case r of Err e \<Rightarrow> (Err (FabKv e), set_health WatchDegraded w)
      | Ok entry \<Rightarrow>
          (let w1 = set_health WatchHealthy w
           in case change_from dec entry of
                Ok change \<Rightarrow> watch_entries dec on_change rs
                  (w1\<lparr>wa_handler := on_change change (wa_handler w1),
                      wa_progress := record_change (wa_progress w1)\<rparr>)
              | Err _ \<Rightarrow> watch_entries dec on_change rs
                  (w1\<lparr>wa_progress := record_skip (wa_progress w1)\<rparr>)))"

definition auth_watch :: "'s kv_bucket \<Rightarrow> 'v bytes_decoder \<Rightarrow> ('v auth_change \<Rightarrow> 'h \<Rightarrow> 'h)
    \<Rightarrow> 's \<Rightarrow> 'h watcher \<Rightarrow> (unit, fabric_error) result \<times> 's \<times> 'h watcher" where
  "auth_watch kv dec on_change s w = (case kb_watch_all kv s of
     (Err e, s') \<Rightarrow> (Err (FabKv e), s', w)
   | (Ok rs, s') \<Rightarrow> (case watch_entries dec on_change rs w of (r, w') \<Rightarrow> (r, s', w')))"

text \<open>
  The supervised watch runs the caller's handler through a closure that also notes that a change
  was delivered.
\<close>

definition supervised_follow :: "'s kv_bucket \<Rightarrow> (fabric_error \<Rightarrow> string) \<Rightarrow> 'v bytes_decoder
    \<Rightarrow> ('v auth_change \<Rightarrow> 'h \<Rightarrow> 'h) \<Rightarrow> 's \<times> 'h watcher \<Rightarrow> follow_report \<times> 's \<times> 'h watcher" where
  "supervised_follow kv render dec on_change sw =
     (let observed_before = progress_observed (wa_progress (snd sw));
          w = \<lparr>wa_health = wa_health (snd sw), wa_progress = wa_progress (snd sw),
               wa_handler = (False, wa_handler (snd sw))\<rparr>
      in case auth_watch kv dec (\<lambda>ch dh. (True, on_change ch (snd dh))) (fst sw) w of
           (r, s', w') \<Rightarrow>
             (\<lparr>fo_progressed = fst (wa_handler w') \<or>
                 observed_before < progress_observed (wa_progress w'),
               fo_outcome = map_err render r\<rparr>,
              s', \<lparr>wa_health = wa_health w', wa_progress = wa_progress w',
                   wa_handler = snd (wa_handler w')\<rparr>))"

definition supervised_reconcile :: "('s \<Rightarrow> (unit, string) result \<times> 's) \<Rightarrow> (fabric_error \<Rightarrow> string)
    \<Rightarrow> 's \<times> 'h watcher \<Rightarrow> (unit, string) result \<times> 's \<times> 'h watcher" where
  "supervised_reconcile bucket_info render sw = (case bucket_info (fst sw) of
     (Err d, s') \<Rightarrow> (Err (render (FabKv d)), s', snd sw)
   | (Ok _, s') \<Rightarrow> (Ok (), s', snd sw))"

end
