(* ===== verification/Mirror_Correct.thy ===== *)
theory Mirror_Correct
  imports Kv_Mirror
begin

text \<open>
  Properties of the mirrors: the interface of a projection sink and the convergence of a bootstrap
  over it, the supervisor's health signal, and the accounting of the ephemeral-auth watch.
\<close>

section \<open>The sink interface\<close>

text \<open>
  What the consumer relies on of a sink: \<open>rows\<close> is its projection as a map from keys,
  \<open>inv\<close> its own invariant, \<open>canonical\<close> the keys it maps to rows and
  \<open>shown\<close> the row it makes of a value. A call that succeeds has had exactly its effect.
\<close>

locale projection_sink =
  fixes sk :: "('v, 'd, 'e) sink"
    and rows :: "'d \<Rightarrow> kv_key \<Rightarrow> 'r option"
    and inv :: "'d \<Rightarrow> bool"
    and canonical :: "kv_key \<Rightarrow> bool"
    and shown :: "'v \<Rightarrow> 'r"
  assumes project_law: "inv d \<Longrightarrow> canonical k \<Longrightarrow> sk_project sk k v d = (Ok (), d') \<Longrightarrow>
      inv d' \<and> rows d' = (rows d)(k \<mapsto> shown v)"
    and retract_law: "inv d \<Longrightarrow> canonical k \<Longrightarrow> sk_retract sk k d = (Ok (), d') \<Longrightarrow>
      inv d' \<and> rows d' = (rows d)(k := None)"
    and known_law: "inv d \<Longrightarrow> sk_known_keys sk d = (Ok ks, d') \<Longrightarrow>
      inv d' \<and> rows d' = rows d \<and> set ks = dom (rows d)"
    and rows_canonical: "inv d \<Longrightarrow> rows d k \<noteq> None \<Longrightarrow> canonical k"
begin

lemma project_all_rows:
  "inv d \<Longrightarrow> \<forall>k \<in> fst ` set kvs. canonical k \<Longrightarrow> distinct (map fst kvs) \<Longrightarrow>
     project_all sk kvs d = (Ok (), d') \<Longrightarrow>
     inv d' \<and> (\<forall>k. rows d' k = (case bm_get kvs k of Some v \<Rightarrow> Some (shown v) | None \<Rightarrow> rows d k))"
proof (induction kvs arbitrary: d)
  case Nil
  then show ?case by simp
next
  case (Cons kv kvs)
  obtain k v where kv: "kv = (k, v)" by (cases kv)
  obtain d1 where step: "sk_project sk k v d = (Ok (), d1)" and rest: "project_all sk kvs d1 = (Ok (), d')"
    using Cons.prems(4) by (auto simp: kv split: prod.splits sum.splits)
  have d1: "inv d1" "rows d1 = (rows d)(k \<mapsto> shown v)"
    using project_law [OF Cons.prems(1) _ step] Cons.prems(2) by (auto simp: kv)
  have "k \<notin> fst ` set kvs"
    using Cons.prems(3) by (simp add: kv)
  then have "bm_get kvs k = None"
    by (simp add: map_of_eq_None_iff)
  with Cons.IH [OF d1(1) _ _ rest] Cons.prems(2,3) show ?case
    by (auto simp: kv d1(2) split: option.splits)
qed

lemma retract_all_rows:
  "inv d \<Longrightarrow> \<forall>k \<in> set ks. canonical k \<Longrightarrow> retract_all sk ks d = (Ok (), d') \<Longrightarrow>
     inv d' \<and> (\<forall>k. rows d' k = (if k \<in> set ks then None else rows d k))"
proof (induction ks arbitrary: d)
  case Nil
  then show ?case by simp
next
  case (Cons k ks)
  obtain d1 where step: "sk_retract sk k d = (Ok (), d1)" and rest: "retract_all sk ks d1 = (Ok (), d')"
    using Cons.prems(3) by (auto split: prod.splits sum.splits)
  have d1: "inv d1" "rows d1 = (rows d)(k := None)"
    using retract_law [OF Cons.prems(1) _ step] Cons.prems(2) by auto
  with Cons.IH [OF d1(1) _ rest] Cons.prems(2) show ?case
    by auto
qed

text \<open>
  A bootstrap that succeeds leaves the selected keys showing exactly the entries its scan passed,
  and every other key as it was.
\<close>

lemma bootstrap_rows:
  assumes c: "pc_sink c = sk" and "inv d" and boot: "bootstrap c s d = (Ok (), s', d')"
    and scan: "scan_passing c s = (Ok desired, s1)" and "bm_ok desired"
    and canon: "\<forall>k \<in> fst ` set desired. canonical k"
  shows "inv d' \<and> (\<forall>k. rows d' k = (case bm_get desired k of
     Some v \<Rightarrow> Some (shown v)
   | None \<Rightarrow> if selected c (kv_str k) then None else rows d k))"
proof -
  obtain d1 obs d2 where p: "project_all sk desired d = (Ok (), d1)"
    and k: "sk_known_keys sk d1 = (Ok obs, d2)"
    and r: "retract_all sk (orphans obs (bm_keys desired) (pc_prefixes c)) d2 = (Ok (), d')"
    using boot by (auto simp: bootstrap_def scan c split: prod.splits sum.splits)
  have d1: "inv d1" "rows d1 k = (case bm_get desired k of Some v \<Rightarrow> Some (shown v) | None \<Rightarrow> rows d k)" for k
    using project_all_rows [OF assms(2) canon bm_ok_distinct [OF assms(5)] p] by auto
  have d2: "inv d2" "rows d2 = rows d1" "set obs = dom (rows d1)"
    using known_law [OF d1(1) k] by auto
  have orph: "k \<in> set (orphans obs (bm_keys desired) (pc_prefixes c)) \<longleftrightarrow>
      rows d1 k \<noteq> None \<and> selected c (kv_str k) \<and> bm_get desired k = None" for k
    by (auto simp: orphans_def selected_def d2(3) map_of_eq_None_iff)
  have "\<forall>k \<in> set (orphans obs (bm_keys desired) (pc_prefixes c)). canonical k"
    using rows_canonical [OF d1(1)] by (auto simp: orph)
  from retract_all_rows [OF d2(1) this r] show ?thesis
    by (auto simp: orph d2(2) d1(2) split: option.splits)
qed

text \<open>A watch that ends without an error keeps the sink's invariant.\<close>

lemma apply_entry_rows:
  assumes c: "pc_sink c = sk" and "inv d" and canon: "canonical (KvKey (ke_key entry))"
    and app: "apply_entry c entry d = (Ok (), d')"
  shows "inv d' \<and> rows d' = (rows d)(KvKey (ke_key entry) :=
       (if ke_operation entry \<in> {OpDelete, OpPurge} then None
        else Option.bind (ok (pc_decode c (ke_value entry)))
          (\<lambda>v. if pc_copy_filter c v then Some (shown v) else None)))"
proof -
  define k where "k = KvKey (ke_key entry)"
  have new: "kv_key_new (ke_key entry) = Ok k"
  proof (cases "kv_key_new (ke_key entry)")
    case (Inl e)
    with app show ?thesis by (simp add: apply_entry_def)
  next
    case (Inr k')
    then have "kv_str k' = ke_key entry"
      by (simp add: kvk.mk_Ok_iff)
    with Inr show ?thesis
      by (metis k_def kv_key.collapse)
  qed
  show ?thesis
  proof (cases "ke_operation entry \<in> {OpDelete, OpPurge}")
    case True
    then have "sk_retract sk k d = (Ok (), d')"
      using app by (auto simp: apply_entry_def new c split: prod.splits sum.splits)
    from retract_law [OF assms(2) canon [folded k_def] this] True show ?thesis
      by (simp add: k_def)
  next
    case False
    obtain v where v: "pc_decode c (ke_value entry) = Ok v"
      using app False by (cases "pc_decode c (ke_value entry)")
        (auto simp: apply_entry_def new kv_decode_def)
    show ?thesis
    proof (cases "pc_copy_filter c v")
      case True
      then have "sk_project sk k v d = (Ok (), d')"
        using app False by (auto simp: apply_entry_def new c kv_decode_def v decide_put_def
            split: prod.splits sum.splits)
      from project_law [OF assms(2) canon [folded k_def] this] True False v show ?thesis
        by (simp add: k_def)
    next
      case reject: False
      then have "sk_retract sk k d = (Ok (), d')"
        using app False by (auto simp: apply_entry_def new c kv_decode_def v decide_put_def
            split: prod.splits sum.splits)
      from retract_law [OF assms(2) canon [folded k_def] this] reject False v show ?thesis
        by (simp add: k_def)
    qed
  qed
qed

end

section \<open>Sinks that answer\<close>

text \<open>A sink whose calls also succeed while its database is calm: without faults.\<close>

locale reliable_sink = projection_sink +
  fixes calm :: "'b \<Rightarrow> bool"
  assumes project_ok: "inv d \<Longrightarrow> calm d \<Longrightarrow> canonical k \<Longrightarrow>
      \<exists>d'. sk_project sk k v d = (Ok (), d') \<and> calm d'"
    and retract_ok: "inv d \<Longrightarrow> calm d \<Longrightarrow> canonical k \<Longrightarrow>
      \<exists>d'. sk_retract sk k d = (Ok (), d') \<and> calm d'"
    and known_ok: "inv d \<Longrightarrow> calm d \<Longrightarrow> \<exists>ks d'. sk_known_keys sk d = (Ok ks, d') \<and> calm d'"
begin

lemma project_all_ok:
  "inv d \<Longrightarrow> calm d \<Longrightarrow> \<forall>k \<in> fst ` set kvs. canonical k \<Longrightarrow>
     \<exists>d'. project_all sk kvs d = (Ok (), d') \<and> calm d' \<and> inv d'"
proof (induction kvs arbitrary: d)
  case Nil
  then show ?case by simp
next
  case (Cons kv kvs)
  obtain k v where kv: "kv = (k, v)" by (cases kv)
  obtain d1 where d1: "sk_project sk k v d = (Ok (), d1)" "calm d1"
    using project_ok Cons.prems by (fastforce simp: kv)
  then have "inv d1"
    using project_law Cons.prems by (fastforce simp: kv)
  with Cons.IH [of d1] d1 Cons.prems(3) show ?case
    by (simp add: kv)
qed

lemma retract_all_ok:
  "inv d \<Longrightarrow> calm d \<Longrightarrow> \<forall>k \<in> set ks. canonical k \<Longrightarrow>
     \<exists>d'. retract_all sk ks d = (Ok (), d') \<and> calm d' \<and> inv d'"
proof (induction ks arbitrary: d)
  case Nil
  then show ?case by simp
next
  case (Cons k ks)
  obtain d1 where d1: "sk_retract sk k d = (Ok (), d1)" "calm d1"
    using retract_ok Cons.prems by fastforce
  then have "inv d1"
    using retract_law Cons.prems by fastforce
  with Cons.IH [of d1] d1 Cons.prems(3) show ?case
    by simp
qed

lemma bootstrap_ok:
  assumes c: "pc_sink c = sk" and "inv d" and "calm d"
    and scan: "scan_passing c s = (Ok desired, s1)" and canon: "\<forall>k \<in> fst ` set desired. canonical k"
  shows "\<exists>d'. bootstrap c s d = (Ok (), s1, d') \<and> calm d'"
proof -
  obtain d1 where d1: "project_all sk desired d = (Ok (), d1)" "calm d1" "inv d1"
    using project_all_ok [OF assms(2,3) canon] by blast
  obtain obs d2 where d2: "sk_known_keys sk d1 = (Ok obs, d2)" "calm d2"
    using known_ok d1 by blast
  have k: "inv d2" "set obs = dom (rows d1)"
    using known_law [OF d1(3) d2(1)] by auto
  have "\<forall>k \<in> set (orphans obs (bm_keys desired) (pc_prefixes c)). canonical k"
    using rows_canonical [OF d1(3)] by (auto simp: orphans_def k(2))
  then obtain d3 where "retract_all sk (orphans obs (bm_keys desired) (pc_prefixes c)) d2 = (Ok (), d3)" "calm d3"
    using retract_all_ok [OF k(1) d2(2)] by blast
  then show ?thesis
    using d1 d2 by (simp add: bootstrap_def scan c)
qed

end

section \<open>Scans over a reliable bucket\<close>

text \<open>What a bootstrap passes on of a content: the selected entries the copy filter keeps.\<close>

definition passed :: "('s, 'v, 'd, 'e) pl_consumer \<Rightarrow> (string \<Rightarrow> string option) \<Rightarrow> kv_key \<Rightarrow> 'v option" where
  "passed c content k = (if selected c (kv_str k)
     then Option.bind (Option.bind (content (kv_str k)) (ok \<circ> pc_decode c))
       (\<lambda>v. if pc_copy_filter c v then Some v else None)
     else None)"

definition selected_readable :: "('s, 'v, 'd, 'e) pl_consumer \<Rightarrow> (string \<Rightarrow> string option) \<Rightarrow> bool" where
  "selected_readable c content \<longleftrightarrow> (\<forall>key b. selected c key \<longrightarrow> content key = Some b \<longrightarrow>
     kv_valid key \<and> is_ok (pc_decode c b))"

lemma scan_passing_loop_reliable:
  assumes "kv_reliable (pc_kv c) view"
  shows "selected_readable c (view s) \<Longrightarrow> bm_ok acc \<Longrightarrow> set ks \<subseteq> dom (view s) \<Longrightarrow>
    (\<forall>k v. bm_get acc k = Some v \<longrightarrow> passed c (view s) k = Some v) \<Longrightarrow>
    \<exists>res s'. scan_passing_loop c (map Ok ks) acc s = (Ok res, s') \<and> view s' = view s \<and>
      bm_ok res \<and> (\<forall>k. bm_get res k =
        (if kv_str k \<in> set ks then passed c (view s) k else bm_get acc k))"
proof (induction ks arbitrary: acc s)
  case Nil
  then show ?case by simp
next
  case (Cons key ks)
  obtain s1 where get: "kb_get (pc_kv c) key s = (Ok (view s key), s1)" and view: "view s1 = view s"
    using assms unfolding kv_reliable_def by blast
  show ?case
  proof (cases "selected c key")
    case False
    then have none: "passed c (view s) k = None" if "kv_str k = key" for k
      using that by (simp add: passed_def)
    obtain res s' where "scan_passing_loop c (map Ok ks) acc s = (Ok res, s')" "view s' = view s"
      "bm_ok res" and get': "\<forall>k. bm_get res k =
        (if kv_str k \<in> set ks then passed c (view s) k else bm_get acc k)"
      using Cons.IH [OF Cons.prems(1,2) _ Cons.prems(4)] Cons.prems(3) by auto
    moreover have "bm_get acc k = None" if "kv_str k = key" for k
      using none [OF that] Cons.prems(4) by (metis not_None_eq)
    ultimately show ?thesis
      using False none by auto
  next
    case True
    obtain b where b: "view s key = Some b"
      using Cons.prems(3) by auto
    then have valid: "kv_valid key" and "is_ok (pc_decode c b)"
      using Cons.prems(1) True by (auto simp: selected_readable_def)
    then obtain v where v: "pc_decode c b = Ok v"
      by (auto simp: is_ok_iff)
    have here: "passed c (view s) k = (if pc_copy_filter c v then Some v else None)" if "kv_str k = key" for k
      using that True b v by (simp add: passed_def)
    define acc' where "acc' = (if pc_copy_filter c v then bm_insert (KvKey key) v acc else acc)"
    have loop: "scan_passing_loop c (map Ok (key # ks)) acc s = scan_passing_loop c (map Ok ks) acc' s1"
      using True get b v by (simp add: kv_decode_def kv_key_new_valid [OF valid] acc'_def)
    have acc': "bm_get acc' k = (if kv_str k = key then passed c (view s) k else bm_get acc k)" for k
    proof (cases "kv_str k = key")
      case True
      then have "k = KvKey key" by (cases k) simp
      moreover have "\<not> pc_copy_filter c v \<Longrightarrow> bm_get acc k = None"
        using here [OF True] Cons.prems(4) by (metis not_None_eq)
      ultimately show ?thesis
        using here [OF True] True by (simp add: acc'_def)
    next
      case False
      then show ?thesis by (cases k) (simp add: acc'_def)
    qed
    have "bm_ok acc'"
      using Cons.prems(2) by (simp add: acc'_def)
    moreover have "\<forall>k v. bm_get acc' k = Some v \<longrightarrow> passed c (view s1) k = Some v"
      using Cons.prems(4) unfolding acc' view by metis
    ultimately obtain res s' where "scan_passing_loop c (map Ok ks) acc' s1 = (Ok res, s')"
      "view s' = view s1" "bm_ok res" "\<forall>k. bm_get res k =
        (if kv_str k \<in> set ks then passed c (view s1) k else bm_get acc' k)"
      using Cons.IH [of s1 acc'] Cons.prems(1,3) view by auto
    then show ?thesis
      unfolding loop by (intro exI [of _ res] exI [of _ s']) (simp add: view acc')
  qed
qed

lemma scan_passing_reliable:
  assumes "kv_reliable (pc_kv c) view" and "selected_readable c (view s)"
  shows "\<exists>res s'. scan_passing c s = (Ok res, s') \<and> view s' = view s \<and> bm_ok res \<and>
    bm_get res = passed c (view s)"
proof -
  obtain ks s1 where keys: "kb_keys (pc_kv c) s = (Ok (map Ok ks), s1)" "set ks = dom (view s)" "view s1 = view s"
    using assms(1) unfolding kv_reliable_def by blast
  obtain res s' where "scan_passing_loop c (map Ok ks) [] s1 = (Ok res, s')"
    "view s' = view s1" "bm_ok res"
    "\<forall>k. bm_get res k = (if kv_str k \<in> set ks then passed c (view s1) k else None)"
    using scan_passing_loop_reliable [OF assms(1), of s1 "[]" ks] keys assms(2) by auto
  then show ?thesis
    using keys by (auto simp: scan_passing_def fun_eq_iff passed_def domIff)
qed

section \<open>The supervisor\<close>

text \<open>The mirror is reported healthy exactly between a successful reconcile and the end of its watch.\<close>

definition health_justified :: "'c reconcile_cycle \<Rightarrow> 'c supervised \<Rightarrow> bool" where
  "health_justified cy s \<longleftrightarrow> (sv_health s = WatchHealthy \<longleftrightarrow> sv_mode s = Following) \<and>
     (sv_mode s = Following \<longrightarrow> (\<exists>c. cy_reconcile cy c = (Ok (), sv_cycle s)))"

lemma health_justified_step: "health_justified cy (supervise_step cy s)"
  by (cases "sv_mode s"; cases "cy_reconcile cy (sv_cycle s)"; cases "cy_follow cy (sv_cycle s)")
    (auto simp: supervise_step_def sleep_backoff_def health_justified_def split: sum.splits prod.splits)

lemma health_justified_run: "health_justified cy s \<Longrightarrow> health_justified cy (supervise cy n s)"
  by (induction n arbitrary: s) (auto intro: health_justified_step)

text \<open>C35: under supervision the health signal is \<open>Healthy\<close> only while the loop follows a bucket it
  has just reconciled with, and it is \<open>Degraded\<close> before the first successful reconcile, after a
  failed one and as soon as a watch has ended.
\<close>

theorem supervised_health_is_justified:
  fixes cy :: "'c reconcile_cycle"
  shows "health_justified cy (supervise cy n (supervise_start b c h))"
  by (rule health_justified_run) (simp add: health_justified_def supervise_start_def)

lemma backoff_nth_production:
  "bo_current (((\<lambda>b. snd (next_delay b)) ^^ n) backoff_production)
     = min (from_millis 200 * 2 ^ n) (from_secs 30)"
  using backoff_nth_delay [of backoff_production n] backoff_ok_production
  by (simp add: backoff_production_def backoff_new_def backoff_ok_def)

lemma supervise_failing:
  assumes "\<forall>c. \<exists>e c'. cy_reconcile cy c = (Err e, c')"
  shows "sv_mode s = Reconciling \<Longrightarrow> sv_backoff s = ((\<lambda>b. snd (next_delay b)) ^^ k) b0 \<Longrightarrow>
    sv_slept (supervise cy n s) = sv_slept s @
      map (\<lambda>i. bo_current (((\<lambda>b. snd (next_delay b)) ^^ i) b0)) [k..<k + n] \<and>
    (0 < n \<longrightarrow> sv_health (supervise cy n s) = WatchDegraded)"
proof (induction n arbitrary: s k)
  case 0
  then show ?case by simp
next
  case (Suc n)
  obtain e c' where fail: "cy_reconcile cy (sv_cycle s) = (Err e, c')"
    using assms by blast
  define s1 where "s1 = supervise_step cy s"
  have s1: "sv_mode s1 = Reconciling" "sv_backoff s1 = ((\<lambda>b. snd (next_delay b)) ^^ Suc k) b0"
    "sv_slept s1 = sv_slept s @ [bo_current (((\<lambda>b. snd (next_delay b)) ^^ k) b0)]"
    "sv_health s1 = WatchDegraded"
    using Suc.prems by (simp_all add: s1_def supervise_step_def sleep_backoff_def fail next_delay_def)
  have "[k..<k + Suc n] = k # [Suc k..<Suc k + n]"
    by (simp add: upt_conv_Cons)
  then show ?case
    using Suc.IH [OF s1(1,2)] s1(3,4) by (cases n) (simp_all add: s1_def [symmetric])
qed

text \<open>while every reconcile fails, the supervisor stays degraded and its \<open>k\<close>-th wait is 200
  milliseconds doubled \<open>k\<close> times, capped at 30 seconds.
\<close>

theorem failing_reconcile_backs_off:
  assumes "\<forall>c. \<exists>e c'. cy_reconcile cy c = (Err e, c')" and "0 < n"
  shows "sv_health (supervise cy n (supervise_start backoff_production c h)) = WatchDegraded \<and>
    sv_slept (supervise cy n (supervise_start backoff_production c h)) =
      map (\<lambda>k. min (from_millis 200 * 2 ^ k) (from_secs 30)) [0..<n]"
  using supervise_failing [OF assms(1), of "supervise_start backoff_production c h" 0
      backoff_production n] assms(2)
  by (simp add: supervise_start_def backoff_nth_production)

definition failing_cycle :: "nat reconcile_cycle" where
  "failing_cycle = \<lparr>cy_reconcile = (\<lambda>c. (Err ''down'', Suc c)),
     cy_follow = (\<lambda>c. (\<lparr>fo_progressed = False, fo_outcome = Ok ()\<rparr>, c))\<rparr>"

theorem failing_reconcile_backs_off_witness:
  "sv_slept (supervise failing_cycle 3 (supervise_start backoff_production 0 WatchHealthy)) =
     [from_millis 200, from_millis 400, from_millis 800]"
  using failing_reconcile_backs_off [of failing_cycle 3 0 WatchHealthy]
  by (simp add: failing_cycle_def upt_rec from_millis_def from_secs_def)

section \<open>The ephemeral-auth watch\<close>

text \<open>The entries a watch delivers: those before its first error.\<close>

fun delivered_entries :: "('x, 'y) result list \<Rightarrow> 'x list" where
  "delivered_entries [] = []"
| "delivered_entries (Ok x # rs) = x # delivered_entries rs"
| "delivered_entries (Err e # rs) = []"

definition readable_changes :: "'v bytes_decoder \<Rightarrow> kv_entry list \<Rightarrow> 'v auth_change list" where
  "readable_changes dec es = List.map_filter (\<lambda>e. ok (change_from dec e)) es"

lemma readable_changes_simps [simp]:
  "readable_changes dec [] = []"
  "readable_changes dec (e # es) = (case change_from dec e of
     Ok ch \<Rightarrow> ch # readable_changes dec es | Err _ \<Rightarrow> readable_changes dec es)"
  by (auto simp: readable_changes_def map_filter_simps split: sum.splits)

lemma length_readable: "length (readable_changes dec es) \<le> length es"
  by (induction es) (auto split: sum.splits)

lemma unat_sat_add_1: "unat a + 1 < 2 ^ 64 \<Longrightarrow> unat (sat_add a 1) = unat a + 1" for a :: u64
  by (simp add: unat_sat_add)

lemma watch_entries_accounts:
  fixes w :: "'h watcher"
  shows "watch_entries dec f rs w = (r, w') \<Longrightarrow>
    unat (wp_changes (wa_progress w)) + length rs < 2 ^ 64 \<Longrightarrow>
    unat (wp_skipped (wa_progress w)) + length rs < 2 ^ 64 \<Longrightarrow>
    wa_handler w' = fold f (readable_changes dec (delivered_entries rs)) (wa_handler w) \<and>
    unat (wp_changes (wa_progress w')) = unat (wp_changes (wa_progress w))
      + length (readable_changes dec (delivered_entries rs)) \<and>
    unat (wp_skipped (wa_progress w')) + length (readable_changes dec (delivered_entries rs))
      = unat (wp_skipped (wa_progress w)) + length (delivered_entries rs) \<and>
    wa_health w' = WatchDegraded"
proof (induction rs arbitrary: w)
  case Nil
  then show ?case by (auto simp: set_health_def)
next
  case (Cons x rs)
  show ?case
  proof (cases x)
    case (Inl e)
    with Cons.prems show ?thesis by (auto simp: set_health_def)
  next
    case (Inr entry)
    show ?thesis
    proof (cases "change_from dec entry")
      case (Inl reason)
      with Inr Cons.prems Cons.IH [of "(set_health WatchHealthy w)\<lparr>wa_progress := record_skip (wa_progress w)\<rparr>"]
      show ?thesis
        by (simp add: Let_def set_health_def record_skip_def unat_sat_add_1)
    next
      case (Inr ch)
      with \<open>x = Inr entry\<close> Cons.prems
        Cons.IH [of "(set_health WatchHealthy w)\<lparr>wa_handler := f ch (wa_handler w),
          wa_progress := record_change (wa_progress w)\<rparr>"]
      show ?thesis
        by (simp add: Let_def set_health_def record_change_def unat_sat_add_1)
    qed
  qed
qed

text \<open>a watch hands the caller exactly the readable entries it was delivered, in order, and its
  progress counts every delivered entry once, as a change or as skipped; when it ends, for whatever
  reason, the health is degraded.
\<close>

theorem auth_watch_accounts_for_every_entry:
  fixes w :: "'h watcher"
  assumes "kb_watch_all kv s = (Ok rs, s1)" and "auth_watch kv dec f s w = (r, s', w')"
    and "unat (wp_changes (wa_progress w)) + length rs < 2 ^ 64"
    and "unat (wp_skipped (wa_progress w)) + length rs < 2 ^ 64"
  shows "wa_handler w' = fold f (readable_changes dec (delivered_entries rs)) (wa_handler w) \<and>
    unat (wp_changes (wa_progress w')) + unat (wp_skipped (wa_progress w')) =
      unat (wp_changes (wa_progress w)) + unat (wp_skipped (wa_progress w)) + length (delivered_entries rs) \<and>
    wa_health w' = WatchDegraded"
proof -
  have "watch_entries dec f rs w = (r, w')"
    using assms(1,2) by (auto simp: auth_watch_def split: prod.splits)
  from watch_entries_accounts [OF this assms(3,4)] show ?thesis
    by auto
qed

definition sample_watcher :: "string auth_change list watcher" where
  "sample_watcher = \<lparr>wa_health = WatchDegraded,
     wa_progress = \<lparr>wp_changes = 0, wp_skipped = 0\<rparr>, wa_handler = []\<rparr>"

definition sample_bucket :: "(string, string) bmap kv_bucket" where
  "sample_bucket = memory_bucket\<lparr>kb_watch_all := (\<lambda>s. (Ok
     [Ok \<lparr>ke_key = ''k'', ke_value = ''v'', ke_revision = 1, ke_operation = OpPut\<rparr>,
      Ok \<lparr>ke_key = [], ke_value = ''v'', ke_revision = 2, ke_operation = OpPut\<rparr>,
      Err ''lost''], s))\<rparr>"

theorem auth_watch_accounts_for_every_entry_witness:
  "\<exists>r s' w'. auth_watch sample_bucket Ok (\<lambda>ch h. h @ [ch]) [] sample_watcher = (r, s', w') \<and>
     wa_handler w' = [AuthSet (KvKey ''k'') ''v''] \<and>
     unat (wp_changes (wa_progress w')) + unat (wp_skipped (wa_progress w')) = 2"
proof -
  obtain r s' w' where run:
    "auth_watch sample_bucket Ok (\<lambda>ch h. h @ [ch]) [] sample_watcher = (r, s', w')"
    by (metis prod_cases3)
  have "change_from Ok \<lparr>ke_key = ''k'', ke_value = ''v'', ke_revision = 1, ke_operation = OpPut\<rparr>
      = Ok (AuthSet (KvKey ''k'') ''v'')"
    and "change_from Ok \<lparr>ke_key = [], ke_value = ''v'', ke_revision = 2, ke_operation = OpPut\<rparr>
      = Err SkipInvalidKey"
    by (simp_all add: change_from_def kv_key_new_def kv_validate_def kv_valid_char_def str_simps)
  with auth_watch_accounts_for_every_entry [OF _ run, of
      "[Ok \<lparr>ke_key = ''k'', ke_value = ''v'', ke_revision = 1, ke_operation = OpPut\<rparr>,
        Ok \<lparr>ke_key = [], ke_value = ''v'', ke_revision = 2, ke_operation = OpPut\<rparr>, Err ''lost'']" "[]"]
  show ?thesis
    using run by (simp add: sample_bucket_def sample_watcher_def)
qed

end
