(* ===== verification/Directory_Types.thy ===== *)
theory Directory_Types
  imports Json Kv_Key
begin

text \<open>
  The published directory language of \<^verbatim>\<open>br-core-directory\<close>: users, groups and
  service accounts with their extension bags, their flattened JSON forms, the manifest, and the
  key grammar of the bucket.
\<close>

section \<open>Extension bags\<close>

type_synonym bag = "(string, json) bmap"

datatype core_directory_error = ReservedExtensionKey string string

fun reject_reserved_keys :: "string \<Rightarrow> string list \<Rightarrow> bag \<Rightarrow> (unit, core_directory_error) result" where
  "reject_reserved_keys entity [] ext = Ok ()"
| "reject_reserved_keys entity (key # keys) ext =
     (if bm_contains ext key then Err (ReservedExtensionKey entity key)
      else reject_reserved_keys entity keys ext)"

lemma reject_reserved_keys_Ok_iff:
  "reject_reserved_keys entity keys ext = Ok u \<longleftrightarrow> (\<forall>k \<in> set keys. bm_get ext k = None)"
  by (induction entity keys ext rule: reject_reserved_keys.induct) (auto simp: bm_contains_def)

text \<open>
  The decoders take their fields out of the bag. A message names the field and what is wrong with
  it; the offending value, which the source prints as well, is left out.
\<close>

definition take_required_string :: "bag \<Rightarrow> string \<Rightarrow> (string, string) result \<times> bag" where
  "take_required_string b key =
     (case bm_get b key of
        Some (JStr s) \<Rightarrow> Ok s
      | Some other \<Rightarrow> Err (''field '' @ key @ '' must be a string'')
      | None \<Rightarrow> Err (''missing required field '' @ key), bm_remove key b)"

definition take_optional_string :: "bag \<Rightarrow> string \<Rightarrow> (string option, string) result \<times> bag" where
  "take_optional_string b key =
     (case bm_get b key of
        None \<Rightarrow> Ok None
      | Some JNull \<Rightarrow> Ok None
      | Some (JStr s) \<Rightarrow> Ok (Some s)
      | Some other \<Rightarrow> Err (''field '' @ key @ '' must be a string''), bm_remove key b)"

definition take_required_uuid_vec :: "wire_codec \<Rightarrow> bag \<Rightarrow> string \<Rightarrow> (uuid list, string) result \<times> bag" where
  "take_required_uuid_vec c b key =
     (case bm_get b key of
        None \<Rightarrow> Err (''missing required field '' @ key)
      | Some v \<Rightarrow> map_err (\<lambda>e. ''field '' @ key @ '' must be a uuid list: '' @ e)
                    (vec_decoder (uuid_decoder c) v), bm_remove key b)"

definition bag_decoder :: "bag decoder" where
  "bag_decoder v = (case v of JObj m \<Rightarrow> Ok m | _ \<Rightarrow> Err ''invalid type'')"

section \<open>Users\<close>

record published_user =
  pu_email :: string
  pu_first_name :: "string option"
  pu_last_name :: "string option"
  pu_extensions :: bag

definition user_reserved_keys :: "string list" where
  "user_reserved_keys = [''email'', ''first_name'', ''last_name'']"

definition published_user_new :: "string \<Rightarrow> string option \<Rightarrow> string option \<Rightarrow> bag
    \<Rightarrow> (published_user, core_directory_error) result" where
  "published_user_new email fname lname ext =
     (case reject_reserved_keys ''PublishedUser'' user_reserved_keys ext of
        Err e \<Rightarrow> Err e
      | Ok _ \<Rightarrow> Ok \<lparr>pu_email = email, pu_first_name = fname, pu_last_name = lname, pu_extensions = ext\<rparr>)"

definition opt_field :: "string \<Rightarrow> string option \<Rightarrow> (string \<times> json) list" where
  "opt_field k v = (case v of None \<Rightarrow> [] | Some s \<Rightarrow> [(k, JStr s)])"

definition user_json :: "published_user \<Rightarrow> json" where
  "user_json u = json_obj ([(''email'', JStr (pu_email u))] @ opt_field ''first_name'' (pu_first_name u)
     @ opt_field ''last_name'' (pu_last_name u) @ pu_extensions u)"

definition user_decoder :: "(core_directory_error \<Rightarrow> string) \<Rightarrow> published_user decoder" where
  "user_decoder render v = and_then (bag_decoder v) (\<lambda>b0.
     let (email, b1) = take_required_string b0 ''email'';
         (fname, b2) = take_optional_string b1 ''first_name'';
         (lname, b3) = take_optional_string b2 ''last_name''
     in and_then email (\<lambda>e. and_then fname (\<lambda>f. and_then lname (\<lambda>l.
          map_err render (published_user_new e f l b3)))))"

definition published_user_ok :: "published_user \<Rightarrow> bool" where
  "published_user_ok u \<longleftrightarrow> bm_ok (pu_extensions u) \<and>
     (\<forall>k \<in> set user_reserved_keys. bm_get (pu_extensions u) k = None)"

section \<open>Groups\<close>

record published_group =
  pg_name :: string
  pg_member_ids :: "uuid list"
  pg_extensions :: bag

definition group_reserved_keys :: "string list" where
  "group_reserved_keys = [''name'', ''member_ids'']"

definition published_group_new :: "string \<Rightarrow> uuid list \<Rightarrow> bag
    \<Rightarrow> (published_group, core_directory_error) result" where
  "published_group_new name members ext =
     (case reject_reserved_keys ''PublishedGroup'' group_reserved_keys ext of
        Err e \<Rightarrow> Err e
      | Ok _ \<Rightarrow> Ok \<lparr>pg_name = name, pg_member_ids = members, pg_extensions = ext\<rparr>)"

definition group_has_member :: "published_group \<Rightarrow> uuid \<Rightarrow> bool" where
  "group_has_member g u \<longleftrightarrow> u \<in> set (pg_member_ids g)"

definition group_json :: "wire_codec \<Rightarrow> published_group \<Rightarrow> json" where
  "group_json c g = json_obj ([(''name'', JStr (pg_name g)),
     (''member_ids'', JArr (map (uuid_json c) (pg_member_ids g)))] @ pg_extensions g)"

definition group_decoder :: "wire_codec \<Rightarrow> (core_directory_error \<Rightarrow> string) \<Rightarrow> published_group decoder" where
  "group_decoder c render v = and_then (bag_decoder v) (\<lambda>b0.
     let (name, b1) = take_required_string b0 ''name'';
         (members, b2) = take_required_uuid_vec c b1 ''member_ids''
     in and_then name (\<lambda>n. and_then members (\<lambda>ms.
          map_err render (published_group_new n ms b2))))"

definition published_group_ok :: "published_group \<Rightarrow> bool" where
  "published_group_ok g \<longleftrightarrow> bm_ok (pg_extensions g) \<and>
     (\<forall>k \<in> set group_reserved_keys. bm_get (pg_extensions g) k = None)"

section \<open>Service accounts\<close>

record published_service_account =
  psa_name :: string
  psa_extensions :: bag

definition service_account_reserved_keys :: "string list" where
  "service_account_reserved_keys = [''name'']"

definition published_service_account_new :: "string \<Rightarrow> bag
    \<Rightarrow> (published_service_account, core_directory_error) result" where
  "published_service_account_new name ext =
     (case reject_reserved_keys ''PublishedServiceAccount'' service_account_reserved_keys ext of
        Err e \<Rightarrow> Err e
      | Ok _ \<Rightarrow> Ok \<lparr>psa_name = name, psa_extensions = ext\<rparr>)"

definition service_account_json :: "published_service_account \<Rightarrow> json" where
  "service_account_json a = json_obj ([(''name'', JStr (psa_name a))] @ psa_extensions a)"

definition service_account_decoder :: "(core_directory_error \<Rightarrow> string)
    \<Rightarrow> published_service_account decoder" where
  "service_account_decoder render v = and_then (bag_decoder v) (\<lambda>b0.
     let (name, b1) = take_required_string b0 ''name''
     in and_then name (\<lambda>n. map_err render (published_service_account_new n b1)))"

definition published_service_account_ok :: "published_service_account \<Rightarrow> bool" where
  "published_service_account_ok a \<longleftrightarrow> bm_ok (psa_extensions a) \<and> bm_get (psa_extensions a) ''name'' = None"

section \<open>The manifest\<close>

datatype published_entity = EntUsers | EntGroups | EntServiceAccounts | EntOther string

fun entity_as_wire :: "published_entity \<Rightarrow> string" where
  "entity_as_wire EntUsers = ''users''"
| "entity_as_wire EntGroups = ''groups''"
| "entity_as_wire EntServiceAccounts = ''service_accounts''"
| "entity_as_wire (EntOther raw) = raw"

definition entity_from_wire :: "string \<Rightarrow> published_entity" where
  "entity_from_wire raw =
     (if raw = ''users'' then EntUsers
      else if raw = ''groups'' then EntGroups
      else if raw = ''service_accounts'' then EntServiceAccounts
      else EntOther raw)"

record directory_meta =
  dm_version :: u8
  dm_entities :: "published_entity list"

definition meta_json :: "directory_meta \<Rightarrow> json" where
  "meta_json m = json_obj [(''version'', JNat (unat (dm_version m))),
     (''entities'', JArr (map (\<lambda>e. JStr (entity_as_wire e)) (dm_entities m)))]"

definition entity_decoder :: "published_entity decoder" where
  "entity_decoder v = and_then (str_decoder v) (\<lambda>s. Ok (entity_from_wire s))"

definition meta_decoder :: "directory_meta decoder" where
  "meta_decoder v = and_then (struct_fields [''version'', ''entities''] v) (\<lambda>fs.
     and_then (required u8_decoder ''version'' fs) (\<lambda>ver.
     and_then (required (vec_decoder entity_decoder) ''entities'' fs) (\<lambda>es.
       Ok \<lparr>dm_version = ver, dm_entities = es\<rparr>)))"

definition publishes :: "directory_meta \<Rightarrow> published_entity \<Rightarrow> bool" where
  "publishes m e \<longleftrightarrow> e \<in> set (dm_entities m)"

definition publishes_users :: "directory_meta \<Rightarrow> bool" where
  "publishes_users m = publishes m EntUsers"
definition publishes_groups :: "directory_meta \<Rightarrow> bool" where
  "publishes_groups m = publishes m EntGroups"
definition publishes_service_accounts :: "directory_meta \<Rightarrow> bool" where
  "publishes_service_accounts m = publishes m EntServiceAccounts"

lemma entity_from_as_wire: "entity_from_wire (entity_as_wire e) = e \<longleftrightarrow>
    (\<forall>raw. e = EntOther raw \<longrightarrow> raw \<notin> {''users'', ''groups'', ''service_accounts''})"
  by (cases e) (auto simp: entity_from_wire_def)

lemma entity_as_from_wire [simp]: "entity_as_wire (entity_from_wire s) = s"
  by (simp add: entity_from_wire_def)

section \<open>Keys\<close>

definition users_key_prefix :: string where "users_key_prefix = ''identity/users/''"
definition groups_key_prefix :: string where "groups_key_prefix = ''identity/groups/''"
definition service_accounts_key_prefix :: string where
  "service_accounts_key_prefix = ''identity/service_accounts/''"
definition meta_key_str :: string where "meta_key_str = ''identity/_meta''"

definition user_kv_key :: "wire_codec \<Rightarrow> uuid \<Rightarrow> string" where
  "user_kv_key c u = users_key_prefix @ uuid_show c u"
definition group_kv_key :: "wire_codec \<Rightarrow> uuid \<Rightarrow> string" where
  "group_kv_key c u = groups_key_prefix @ uuid_show c u"
definition service_account_kv_key :: "wire_codec \<Rightarrow> uuid \<Rightarrow> string" where
  "service_account_kv_key c u = service_accounts_key_prefix @ uuid_show c u"

definition user_id_from_kv_key :: "wire_codec \<Rightarrow> string \<Rightarrow> uuid option" where
  "user_id_from_kv_key c key = Option.bind (strip_prefix users_key_prefix key) (uuid_parse c)"
definition group_id_from_kv_key :: "wire_codec \<Rightarrow> string \<Rightarrow> uuid option" where
  "group_id_from_kv_key c key = Option.bind (strip_prefix groups_key_prefix key) (uuid_parse c)"
definition service_account_id_from_kv_key :: "wire_codec \<Rightarrow> string \<Rightarrow> uuid option" where
  "service_account_id_from_kv_key c key =
     Option.bind (strip_prefix service_accounts_key_prefix key) (uuid_parse c)"

lemma user_key_roundtrip: "codec_ok c \<Longrightarrow> user_id_from_kv_key c (user_kv_key c u) = Some u"
  by (simp add: user_id_from_kv_key_def user_kv_key_def codec_ok_def)
lemma group_key_roundtrip: "codec_ok c \<Longrightarrow> group_id_from_kv_key c (group_kv_key c u) = Some u"
  by (simp add: group_id_from_kv_key_def group_kv_key_def codec_ok_def)
lemma service_account_key_roundtrip:
  "codec_ok c \<Longrightarrow> service_account_id_from_kv_key c (service_account_kv_key c u) = Some u"
  by (simp add: service_account_id_from_kv_key_def service_account_kv_key_def codec_ok_def)

section \<open>Roundtrips\<close>

lemma bm_of_list_ext:
  assumes "bm_ok m" and "\<And>k. map_of (rev kvs) k = bm_get m k"
  shows "bm_of_list kvs = m"
  using assms by (intro bm_ext) (auto simp: bm_get_extend)

lemma map_of_rev_bag: "bm_ok b \<Longrightarrow> map_of (rev b) = bm_get b"
  by (simp add: map_of_rev_distinct bm_ok_distinct)

lemma bm_get_fields_bag:
  "bm_ok ext \<Longrightarrow> bm_get (bm_of_list (fs @ ext)) = map_of (rev fs) ++ bm_get ext"
  by (simp add: bm_get_extend map_of_rev_bag)

lemma user_roundtrip:
  assumes "published_user_ok u"
  shows "user_decoder render (user_json u) = Ok u"
proof -
  obtain e f l ext where u: "u = \<lparr>pu_email = e, pu_first_name = f, pu_last_name = l, pu_extensions = ext\<rparr>"
    by (cases u)
  have ext: "bm_ok ext" "bm_get ext ''email'' = None" "bm_get ext ''first_name'' = None"
    "bm_get ext ''last_name'' = None"
    using assms by (auto simp: u published_user_ok_def user_reserved_keys_def)
  define b0 where "b0 = bm_of_list ([(''email'', JStr e)] @ opt_field ''first_name'' f
    @ opt_field ''last_name'' l @ ext)"
  have b0: "bm_get b0 = map_of (rev ([(''email'', JStr e)] @ opt_field ''first_name'' f
      @ opt_field ''last_name'' l)) ++ bm_get ext"
    using bm_get_fields_bag [OF ext(1), of "[(''email'', JStr e)] @ opt_field ''first_name'' f
      @ opt_field ''last_name'' l"] by (simp add: b0_def)
  have core: "bm_get b0 ''email'' = Some (JStr e)"
      "bm_get b0 ''first_name'' = map_option JStr f" "bm_get b0 ''last_name'' = map_option JStr l"
    using ext by (simp_all add: b0 map_add_def opt_field_def split: option.splits)
  have okb: "bm_ok b0"
    unfolding b0_def by (rule bm_ok_extend) simp
  have bag: "bm_remove ''last_name'' (bm_remove ''first_name'' (bm_remove ''email'' b0)) = ext"
    by (rule bm_ext) (use ext b0 okb in \<open>auto simp: opt_field_def fun_eq_iff map_add_def
      split: option.splits\<close>)
  have "reject_reserved_keys ''PublishedUser'' user_reserved_keys ext = Ok ()"
    using ext by (simp add: reject_reserved_keys_Ok_iff user_reserved_keys_def bm_contains_def)
  then have new: "published_user_new e f l ext = Ok u"
    by (simp add: published_user_new_def u)
  have json: "user_json u = JObj b0"
    by (simp add: user_json_def json_obj_def b0_def u)
  show ?thesis
    using new by (cases f; cases l) (simp_all add: user_decoder_def json bag_decoder_def
        take_required_string_def take_optional_string_def Let_def core bag)
qed

lemma uuid_vec_roundtrip:
  "codec_ok c \<Longrightarrow> vec_decoder (uuid_decoder c) (JArr (map (uuid_json c) us)) = Ok us"
  by (rule vec_decoder_map) simp

lemma group_roundtrip:
  assumes "codec_ok c" and "published_group_ok g"
  shows "group_decoder c render (group_json c g) = Ok g"
proof -
  obtain n ms ext where g: "g = \<lparr>pg_name = n, pg_member_ids = ms, pg_extensions = ext\<rparr>"
    by (cases g)
  have ext: "bm_ok ext" "bm_get ext ''name'' = None" "bm_get ext ''member_ids'' = None"
    using assms(2) by (auto simp: g published_group_ok_def group_reserved_keys_def)
  define b0 where "b0 = bm_of_list ([(''name'', JStr n),
    (''member_ids'', JArr (map (uuid_json c) ms))] @ ext)"
  have b0: "bm_get b0 = map_of (rev [(''name'', JStr n),
      (''member_ids'', JArr (map (uuid_json c) ms))]) ++ bm_get ext"
    using bm_get_fields_bag [OF ext(1)] by (simp only: b0_def)
  have core: "bm_get b0 ''name'' = Some (JStr n)"
      "bm_get b0 ''member_ids'' = Some (JArr (map (uuid_json c) ms))"
    using ext by (simp_all add: b0 map_add_def)
  have okb: "bm_ok b0"
    unfolding b0_def by (rule bm_ok_extend) simp
  have bag: "bm_remove ''member_ids'' (bm_remove ''name'' b0) = ext"
    by (rule bm_ext) (use ext b0 okb in \<open>auto simp: fun_eq_iff map_add_def split: option.splits\<close>)
  have "reject_reserved_keys ''PublishedGroup'' group_reserved_keys ext = Ok ()"
    using ext by (simp add: reject_reserved_keys_Ok_iff group_reserved_keys_def bm_contains_def)
  then have new: "published_group_new n ms ext = Ok g"
    by (simp add: published_group_new_def g)
  have json: "group_json c g = JObj b0"
    by (simp add: group_json_def json_obj_def b0_def g)
  show ?thesis
    by (simp add: group_decoder_def json bag_decoder_def take_required_string_def
        take_required_uuid_vec_def Let_def core bag new uuid_vec_roundtrip [OF assms(1)]
        del: vec_decoder.simps)
qed

lemma service_account_roundtrip:
  assumes "published_service_account_ok a"
  shows "service_account_decoder render (service_account_json a) = Ok a"
proof -
  obtain n ext where a: "a = \<lparr>psa_name = n, psa_extensions = ext\<rparr>"
    by (cases a)
  have ext: "bm_ok ext" "bm_get ext ''name'' = None"
    using assms by (auto simp: a published_service_account_ok_def)
  define b0 where "b0 = bm_of_list ([(''name'', JStr n)] @ ext)"
  have b0: "bm_get b0 = map_of (rev [(''name'', JStr n)]) ++ bm_get ext"
    using bm_get_fields_bag [OF ext(1)] by (simp only: b0_def)
  have core: "bm_get b0 ''name'' = Some (JStr n)"
    using ext by (simp add: b0 map_add_def)
  have okb: "bm_ok b0"
    unfolding b0_def by (rule bm_ok_extend) simp
  have bag: "bm_remove ''name'' b0 = ext"
    by (rule bm_ext) (use ext b0 okb in \<open>auto simp: fun_eq_iff map_add_def split: option.splits\<close>)
  have "reject_reserved_keys ''PublishedServiceAccount'' service_account_reserved_keys ext = Ok ()"
    using ext by (simp add: reject_reserved_keys_Ok_iff service_account_reserved_keys_def bm_contains_def)
  then have new: "published_service_account_new n ext = Ok a"
    by (simp add: published_service_account_new_def a)
  have json: "service_account_json a = JObj b0"
    by (simp add: service_account_json_def json_obj_def b0_def a)
  show ?thesis
    by (simp add: service_account_decoder_def json bag_decoder_def take_required_string_def
        Let_def core bag new)
qed

lemma new_keeps_extensions_free:
  "published_user_new e f l ext = Ok u \<Longrightarrow> bm_ok ext \<Longrightarrow> published_user_ok u"
  "published_group_new n ms ext = Ok g \<Longrightarrow> bm_ok ext \<Longrightarrow> published_group_ok g"
  "published_service_account_new n ext = Ok a \<Longrightarrow> bm_ok ext \<Longrightarrow> published_service_account_ok a"
  by (auto simp: published_user_new_def published_user_ok_def published_group_new_def
      published_group_ok_def published_service_account_new_def published_service_account_ok_def
      service_account_reserved_keys_def reject_reserved_keys_Ok_iff bm_contains_def
      split: sum.splits if_splits)

text \<open>every entity a constructor accepts reads back from its flattened JSON form as itself, so an
  extension can never shadow or lose a core field.
\<close>

theorem published_entities_roundtrip:
  assumes "codec_ok c" and "bm_ok ext"
  shows "(published_user_new e f l ext = Ok u \<longrightarrow> user_decoder render (user_json u) = Ok u) \<and>
    (published_group_new n ms ext = Ok g \<longrightarrow> group_decoder c render (group_json c g) = Ok g) \<and>
    (published_service_account_new n ext = Ok a \<longrightarrow>
       service_account_decoder render (service_account_json a) = Ok a)"
  using new_keeps_extensions_free [OF _ assms(2)] user_roundtrip group_roundtrip [OF assms(1)]
    service_account_roundtrip by blast

theorem published_entities_roundtrip_witness:
  "user_decoder (\<lambda>_. []) (user_json \<lparr>pu_email = ''a@b'', pu_first_name = None,
      pu_last_name = Some ''B'', pu_extensions = [(''team'', JNat 3)]\<rparr>)
    = Ok \<lparr>pu_email = ''a@b'', pu_first_name = None, pu_last_name = Some ''B'',
        pu_extensions = [(''team'', JNat 3)]\<rparr>"
  using published_entities_roundtrip [OF decimal_codec_ok, of "[(''team'', JNat 3)]" "''a@b''" None
      "Some ''B''" "\<lparr>pu_email = ''a@b'', pu_first_name = None, pu_last_name = Some ''B'',
        pu_extensions = [(''team'', JNat 3)]\<rparr>"]
  by (simp add: bm_ok_def published_user_new_def user_reserved_keys_def bm_contains_def)

end
