(* ===== verification/Directory_Sinks.thy ===== *)
theory Directory_Sinks
  imports Directory_Types Mirror_Correct
begin

text \<open>
  The projection sinks of \<^verbatim>\<open>br-util-directory\<close>: impacts, the database the sinks write to,
  their transactions and the three sinks. A statement is a function on the tables; the
  \<open>faults\<close> of the state are consumed one per database call, so that every call can fail
  before or after it took effect. A write path runs with no other writer between its statements.
\<close>

section \<open>Errors\<close>

datatype migrate_error = VersionMismatch int | MigrateOther string

datatype directory_error =
  DirFabric fabric_error
| DirKvKey kv_key_error
| DirManifestAbsent
| DirPersistence string
| DirMigrate migrate_error
| DirPool string
| DirInvalidNamespace
| DirInvalidKey
| DirStager string

fun directory_error_from_projection :: "directory_error projection_error \<Rightarrow> directory_error" where
  "directory_error_from_projection (ProjFabric e) = DirFabric e"
| "directory_error_from_projection (ProjSink e) = e"

section \<open>Impacts\<close>

record foreign_ref =
  fr_namespace :: string
  fr_key :: string

datatype impact = ForeignChanged foreign_ref

definition user_namespace :: string where "user_namespace = ''identity.user''"
definition group_namespace :: string where "group_namespace = ''identity.group''"
definition service_account_namespace :: string where
  "service_account_namespace = ''identity.service_account''"
definition max_namespace_len :: nat where "max_namespace_len = 64"
definition max_key_len :: nat where "max_key_len = 256"

fun contains_str :: "string \<Rightarrow> string \<Rightarrow> bool" where
  "contains_str p [] = (p = [])"
| "contains_str p (c # s) = (starts_with p (c # s) \<or> contains_str p s)"

definition is_valid_namespace :: "string \<Rightarrow> bool" where
  "is_valid_namespace ns \<longleftrightarrow> ns \<noteq> [] \<and> length ns \<le> max_namespace_len \<and>
     \<not> starts_with ''.'' ns \<and> \<not> ends_with ''.'' ns \<and> \<not> contains_str ''..'' ns \<and>
     list_all (\<lambda>b. is_ascii_lowercase b \<or> is_ascii_digit b \<or> b = CHR ''.'' \<or> b = CHR ''_'') ns"

text \<open>The control characters: the ASCII ones and U+0080 to U+009F, two bytes each.\<close>

definition control_chars :: "string list" where
  "control_chars = map (\<lambda>n. [char_of n]) ([0..<32] @ [127])
     @ map (\<lambda>n. [char_of (194::nat), char_of n]) [128..<160::nat]"

definition is_valid_key :: "string \<Rightarrow> bool" where
  "is_valid_key key \<longleftrightarrow> key \<noteq> [] \<and> length key \<le> max_key_len \<and>
     \<not> list_ex (\<lambda>w. contains_str w key) (control_chars @ white_space)"

definition foreign_ref_new :: "string \<Rightarrow> string \<Rightarrow> (foreign_ref, directory_error) result" where
  "foreign_ref_new ns key =
     (if \<not> is_valid_namespace ns then Err DirInvalidNamespace
      else if \<not> is_valid_key key then Err DirInvalidKey
      else Ok \<lparr>fr_namespace = ns, fr_key = key\<rparr>)"

definition foreign_entity :: "wire_codec \<Rightarrow> string \<Rightarrow> uuid \<Rightarrow> foreign_ref" where
  "foreign_entity c ns u = \<lparr>fr_namespace = ns, fr_key = uuid_show c u\<rparr>"
definition foreign_user where "foreign_user c u = foreign_entity c user_namespace u"
definition foreign_group where "foreign_group c u = foreign_entity c group_namespace u"
definition foreign_service_account where
  "foreign_service_account c u = foreign_entity c service_account_namespace u"

definition impact_changed :: "foreign_ref \<Rightarrow> impact" where
  "impact_changed f = ForeignChanged f"

section \<open>The database\<close>

record user_row =
  ur_email :: string
  ur_first_name :: "string option"
  ur_last_name :: "string option"
  ur_extensions :: json

text \<open>The tables, and \<open>staging\<close> for what the caller's impact stager writes beside them.\<close>

record 'x tables =
  known_users :: "(uuid, user_row) bmap"
  known_groups :: "(uuid, string) bmap"
  known_user_group :: "(uuid \<times> uuid) list"
  known_service_accounts :: "(uuid, string) bmap"
  staging :: 'x

record 'x directory_db =
  db_tables :: "'x tables"
  db_faults :: "db_fault list"
  db_progress :: u64

type_synonym ('a, 'x) db_op =
  "'x directory_db \<Rightarrow> ('a, directory_error) result \<times> 'x directory_db"

type_synonym 'x stager = "impact list \<Rightarrow> 'x \<Rightarrow> (unit, directory_error) result \<times> 'x"

text \<open>One call of the database; a statement that the database itself refuses has no effect.\<close>

definition db_call :: "('x tables \<Rightarrow> ('a \<times> 'x tables, string) result) \<Rightarrow> ('a, 'x) db_op" where
  "db_call stmt s =
     (let fs = tl (db_faults s);
          f = (case db_faults s of [] \<Rightarrow> NoFault | f # _ \<Rightarrow> f)
      in case f of
           FailBefore e \<Rightarrow> (Err (DirPersistence e), s\<lparr>db_faults := fs\<rparr>)
         | _ \<Rightarrow> (case stmt (db_tables s) of
             Err e \<Rightarrow> (Err (DirPersistence e), s\<lparr>db_faults := fs\<rparr>)
           | Ok (v, t) \<Rightarrow>
               ((case f of FailAfter e \<Rightarrow> Err (DirPersistence e) | _ \<Rightarrow> Ok v),
                s\<lparr>db_faults := fs, db_tables := t\<rparr>)))"

definition db_bind :: "('a, 'x) db_op \<Rightarrow> ('a \<Rightarrow> ('b, 'x) db_op) \<Rightarrow> ('b, 'x) db_op" where
  "db_bind op k s = (case op s of (Err e, s') \<Rightarrow> (Err e, s') | (Ok v, s') \<Rightarrow> k v s')"

definition db_return :: "'a \<Rightarrow> ('a, 'x) db_op" where
  "db_return v s = (Ok v, s)"

text \<open>Acquiring a connection and beginning a transaction change no row.\<close>

definition db_connect :: "(unit, 'x) db_op" where
  "db_connect = db_call (\<lambda>t. Ok ((), t))"

text \<open>
  The commit of the work done since \<open>saved\<close>. A commit that fails before it took effect loses
  the work; one that fails after it keeps it.
\<close>

definition db_commit :: "'x tables \<Rightarrow> (unit, 'x) db_op" where
  "db_commit saved s =
     (let fs = tl (db_faults s)
      in case db_faults s of
           FailBefore e # _ \<Rightarrow> (Err (DirPersistence e), s\<lparr>db_faults := fs, db_tables := saved\<rparr>)
         | FailAfter e # _ \<Rightarrow> (Err (DirPersistence e), s\<lparr>db_faults := fs\<rparr>)
         | _ \<Rightarrow> (Ok (), s\<lparr>db_faults := fs\<rparr>))"

section \<open>The sink context\<close>

definition bump :: "'x directory_db \<Rightarrow> 'x directory_db" where
  "bump s = s\<lparr>db_progress := db_progress s + 1\<rparr>"

definition settle :: "impact list \<Rightarrow> 'x directory_db \<Rightarrow> 'x directory_db" where
  "settle impacts s = (if impacts \<noteq> [] then bump s else s)"

definition stage_in :: "'x stager \<Rightarrow> impact list \<Rightarrow> (unit, 'x) db_op" where
  "stage_in st impacts s = (case st impacts (staging (db_tables s)) of
     (r, x) \<Rightarrow> (r, s\<lparr>db_tables := (db_tables s)\<lparr>staging := x\<rparr>\<rparr>))"

text \<open>A transaction that is dropped before its commit is rolled back.\<close>

definition apply_in_transaction :: "'x stager option \<Rightarrow> (impact list, 'x) db_op \<Rightarrow> (unit, 'x) db_op" where
  "apply_in_transaction stager write s0 = (case db_connect s0 of
     (Err e, s) \<Rightarrow> (Err e, s)
   | (Ok _, s) \<Rightarrow>
       (let saved = db_tables s in
        case write s of
          (Err e, s1) \<Rightarrow> (Err e, s1\<lparr>db_tables := saved\<rparr>)
        | (Ok impacts, s1) \<Rightarrow>
            (case (case stager of
                     Some st \<Rightarrow> if impacts \<noteq> [] then stage_in st impacts s1 else (Ok (), s1)
                   | None \<Rightarrow> (Ok (), s1)) of
               (Err e, s2) \<Rightarrow> (Err e, s2\<lparr>db_tables := saved\<rparr>)
             | (Ok _, s2) \<Rightarrow> (case db_commit saved s2 of
                 (Err e, s3) \<Rightarrow> (Err e, s3)
               | (Ok _, s3) \<Rightarrow> (Ok (), settle impacts s3)))))"

definition apply_single_statement :: "'x stager option \<Rightarrow> (impact list, 'x) db_op \<Rightarrow> (unit, 'x) db_op" where
  "apply_single_statement stager write s =
     (if stager \<noteq> None then apply_in_transaction stager write s
      else (case db_connect s of
          (Err e, s1) \<Rightarrow> (Err e, s1)
        | (Ok _, s1) \<Rightarrow> (case write s1 of
            (Err e, s2) \<Rightarrow> (Err e, s2)
          | (Ok impacts, s2) \<Rightarrow> (Ok (), settle impacts s2))))"

section \<open>Change-detecting upserts\<close>

definition joined_columns :: "string list \<Rightarrow> string \<Rightarrow> string" where
  "joined_columns columns q = join_on '', '' (map (\<lambda>c. q @ ''.'' @ c) columns)"

text \<open>The statement's text; building it without a column to compare panics.\<close>

definition change_detecting_upsert :: "string \<Rightarrow> string \<Rightarrow> string list \<Rightarrow> string option" where
  "change_detecting_upsert table key columns =
     (if columns = [] then None
      else Some (''INSERT INTO '' @ table @ '' AS t ('' @ key @ '', '' @ join_on '', '' columns
        @ '') VALUES ($1, '' @ join_on '', '' (map (\<lambda>i. ''$'' @ show_nat i) [2..<length columns + 2])
        @ '') ON CONFLICT ('' @ key @ '') DO UPDATE SET ''
        @ join_on '', '' (map (\<lambda>c. c @ '' = EXCLUDED.'' @ c) columns)
        @ '' WHERE ('' @ joined_columns columns ''t'' @ '') IS DISTINCT FROM (''
        @ joined_columns columns ''EXCLUDED'' @ '')''))"

definition user_columns :: "string list" where
  "user_columns = [''email'', ''first_name'', ''last_name'', ''extensions'']"

text \<open>What the database does for it: the number of rows inserted or updated.\<close>

definition upsert :: "'k::linorder \<Rightarrow> 'v \<Rightarrow> ('k, 'v) bmap \<Rightarrow> nat \<times> ('k, 'v) bmap" where
  "upsert k v m = (if bm_get m k = Some v then (0, m) else (1, bm_insert k v m))"

definition delete_row :: "'k::linorder \<Rightarrow> ('k, 'v) bmap \<Rightarrow> nat \<times> ('k, 'v) bmap" where
  "delete_row k m = (if bm_contains m k then 1 else 0, bm_remove k m)"

section \<open>The environment of the sinks\<close>

datatype consumption_scope = UsersOnly | UsersAndGroups

definition consumption_scope_default :: consumption_scope where
  "consumption_scope_default = UsersAndGroups"

fun consumes_groups :: "consumption_scope \<Rightarrow> bool" where
  "consumes_groups UsersAndGroups = True"
| "consumes_groups UsersOnly = False"

datatype persisted_extensions = PersistedExtensions json

definition extensions_none :: persisted_extensions where
  "extensions_none = PersistedExtensions (JObj [])"

fun extensions_into_value :: "persisted_extensions \<Rightarrow> json" where
  "extensions_into_value (PersistedExtensions v) = v"

record consumer_config =
  cc_scope :: consumption_scope
  cc_extract :: "published_user \<Rightarrow> persisted_extensions"
  cc_filter :: "published_user \<Rightarrow> bool"

definition config_default :: consumer_config where
  "config_default = \<lparr>cc_scope = consumption_scope_default, cc_extract = (\<lambda>_. extensions_none),
     cc_filter = (\<lambda>_. True)\<rparr>"

definition config_with_scope :: "consumption_scope \<Rightarrow> consumer_config \<Rightarrow> consumer_config" where
  "config_with_scope s c = c\<lparr>cc_scope := s\<rparr>"

definition extract_user_extensions :: "(published_user \<Rightarrow> persisted_extensions) \<Rightarrow> consumer_config \<Rightarrow> consumer_config" where
  "extract_user_extensions f c = c\<lparr>cc_extract := f\<rparr>"

definition filter_users :: "(published_user \<Rightarrow> bool) \<Rightarrow> consumer_config \<Rightarrow> consumer_config" where
  "filter_users f c = c\<lparr>cc_filter := f\<rparr>"

text \<open>
  \<open>env_jsonb\<close> takes a JSON value to what the database stores and compares for it in a
  \<^verbatim>\<open>jsonb\<close> column.
\<close>

record 'x directory_env =
  env_codec :: wire_codec
  env_jsonb :: "json \<Rightarrow> json"
  env_stager :: "'x stager option"
  env_config :: consumer_config

section \<open>Users\<close>

definition user_row_of :: "'x directory_env \<Rightarrow> published_user \<Rightarrow> user_row" where
  "user_row_of env v = \<lparr>ur_email = pu_email v, ur_first_name = pu_first_name v,
     ur_last_name = pu_last_name v,
     ur_extensions = env_jsonb env (extensions_into_value (cc_extract (env_config env) v))\<rparr>"

definition upsert_user :: "uuid \<Rightarrow> user_row \<Rightarrow> (nat, 'x) db_op" where
  "upsert_user u row = db_call (\<lambda>t. case upsert u row (known_users t) of
     (n, m) \<Rightarrow> Ok (n, t\<lparr>known_users := m\<rparr>))"

definition delete_user :: "uuid \<Rightarrow> (nat, 'x) db_op" where
  "delete_user u = db_call (\<lambda>t. case delete_row u (known_users t) of
     (n, m) \<Rightarrow> Ok (n, t\<lparr>known_users := m\<rparr>))"

definition memberships_of :: "uuid \<Rightarrow> (uuid list, 'x) db_op" where
  "memberships_of u = db_call (\<lambda>t. Ok (map fst (filter (\<lambda>(g, u'). u' = u) (known_user_group t)), t))"

definition user_project :: "'x directory_env \<Rightarrow> kv_key \<Rightarrow> published_user \<Rightarrow> (unit, 'x) db_op" where
  "user_project env key v s = (case user_id_from_kv_key (env_codec env) (kv_str key) of
     None \<Rightarrow> (Ok (), s)
   | Some u \<Rightarrow> apply_single_statement (env_stager env)
       (db_bind (upsert_user u (user_row_of env v)) (\<lambda>n. db_return
          (if 0 < n then [impact_changed (foreign_user (env_codec env) u)] else []))) s)"

definition user_retract :: "'x directory_env \<Rightarrow> kv_key \<Rightarrow> (unit, 'x) db_op" where
  "user_retract env key s = (case user_id_from_kv_key (env_codec env) (kv_str key) of
     None \<Rightarrow> (Ok (), s)
   | Some u \<Rightarrow> apply_single_statement (env_stager env)
       (db_bind (delete_user u) (\<lambda>n.
          if n = 0 then db_return []
          else if env_stager env \<noteq> None
          then db_bind (memberships_of u) (\<lambda>gs. db_return
            (impact_changed (foreign_user (env_codec env) u)
             # map (\<lambda>g. impact_changed (foreign_group (env_codec env) g)) gs))
          else db_return [impact_changed (foreign_user (env_codec env) u)])) s)"

text \<open>The keys of the ids a query returned; the first that is not a key is the error.\<close>

definition keys_of_ids :: "(uuid \<Rightarrow> string) \<Rightarrow> uuid list \<Rightarrow> (kv_key list, 'x) db_op" where
  "keys_of_ids show_key ids s =
     (case collect_results (map (\<lambda>u. map_err DirKvKey (kv_key_new (show_key u))) ids) of
        Err e \<Rightarrow> (Err e, s)
      | Ok ks \<Rightarrow> (Ok (bs_of_list ks), s))"

definition user_known_keys :: "'x directory_env \<Rightarrow> (kv_key list, 'x) db_op" where
  "user_known_keys env = db_bind (db_call (\<lambda>t. Ok (bm_keys (known_users t), t)))
     (keys_of_ids (user_kv_key (env_codec env)))"

definition user_sink :: "'x directory_env \<Rightarrow> (published_user, 'x directory_db, directory_error) sink" where
  "user_sink env = \<lparr>sk_project = user_project env, sk_retract = user_retract env,
     sk_known_keys = user_known_keys env\<rparr>"

section \<open>Service accounts\<close>

definition upsert_service_account :: "uuid \<Rightarrow> string \<Rightarrow> (nat, 'x) db_op" where
  "upsert_service_account a name = db_call (\<lambda>t. case upsert a name (known_service_accounts t) of
     (n, m) \<Rightarrow> Ok (n, t\<lparr>known_service_accounts := m\<rparr>))"

definition delete_service_account :: "uuid \<Rightarrow> (nat, 'x) db_op" where
  "delete_service_account a = db_call (\<lambda>t. case delete_row a (known_service_accounts t) of
     (n, m) \<Rightarrow> Ok (n, t\<lparr>known_service_accounts := m\<rparr>))"

definition service_account_project :: "'x directory_env \<Rightarrow> kv_key \<Rightarrow> published_service_account
    \<Rightarrow> (unit, 'x) db_op" where
  "service_account_project env key v s =
     (case service_account_id_from_kv_key (env_codec env) (kv_str key) of
        None \<Rightarrow> (Ok (), s)
      | Some a \<Rightarrow> apply_single_statement (env_stager env)
          (db_bind (upsert_service_account a (psa_name v)) (\<lambda>n. db_return
             (if 0 < n then [impact_changed (foreign_service_account (env_codec env) a)] else []))) s)"

definition service_account_retract :: "'x directory_env \<Rightarrow> kv_key \<Rightarrow> (unit, 'x) db_op" where
  "service_account_retract env key s =
     (case service_account_id_from_kv_key (env_codec env) (kv_str key) of
        None \<Rightarrow> (Ok (), s)
      | Some a \<Rightarrow> apply_single_statement (env_stager env)
          (db_bind (delete_service_account a) (\<lambda>n. db_return
             (if 0 < n then [impact_changed (foreign_service_account (env_codec env) a)] else []))) s)"

definition service_account_known_keys :: "'x directory_env \<Rightarrow> (kv_key list, 'x) db_op" where
  "service_account_known_keys env = db_bind (db_call (\<lambda>t. Ok (bm_keys (known_service_accounts t), t)))
     (keys_of_ids (service_account_kv_key (env_codec env)))"

definition service_account_sink :: "'x directory_env
    \<Rightarrow> (published_service_account, 'x directory_db, directory_error) sink" where
  "service_account_sink env = \<lparr>sk_project = service_account_project env,
     sk_retract = service_account_retract env, sk_known_keys = service_account_known_keys env\<rparr>"

section \<open>Groups\<close>

record member_row =
  mr_group_id :: uuid
  mr_user_id :: uuid

definition member_rows :: "uuid \<Rightarrow> published_group \<Rightarrow> member_row list" where
  "member_rows g v = map (\<lambda>u. \<lparr>mr_group_id = g, mr_user_id = u\<rparr>) (pg_member_ids v)"

record membership_diff =
  md_removed :: "uuid list"
  md_added :: "uuid list"

definition diff_between :: "uuid list \<Rightarrow> uuid list \<Rightarrow> membership_diff" where
  "diff_between current projected =
     \<lparr>md_removed = bs_difference current projected, md_added = bs_difference projected current\<rparr>"

definition moved :: "membership_diff \<Rightarrow> bool" where
  "moved d \<longleftrightarrow> md_removed d \<noteq> [] \<or> md_added d \<noteq> []"

definition upsert_group :: "uuid \<Rightarrow> string \<Rightarrow> (nat, 'x) db_op" where
  "upsert_group g name = db_call (\<lambda>t. case upsert g name (known_groups t) of
     (n, m) \<Rightarrow> Ok (n, t\<lparr>known_groups := m\<rparr>))"

text \<open>Deleting a group deletes its memberships by the foreign key's cascade.\<close>

definition delete_group :: "uuid \<Rightarrow> (bool, 'x) db_op" where
  "delete_group g = db_call (\<lambda>t. case delete_row g (known_groups t) of
     (n, m) \<Rightarrow> Ok (0 < n, t\<lparr>known_groups := m,
       known_user_group := (if 0 < n then filter (\<lambda>(g', u). g' \<noteq> g) (known_user_group t)
         else known_user_group t)\<rparr>))"

definition locked_group :: "uuid \<Rightarrow> (bool, 'x) db_op" where
  "locked_group g = db_call (\<lambda>t. Ok (bm_contains (known_groups t) g, t))"

definition members_in :: "uuid \<Rightarrow> 'x tables \<Rightarrow> uuid list" where
  "members_in g t = map snd (filter (\<lambda>(g', u). g' = g) (known_user_group t))"

definition locked_members :: "uuid \<Rightarrow> (uuid list, 'x) db_op" where
  "locked_members g = db_call (\<lambda>t. Ok (bs_of_list (members_in g t), t))"

definition delete_members :: "uuid \<Rightarrow> uuid list \<Rightarrow> (unit, 'x) db_op" where
  "delete_members g us = db_call (\<lambda>t. Ok ((), t\<lparr>known_user_group :=
     filter (\<lambda>(g', u). \<not> (g' = g \<and> u \<in> set us)) (known_user_group t)\<rparr>))"

text \<open>An insertion refers to an existing group and does nothing for a membership that exists.\<close>

definition insert_members :: "uuid \<Rightarrow> uuid list \<Rightarrow> (unit, 'x) db_op" where
  "insert_members g us = db_call (\<lambda>t.
     if us \<noteq> [] \<and> \<not> bm_contains (known_groups t) g then Err ''foreign key violation''
     else Ok ((), t\<lparr>known_user_group := known_user_group t @
       filter (\<lambda>m. m \<notin> set (known_user_group t)) (map (Pair g) (remdups us))\<rparr>))"

definition rewrite :: "membership_diff \<Rightarrow> uuid \<Rightarrow> (unit, 'x) db_op" where
  "rewrite d g = db_bind
     (if md_removed d \<noteq> [] then delete_members g (md_removed d) else db_return ())
     (\<lambda>_. if md_added d \<noteq> [] then insert_members g (md_added d) else db_return ())"

definition group_project :: "'x directory_env \<Rightarrow> kv_key \<Rightarrow> published_group \<Rightarrow> (unit, 'x) db_op" where
  "group_project env key v s = (case group_id_from_kv_key (env_codec env) (kv_str key) of
     None \<Rightarrow> (Ok (), s)
   | Some g \<Rightarrow> apply_in_transaction (env_stager env)
       (db_bind (upsert_group g (pg_name v)) (\<lambda>n.
        let name_changed = 0 < n;
            projected = bs_of_list (map mr_user_id (member_rows g v))
        in db_bind (locked_members g) (\<lambda>current.
           let membership = diff_between current projected
           in db_bind (if moved membership then rewrite membership g else db_return ()) (\<lambda>_.
              db_return (if \<not> name_changed \<and> \<not> moved membership then []
                else impact_changed (foreign_group (env_codec env) g)
                  # map (\<lambda>u. impact_changed (foreign_user (env_codec env) u))
                      (md_removed membership)))))) s)"

definition group_retract :: "'x directory_env \<Rightarrow> kv_key \<Rightarrow> (unit, 'x) db_op" where
  "group_retract env key s = (case group_id_from_kv_key (env_codec env) (kv_str key) of
     None \<Rightarrow> (Ok (), s)
   | Some g \<Rightarrow>
       (if env_stager env = None
        then apply_single_statement (env_stager env)
          (db_bind (delete_group g) (\<lambda>deleted. db_return
             (if deleted then [impact_changed (foreign_group (env_codec env) g)] else []))) s
        else apply_in_transaction (env_stager env)
          (db_bind (locked_group g) (\<lambda>locked.
             if \<not> locked then db_return []
             else db_bind (locked_members g) (\<lambda>members.
               db_bind (delete_group g) (\<lambda>_. db_return
                 (impact_changed (foreign_group (env_codec env) g)
                  # map (\<lambda>u. impact_changed (foreign_user (env_codec env) u)) members))))) s))"

definition group_known_keys :: "'x directory_env \<Rightarrow> (kv_key list, 'x) db_op" where
  "group_known_keys env = db_bind (db_call (\<lambda>t. Ok (bm_keys (known_groups t), t)))
     (keys_of_ids (group_kv_key (env_codec env)))"

definition group_sink :: "'x directory_env \<Rightarrow> (published_group, 'x directory_db, directory_error) sink" where
  "group_sink env = \<lparr>sk_project = group_project env, sk_retract = group_retract env,
     sk_known_keys = group_known_keys env\<rparr>"

end
