(* ===== verification/Directory_Correct.thy ===== *)
theory Directory_Correct
  imports Directory_Sinks
begin

text \<open>
  Properties of the directory sinks: writes are atomic, the three sinks satisfy the sink interface,
  and a write that changes nothing reports no impact.
\<close>

section \<open>Database calls\<close>

lemma db_call_OkD:
  "db_call stmt s = (Ok v, s') \<Longrightarrow>
     \<exists>t. stmt (db_tables s) = Ok (v, t) \<and> s' = s\<lparr>db_faults := tl (db_faults s), db_tables := t\<rparr>"
  by (auto simp: db_call_def Let_def split: sum.splits prod.splits db_fault.splits)

lemma db_bind_Ok_iff:
  "db_bind op k s = (Ok v, s') \<longleftrightarrow> (\<exists>u s1. op s = (Ok u, s1) \<and> k u s1 = (Ok v, s'))"
  by (auto simp: db_bind_def split: sum.splits prod.splits)

lemma db_return_Ok_iff [simp]: "db_return u s = (Ok v, s') \<longleftrightarrow> v = u \<and> s' = s"
  by (auto simp: db_return_def)

lemma db_connect_OkD: "db_connect s = (Ok u, s') \<Longrightarrow> s' = s\<lparr>db_faults := tl (db_faults s)\<rparr>"
  by (auto simp: db_connect_def dest: db_call_OkD)

lemma db_connect_tables: "db_tables (snd (db_connect s)) = db_tables s"
    "db_progress (snd (db_connect s)) = db_progress s"
  by (auto simp: db_connect_def db_call_def Let_def split: list.splits db_fault.splits)

text \<open>The rows of the sinks, without what the stager wrote.\<close>

definition row_tables :: "'x tables \<Rightarrow> unit tables" where
  "row_tables t = \<lparr>known_users = known_users t, known_groups = known_groups t,
     known_user_group = known_user_group t, known_service_accounts = known_service_accounts t,
     staging = ()\<rparr>"

lemma row_tables_simps [simp]:
  "known_users (row_tables t) = known_users t"
  "known_groups (row_tables t) = known_groups t"
  "known_user_group (row_tables t) = known_user_group t"
  "known_service_accounts (row_tables t) = known_service_accounts t"
  by (simp_all add: row_tables_def)

definition connected :: "'x directory_db \<Rightarrow> 'x directory_db" where
  "connected s = s\<lparr>db_faults := tl (db_faults s)\<rparr>"

lemma connected_simps [simp]:
  "db_tables (connected s) = db_tables s" "db_progress (connected s) = db_progress s"
  by (simp_all add: connected_def)

lemma settle_tables [simp]: "db_tables (settle is s) = db_tables s"
  by (simp add: settle_def bump_def)

lemma settle_progress: "db_progress (settle is s) = db_progress s + (if is = [] then 0 else 1)"
  by (simp add: settle_def bump_def)

lemma stage_in_tables: "row_tables (db_tables (snd (stage_in st is s))) = row_tables (db_tables s)"
    "db_progress (snd (stage_in st is s)) = db_progress s"
  by (simp_all add: stage_in_def row_tables_def split: prod.split)

lemma db_commit_OkD: "db_commit saved s = (Ok u, s') \<Longrightarrow> db_tables s' = db_tables s \<and> db_progress s' = db_progress s"
  by (auto simp: db_commit_def Let_def split: list.splits db_fault.splits)

lemma apply_in_transaction_OkD:
  assumes "apply_in_transaction stager write s = (Ok u, s')"
  shows "\<exists>is s1. write (connected s) = (Ok is, s1) \<and>
    row_tables (db_tables s') = row_tables (db_tables s1) \<and>
    db_progress s' = db_progress s1 + (if is = [] then 0 else 1)"
proof -
  obtain u0 s0 where conn: "db_connect s = (Ok u0, s0)"
    using assms by (auto simp: apply_in_transaction_def split: sum.splits prod.splits)
  then have s0: "s0 = connected s"
    by (auto simp: connected_def dest: db_connect_OkD)
  obtain "is" s1 where w: "write s0 = (Ok is, s1)"
    using assms by (auto simp: apply_in_transaction_def conn Let_def split: sum.splits prod.splits)
  define st where "st = (case stager of
    Some f \<Rightarrow> if is \<noteq> [] then stage_in f is s1 else (Ok (), s1) | None \<Rightarrow> (Ok (), s1))"
  have staged: "row_tables (db_tables (snd st)) = row_tables (db_tables s1)"
      "db_progress (snd st) = db_progress s1"
    by (auto simp: st_def stage_in_tables split: option.split)
  obtain u2 s2 where s2: "st = (Ok u2, s2)"
    using assms by (auto simp: apply_in_transaction_def conn w Let_def st_def
        split: sum.splits prod.splits)
  obtain u3 s3 where c: "db_commit (db_tables s0) s2 = (Ok u3, s3)" and "s' = settle is s3"
    using assms s2 by (auto simp: apply_in_transaction_def conn w Let_def st_def
        split: sum.splits prod.splits)
  with db_commit_OkD [OF c] staged s2 w s0 show ?thesis
    by (auto simp: settle_progress)
qed

lemma apply_single_statement_OkD:
  assumes "apply_single_statement stager write s = (Ok u, s')"
  shows "\<exists>is s1. write (connected s) = (Ok is, s1) \<and>
    row_tables (db_tables s') = row_tables (db_tables s1) \<and>
    db_progress s' = db_progress s1 + (if is = [] then 0 else 1)"
proof (cases stager)
  case None
  then show ?thesis
    using assms by (auto simp: apply_single_statement_def connected_def settle_progress
        dest!: db_connect_OkD split: sum.splits prod.splits)
next
  case (Some st)
  then show ?thesis
    using assms by (intro apply_in_transaction_OkD [of stager]) (simp add: apply_single_statement_def)
qed

section \<open>Rows by key\<close>

text \<open>The rows of a table as a map from the keys their ids show as.\<close>

definition keyed_rows :: "(string \<Rightarrow> uuid option) \<Rightarrow> (uuid \<Rightarrow> string) \<Rightarrow> (uuid \<Rightarrow> 'r option)
    \<Rightarrow> kv_key \<Rightarrow> 'r option" where
  "keyed_rows from_key to_key m k = Option.bind (from_key (kv_str k))
     (\<lambda>u. if kv_str k = to_key u then m u else None)"

definition canonical_key :: "(uuid \<Rightarrow> string) \<Rightarrow> kv_key \<Rightarrow> bool" where
  "canonical_key to_key k \<longleftrightarrow> (\<exists>u. k = KvKey (to_key u))"

lemma kv_key_eq_iff: "k = KvKey s \<longleftrightarrow> kv_str k = s"
  by (cases k) auto

lemma keyed_rows_at: "(\<And>u. from_key (to_key u) = Some u) \<Longrightarrow>
    keyed_rows from_key to_key m (KvKey (to_key u)) = m u"
  by (simp add: keyed_rows_def)

lemma keyed_rows_upd:
  assumes "\<And>u. from_key (to_key u) = Some u"
  shows "keyed_rows from_key to_key (m(u := r)) = (keyed_rows from_key to_key m)(KvKey (to_key u) := r)"
proof
  fix k
  show "keyed_rows from_key to_key (m(u := r)) k
      = ((keyed_rows from_key to_key m)(KvKey (to_key u) := r)) k"
  proof (cases "from_key (kv_str k)")
    case None
    with assms [of u] show ?thesis by (auto simp: keyed_rows_def)
  next
    case (Some u')
    with assms [of u] show ?thesis by (auto simp: keyed_rows_def kv_key_eq_iff)
  qed
qed

lemma keyed_rows_canonical: "keyed_rows from_key to_key m k \<noteq> None \<Longrightarrow> canonical_key to_key k"
  by (auto simp: keyed_rows_def canonical_key_def kv_key_eq_iff bind_eq_Some_conv split: if_splits)

lemma dom_keyed_rows: "(\<And>u. from_key (to_key u) = Some u) \<Longrightarrow>
    dom (keyed_rows from_key to_key m) = (\<lambda>u. KvKey (to_key u)) ` dom m"
  by (auto simp: keyed_rows_def kv_key_eq_iff bind_eq_Some_conv image_iff split: if_splits) (metis domI)

lemma keys_of_ids_OkD: "keys_of_ids show_key ids s = (Ok ks, s') \<Longrightarrow>
    s' = s \<and> set ks = (\<lambda>u. KvKey (show_key u)) ` set ids"
proof -
  assume "keys_of_ids show_key ids s = (Ok ks, s')"
  then obtain ks0 where "map (\<lambda>u. map_err DirKvKey (kv_key_new (show_key u))) ids = map Ok ks0"
    and ks: "s' = s" "ks = bs_of_list ks0"
    by (auto simp: keys_of_ids_def collect_results_Ok_iff split: sum.splits)
  then have "length ids = length ks0"
    and "\<forall>i < length ids. map_err DirKvKey (kv_key_new (show_key (ids ! i))) = Ok (ks0 ! i)"
    by (auto simp: list_eq_iff_nth_eq)
  then have "map (\<lambda>u. KvKey (show_key u)) ids = ks0"
    by (intro nth_equalityI) (simp_all add: kvk.mk_Ok_iff flip: kv_key_eq_iff)
  with ks show ?thesis by auto
qed

section \<open>The tables' invariant\<close>

definition tables_ok :: "'x tables \<Rightarrow> bool" where
  "tables_ok t \<longleftrightarrow> bm_ok (known_users t) \<and> bm_ok (known_groups t) \<and>
     bm_ok (known_service_accounts t) \<and> distinct (known_user_group t) \<and>
     fst ` set (known_user_group t) \<subseteq> fst ` set (known_groups t)"

lemma tables_ok_row [simp]: "tables_ok (row_tables t) \<longleftrightarrow> tables_ok t"
  by (simp add: tables_ok_def)

lemma tables_ok_cong: "row_tables t = row_tables t' \<Longrightarrow> tables_ok t \<longleftrightarrow> tables_ok t'"
  by (metis tables_ok_row)

lemma bm_get_upsert: "bm_get (snd (upsert k v m)) = (bm_get m)(k \<mapsto> v)"
  by (auto simp: upsert_def)

lemma upsert_pair: "upsert k v m = (n, m') \<Longrightarrow>
    bm_get m' = (bm_get m)(k \<mapsto> v) \<and> (bm_ok m \<longrightarrow> bm_ok m') \<and>
    fst ` set m' = insert k (fst ` set m) \<and> (n = 0 \<longleftrightarrow> bm_get m k = Some v)"
proof (cases "bm_get m k = Some v")
  case True
  then have "k \<in> fst ` set m"
    by (metis bm_contains_iff bm_contains_def option.distinct(1))
  moreover assume "upsert k v m = (n, m')"
  ultimately show ?thesis
    using True by (auto simp: upsert_def)
next
  case False
  moreover assume "upsert k v m = (n, m')"
  ultimately show ?thesis
    using False keys_bm_insert [of k v m] by (auto simp: upsert_def simp del: keys_bm_insert)
qed

lemma delete_row_pair: "delete_row k m = (n, m') \<Longrightarrow>
    bm_get m' = (bm_get m)(k := None) \<and> (bm_ok m \<longrightarrow> bm_ok m') \<and>
    fst ` set m' = fst ` set m - {k} \<and> (n = 0 \<longleftrightarrow> bm_get m k = None)"
  by (auto simp: delete_row_def bm_contains_def bm_remove_def image_iff split: if_splits)
    (auto simp: bm_remove_def [symmetric] fun_eq_iff)


section \<open>The user sink\<close>

definition user_rows :: "'x directory_env \<Rightarrow> 'x directory_db \<Rightarrow> kv_key \<Rightarrow> user_row option" where
  "user_rows env d = keyed_rows (user_id_from_kv_key (env_codec env)) (user_kv_key (env_codec env))
     (bm_get (known_users (db_tables d)))"

text \<open>What a sink leaves alone: the tables of the other two.\<close>

definition user_frame where
  "user_frame d = (known_groups (db_tables d), known_user_group (db_tables d),
     known_service_accounts (db_tables d))"
definition account_frame where
  "account_frame d = (known_users (db_tables d), known_groups (db_tables d),
     known_user_group (db_tables d))"
definition group_frame where
  "group_frame d = (known_users (db_tables d), known_service_accounts (db_tables d))"

definition sink_inv :: "'x directory_env \<Rightarrow> 'x directory_db \<Rightarrow> bool" where
  "sink_inv env d \<longleftrightarrow> codec_ok (env_codec env) \<and> tables_ok (db_tables d)"

lemma sink_inv_cong: "row_tables (db_tables d) = row_tables (db_tables d') \<Longrightarrow> sink_inv env d = sink_inv env d'"
  using tables_ok_cong by (auto simp: sink_inv_def)

lemma user_rows_cong: "row_tables (db_tables d) = row_tables (db_tables d') \<Longrightarrow> user_rows env d = user_rows env d'"
  by (simp add: user_rows_def row_tables_def)

lemma upsert_user_OkD:
  assumes "upsert_user u row s = (Ok n, s')" and "tables_ok (db_tables s)"
  shows "\<exists>m. row_tables (db_tables s') = (row_tables (db_tables s))\<lparr>known_users := m\<rparr> \<and>
    tables_ok (db_tables s') \<and> bm_get m = (bm_get (known_users (db_tables s)))(u \<mapsto> row) \<and>
    (n = 0 \<longleftrightarrow> bm_get (known_users (db_tables s)) u = Some row) \<and> db_progress s' = db_progress s"
proof -
  obtain m where up: "upsert u row (known_users (db_tables s)) = (n, m)"
    and s': "s' = s\<lparr>db_faults := tl (db_faults s), db_tables := (db_tables s)\<lparr>known_users := m\<rparr>\<rparr>"
    using db_call_OkD [OF assms(1) [unfolded upsert_user_def]] by (auto split: prod.splits)
  from upsert_pair [OF up] assms(2) s' show ?thesis
    by (auto simp: row_tables_def tables_ok_def)
qed

lemma delete_user_OkD:
  assumes "delete_user u s = (Ok n, s')" and "tables_ok (db_tables s)"
  shows "\<exists>m. row_tables (db_tables s') = (row_tables (db_tables s))\<lparr>known_users := m\<rparr> \<and>
    tables_ok (db_tables s') \<and> bm_get m = (bm_get (known_users (db_tables s)))(u := None) \<and>
    (n = 0 \<longleftrightarrow> bm_get (known_users (db_tables s)) u = None) \<and> db_progress s' = db_progress s"
proof -
  obtain m where up: "delete_row u (known_users (db_tables s)) = (n, m)"
    and s': "s' = s\<lparr>db_faults := tl (db_faults s), db_tables := (db_tables s)\<lparr>known_users := m\<rparr>\<rparr>"
    using db_call_OkD [OF assms(1) [unfolded delete_user_def]] by (auto split: prod.splits)
  from delete_row_pair [OF up] assms(2) s' show ?thesis
    by (auto simp: row_tables_def tables_ok_def)
qed

lemma memberships_of_OkD: "memberships_of u s = (Ok gs, s') \<Longrightarrow>
    db_tables s' = db_tables s \<and> db_progress s' = db_progress s \<and>
    gs = map fst (filter (\<lambda>(g, u'). u' = u) (known_user_group (db_tables s)))"
  by (auto simp: memberships_of_def dest!: db_call_OkD)

lemma user_project_OkD:
  assumes "sink_inv env d" and "user_project env (KvKey (user_kv_key (env_codec env) u)) v d = (Ok x, d')"
  shows "\<exists>m. row_tables (db_tables d') = (row_tables (db_tables d))\<lparr>known_users := m\<rparr> \<and>
    tables_ok (db_tables d') \<and> bm_get m = (bm_get (known_users (db_tables d)))(u \<mapsto> user_row_of env v) \<and>
    db_progress d' = db_progress d +
      (if bm_get (known_users (db_tables d)) u = Some (user_row_of env v) then 0 else 1)"
proof -
  have c: "codec_ok (env_codec env)" and t: "tables_ok (db_tables (connected d))"
    using assms(1) by (simp_all add: sink_inv_def)
  obtain "is" s1 where
    w: "db_bind (upsert_user u (user_row_of env v)) (\<lambda>n. db_return (if 0 < n
        then [impact_changed (foreign_user (env_codec env) u)] else [])) (connected d) = (Ok is, s1)"
    and eq: "row_tables (db_tables d') = row_tables (db_tables s1)"
      "db_progress d' = db_progress s1 + (if is = [] then 0 else 1)"
    using assms(2) user_key_roundtrip [OF c]
    by (auto simp: user_project_def dest!: apply_single_statement_OkD)
  then obtain n where n: "upsert_user u (user_row_of env v) (connected d) = (Ok n, s1)"
    and "is = (if 0 < n then [impact_changed (foreign_user (env_codec env) u)] else [])"
    by (auto simp: db_bind_Ok_iff)
  with upsert_user_OkD [OF n t] eq tables_ok_cong [OF eq(1)] show ?thesis
    by (auto simp: row_tables_def)
qed

lemma user_retract_OkD:
  assumes "sink_inv env d" and "user_retract env (KvKey (user_kv_key (env_codec env) u)) d = (Ok x, d')"
  shows "\<exists>m. row_tables (db_tables d') = (row_tables (db_tables d))\<lparr>known_users := m\<rparr> \<and>
    tables_ok (db_tables d') \<and> bm_get m = (bm_get (known_users (db_tables d)))(u := None) \<and>
    db_progress d' = db_progress d + (if bm_get (known_users (db_tables d)) u = None then 0 else 1)"
proof -
  have c: "codec_ok (env_codec env)" and t: "tables_ok (db_tables (connected d))"
    using assms(1) by (simp_all add: sink_inv_def)
  obtain "is" s1 where
    w: "db_bind (delete_user u) (\<lambda>n. if n = 0 then db_return []
          else if env_stager env \<noteq> None
          then db_bind (memberships_of u) (\<lambda>gs. db_return
            (impact_changed (foreign_user (env_codec env) u)
             # map (\<lambda>g. impact_changed (foreign_group (env_codec env) g)) gs))
          else db_return [impact_changed (foreign_user (env_codec env) u)]) (connected d) = (Ok is, s1)"
    and eq: "row_tables (db_tables d') = row_tables (db_tables s1)"
      "db_progress d' = db_progress s1 + (if is = [] then 0 else 1)"
    using assms(2) user_key_roundtrip [OF c]
    by (auto simp: user_retract_def simp del: not_None_eq dest!: apply_single_statement_OkD)
  obtain n s2 where n: "delete_user u (connected d) = (Ok n, s2)"
    and rest: "db_tables s1 = db_tables s2" "db_progress s1 = db_progress s2" "is = [] \<longleftrightarrow> n = 0"
    using w by (auto simp: db_bind_Ok_iff simp del: not_None_eq dest!: memberships_of_OkD
        split: if_splits)
  with delete_user_OkD [OF n t] tables_ok_cong [OF eq(1)] eq show ?thesis
    by auto
qed

lemma user_known_keys_OkD:
  assumes "user_known_keys env d = (Ok ks, d')"
  shows "db_tables d' = db_tables d \<and>
    set ks = (\<lambda>u. KvKey (user_kv_key (env_codec env) u)) ` dom (bm_get (known_users (db_tables d)))"
proof -
  obtain ids s1 where "db_call (\<lambda>t. Ok (bm_keys (known_users t), t)) d = (Ok ids, s1)"
    and k: "keys_of_ids (user_kv_key (env_codec env)) ids s1 = (Ok ks, d')"
    using assms unfolding user_known_keys_def db_bind_Ok_iff by blast
  then have "ids = bm_keys (known_users (db_tables d)) \<and> db_tables s1 = db_tables d"
    by (auto dest!: db_call_OkD)
  with keys_of_ids_OkD [OF k] show ?thesis
    by (simp add: dom_map_of_conv_image_fst)
qed

interpretation users: projection_sink "user_sink env" "user_rows env" "\<lambda>d. sink_inv env d \<and> user_frame d = fr"
  "canonical_key (user_kv_key (env_codec env))" "user_row_of env"
proof
  fix d k v d' ks
  have rt: "codec_ok (env_codec env) \<Longrightarrow>
      user_id_from_kv_key (env_codec env) (user_kv_key (env_codec env) u) = Some u" for u
    by (rule user_key_roundtrip)
  show "(sink_inv env d' \<and> user_frame d' = fr) \<and> user_rows env d' = (user_rows env d)(k \<mapsto> user_row_of env v)"
    if "sink_inv env d \<and> user_frame d = fr" and "canonical_key (user_kv_key (env_codec env)) k"
      and "sk_project (user_sink env) k v d = (Ok (), d')"
    using that user_project_OkD [of env d _ v "()" d'] keyed_rows_upd [OF rt]
    by (auto simp: user_frame_def canonical_key_def user_sink_def user_rows_def sink_inv_def row_tables_def)
  show "(sink_inv env d' \<and> user_frame d' = fr) \<and> user_rows env d' = (user_rows env d)(k := None)"
    if "sink_inv env d \<and> user_frame d = fr" and "canonical_key (user_kv_key (env_codec env)) k"
      and "sk_retract (user_sink env) k d = (Ok (), d')"
    using that user_retract_OkD [of env d _ "()" d'] keyed_rows_upd [OF rt]
    by (auto simp: user_frame_def canonical_key_def user_sink_def user_rows_def sink_inv_def row_tables_def)
  show "(sink_inv env d' \<and> user_frame d' = fr) \<and> user_rows env d' = user_rows env d \<and> set ks = dom (user_rows env d)"
    if "sink_inv env d \<and> user_frame d = fr" and "sk_known_keys (user_sink env) d = (Ok ks, d')"
    using that user_known_keys_OkD [of env d ks d']
    by (simp add: user_frame_def user_sink_def user_rows_def sink_inv_def dom_keyed_rows [OF rt])
  show "canonical_key (user_kv_key (env_codec env)) k" if "sink_inv env d \<and> user_frame d = fr" "user_rows env d k \<noteq> None"
    by (rule keyed_rows_canonical) (use that in \<open>auto simp: user_rows_def\<close>)
qed


section \<open>The service-account sink\<close>

definition service_account_rows :: "'x directory_env \<Rightarrow> 'x directory_db \<Rightarrow> kv_key \<Rightarrow> string option" where
  "service_account_rows env d = keyed_rows (service_account_id_from_kv_key (env_codec env))
     (service_account_kv_key (env_codec env)) (bm_get (known_service_accounts (db_tables d)))"

lemma upsert_service_account_OkD:
  assumes "upsert_service_account u row s = (Ok n, s')" and "tables_ok (db_tables s)"
  shows "\<exists>m. row_tables (db_tables s') = (row_tables (db_tables s))\<lparr>known_service_accounts := m\<rparr> \<and>
    tables_ok (db_tables s') \<and> bm_get m = (bm_get (known_service_accounts (db_tables s)))(u \<mapsto> row)"
proof -
  obtain m where up: "upsert u row (known_service_accounts (db_tables s)) = (n, m)"
    and s': "s' = s\<lparr>db_faults := tl (db_faults s),
      db_tables := (db_tables s)\<lparr>known_service_accounts := m\<rparr>\<rparr>"
    using db_call_OkD [OF assms(1) [unfolded upsert_service_account_def]] by (auto split: prod.splits)
  from upsert_pair [OF up] assms(2) s' show ?thesis
    by (auto simp: row_tables_def tables_ok_def)
qed

lemma delete_service_account_OkD:
  assumes "delete_service_account u s = (Ok n, s')" and "tables_ok (db_tables s)"
  shows "\<exists>m. row_tables (db_tables s') = (row_tables (db_tables s))\<lparr>known_service_accounts := m\<rparr> \<and>
    tables_ok (db_tables s') \<and> bm_get m = (bm_get (known_service_accounts (db_tables s)))(u := None)"
proof -
  obtain m where up: "delete_row u (known_service_accounts (db_tables s)) = (n, m)"
    and s': "s' = s\<lparr>db_faults := tl (db_faults s),
      db_tables := (db_tables s)\<lparr>known_service_accounts := m\<rparr>\<rparr>"
    using db_call_OkD [OF assms(1) [unfolded delete_service_account_def]] by (auto split: prod.splits)
  from delete_row_pair [OF up] assms(2) s' show ?thesis
    by (auto simp: row_tables_def tables_ok_def)
qed

lemma service_account_write_OkD:
  assumes "sink_inv env d" and "k = KvKey (service_account_kv_key (env_codec env) u)"
    and "service_account_project env k v d = (Ok x, d') \<and> r = Some (psa_name v) \<or>
      service_account_retract env k d = (Ok x, d') \<and> r = None"
  shows "\<exists>m. row_tables (db_tables d') = (row_tables (db_tables d))\<lparr>known_service_accounts := m\<rparr> \<and>
    tables_ok (db_tables d') \<and> bm_get m = (bm_get (known_service_accounts (db_tables d)))(u := r)"
proof -
  have c: "codec_ok (env_codec env)" and t: "tables_ok (db_tables (connected d))"
    using assms(1) by (simp_all add: sink_inv_def)
  obtain n s1 where n: "upsert_service_account u (psa_name v) (connected d) = (Ok n, s1) \<and> r = Some (psa_name v) \<or>
      delete_service_account u (connected d) = (Ok n, s1) \<and> r = None"
    and eq: "row_tables (db_tables d') = row_tables (db_tables s1)"
    using assms(2,3) service_account_key_roundtrip [OF c, of u]
    by (auto simp: service_account_project_def service_account_retract_def db_bind_Ok_iff
        dest!: apply_single_statement_OkD)
  with upsert_service_account_OkD [OF _ t] delete_service_account_OkD [OF _ t]
    tables_ok_cong [OF eq] show ?thesis
    by fastforce
qed

lemma service_account_known_keys_OkD:
  assumes "service_account_known_keys env d = (Ok ks, d')"
  shows "db_tables d' = db_tables d \<and>
    set ks = (\<lambda>u. KvKey (service_account_kv_key (env_codec env) u))
      ` dom (bm_get (known_service_accounts (db_tables d)))"
proof -
  obtain ids s1 where "db_call (\<lambda>t. Ok (bm_keys (known_service_accounts t), t)) d = (Ok ids, s1)"
    and k: "keys_of_ids (service_account_kv_key (env_codec env)) ids s1 = (Ok ks, d')"
    using assms unfolding service_account_known_keys_def db_bind_Ok_iff by blast
  then have "ids = bm_keys (known_service_accounts (db_tables d)) \<and> db_tables s1 = db_tables d"
    by (auto dest!: db_call_OkD)
  with keys_of_ids_OkD [OF k] show ?thesis
    by (simp add: dom_map_of_conv_image_fst)
qed

interpretation accounts: projection_sink "service_account_sink env" "service_account_rows env"
  "\<lambda>d. sink_inv env d \<and> account_frame d = fr" "canonical_key (service_account_kv_key (env_codec env))" psa_name
proof
  fix d k v d' ks
  have rt: "codec_ok (env_codec env) \<Longrightarrow> service_account_id_from_kv_key (env_codec env)
      (service_account_kv_key (env_codec env) u) = Some u" for u
    by (rule service_account_key_roundtrip)
  show "(sink_inv env d' \<and> account_frame d' = fr) \<and> service_account_rows env d' = (service_account_rows env d)(k \<mapsto> psa_name v)"
    if "sink_inv env d \<and> account_frame d = fr" and "canonical_key (service_account_kv_key (env_codec env)) k"
      and "sk_project (service_account_sink env) k v d = (Ok (), d')"
    using that service_account_write_OkD [of env d k _ v "()" d' "Some (psa_name v)"] keyed_rows_upd [OF rt]
    by (auto simp: account_frame_def canonical_key_def service_account_sink_def service_account_rows_def sink_inv_def
        row_tables_def)
  show "(sink_inv env d' \<and> account_frame d' = fr) \<and> service_account_rows env d' = (service_account_rows env d)(k := None)"
    if "sink_inv env d \<and> account_frame d = fr" and "canonical_key (service_account_kv_key (env_codec env)) k"
      and "sk_retract (service_account_sink env) k d = (Ok (), d')"
    using that service_account_write_OkD [of env d k _ v "()" d' None] keyed_rows_upd [OF rt]
    by (auto simp: account_frame_def canonical_key_def service_account_sink_def service_account_rows_def sink_inv_def
        row_tables_def)
  show "(sink_inv env d' \<and> account_frame d' = fr) \<and> service_account_rows env d' = service_account_rows env d \<and>
      set ks = dom (service_account_rows env d)"
    if "sink_inv env d \<and> account_frame d = fr" and "sk_known_keys (service_account_sink env) d = (Ok ks, d')"
    using that service_account_known_keys_OkD [of env d ks d']
    by (simp add: account_frame_def service_account_sink_def service_account_rows_def sink_inv_def dom_keyed_rows [OF rt])
  show "canonical_key (service_account_kv_key (env_codec env)) k"
    if "sink_inv env d \<and> account_frame d = fr" "service_account_rows env d k \<noteq> None"
    by (rule keyed_rows_canonical) (use that in \<open>auto simp: service_account_rows_def\<close>)
qed

section \<open>The group sink\<close>

text \<open>A group's row with its membership.\<close>

definition group_at :: "'x tables \<Rightarrow> uuid \<Rightarrow> (string \<times> uuid set) option" where
  "group_at t g = map_option (\<lambda>n. (n, {u. (g, u) \<in> set (known_user_group t)})) (bm_get (known_groups t) g)"

definition group_shown :: "published_group \<Rightarrow> string \<times> uuid set" where
  "group_shown v = (pg_name v, set (pg_member_ids v))"

definition group_rows :: "'x directory_env \<Rightarrow> 'x directory_db \<Rightarrow> kv_key \<Rightarrow> (string \<times> uuid set) option" where
  "group_rows env d = keyed_rows (group_id_from_kv_key (env_codec env)) (group_kv_key (env_codec env))
     (group_at (db_tables d))"

lemma group_at_row [simp]: "group_at (row_tables t) = group_at t"
  by (simp add: group_at_def fun_eq_iff)

lemma group_at_cong: "row_tables t = row_tables t' \<Longrightarrow> group_at t = group_at t'"
  by (metis group_at_row)

lemma set_members_in: "set (members_in g t) = {u. (g, u) \<in> set (known_user_group t)}"
  by (force simp: members_in_def)

lemma upsert_group_OkD:
  assumes "upsert_group g name s = (Ok n, s')" and "tables_ok (db_tables s)"
  shows "tables_ok (db_tables s') \<and> bm_get (known_groups (db_tables s')) = (bm_get (known_groups (db_tables s)))(g \<mapsto> name) \<and>
    known_user_group (db_tables s') = known_user_group (db_tables s) \<and>
    known_users (db_tables s') = known_users (db_tables s) \<and>
    known_service_accounts (db_tables s') = known_service_accounts (db_tables s) \<and>
    (n = 0 \<longleftrightarrow> bm_get (known_groups (db_tables s)) g = Some name) \<and> db_progress s' = db_progress s"
proof -
  obtain m where up: "upsert g name (known_groups (db_tables s)) = (n, m)"
    and s': "s' = s\<lparr>db_faults := tl (db_faults s), db_tables := (db_tables s)\<lparr>known_groups := m\<rparr>\<rparr>"
    using db_call_OkD [OF assms(1) [unfolded upsert_group_def]] by (auto split: prod.splits)
  from upsert_pair [OF up] assms(2) s' show ?thesis
    by (auto simp: tables_ok_def)
qed

lemma delete_group_OkD:
  assumes "delete_group g s = (Ok b, s')" and "tables_ok (db_tables s)"
  shows "tables_ok (db_tables s') \<and> group_at (db_tables s') = (group_at (db_tables s))(g := None) \<and>
    known_users (db_tables s') = known_users (db_tables s) \<and>
    known_service_accounts (db_tables s') = known_service_accounts (db_tables s) \<and>
    (b \<longleftrightarrow> group_at (db_tables s) g \<noteq> None) \<and> db_progress s' = db_progress s"
proof -
  obtain n m where up: "delete_row g (known_groups (db_tables s)) = (n, m)" and b: "b \<longleftrightarrow> 0 < n"
    and s': "s' = s\<lparr>db_faults := tl (db_faults s), db_tables := (db_tables s)\<lparr>known_groups := m,
      known_user_group := (if 0 < n then filter (\<lambda>(g', u). g' \<noteq> g) (known_user_group (db_tables s))
        else known_user_group (db_tables s))\<rparr>\<rparr>"
    using db_call_OkD [OF assms(1) [unfolded delete_group_def]] by (auto split: prod.splits)
  have "fst ` set (if 0 < n then filter (\<lambda>(g', u). g' \<noteq> g) (known_user_group (db_tables s))
        else known_user_group (db_tables s)) \<subseteq> fst ` set (known_groups (db_tables s)) - {g}"
  proof (cases "0 < n")
    case True
    have "fst ` set (filter (\<lambda>(g', u). g' \<noteq> g) (known_user_group (db_tables s)))
        \<subseteq> fst ` set (known_user_group (db_tables s)) - {g}"
      by auto
    with assms(2) True show ?thesis
      by (simp add: tables_ok_def) blast
  next
    case False
    then have "g \<notin> fst ` set (known_groups (db_tables s))"
      using delete_row_pair [OF up] by (simp add: map_of_eq_None_iff)
    with assms(2) False show ?thesis
      by (simp add: tables_ok_def)
  qed
  then have "tables_ok (db_tables s')"
    using delete_row_pair [OF up] assms(2) by (simp add: tables_ok_def s' split del: if_split) simp
  moreover have "group_at (db_tables s') k = ((group_at (db_tables s))(g := None)) k" for k
    using delete_row_pair [OF up] by (cases "k = g") (simp_all add: s' group_at_def)
  moreover have "b \<longleftrightarrow> group_at (db_tables s) g \<noteq> None"
    using delete_row_pair [OF up] by (auto simp: b group_at_def)
  ultimately show ?thesis
    by (auto simp: s')
qed

lemma locked_members_OkD: "locked_members g s = (Ok us, s') \<Longrightarrow>
    db_tables s' = db_tables s \<and> db_progress s' = db_progress s \<and> us = bs_of_list (members_in g (db_tables s))"
  by (auto simp: locked_members_def dest!: db_call_OkD)

lemma locked_group_OkD: "locked_group g s = (Ok b, s') \<Longrightarrow>
    db_tables s' = db_tables s \<and> db_progress s' = db_progress s \<and>
    (b \<longleftrightarrow> group_at (db_tables s) g \<noteq> None)"
  by (auto simp: locked_group_def bm_contains_def group_at_def dest!: db_call_OkD)

text \<open>A rewrite makes the membership of a group the projected one and touches no other group.\<close>

lemma delete_members_OkD: "delete_members g us s = (Ok u, s') \<Longrightarrow>
    s' = s\<lparr>db_faults := tl (db_faults s), db_tables := (db_tables s)\<lparr>known_user_group :=
      filter (\<lambda>(g', u). \<not> (g' = g \<and> u \<in> set us)) (known_user_group (db_tables s))\<rparr>\<rparr>"
  by (auto simp: delete_members_def dest!: db_call_OkD)

lemma insert_members_OkD: "insert_members g us s = (Ok u, s') \<Longrightarrow>
    (us = [] \<or> bm_contains (known_groups (db_tables s)) g) \<and>
    s' = s\<lparr>db_faults := tl (db_faults s), db_tables := (db_tables s)\<lparr>known_user_group :=
      known_user_group (db_tables s) @
        filter (\<lambda>m. m \<notin> set (known_user_group (db_tables s))) (map (Pair g) (remdups us))\<rparr>\<rparr>"
  by (auto simp: insert_members_def dest!: db_call_OkD split: if_splits)

lemma rewrite_OkD:
  assumes "rewrite (diff_between cur proj) g s = (Ok u, s')" and "tables_ok (db_tables s)"
    and cur: "set cur = {u. (g, u) \<in> set (known_user_group (db_tables s))}"
    and "bm_contains (known_groups (db_tables s)) g"
  shows "\<exists>ms. db_tables s' = (db_tables s)\<lparr>known_user_group := ms\<rparr> \<and> tables_ok (db_tables s') \<and>
    set ms = {m \<in> set (known_user_group (db_tables s)). fst m \<noteq> g} \<union> Pair g ` set proj \<and>
    db_progress s' = db_progress s"
proof -
  define rem add where "rem = bs_difference cur proj" and "add = bs_difference proj cur"
  have sets: "set rem = set cur - set proj" "set add = set proj - set cur"
    by (simp_all add: rem_def add_def)
  obtain u1 s1 where
    s1: "(if rem \<noteq> [] then delete_members g rem else db_return ()) s = (Ok u1, s1)"
    and s2: "(if add \<noteq> [] then insert_members g add else db_return ()) s1 = (Ok u, s')"
    using assms(1) unfolding rewrite_def db_bind_Ok_iff diff_between_def membership_diff.select_convs
      rem_def [symmetric] add_def [symmetric] by blast
  define ms1 where "ms1 = filter (\<lambda>(g', u). \<not> (g' = g \<and> u \<in> set rem)) (known_user_group (db_tables s))"
  have "rem = [] \<Longrightarrow> ms1 = known_user_group (db_tables s)"
    by (simp add: ms1_def)
  with s1 have t1: "db_tables s1 = (db_tables s)\<lparr>known_user_group := ms1\<rparr>" "db_progress s1 = db_progress s"
    by (auto simp: ms1_def dest!: delete_members_OkD split: if_splits)
  define ms where "ms = ms1 @ filter (\<lambda>m. m \<notin> set ms1) (map (Pair g) (remdups add))"
  have "add = [] \<Longrightarrow> ms = ms1"
    by (simp add: ms_def)
  with s2 t1 have t2: "db_tables s' = (db_tables s)\<lparr>known_user_group := ms\<rparr>" "db_progress s' = db_progress s"
    by (auto simp: ms_def dest!: insert_members_OkD split: if_splits)
  have set_ms: "set ms = {m \<in> set (known_user_group (db_tables s)). fst m \<noteq> g} \<union> Pair g ` set proj"
    using cur by (auto simp: ms_def ms1_def sets)
  have "distinct ms"
    using assms(2) by (auto simp: ms_def ms1_def tables_ok_def distinct_map inj_on_def)
  moreover have "fst ` set ms \<subseteq> fst ` set (known_groups (db_tables s))"
    using assms(2,4) by (force simp: set_ms tables_ok_def bm_contains_iff)
  ultimately have "tables_ok (db_tables s')"
    using assms(2) by (simp add: t2 tables_ok_def)
  with t2 set_ms show ?thesis by blast
qed


lemma group_key: "sink_inv env d \<Longrightarrow> group_id_from_kv_key (env_codec env)
    (kv_str (KvKey (group_kv_key (env_codec env) g))) = Some g"
  by (simp add: sink_inv_def group_key_roundtrip)

lemma group_project_OkD:
  assumes inv: "sink_inv env d"
    and run: "group_project env (KvKey (group_kv_key (env_codec env) g)) v d = (Ok x, d')"
  shows "tables_ok (db_tables d') \<and>
    group_at (db_tables d') = (group_at (db_tables d))(g \<mapsto> group_shown v) \<and>
    known_users (db_tables d') = known_users (db_tables d) \<and>
    known_service_accounts (db_tables d') = known_service_accounts (db_tables d) \<and>
    db_progress d' = db_progress d +
      (if group_at (db_tables d) g = Some (group_shown v) then 0 else 1)"
proof -
  have t: "tables_ok (db_tables (connected d))"
    using inv by (simp add: sink_inv_def)
  define proj where "proj = bs_of_list (map mr_user_id (member_rows g v))"
  have proj: "set proj = set (pg_member_ids v)"
    by (simp add: proj_def member_rows_def image_image)
  obtain "is" s1 where
    w: "db_bind (upsert_group g (pg_name v)) (\<lambda>n.
        let name_changed = 0 < n; projected = proj
        in db_bind (locked_members g) (\<lambda>current.
           let membership = diff_between current projected
           in db_bind (if moved membership then rewrite membership g else db_return ()) (\<lambda>_.
              db_return (if \<not> name_changed \<and> \<not> moved membership then []
                else impact_changed (foreign_group (env_codec env) g)
                  # map (\<lambda>u. impact_changed (foreign_user (env_codec env) u))
                      (md_removed membership))))) (connected d) = (Ok is, s1)"
    and eq: "row_tables (db_tables d') = row_tables (db_tables s1)"
      "db_progress d' = db_progress s1 + (if is = [] then 0 else 1)"
    using apply_in_transaction_OkD [OF run [unfolded group_project_def group_key [OF inv] option.case]]
    unfolding proj_def by blast
  obtain n s2 current s3 where
    n: "upsert_group g (pg_name v) (connected d) = (Ok n, s2)"
    and l: "locked_members g s2 = (Ok current, s3)"
    and m: "(if moved (diff_between current proj) then rewrite (diff_between current proj) g
        else db_return ()) s3 = (Ok (), s1)"
    and "is": "is = [] \<longleftrightarrow> n = 0 \<and> \<not> moved (diff_between current proj)"
    using w by (auto simp: db_bind_Ok_iff Let_def)
  note up = upsert_group_OkD [OF n t]
  have tab3: "db_tables s3 = db_tables s2" "db_progress s3 = db_progress s2"
    and cur: "set current = {u. (g, u) \<in> set (known_user_group (db_tables s2))}"
    using locked_members_OkD [OF l] by (simp_all add: set_members_in)
  have moved: "moved (diff_between current proj) \<longleftrightarrow> set current \<noteq> set proj"
    by (auto simp: moved_def diff_between_def bs_difference_Nil_iff)
  obtain ms where ms: "db_tables s1 = (db_tables s2)\<lparr>known_user_group := ms\<rparr>" "tables_ok (db_tables s1)"
    "set ms = {m \<in> set (known_user_group (db_tables s2)). fst m \<noteq> g} \<union> Pair g ` set proj"
    "db_progress s1 = db_progress s2"
  proof (cases "moved (diff_between current proj)")
    case True
    have "bm_contains (known_groups (db_tables s3)) g"
      using up by (simp add: tab3 bm_contains_def)
    with rewrite_OkD [of current proj g s3 "()" s1] m True up cur tab3 that show ?thesis
      by auto
  next
    case False
    then have "set (known_user_group (db_tables s2)) =
        {m \<in> set (known_user_group (db_tables s2)). fst m \<noteq> g} \<union> Pair g ` set proj"
      using cur unfolding moved by (auto simp: image_iff)
    moreover have "db_tables s1 = db_tables s2" "db_progress s1 = db_progress s2"
      using m False tab3 by simp_all
    moreover have "tables_ok (db_tables s2)"
      using up by blast
    ultimately show ?thesis
      by (intro that [of "known_user_group (db_tables s2)"]) simp_all
  qed
  have "group_at (db_tables s1) k = ((group_at (db_tables d))(g \<mapsto> group_shown v)) k" for k
    using up by (auto simp: group_at_def ms(1,3) group_shown_def proj image_iff)
  then have "group_at (db_tables d') = (group_at (db_tables d))(g \<mapsto> group_shown v)"
    using group_at_cong [OF eq(1)] by auto
  moreover have "is = [] \<longleftrightarrow> group_at (db_tables d) g = Some (group_shown v)"
    using "is" up cur by (auto simp: moved proj group_at_def group_shown_def)
  ultimately show ?thesis
    using eq ms up tables_ok_cong [OF eq(1)]
    by (auto simp: row_tables_def)
qed

lemma group_retract_OkD:
  assumes inv: "sink_inv env d"
    and run: "group_retract env (KvKey (group_kv_key (env_codec env) g)) d = (Ok x, d')"
  shows "tables_ok (db_tables d') \<and> group_at (db_tables d') = (group_at (db_tables d))(g := None) \<and>
    known_users (db_tables d') = known_users (db_tables d) \<and>
    known_service_accounts (db_tables d') = known_service_accounts (db_tables d) \<and>
    db_progress d' = db_progress d + (if group_at (db_tables d) g = None then 0 else 1)"
proof (cases "env_stager env = None")
  case True
  have t: "tables_ok (db_tables (connected d))"
    using inv by (simp add: sink_inv_def)
  obtain "is" s1 where
    w: "db_bind (delete_group g) (\<lambda>deleted. db_return
             (if deleted then [impact_changed (foreign_group (env_codec env) g)] else []))
          (connected d) = (Ok is, s1)"
    and eq: "row_tables (db_tables d') = row_tables (db_tables s1)"
      "db_progress d' = db_progress s1 + (if is = [] then 0 else 1)"
    using apply_single_statement_OkD [OF run [unfolded group_retract_def group_key [OF inv] option.case
        if_P [OF True]]] by blast
  then obtain b where b: "delete_group g (connected d) = (Ok b, s1)" and "is = [] \<longleftrightarrow> \<not> b"
    by (auto simp: db_bind_Ok_iff split: if_splits)
  with delete_group_OkD [OF b t] eq tables_ok_cong [OF eq(1)] group_at_cong [OF eq(1)] show ?thesis
    by (auto simp: row_tables_def)
next
  case False
  have t: "tables_ok (db_tables (connected d))"
    using inv by (simp add: sink_inv_def)
  obtain "is" s1 where
    w: "db_bind (locked_group g) (\<lambda>locked.
             if \<not> locked then db_return []
             else db_bind (locked_members g) (\<lambda>members.
               db_bind (delete_group g) (\<lambda>_. db_return
                 (impact_changed (foreign_group (env_codec env) g)
                  # map (\<lambda>u. impact_changed (foreign_user (env_codec env) u)) members))))
          (connected d) = (Ok is, s1)"
    and eq: "row_tables (db_tables d') = row_tables (db_tables s1)"
      "db_progress d' = db_progress s1 + (if is = [] then 0 else 1)"
    using apply_in_transaction_OkD [OF run [unfolded group_retract_def group_key [OF inv] option.case
        if_not_P [OF False]]] by blast
  obtain locked s2 where l: "locked_group g (connected d) = (Ok locked, s2)"
    using w by (auto simp: db_bind_Ok_iff)
  note lg = locked_group_OkD [OF l]
  show ?thesis
  proof (cases locked)
    case False
    with w l have "is = [] \<and> s1 = s2"
      by (auto simp: db_bind_Ok_iff)
    with lg False eq tables_ok_cong [OF eq(1)] group_at_cong [OF eq(1)] t show ?thesis
      by (auto simp: row_tables_def fun_upd_idem_iff)
  next
    case True
    with w l obtain us s3 b where us: "locked_members g s2 = (Ok us, s3)"
      and b: "delete_group g s3 = (Ok b, s1)" and "is": "is \<noteq> []"
      by (auto simp: db_bind_Ok_iff)
    have t3: "tables_ok (db_tables s3)"
      using t lg locked_members_OkD [OF us] by simp
    from delete_group_OkD [OF b t3] "is" lg True locked_members_OkD [OF us] eq
      tables_ok_cong [OF eq(1)] group_at_cong [OF eq(1)] show ?thesis
      by (auto simp: row_tables_def)
  qed
qed

lemma group_known_keys_OkD:
  assumes "group_known_keys env d = (Ok ks, d')"
  shows "db_tables d' = db_tables d \<and>
    set ks = (\<lambda>u. KvKey (group_kv_key (env_codec env) u)) ` dom (group_at (db_tables d))"
proof -
  obtain ids s1 where "db_call (\<lambda>t. Ok (bm_keys (known_groups t), t)) d = (Ok ids, s1)"
    and k: "keys_of_ids (group_kv_key (env_codec env)) ids s1 = (Ok ks, d')"
    using assms unfolding group_known_keys_def db_bind_Ok_iff by blast
  then have "ids = bm_keys (known_groups (db_tables d)) \<and> db_tables s1 = db_tables d"
    by (auto dest!: db_call_OkD)
  moreover have "dom (group_at (db_tables d)) = dom (bm_get (known_groups (db_tables d)))"
    by (auto simp: group_at_def)
  ultimately show ?thesis
    using keys_of_ids_OkD [OF k] by (simp add: dom_map_of_conv_image_fst)
qed

interpretation groups: projection_sink "group_sink env" "group_rows env" "\<lambda>d. sink_inv env d \<and> group_frame d = fr"
  "canonical_key (group_kv_key (env_codec env))" group_shown
proof
  fix d k v d' ks
  have rt: "codec_ok (env_codec env) \<Longrightarrow>
      group_id_from_kv_key (env_codec env) (group_kv_key (env_codec env) u) = Some u" for u
    by (rule group_key_roundtrip)
  show "(sink_inv env d' \<and> group_frame d' = fr) \<and> group_rows env d' = (group_rows env d)(k \<mapsto> group_shown v)"
    if "sink_inv env d \<and> group_frame d = fr" and "canonical_key (group_kv_key (env_codec env)) k"
      and "sk_project (group_sink env) k v d = (Ok (), d')"
    using that group_project_OkD [of env d _ v "()" d'] keyed_rows_upd [OF rt]
    by (auto simp: group_frame_def canonical_key_def group_sink_def group_rows_def sink_inv_def)
  show "(sink_inv env d' \<and> group_frame d' = fr) \<and> group_rows env d' = (group_rows env d)(k := None)"
    if "sink_inv env d \<and> group_frame d = fr" and "canonical_key (group_kv_key (env_codec env)) k"
      and "sk_retract (group_sink env) k d = (Ok (), d')"
    using that group_retract_OkD [of env d _ "()" d'] keyed_rows_upd [OF rt]
    by (auto simp: group_frame_def canonical_key_def group_sink_def group_rows_def sink_inv_def)
  show "(sink_inv env d' \<and> group_frame d' = fr) \<and> group_rows env d' = group_rows env d \<and> set ks = dom (group_rows env d)"
    if "sink_inv env d \<and> group_frame d = fr" and "sk_known_keys (group_sink env) d = (Ok ks, d')"
    using that group_known_keys_OkD [of env d ks d']
    by (simp add: group_frame_def group_sink_def group_rows_def sink_inv_def dom_keyed_rows [OF rt])
  show "canonical_key (group_kv_key (env_codec env)) k" if "sink_inv env d \<and> group_frame d = fr" "group_rows env d k \<noteq> None"
    by (rule keyed_rows_canonical) (use that in \<open>auto simp: group_rows_def\<close>)
qed

section \<open>Atomicity\<close>

definition run_stager :: "'x stager option \<Rightarrow> impact list \<Rightarrow> 'x \<Rightarrow> (unit, directory_error) result \<times> 'x" where
  "run_stager stager is x = (case stager of
     Some st \<Rightarrow> if is \<noteq> [] then st is x else (Ok (), x) | None \<Rightarrow> (Ok (), x))"

text \<open>Tables that are the whole effect of a write: its rows and what the stager made of its impacts.\<close>

definition whole_effect :: "'x stager option \<Rightarrow> (impact list, 'x) db_op \<Rightarrow> 'x directory_db
    \<Rightarrow> impact list \<Rightarrow> 'x tables \<Rightarrow> bool" where
  "whole_effect stager write s is t \<longleftrightarrow> (\<exists>s1 x. write (connected s) = (Ok is, s1) \<and>
     run_stager stager is (staging (db_tables s1)) = (Ok (), x) \<and> t = (db_tables s1)\<lparr>staging := x\<rparr>)"

lemma db_connect_eq: "db_connect s = (case db_faults s of
    FailBefore e # _ \<Rightarrow> (Err (DirPersistence e), connected s)
  | FailAfter e # _ \<Rightarrow> (Err (DirPersistence e), connected s)
  | _ \<Rightarrow> (Ok (), connected s))"
  by (auto simp: db_connect_def db_call_def connected_def split: list.split db_fault.split)

lemma stage_in_run_stager:
  "(case stager of Some st \<Rightarrow> if is \<noteq> [] then stage_in st is s1 else (Ok (), s1) | None \<Rightarrow> (Ok (), s1)) =
     (case run_stager stager is (staging (db_tables s1)) of
        (r, x) \<Rightarrow> (r, s1\<lparr>db_tables := (db_tables s1)\<lparr>staging := x\<rparr>\<rparr>))"
  by (auto simp: run_stager_def stage_in_def split: option.split prod.split)

lemma transaction_Ok_effect:
  assumes "write (connected s) = (Ok is, s1)" and "db_connect s = (Ok (), connected s)"
    and "run_stager stager is (staging (db_tables s1)) = (Ok (), x)"
  shows "apply_in_transaction stager write s =
    (case db_commit (db_tables s) (s1\<lparr>db_tables := (db_tables s1)\<lparr>staging := x\<rparr>\<rparr>) of
       (Err e, s3) \<Rightarrow> (Err e, s3) | (Ok _, s3) \<Rightarrow> (Ok (), settle is s3))"
  using assms by (simp add: apply_in_transaction_def stage_in_run_stager)

text \<open>C12: a write in a transaction is all or nothing, faults anywhere included. If it is reported
  successful, the tables are those the whole write and the staging of its impacts made, and the
  progress has moved by one if there were impacts. If an error is reported, the tables are as they
  were, or, when only the answer to the commit was lost, the whole effect is there; the impacts are
  never staged without the rows, nor the rows without the impacts.
\<close>

theorem transaction_is_atomic:
  assumes "apply_in_transaction stager write s = (r, s')"
  shows "(r = Ok () \<longrightarrow> (\<exists>is s1. write (connected s) = (Ok is, s1) \<and>
      whole_effect stager write s is (db_tables s') \<and>
      db_progress s' = db_progress s1 + (if is = [] then 0 else 1))) \<and>
    (r \<noteq> Ok () \<longrightarrow> db_tables s' = db_tables s \<or> (\<exists>is. whole_effect stager write s is (db_tables s')))"
proof (cases "db_connect s = (Ok (), connected s)")
  case False
  then obtain e where "db_connect s = (Err e, connected s)"
    by (auto simp: db_connect_eq split: list.splits db_fault.splits)
  then show ?thesis
    using assms by (auto simp: apply_in_transaction_def)
next
  case conn: True
  obtain w s1 where w: "write (connected s) = (w, s1)"
    by (metis surj_pair)
  show ?thesis
  proof (cases w)
    case (Inl e)
    then show ?thesis
      using assms w by (auto simp: apply_in_transaction_def conn)
  next
    case (Inr "is")
    obtain q x where q: "run_stager stager is (staging (db_tables s1)) = (q, x)"
      by (metis surj_pair)
    show ?thesis
    proof (cases q)
      case (Inl e)
      then show ?thesis
        using assms w Inr q by (auto simp: apply_in_transaction_def conn stage_in_run_stager)
    next
      case (Inr u)
      then have effect: "whole_effect stager write s is ((db_tables s1)\<lparr>staging := x\<rparr>)"
        using w \<open>w = Inr is\<close> q by (auto simp: whole_effect_def)
      have "(case db_commit (db_tables s) (s1\<lparr>db_tables := (db_tables s1)\<lparr>staging := x\<rparr>\<rparr>) of
         (Err e, s3) \<Rightarrow> (Err e, s3) | (Ok _, s3) \<Rightarrow> (Ok (), settle is s3)) = (r, s')"
        using assms transaction_Ok_effect [of "write" s "is" s1 stager x] w \<open>w = Inr is\<close> conn q Inr by simp
      then show ?thesis
        using effect w \<open>w = Inr is\<close>
        by (auto simp: db_commit_def Let_def settle_progress split: list.splits db_fault.splits)
    qed
  qed
qed

text \<open>A transaction whose commit reports failure after taking effect.\<close>

definition lossy_db :: "unit directory_db" where
  "lossy_db = \<lparr>db_tables = \<lparr>known_users = [], known_groups = [], known_user_group = [],
     known_service_accounts = [], staging = ()\<rparr>,
     db_faults = [NoFault, NoFault, FailAfter ''lost''], db_progress = 0\<rparr>"

theorem transaction_is_atomic_witness:
  "\<exists>s'. apply_in_transaction None (db_bind (upsert_group 1 ''g'') (\<lambda>_. db_return [])) lossy_db
      = (Err (DirPersistence ''lost''), s') \<and>
    (db_tables s' = db_tables lossy_db \<or>
      (\<exists>is. whole_effect None (db_bind (upsert_group 1 ''g'') (\<lambda>_. db_return [])) lossy_db is (db_tables s')))"
proof -
  obtain s' where run: "apply_in_transaction None (db_bind (upsert_group 1 ''g'') (\<lambda>_. db_return [])) lossy_db
      = (Err (DirPersistence ''lost''), s')"
    by (simp add: apply_in_transaction_def db_connect_def db_call_def lossy_db_def db_bind_def
        upsert_group_def upsert_def db_return_def db_commit_def)
  from transaction_is_atomic [OF this] run show ?thesis
    by auto
qed

section \<open>What a projection does\<close>

text \<open>C14: a successful projection of a published group makes its row and its membership exactly the
  published ones, leaves every other group, all users and all service accounts as they were, keeps
  the tables' invariant, and moves the progress exactly when the name or the membership changed.
\<close>

theorem group_projection_exact:
  assumes "codec_ok (env_codec env)" and "tables_ok (db_tables d)"
    and "group_project env (KvKey (group_kv_key (env_codec env) g)) v d = (Ok (), d')"
  shows "tables_ok (db_tables d') \<and>
    group_at (db_tables d') = (group_at (db_tables d))(g \<mapsto> (pg_name v, set (pg_member_ids v))) \<and>
    known_users (db_tables d') = known_users (db_tables d) \<and>
    known_service_accounts (db_tables d') = known_service_accounts (db_tables d) \<and>
    db_progress d' = db_progress d +
      (if group_at (db_tables d) g = Some (pg_name v, set (pg_member_ids v)) then 0 else 1)"
  using group_project_OkD [OF _ assms(3)] assms(1,2) unfolding group_shown_def
  by (simp add: sink_inv_def)

definition plain_env :: "unit directory_env" where
  "plain_env = \<lparr>env_codec = decimal_codec, env_jsonb = id, env_stager = None, env_config = config_default\<rparr>"

definition quiet_db :: "unit directory_db" where
  "quiet_db = lossy_db\<lparr>db_faults := []\<rparr>"

theorem group_projection_exact_witness:
  "\<exists>d'. group_project plain_env (KvKey (group_kv_key decimal_codec 7))
       \<lparr>pg_name = ''g'', pg_member_ids = [3], pg_extensions = []\<rparr> quiet_db = (Ok (), d') \<and>
     group_at (db_tables d') 7 = Some (''g'', {3}) \<and> db_progress d' = 1"
proof -
  let ?v = "\<lparr>pg_name = ''g'', pg_member_ids = [3], pg_extensions = []\<rparr> :: published_group"
  have "group_id_from_kv_key decimal_codec (group_kv_key decimal_codec 7) = Some 7"
    by (simp add: group_key_roundtrip)
  then obtain d' where run: "group_project plain_env (KvKey (group_kv_key decimal_codec 7)) ?v quiet_db = (Ok (), d')"
    by (simp add: group_project_def plain_env_def quiet_db_def lossy_db_def apply_in_transaction_def
        db_connect_def db_call_def db_bind_def upsert_group_def upsert_def locked_members_def
        member_rows_def moved_def diff_between_def rewrite_def insert_members_def db_return_def
        members_in_def bs_of_list_def bs_difference_def db_commit_def bm_contains_def Let_def)
  have "codec_ok (env_codec plain_env)" and "tables_ok (db_tables quiet_db)"
    by (simp_all add: plain_env_def quiet_db_def lossy_db_def tables_ok_def)
  from group_projection_exact [OF this, of 7 ?v d'] run show ?thesis
    by (simp add: plain_env_def) (simp add: quiet_db_def lossy_db_def group_at_def)
qed

text \<open>a successful projection of a user makes that user's row the row of the published value and
  touches no other row of any table; it moves the progress exactly when the row changed, so
  projecting the same value again changes nothing and moves nothing.
\<close>

theorem user_projection_detects_change:
  assumes "codec_ok (env_codec env)" and "tables_ok (db_tables d)"
    and "user_project env (KvKey (user_kv_key (env_codec env) u)) v d = (Ok (), d')"
    and "user_project env (KvKey (user_kv_key (env_codec env) u)) v d' = (Ok (), d'')"
  shows "bm_get (known_users (db_tables d')) = (bm_get (known_users (db_tables d)))(u \<mapsto> user_row_of env v) \<and>
    user_frame d' = user_frame d \<and> tables_ok (db_tables d') \<and>
    (db_progress d' = db_progress d \<longleftrightarrow> bm_get (known_users (db_tables d)) u = Some (user_row_of env v)) \<and>
    row_tables (db_tables d'') = row_tables (db_tables d') \<and> db_progress d'' = db_progress d'"
proof -
  have inv: "sink_inv env d"
    using assms(1,2) by (simp add: sink_inv_def)
  obtain m where m: "row_tables (db_tables d') = (row_tables (db_tables d))\<lparr>known_users := m\<rparr>"
    "tables_ok (db_tables d')" "bm_get m = (bm_get (known_users (db_tables d)))(u \<mapsto> user_row_of env v)"
    "db_progress d' = db_progress d +
      (if bm_get (known_users (db_tables d)) u = Some (user_row_of env v) then 0 else 1)"
    using user_project_OkD [OF inv assms(3)] by blast
  have users: "known_users (db_tables d') = m"
    using m(1) by (simp add: row_tables_def)
  have inv': "sink_inv env d'"
    using assms(1) m(2) by (simp add: sink_inv_def)
  obtain m' where m': "row_tables (db_tables d'') = (row_tables (db_tables d'))\<lparr>known_users := m'\<rparr>"
    "tables_ok (db_tables d'')" "bm_get m' = (bm_get m)(u \<mapsto> user_row_of env v)"
    "db_progress d'' = db_progress d'"
    using user_project_OkD [OF inv' assms(4)] m(3) by (auto simp: users)
  have "m' = m"
  proof (rule bm_ext)
    show "bm_ok m'" "bm_ok m"
      using m' m(2) users by (simp_all add: tables_ok_def row_tables_def)
    show "bm_get m' = bm_get m"
      by (simp add: m'(3) m(3))
  qed
  then have "row_tables (db_tables d'') = row_tables (db_tables d')"
    using m'(1) users by (simp add: row_tables_def)
  then show ?thesis
    using m m' users by (simp add: user_frame_def row_tables_def)
qed

theorem user_projection_detects_change_witness:
  "\<exists>d' d''. user_project plain_env (KvKey (user_kv_key decimal_codec 7))
       \<lparr>pu_email = ''a'', pu_first_name = None, pu_last_name = None, pu_extensions = []\<rparr> quiet_db = (Ok (), d') \<and>
     user_project plain_env (KvKey (user_kv_key decimal_codec 7))
       \<lparr>pu_email = ''a'', pu_first_name = None, pu_last_name = None, pu_extensions = []\<rparr> d' = (Ok (), d'') \<and>
     db_progress d' \<noteq> db_progress quiet_db \<and> db_progress d'' = db_progress d'"
proof -
  let ?v = "\<lparr>pu_email = ''a'', pu_first_name = None, pu_last_name = None, pu_extensions = []\<rparr> :: published_user"
  let ?k = "KvKey (user_kv_key decimal_codec 7)"
  have id: "user_id_from_kv_key decimal_codec (user_kv_key decimal_codec 7) = Some 7"
    by (simp add: user_key_roundtrip)
  have env: "env_codec plain_env = decimal_codec" "env_stager plain_env = None"
    by (simp_all add: plain_env_def)
  note defs = user_project_def apply_single_statement_def db_connect_def db_call_def db_bind_def
    upsert_user_def upsert_def db_return_def env
  obtain d' where run: "user_project plain_env ?k ?v quiet_db = (Ok (), d')"
      and d': "db_faults d' = []"
    using id by (simp add: defs settle_def bump_def quiet_db_def lossy_db_def)
  obtain d'' where again: "user_project plain_env ?k ?v d' = (Ok (), d'')"
    using id d' by (cases "bm_get (known_users (db_tables d')) 7 = Some (user_row_of plain_env ?v)")
      (simp_all add: defs)
  have "codec_ok (env_codec plain_env)" and "tables_ok (db_tables quiet_db)"
    by (simp_all add: plain_env_def quiet_db_def lossy_db_def tables_ok_def)
  from user_projection_detects_change [OF this, of 7 ?v d' d''] run again show ?thesis
    by (simp add: plain_env_def) (simp add: quiet_db_def lossy_db_def)
qed

end
