(* ===== verification/Directory_Sync.thy ===== *)
theory Directory_Sync
  imports Directory_Correct
begin

text \<open>
  The two ends of the directory: the publisher (\<^verbatim>\<open>publisher/\<close>) and the projector
  (\<^verbatim>\<open>consumer/project.rs\<close>, \<^verbatim>\<open>manifest.rs\<close>, \<^verbatim>\<open>health.rs\<close>,
  \<^verbatim>\<open>snapshot.rs\<close>) of \<^verbatim>\<open>br-util-directory\<close>. Both reach the bucket through the
  fabric, whose lookup of a bucket is a parameter; \<open>json_text\<close> is the JSON text format.
\<close>

section \<open>Keys and text\<close>

definition users_prefix :: kv_prefix where "users_prefix = KvPrefix users_key_prefix"
definition groups_prefix :: kv_prefix where "groups_prefix = KvPrefix groups_key_prefix"
definition service_accounts_prefix :: kv_prefix where
  "service_accounts_prefix = KvPrefix service_accounts_key_prefix"
definition meta_key :: kv_key where "meta_key = KvKey meta_key_str"

definition user_key :: "wire_codec \<Rightarrow> uuid \<Rightarrow> (kv_key, kv_key_error) result" where
  "user_key c u = kv_key_new (user_kv_key c u)"
definition group_key :: "wire_codec \<Rightarrow> uuid \<Rightarrow> (kv_key, kv_key_error) result" where
  "group_key c u = kv_key_new (group_kv_key c u)"
definition service_account_key :: "wire_codec \<Rightarrow> uuid \<Rightarrow> (kv_key, kv_key_error) result" where
  "service_account_key c u = kv_key_new (service_account_kv_key c u)"

lemma frozen_keys_valid:
  "kv_prefix_new users_key_prefix = Ok users_prefix"
  "kv_prefix_new groups_key_prefix = Ok groups_prefix"
  "kv_prefix_new service_accounts_key_prefix = Ok service_accounts_prefix"
  "kv_key_new meta_key_str = Ok meta_key"
  by (simp_all add: kvp.mk_Ok_iff kvk.mk_Ok_iff users_prefix_def groups_prefix_def
      service_accounts_prefix_def meta_key_def users_key_prefix_def groups_key_prefix_def
      service_accounts_key_prefix_def meta_key_str_def kv_valid_def kv_valid_char_def str_simps)

text \<open>The formats of the bucket's values; \<open>wf_render\<close> formats a constructor's error.\<close>

record wire_format =
  wf_codec :: wire_codec
  wf_text :: json_text
  wf_render :: "core_directory_error \<Rightarrow> string"

definition to_bytes :: "wire_format \<Rightarrow> ('v \<Rightarrow> json) \<Rightarrow> 'v encoder" where
  "to_bytes w enc v = Ok (jt_print (wf_text w) (enc v))"

definition from_bytes :: "wire_format \<Rightarrow> 'v decoder \<Rightarrow> 'v bytes_decoder" where
  "from_bytes w dec bytes = and_then (jt_parse (wf_text w) bytes) dec"

abbreviation user_bytes :: "wire_format \<Rightarrow> published_user bytes_decoder" where
  "user_bytes w \<equiv> from_bytes w (user_decoder (wf_render w))"
abbreviation group_bytes :: "wire_format \<Rightarrow> published_group bytes_decoder" where
  "group_bytes w \<equiv> from_bytes w (group_decoder (wf_codec w) (wf_render w))"
abbreviation account_bytes :: "wire_format \<Rightarrow> published_service_account bytes_decoder" where
  "account_bytes w \<equiv> from_bytes w (service_account_decoder (wf_render w))"

section \<open>The publisher\<close>

record 's directory_source =
  src_manifest :: directory_meta
  src_users :: "'s \<Rightarrow> ((uuid, published_user) bmap, directory_error) result \<times> 's"
  src_groups :: "'s \<Rightarrow> ((uuid, published_group) bmap, directory_error) result \<times> 's"
  src_service_accounts :: "'s \<Rightarrow> ((uuid, published_service_account) bmap, directory_error) result \<times> 's"

text \<open>A source that does not say otherwise desires no service accounts.\<close>

definition default_service_accounts ::
  "'s \<Rightarrow> ((uuid, published_service_account) bmap, directory_error) result \<times> 's" where
  "default_service_accounts s = (Ok [], s)"

record 's directory_publisher =
  dp_users :: "'s kv_bucket"
  dp_groups :: "'s kv_bucket"
  dp_service_accounts :: "'s kv_bucket"
  dp_meta :: "'s kv_bucket"

type_synonym 's kv_lookup = "string \<Rightarrow> 's \<Rightarrow> ('s kv_bucket, string) result \<times> 's"

definition open_published :: "'s kv_lookup \<Rightarrow> 's \<Rightarrow> ('s kv_bucket, directory_error) result \<times> 's" where
  "open_published get s = (case get kv_published_language s of
     (r, s') \<Rightarrow> (map_err DirFabric (open_bucket (\<lambda>_. r) kv_published_language), s'))"

definition publisher_open :: "'s kv_lookup \<Rightarrow> 's \<Rightarrow> ('s directory_publisher, directory_error) result \<times> 's" where
  "publisher_open get s = (case open_published get s of
     (Err e, s1) \<Rightarrow> (Err e, s1)
   | (Ok us, s1) \<Rightarrow> (case open_published get s1 of
       (Err e, s2) \<Rightarrow> (Err e, s2)
     | (Ok gs, s2) \<Rightarrow> (case open_published get s2 of
         (Err e, s3) \<Rightarrow> (Err e, s3)
       | (Ok sas, s3) \<Rightarrow> (case open_published get s3 of
           (Err e, s4) \<Rightarrow> (Err e, s4)
         | (Ok me, s4) \<Rightarrow> (Ok \<lparr>dp_users = us, dp_groups = gs, dp_service_accounts = sas,
             dp_meta = me\<rparr>, s4)))))"

definition keyed :: "(uuid, 'v) bmap \<Rightarrow> (uuid \<Rightarrow> (kv_key, kv_key_error) result)
    \<Rightarrow> ((kv_key, 'v) bmap, directory_error) result" where
  "keyed by_id key_for =
     (case collect_results (map (\<lambda>(u, v). case key_for u of
        Err e \<Rightarrow> Err (DirKvKey e) | Ok k \<Rightarrow> Ok (k, v)) by_id) of
        Err e \<Rightarrow> Err e
      | Ok kvs \<Rightarrow> Ok (bm_of_list kvs))"

text \<open>A step that publishes one kind of entity: its desired entries, then the reconcile.\<close>

definition publish_kind :: "'s kv_bucket \<Rightarrow> 'v encoder \<Rightarrow> 'v bytes_decoder \<Rightarrow> kv_prefix
    \<Rightarrow> (uuid \<Rightarrow> (kv_key, kv_key_error) result) \<Rightarrow> bool
    \<Rightarrow> ('s \<Rightarrow> ((uuid, 'v) bmap, directory_error) result \<times> 's)
    \<Rightarrow> 's \<Rightarrow> (unit, directory_error) result \<times> 's" where
  "publish_kind kv enc dec p key_for published desired s =
     (case (if published then (case desired s of
              (Err e, s') \<Rightarrow> (Err e, s')
            | (Ok by_id, s') \<Rightarrow> (keyed by_id key_for, s'))
            else (Ok [], s)) of
        (Err e, s') \<Rightarrow> (Err e, s')
      | (Ok entries, s') \<Rightarrow> (case publisher_reconcile kv enc dec p entries s' of
          (Err e, s'') \<Rightarrow> (Err (DirFabric e), s'')
        | (Ok _, s'') \<Rightarrow> (Ok (), s'')))"

definition write_meta :: "wire_format \<Rightarrow> 's directory_publisher \<Rightarrow> directory_meta \<Rightarrow> 's
    \<Rightarrow> (unit, directory_error) result \<times> 's" where
  "write_meta w p manifest s = (case publisher_put (dp_meta p) (to_bytes w meta_json) meta_key manifest s of
     (r, s') \<Rightarrow> (map_err DirFabric r, s'))"

definition directory_publish :: "wire_format \<Rightarrow> 's directory_publisher \<Rightarrow> 's directory_source \<Rightarrow> 's
    \<Rightarrow> (unit, directory_error) result \<times> 's" where
  "directory_publish w p source s =
     (let manifest = src_manifest source; c = wf_codec w in
      case publish_kind (dp_users p) (to_bytes w user_json) (user_bytes w) users_prefix (user_key c)
          (publishes_users manifest) (src_users source) s of
        (Err e, s1) \<Rightarrow> (Err e, s1)
      | (Ok _, s1) \<Rightarrow>
      (case publish_kind (dp_groups p) (to_bytes w (group_json c)) (group_bytes w) groups_prefix
          (group_key c) (publishes_groups manifest) (src_groups source) s1 of
        (Err e, s2) \<Rightarrow> (Err e, s2)
      | (Ok _, s2) \<Rightarrow>
      (case publish_kind (dp_service_accounts p) (to_bytes w service_account_json) (account_bytes w)
          service_accounts_prefix (service_account_key c) (publishes_service_accounts manifest)
          (src_service_accounts source) s2 of
        (Err e, s3) \<Rightarrow> (Err e, s3)
      | (Ok _, s3) \<Rightarrow> write_meta w p manifest s3)))"

text \<open>The single writes.\<close>

definition keyed_put :: "'s kv_bucket \<Rightarrow> 'v encoder \<Rightarrow> (kv_key, kv_key_error) result \<Rightarrow> 'v \<Rightarrow> 's
    \<Rightarrow> (unit, directory_error) result \<times> 's" where
  "keyed_put kv enc key v s = (case key of Err e \<Rightarrow> (Err (DirKvKey e), s)
     | Ok k \<Rightarrow> (case publisher_put kv enc k v s of (r, s') \<Rightarrow> (map_err DirFabric r, s')))"

definition keyed_retract :: "'s kv_bucket \<Rightarrow> (kv_key, kv_key_error) result \<Rightarrow> 's
    \<Rightarrow> (unit, directory_error) result \<times> 's" where
  "keyed_retract kv key s = (case key of Err e \<Rightarrow> (Err (DirKvKey e), s)
     | Ok k \<Rightarrow> (case publisher_retract kv k s of (r, s') \<Rightarrow> (map_err DirFabric r, s')))"

definition publish_user where
  "publish_user w p u v s = keyed_put (dp_users p) (to_bytes w user_json) (user_key (wf_codec w) u) v s"
definition retract_user where
  "retract_user w p u s = keyed_retract (dp_users p) (user_key (wf_codec w) u) s"
definition publish_group where
  "publish_group w p u v s =
     keyed_put (dp_groups p) (to_bytes w (group_json (wf_codec w))) (group_key (wf_codec w) u) v s"
definition retract_group where
  "retract_group w p u s = keyed_retract (dp_groups p) (group_key (wf_codec w) u) s"
definition publish_service_account where
  "publish_service_account w p u v s = keyed_put (dp_service_accounts p)
     (to_bytes w service_account_json) (service_account_key (wf_codec w) u) v s"
definition retract_service_account where
  "retract_service_account w p u s =
     keyed_retract (dp_service_accounts p) (service_account_key (wf_codec w) u) s"

section \<open>The projector\<close>

datatype manifest_state = ManifestPresent directory_meta | ManifestAbsent

definition read_manifest :: "'s kv_lookup \<Rightarrow> wire_format \<Rightarrow> 's
    \<Rightarrow> (manifest_state, directory_error) result \<times> 's" where
  "read_manifest get w s = (case kv_key_new meta_key_str of
     Err e \<Rightarrow> (Err (DirKvKey e), s)
   | Ok key \<Rightarrow> (case open_published get s of
       (Err e, s1) \<Rightarrow> (Err e, s1)
     | (Ok kv, s1) \<Rightarrow> (case reader_get kv (from_bytes w meta_decoder) key s1 of
         (Err e, s2) \<Rightarrow> (Err (DirFabric e), s2)
       | (Ok None, s2) \<Rightarrow> (Ok ManifestAbsent, s2)
       | (Ok (Some m), s2) \<Rightarrow> (Ok (ManifestPresent m), s2))))"

definition present_manifest :: "'s kv_lookup \<Rightarrow> wire_format \<Rightarrow> 's
    \<Rightarrow> (directory_meta, directory_error) result \<times> 's" where
  "present_manifest get w s = (case read_manifest get w s of
     (Err e, s') \<Rightarrow> (Err e, s')
   | (Ok (ManifestPresent m), s') \<Rightarrow> (Ok m, s')
   | (Ok ManifestAbsent, s') \<Rightarrow> (Err DirManifestAbsent, s'))"

definition keep_all :: "'v \<Rightarrow> bool" where
  "keep_all v = True"

type_synonym ('s, 'v, 'x) directory_consumer = "('s, 'v, 'x directory_db, directory_error) pl_consumer"

definition user_consumer :: "'x directory_env \<Rightarrow> wire_format \<Rightarrow> 's kv_bucket
    \<Rightarrow> ('s, published_user, 'x) directory_consumer" where
  "user_consumer env w kv = \<lparr>pc_kv = kv, pc_decode = user_bytes w, pc_prefixes = [users_prefix],
     pc_copy_filter = cc_filter (env_config env), pc_sink = user_sink env\<rparr>"

definition group_consumer :: "'x directory_env \<Rightarrow> wire_format \<Rightarrow> 's kv_bucket
    \<Rightarrow> ('s, published_group, 'x) directory_consumer" where
  "group_consumer env w kv = \<lparr>pc_kv = kv, pc_decode = group_bytes w, pc_prefixes = [groups_prefix],
     pc_copy_filter = keep_all, pc_sink = group_sink env\<rparr>"

definition service_account_consumer :: "'x directory_env \<Rightarrow> wire_format \<Rightarrow> 's kv_bucket
    \<Rightarrow> ('s, published_service_account, 'x) directory_consumer" where
  "service_account_consumer env w kv = \<lparr>pc_kv = kv, pc_decode = account_bytes w,
     pc_prefixes = [service_accounts_prefix], pc_copy_filter = keep_all,
     pc_sink = service_account_sink env\<rparr>"

text \<open>Opening a consumer and running its bootstrap.\<close>

definition open_and_bootstrap :: "'s kv_lookup \<Rightarrow> ('s kv_bucket \<Rightarrow> ('s, 'v, 'x) directory_consumer)
    \<Rightarrow> 's \<times> 'x directory_db \<Rightarrow> (unit, directory_error) result \<times> 's \<times> 'x directory_db" where
  "open_and_bootstrap get consumer sd = (case open_published get (fst sd) of
     (Err e, s1) \<Rightarrow> (Err e, s1, snd sd)
   | (Ok kv, s1) \<Rightarrow> (case bootstrap (consumer kv) s1 (snd sd) of
       (r, s2, d2) \<Rightarrow> (map_err directory_error_from_projection r, s2, d2)))"

definition directory_reconcile :: "'s kv_lookup \<Rightarrow> wire_format \<Rightarrow> 'x directory_env
    \<Rightarrow> 's \<times> 'x directory_db \<Rightarrow> (directory_meta, directory_error) result \<times> 's \<times> 'x directory_db" where
  "directory_reconcile get w env sd =
     (case present_manifest get w (fst sd) of
        (Err e, s1) \<Rightarrow> (Err e, s1, snd sd)
      | (Ok manifest, s1) \<Rightarrow>
      (case open_and_bootstrap get (user_consumer env w) (s1, snd sd) of
        (Err e, sd1) \<Rightarrow> (Err e, sd1)
      | (Ok _, sd1) \<Rightarrow>
      (case (if consumes_groups (cc_scope (env_config env))
             then open_and_bootstrap get (group_consumer env w) sd1 else (Ok (), sd1)) of
        (Err e, sd2) \<Rightarrow> (Err e, sd2)
      | (Ok _, sd2) \<Rightarrow>
      (case (if publishes_service_accounts manifest
             then open_and_bootstrap get (service_account_consumer env w) sd2 else (Ok (), sd2)) of
        (Err e, sd3) \<Rightarrow> (Err e, sd3)
      | (Ok _, sd3) \<Rightarrow> (Ok manifest, sd3)))))"

end
