(* ===== verification/Directory_Live.thy ===== *)
theory Directory_Live
  imports Directory_Correct
begin

text \<open>
  The sinks answer while the database has no fault: every call of a sink on a key of its own
  succeeds, so the sinks are reliable and a bootstrap over them ends in success.
\<close>

section \<open>Calls without faults\<close>

text \<open>An operation succeeds from the tables \<open>P\<close> allows, and leaves tables \<open>Q\<close> allows.\<close>

definition succeeds :: "('x tables \<Rightarrow> bool) \<Rightarrow> ('a, 'x) db_op \<Rightarrow> ('a \<Rightarrow> 'x tables \<Rightarrow> bool) \<Rightarrow> bool" where
  "succeeds P op Q \<longleftrightarrow> (\<forall>s. db_faults s = [] \<longrightarrow> P (db_tables s) \<longrightarrow>
     (\<exists>v s'. op s = (Ok v, s') \<and> db_faults s' = [] \<and> Q v (db_tables s')))"

named_theorems success_intros \<open>calls that succeed\<close>

lemma succeedsD: "succeeds P op Q \<Longrightarrow> db_faults s = [] \<Longrightarrow> P (db_tables s) \<Longrightarrow>
    \<exists>v s'. op s = (Ok v, s') \<and> db_faults s' = [] \<and> Q v (db_tables s')"
  by (simp add: succeeds_def)

lemma succeeds_call [success_intros]:
  "(\<And>t. P t \<Longrightarrow> \<exists>v t'. stmt t = Ok (v, t') \<and> Q v t') \<Longrightarrow> succeeds P (db_call stmt) Q"
  by (fastforce simp: succeeds_def db_call_def)

lemma succeeds_return [success_intros]: "(\<And>t. P t \<Longrightarrow> Q v t) \<Longrightarrow> succeeds P (db_return v) Q"
  by (simp add: succeeds_def db_return_def)

lemma succeeds_bind [success_intros]:
  assumes "succeeds P op R" and "\<And>v. succeeds (R v) (k v) Q"
  shows "succeeds P (db_bind op k) Q"
  unfolding succeeds_def
proof (intro allI impI)
  fix s :: "'a directory_db"
  assume "db_faults s = []" and "P (db_tables s)"
  then obtain v s1 where v: "op s = (Ok v, s1)" "db_faults s1 = []" "R v (db_tables s1)"
    using succeedsD [OF assms(1)] by blast
  then obtain u s2 where "k v s1 = (Ok u, s2)" "db_faults s2 = []" "Q u (db_tables s2)"
    using succeedsD [OF assms(2)] by blast
  with v show "\<exists>u s'. db_bind op k s = (Ok u, s') \<and> db_faults s' = [] \<and> Q u (db_tables s')"
    by (auto simp: db_bind_def)
qed

lemma succeeds_if [success_intros]:
  "(b \<Longrightarrow> succeeds P op1 Q) \<Longrightarrow> (\<not> b \<Longrightarrow> succeeds P op2 Q) \<Longrightarrow> succeeds P (if b then op1 else op2) Q"
  by simp

text \<open>A stager that never fails, or none.\<close>

definition stager_total :: "'x stager option \<Rightarrow> bool" where
  "stager_total stager \<longleftrightarrow> (case stager of None \<Rightarrow> True
     | Some st \<Rightarrow> \<forall>is x. \<exists>x'. st is x = (Ok (), x'))"

lemma in_transaction_ok:
  assumes "stager_total stager" and "succeeds P write Q" and "db_faults s = []" and "P (db_tables s)"
  shows "\<exists>s'. apply_in_transaction stager write s = (Ok (), s') \<and> db_faults s' = []"
proof -
  have conn: "db_connect s = (Ok (), s)"
    using assms(3) by (simp add: db_connect_def db_call_def)
  obtain "is" s1 where w: "write s = (Ok is, s1)" "db_faults s1 = []"
    using succeedsD [OF assms(2-4)] by blast
  define st where "st = (case stager of
    Some f \<Rightarrow> if is \<noteq> [] then stage_in f is s1 else (Ok (), s1) | None \<Rightarrow> (Ok (), s1))"
  have "\<exists>s2. st = (Ok (), s2) \<and> db_faults s2 = []"
  proof (cases stager)
    case (Some f)
    then obtain x' where "f is (staging (db_tables s1)) = (Ok (), x')"
      using assms(1) by (auto simp: stager_total_def)
    with w(2) Some show ?thesis
      by (simp add: st_def stage_in_def)
  qed (simp add: st_def w(2))
  then obtain s2 where s2: "st = (Ok (), s2)" "db_faults s2 = []"
    by blast
  have "db_commit (db_tables s) s2 = (Ok (), s2)"
    using s2(2) by (simp add: db_commit_def)
  then have "apply_in_transaction stager write s = (Ok (), settle is s2)"
    using s2(1) unfolding st_def by (simp add: apply_in_transaction_def conn w(1) Let_def)
  with s2(2) show ?thesis
    by (simp add: settle_def bump_def)
qed

lemma single_statement_ok:
  assumes "stager_total stager" and "succeeds P write Q" and "db_faults s = []" and "P (db_tables s)"
  shows "\<exists>s'. apply_single_statement stager write s = (Ok (), s') \<and> db_faults s' = []"
proof (cases stager)
  case None
  have "db_connect s = (Ok (), s)"
    using assms(3) by (simp add: db_connect_def db_call_def)
  moreover obtain "is" s1 where "write s = (Ok is, s1)" "db_faults s1 = []"
    using succeedsD [OF assms(2-4)] by blast
  ultimately show ?thesis
    using None by (simp add: apply_single_statement_def settle_def bump_def)
next
  case (Some st)
  then show ?thesis
    using in_transaction_ok [OF assms] by (simp add: apply_single_statement_def)
qed

section \<open>The statements of the sinks\<close>

abbreviation anything :: "'a \<Rightarrow> 'x tables \<Rightarrow> bool" where
  "anything \<equiv> \<lambda>_ _. True"

lemma statements_succeed [success_intros]:
  "succeeds P (upsert_user u row) anything" "succeeds P (delete_user u) anything"
  "succeeds P (memberships_of u) anything" "succeeds P (upsert_service_account u name) anything"
  "succeeds P (delete_service_account u) anything"
  "succeeds P (upsert_group g name) (\<lambda>_ t. bm_contains (known_groups t) g)"
  "succeeds P (delete_group g) anything" "succeeds P (locked_group g) anything"
  unfolding upsert_user_def delete_user_def memberships_of_def upsert_service_account_def
    delete_service_account_def upsert_group_def delete_group_def locked_group_def
  by (rule succeeds_call; auto simp: bm_contains_def bm_get_upsert split: prod.split dest: upsert_pair)+

lemma membership_statements_succeed [success_intros]:
  "succeeds (\<lambda>t. bm_contains (known_groups t) g) (locked_members g') (\<lambda>_ t. bm_contains (known_groups t) g)"
  "succeeds (\<lambda>t. bm_contains (known_groups t) g) (delete_members g us) (\<lambda>_ t. bm_contains (known_groups t) g)"
  "succeeds (\<lambda>t. bm_contains (known_groups t) g) (insert_members g us) anything"
  "succeeds (\<lambda>_. True) (locked_members g') anything"
  unfolding locked_members_def delete_members_def insert_members_def
  by (rule succeeds_call; auto)+

lemma rewrite_succeeds [success_intros]:
  "succeeds (\<lambda>t. bm_contains (known_groups t) g) (rewrite diff g) anything"
  unfolding rewrite_def
  by (rule succeeds_bind [where R = "\<lambda>_ t. bm_contains (known_groups t) g"])
    (auto intro!: success_intros)

section \<open>The sinks\<close>

text \<open>The text of an id has only characters a key may have, as the hyphenated form has.\<close>

definition uuid_text_ok :: "wire_codec \<Rightarrow> bool" where
  "uuid_text_ok c \<longleftrightarrow> (\<forall>u. list_all kv_valid_char (uuid_show c u))"

lemma kv_keys_valid:
  assumes "uuid_text_ok c"
  shows "kv_valid (user_kv_key c u)" and "kv_valid (group_kv_key c u)"
    and "kv_valid (service_account_kv_key c u)"
  using assms by (simp_all add: uuid_text_ok_def kv_valid_def user_kv_key_def group_kv_key_def
      service_account_kv_key_def users_key_prefix_def groups_key_prefix_def
      service_accounts_key_prefix_def kv_valid_char_def str_simps)

definition calm_db :: "'x directory_env \<Rightarrow> 'x directory_db \<Rightarrow> bool" where
  "calm_db env d \<longleftrightarrow> db_faults d = [] \<and> stager_total (env_stager env) \<and> uuid_text_ok (env_codec env)"

lemma canonicalD:
  "canonical_key to_key k \<Longrightarrow> (\<And>u. from_key (to_key u) = Some u) \<Longrightarrow> \<exists>u. from_key (kv_str k) = Some u"
  by (auto simp: canonical_key_def)

lemma keys_of_ids_ok:
  "(\<And>u. kv_valid (show_key u)) \<Longrightarrow> \<exists>ks. keys_of_ids show_key ids s = (Ok ks, s)"
proof -
  assume "\<And>u. kv_valid (show_key u)"
  then have "map (\<lambda>u. map_err DirKvKey (kv_key_new (show_key u))) ids =
      (map Ok (map (\<lambda>u. KvKey (show_key u)) ids) :: (kv_key, directory_error) result list)"
    by (simp add: kv_key_new_valid)
  then show ?thesis
    unfolding keys_of_ids_def by (simp only: collect_results_map_Ok sum.case) blast
qed

lemma known_keys_ok:
  assumes "db_faults d = []" and "\<And>u. kv_valid (show_key u)"
  shows "\<exists>ks d'. db_bind (db_call (\<lambda>t. Ok (ids t, t))) (keys_of_ids show_key) d = (Ok ks, d') \<and>
    db_faults d' = []"
proof -
  obtain ks where "keys_of_ids show_key (ids (db_tables d)) (d\<lparr>db_faults := []\<rparr>) = (Ok ks, d\<lparr>db_faults := []\<rparr>)"
    using keys_of_ids_ok [of show_key, OF assms(2)] by blast
  then show ?thesis
    using assms(1) by (simp add: db_bind_def db_call_def)
qed

interpretation users_live: reliable_sink "user_sink env" "user_rows env"
  "\<lambda>d. sink_inv env d \<and> user_frame d = fr" "canonical_key (user_kv_key (env_codec env))"
  "user_row_of env" "calm_db env"
proof
  fix d k v
  assume inv: "sink_inv env d \<and> user_frame d = fr" and calm: "calm_db env d"
  then have env: "codec_ok (env_codec env)" "stager_total (env_stager env)" "db_faults d = []"
      "uuid_text_ok (env_codec env)"
    by (simp_all add: sink_inv_def calm_db_def)
  show "\<exists>d'. sk_project (user_sink env) k v d = (Ok (), d') \<and> calm_db env d'"
    if can: "canonical_key (user_kv_key (env_codec env)) k"
  proof -
    obtain u where u: "user_id_from_kv_key (env_codec env) (kv_str k) = Some u"
      using canonicalD [OF can user_key_roundtrip [OF env(1)]] by blast
    have "\<exists>d'. user_project env k v d = (Ok (), d') \<and> db_faults d' = []"
      unfolding user_project_def u option.case
      by (intro single_statement_ok [OF env(2) _ env(3), of "\<lambda>_. True" _ anything])
        (rule success_intros TrueI)+
    with env show ?thesis by (auto simp: user_sink_def calm_db_def)
  qed
  show "\<exists>d'. sk_retract (user_sink env) k d = (Ok (), d') \<and> calm_db env d'"
    if can: "canonical_key (user_kv_key (env_codec env)) k"
  proof -
    obtain u where u: "user_id_from_kv_key (env_codec env) (kv_str k) = Some u"
      using canonicalD [OF can user_key_roundtrip [OF env(1)]] by blast
    have "\<exists>d'. user_retract env k d = (Ok (), d') \<and> db_faults d' = []"
      unfolding user_retract_def u option.case
      by (intro single_statement_ok [OF env(2) _ env(3), of "\<lambda>_. True" _ anything])
        (rule success_intros TrueI)+
    with env show ?thesis by (auto simp: user_sink_def calm_db_def)
  qed
  show "\<exists>ks d'. sk_known_keys (user_sink env) d = (Ok ks, d') \<and> calm_db env d'"
    using known_keys_ok [OF env(3) kv_keys_valid(1) [OF env(4)], of "\<lambda>t. bm_keys (known_users t)"] env
    by (auto simp: user_sink_def user_known_keys_def calm_db_def)
qed

interpretation accounts_live: reliable_sink "service_account_sink env" "service_account_rows env"
  "\<lambda>d. sink_inv env d \<and> account_frame d = fr" "canonical_key (service_account_kv_key (env_codec env))"
  psa_name "calm_db env"
proof
  fix d k v
  assume inv: "sink_inv env d \<and> account_frame d = fr" and calm: "calm_db env d"
  then have env: "codec_ok (env_codec env)" "stager_total (env_stager env)" "db_faults d = []"
      "uuid_text_ok (env_codec env)"
    by (simp_all add: sink_inv_def calm_db_def)
  show "\<exists>d'. sk_project (service_account_sink env) k v d = (Ok (), d') \<and> calm_db env d'"
    if can: "canonical_key (service_account_kv_key (env_codec env)) k"
  proof -
    obtain u where u: "service_account_id_from_kv_key (env_codec env) (kv_str k) = Some u"
      using canonicalD [OF can service_account_key_roundtrip [OF env(1)]] by blast
    have "\<exists>d'. service_account_project env k v d = (Ok (), d') \<and> db_faults d' = []"
      unfolding service_account_project_def u option.case
      by (intro single_statement_ok [OF env(2) _ env(3), of "\<lambda>_. True" _ anything])
        (rule success_intros TrueI)+
    with env show ?thesis by (auto simp: service_account_sink_def calm_db_def)
  qed
  show "\<exists>d'. sk_retract (service_account_sink env) k d = (Ok (), d') \<and> calm_db env d'"
    if can: "canonical_key (service_account_kv_key (env_codec env)) k"
  proof -
    obtain u where u: "service_account_id_from_kv_key (env_codec env) (kv_str k) = Some u"
      using canonicalD [OF can service_account_key_roundtrip [OF env(1)]] by blast
    have "\<exists>d'. service_account_retract env k d = (Ok (), d') \<and> db_faults d' = []"
      unfolding service_account_retract_def u option.case
      by (intro single_statement_ok [OF env(2) _ env(3), of "\<lambda>_. True" _ anything])
        (rule success_intros TrueI)+
    with env show ?thesis by (auto simp: service_account_sink_def calm_db_def)
  qed
  show "\<exists>ks d'. sk_known_keys (service_account_sink env) d = (Ok ks, d') \<and> calm_db env d'"
    using known_keys_ok [OF env(3) kv_keys_valid(3) [OF env(4)], of "\<lambda>t. bm_keys (known_service_accounts t)"] env
    by (auto simp: service_account_sink_def service_account_known_keys_def calm_db_def)
qed

interpretation groups_live: reliable_sink "group_sink env" "group_rows env"
  "\<lambda>d. sink_inv env d \<and> group_frame d = fr" "canonical_key (group_kv_key (env_codec env))"
  group_shown "calm_db env"
proof
  fix d k v
  assume inv: "sink_inv env d \<and> group_frame d = fr" and calm: "calm_db env d"
  then have env: "codec_ok (env_codec env)" "stager_total (env_stager env)" "db_faults d = []"
      "uuid_text_ok (env_codec env)"
    by (simp_all add: sink_inv_def calm_db_def)
  show "\<exists>d'. sk_project (group_sink env) k v d = (Ok (), d') \<and> calm_db env d'"
    if can: "canonical_key (group_kv_key (env_codec env)) k"
  proof -
    obtain u where u: "group_id_from_kv_key (env_codec env) (kv_str k) = Some u"
      using canonicalD [OF can group_key_roundtrip [OF env(1)]] by blast
    have "\<exists>d'. group_project env k v d = (Ok (), d') \<and> db_faults d' = []"
      unfolding group_project_def u option.case Let_def
      by (intro in_transaction_ok [OF env(2) _ env(3), of "\<lambda>_. True" _ anything])
        (rule success_intros TrueI)+
    with env show ?thesis by (auto simp: group_sink_def calm_db_def)
  qed
  show "\<exists>d'. sk_retract (group_sink env) k d = (Ok (), d') \<and> calm_db env d'"
    if can: "canonical_key (group_kv_key (env_codec env)) k"
  proof -
    obtain u where u: "group_id_from_kv_key (env_codec env) (kv_str k) = Some u"
      using canonicalD [OF can group_key_roundtrip [OF env(1)]] by blast
    have "\<exists>d'. group_retract env k d = (Ok (), d') \<and> db_faults d' = []"
    proof (cases "env_stager env = None")
      case True
      show ?thesis
        unfolding group_retract_def u option.case if_P [OF True]
        by (intro single_statement_ok [OF env(2) _ env(3), of "\<lambda>_. True" _ anything])
          (rule success_intros TrueI)+
    next
      case False
      show ?thesis
        unfolding group_retract_def u option.case if_not_P [OF False]
        by (intro in_transaction_ok [OF env(2) _ env(3), of "\<lambda>_. True" _ anything])
          (rule success_intros TrueI)+
    qed
    with env show ?thesis by (auto simp: group_sink_def calm_db_def)
  qed
  show "\<exists>ks d'. sk_known_keys (group_sink env) d = (Ok ks, d') \<and> calm_db env d'"
    using known_keys_ok [OF env(3) kv_keys_valid(2) [OF env(4)], of "\<lambda>t. bm_keys (known_groups t)"] env
    by (auto simp: group_sink_def group_known_keys_def calm_db_def)
qed

end
