(* ===== verification/Directory_Sync_Correct.thy ===== *)
theory Directory_Sync_Correct
  imports Directory_Sync Directory_Live
begin

text \<open>
  From the source to the copy: a publisher's reconcile and then a projector's, over one bucket,
  make the local tables exactly what the source desires.
\<close>

section \<open>Keys\<close>

lemma keys_new:
  assumes "uuid_text_ok c"
  shows "user_key c u = Ok (KvKey (user_kv_key c u))" and "group_key c u = Ok (KvKey (group_kv_key c u))"
    and "service_account_key c u = Ok (KvKey (service_account_kv_key c u))"
  using kv_keys_valid [OF assms, of u]
  by (simp_all add: user_key_def group_key_def service_account_key_def kv_key_new_valid)

lemma keys_match_prefix:
  "prefix_matches users_prefix (user_kv_key c u)"
  "prefix_matches groups_prefix (group_kv_key c u)"
  "prefix_matches service_accounts_prefix (service_account_kv_key c u)"
  by (simp_all add: prefix_matches_def users_prefix_def groups_prefix_def service_accounts_prefix_def
      user_kv_key_def group_kv_key_def service_account_kv_key_def)

lemma prefixes_disjoint:
  "prefix_matches users_prefix k \<Longrightarrow> \<not> prefix_matches groups_prefix k"
  "prefix_matches users_prefix k \<Longrightarrow> \<not> prefix_matches service_accounts_prefix k"
  "prefix_matches groups_prefix k \<Longrightarrow> \<not> prefix_matches service_accounts_prefix k"
  "prefix_matches users_prefix k \<Longrightarrow> k \<noteq> meta_key_str"
  "prefix_matches groups_prefix k \<Longrightarrow> k \<noteq> meta_key_str"
  "prefix_matches service_accounts_prefix k \<Longrightarrow> k \<noteq> meta_key_str"
  by (auto simp: prefix_matches_iff users_prefix_def groups_prefix_def service_accounts_prefix_def
      users_key_prefix_def groups_key_prefix_def service_accounts_key_prefix_def meta_key_str_def)

lemma keyed_Ok:
  assumes new: "\<And>u. key_for u = Ok (KvKey (to_key u))" and inj: "\<And>u v. to_key u = to_key v \<Longrightarrow> u = v"
    and ok: "bm_ok m"
  shows "\<exists>entries. keyed m key_for = Ok entries \<and> bm_ok entries \<and>
    (\<forall>u. bm_get entries (KvKey (to_key u)) = bm_get m u) \<and>
    (\<forall>k. bm_get entries k \<noteq> None \<longrightarrow> canonical_key to_key k)"
proof -
  define kvs where "kvs = map (\<lambda>(u, v). (KvKey (to_key u), v)) m"
  have "map (\<lambda>(u, v). case key_for u of Err e \<Rightarrow> Err (DirKvKey e) | Ok k \<Rightarrow> Ok (k, v)) m
      = (map Ok kvs :: (kv_key \<times> _, directory_error) result list)"
    by (auto simp: kvs_def new)
  then have keyed: "keyed m key_for = Ok (bm_of_list kvs)"
    by (simp add: keyed_def)
  have "map fst kvs = map (\<lambda>u. KvKey (to_key u)) (map fst m)"
    by (simp add: kvs_def case_prod_unfold)
  moreover have "inj (\<lambda>u. KvKey (to_key u))"
    using inj by (auto intro: injI)
  ultimately have dist: "distinct (map fst kvs)"
    using bm_ok_distinct [OF ok] by (metis distinct_map inj_on_subset subset_UNIV)
  then have get: "bm_get (bm_of_list kvs) = map_of kvs"
    by (simp add: bm_get_extend map_of_rev_distinct)
  have "map_of kvs (KvKey (to_key u)) = bm_get m u" for u
    unfolding kvs_def by (induction m) (auto dest: inj)
  moreover have "canonical_key to_key k" if "map_of kvs k \<noteq> None" for k
    using that by (auto simp: canonical_key_def kvs_def dest!: map_of_SomeD)
  ultimately show ?thesis
    using keyed get by auto
qed

section \<open>One kind of entity\<close>

text \<open>The content of the bucket under a prefix is exactly a map of entries.\<close>

definition content_is :: "'v bytes_decoder \<Rightarrow> kv_prefix \<Rightarrow> (kv_key \<Rightarrow> 'v option)
    \<Rightarrow> (string \<Rightarrow> string option) \<Rightarrow> bool" where
  "content_is dec p entries content \<longleftrightarrow> (\<forall>k. prefix_matches p (kv_str k) \<longrightarrow>
     (case entries k of
        Some v \<Rightarrow> \<exists>b. content (kv_str k) = Some b \<and> dec b = Ok v
      | None \<Rightarrow> content (kv_str k) = None))"

lemma content_is_cong:
  "content_is dec p entries content \<Longrightarrow> (\<And>k. prefix_matches p k \<Longrightarrow> content' k = content k) \<Longrightarrow>
     content_is dec p entries content'"
  by (simp add: content_is_def cong: option.case_cong)

text \<open>What is required of the desired entities: their text reads back as them.\<close>

definition reads_back :: "'v encoder \<Rightarrow> 'v bytes_decoder \<Rightarrow> 'v \<Rightarrow> bool" where
  "reads_back enc dec v \<longleftrightarrow> (\<exists>b. enc v = Ok b \<and> dec b = Ok v)"

lemma reads_back_to_bytes: "reads_back (to_bytes w enc) dec v \<longleftrightarrow> dec (jt_print (wf_text w) (enc v)) = Ok v"
  by (simp add: reads_back_def to_bytes_def)

lemma publish_kind_exact:
  fixes desired :: "(uuid, 'v) bmap"
  assumes rel: "kv_reliable kv view" and new: "\<And>u. key_for u = Ok (KvKey (to_key u))"
    and from_key: "\<And>u. from_key (to_key u) = Some u" and pre: "\<And>u. prefix_matches p (to_key u)"
    and ok: "bm_ok desired" and rb: "\<And>u v. bm_get desired u = Some v \<Longrightarrow> reads_back (to_bytes w enc) dec v"
    and read: "readable dec p (view s)"
    and src: "\<And>s. \<exists>s'. source s = (Ok desired, s') \<and> view s' = view s"
  shows "\<exists>s'. publish_kind kv (to_bytes w enc) dec p key_for published source s = (Ok (), s') \<and>
    content_is dec p (keyed_rows from_key to_key
      (if published then bm_get desired else Map.empty)) (view s') \<and>
    (\<forall>k. \<not> prefix_matches p k \<longrightarrow> view s' k = view s k)"
proof -
  have inj: "to_key u = to_key v \<Longrightarrow> u = v" for u v
    using from_key by (metis option.inject)
  define m where "m = (if published then desired else [])"
  have m: "bm_ok m" and rbm: "\<And>u v. bm_get m u = Some v \<Longrightarrow> reads_back (to_bytes w enc) dec v"
    and getm: "bm_get m = (if published then bm_get desired else Map.empty)"
    using ok rb by (auto simp: m_def split: if_splits)
  obtain entries where keyed: "keyed m key_for = Ok entries" and eok: "bm_ok entries"
    and get: "\<And>u. bm_get entries (KvKey (to_key u)) = bm_get m u"
    and canon: "\<And>k. bm_get entries k \<noteq> None \<Longrightarrow> canonical_key to_key k"
    using keyed_Ok [of key_for to_key m, OF new inj m] by blast
  have rows: "bm_get entries k = keyed_rows from_key to_key (bm_get m) k" for k
  proof (cases "canonical_key to_key k")
    case True
    then obtain u where "k = KvKey (to_key u)"
      by (auto simp: canonical_key_def)
    then show ?thesis
      using get keyed_rows_at [OF from_key, of "bm_get m" u] by simp
  next
    case False
    then show ?thesis
      using canon keyed_rows_canonical by (metis not_None_eq)
  qed
  have empty: "keyed [] key_for = Ok []"
    by (simp add: keyed_def)
  obtain s1 where step: "(if published then (case source s of
              (Err e, s') \<Rightarrow> (Err e, s')
            | (Ok by_id, s') \<Rightarrow> (keyed by_id key_for, s'))
            else (Ok [], s)) = (Ok entries, s1)" and view1: "view s1 = view s"
  proof (cases published)
    case True
    obtain s' where "source s = (Ok desired, s')" "view s' = view s"
      using src by blast
    with True keyed that [of s'] show ?thesis
      by (simp add: m_def)
  next
    case False
    with keyed have "keyed [] key_for = Ok entries"
      by (simp add: m_def)
    then have "entries = []"
      unfolding empty by simp
    with False that [of s] show ?thesis
      by simp
  qed
  have dec: "dec (jt_print (wf_text w) (enc v)) = Ok v" if "bm_get entries k = Some v" for k v
  proof -
    have "bm_get entries k \<noteq> None"
      using that by simp
    then obtain u where "k = KvKey (to_key u)"
      using canon by (auto simp: canonical_key_def)
    then show ?thesis
      using that get rbm reads_back_to_bytes by metis
  qed
  obtain s' where run: "publisher_reconcile kv (to_bytes w enc) dec p entries s1 = (Ok (), s')"
    and post: "\<forall>k. case bm_get entries k of
       Some v \<Rightarrow> \<exists>b. view s' (kv_str k) = Some b \<and> dec b = Ok v
     | None \<Rightarrow> view s' (kv_str k) = (if prefix_matches p (kv_str k) then None else view s1 (kv_str k))"
  proof -
    have "readable dec p (view s1)"
      using read view1 by simp
    then have "\<exists>s'. publisher_reconcile kv (to_bytes w enc) dec p entries s1 = (Ok (), s') \<and>
      (\<forall>k. case bm_get entries k of
         Some v \<Rightarrow> \<exists>b. view s' (kv_str k) = Some b \<and> dec b = Ok v
       | None \<Rightarrow> view s' (kv_str k) = (if prefix_matches p (kv_str k) then None else view s1 (kv_str k)))"
      using eok by (intro publisher_reconcile_reliable [OF rel to_bytes_def]) (rule dec)
    with that show ?thesis by blast
  qed
  have "content_is dec p (keyed_rows from_key to_key (bm_get m)) (view s')"
    unfolding content_is_def rows [symmetric]
  proof (intro allI impI)
    fix k
    assume "prefix_matches p (kv_str k)"
    with post [rule_format, of k] show "case bm_get entries k of
        Some v \<Rightarrow> \<exists>b. view s' (kv_str k) = Some b \<and> dec b = Ok v
      | None \<Rightarrow> view s' (kv_str k) = None"
      by (cases "bm_get entries k") simp_all
  qed
  moreover have "view s' k = view s k" if "\<not> prefix_matches p k" for k
  proof -
    have "\<not> canonical_key to_key (KvKey k)"
      using pre that by (auto simp: canonical_key_def)
    then have "bm_get entries (KvKey k) = None"
      using canon by metis
    with post [rule_format, of "KvKey k"] that view1 show ?thesis
      by simp
  qed
  moreover have "publish_kind kv (to_bytes w enc) dec p key_for published source s = (Ok (), s')"
    by (simp add: publish_kind_def step run)
  ultimately show ?thesis
    by (intro exI [of _ s']) (simp add: getm)
qed

section \<open>One bootstrap\<close>

lemma content_selected_readable:
  assumes content: "content_is (pc_decode c) p (keyed_rows from_key to_key m) content"
    and "pc_prefixes c = [p]" and valid: "\<And>u. kv_valid (to_key u)"
  shows "selected_readable c content"
  unfolding selected_readable_def
proof (intro allI impI)
  fix key b
  assume sel: "selected c key" and b: "content key = Some b"
  then have "prefix_matches p key"
    using assms(2) by (simp add: selected_def)
  with content [unfolded content_is_def, rule_format, of "KvKey key"] b
  obtain v where v: "keyed_rows from_key to_key m (KvKey key) = Some v" and dec: "pc_decode c b = Ok v"
    by (auto split: option.splits)
  then have "canonical_key to_key (KvKey key)"
    using keyed_rows_canonical by (metis not_None_eq)
  then show "kv_valid key \<and> is_ok (pc_decode c b)"
    using valid dec by (auto simp: canonical_key_def)
qed

lemma keyed_rows_bind:
  "keyed_rows from_key to_key (\<lambda>u. Option.bind (m u) f) k = Option.bind (keyed_rows from_key to_key m k) f"
  by (cases "from_key (kv_str k)") (simp_all add: keyed_rows_def)

lemma content_passed:
  assumes content: "content_is (pc_decode c) p (keyed_rows from_key to_key m) content"
    and "pc_prefixes c = [p]" and from_key: "\<And>u. from_key (to_key u) = Some u"
    and pre: "\<And>u. prefix_matches p (to_key u)"
  shows "passed c content = keyed_rows from_key to_key
    (\<lambda>u. Option.bind (m u) (\<lambda>v. if pc_copy_filter c v then Some v else None))"
proof
  fix k
  show "passed c content k = keyed_rows from_key to_key
    (\<lambda>u. Option.bind (m u) (\<lambda>v. if pc_copy_filter c v then Some v else None)) k"
  proof (cases "prefix_matches p (kv_str k)")
    case True
    note at = content [unfolded content_is_def, rule_format, OF True]
    show ?thesis
    proof (cases "keyed_rows from_key to_key m k")
      case None
      then have "content (kv_str k) = None"
        using at by simp
      with None show ?thesis
        by (simp add: passed_def keyed_rows_bind)
    next
      case (Some v)
      then obtain b where "content (kv_str k) = Some b" and "pc_decode c b = Ok v"
        using at by auto
      then show ?thesis
        using True assms(2) Some by (simp add: passed_def selected_def keyed_rows_bind)
    qed
  next
    case False
    then have "\<not> canonical_key to_key k"
      using pre by (auto simp: canonical_key_def)
    then have "keyed_rows from_key to_key m k = None"
      using keyed_rows_canonical by metis
    with False assms(2) show ?thesis
      by (simp add: passed_def selected_def keyed_rows_bind)
  qed
qed

text \<open>
  A bootstrap that succeeds over an exactly published prefix leaves the rows of a sink as the
  entries its copy filter keeps.
\<close>

lemma bootstrap_exact:
  fixes c :: "('s, 'v, 'x) directory_consumer"
  assumes sink: "projection_sink (pc_sink c) (\<lambda>d. keyed_rows from_key to_key (tab d)) I
      (canonical_key to_key) shown"
    and rel: "kv_reliable (pc_kv c) view" and "pc_prefixes c = [p]"
    and content: "content_is (pc_decode c) p (keyed_rows from_key to_key m) (view s)"
    and from_key: "\<And>u. from_key (to_key u) = Some u"
    and pre: "\<And>u. prefix_matches p (to_key u)" and valid: "\<And>u. kv_valid (to_key u)"
    and "I d" and boot: "bootstrap c s d = (Ok (), s', d')"
  shows "view s' = view s \<and> I d' \<and>
    tab d' = (\<lambda>u. Option.bind (m u) (\<lambda>v. if pc_copy_filter c v then Some (shown v) else None))"
proof -
  obtain desired s1 where scan: "scan_passing c s = (Ok desired, s1)" "view s1 = view s" "bm_ok desired"
    and get: "bm_get desired = passed c (view s)"
    using scan_passing_reliable [OF rel content_selected_readable [OF content assms(3) valid]] by blast
  have s': "s' = s1"
    using boot scan(1) by (auto simp: bootstrap_def split: prod.splits sum.splits)
  note get' = get [unfolded content_passed [OF content assms(3) from_key pre]]
  have canon: "\<forall>k \<in> fst ` set desired. canonical_key to_key k"
  proof
    fix k
    assume "k \<in> fst ` set desired"
    then have "bm_get desired k \<noteq> None"
      by (simp add: map_of_eq_None_iff)
    then show "canonical_key to_key k"
      unfolding get' by (rule keyed_rows_canonical)
  qed
  have rows: "I d' \<and> (\<forall>k. keyed_rows from_key to_key (tab d') k = (case bm_get desired k of
     Some v \<Rightarrow> Some (shown v)
   | None \<Rightarrow> if selected c (kv_str k) then None else keyed_rows from_key to_key (tab d) k))"
    by (rule projection_sink.bootstrap_rows [OF sink refl \<open>I d\<close> boot scan(1,3) canon])
  have "tab d' u = Option.bind (m u) (\<lambda>v. if pc_copy_filter c v then Some (shown v) else None)" for u
  proof -
    have "tab d' u = keyed_rows from_key to_key (tab d') (KvKey (to_key u))"
      by (simp add: keyed_rows_at from_key)
    also have "\<dots> = map_option shown (bm_get desired (KvKey (to_key u)))"
      using rows pre [of u] assms(3) by (auto simp: selected_def split: option.splits)
    also have "\<dots> = Option.bind (m u) (\<lambda>v. if pc_copy_filter c v then Some (shown v) else None)"
      by (cases "m u") (simp_all add: get' keyed_rows_at from_key)
    finally show ?thesis .
  qed
  with rows scan(2) s' show ?thesis
    by auto
qed

lemma bootstrap_succeeds:
  fixes c :: "('s, 'v, 'x) directory_consumer"
  assumes sink: "reliable_sink (pc_sink c) (\<lambda>d. keyed_rows from_key to_key (tab d)) I
      (canonical_key to_key) shown calm"
    and rel: "kv_reliable (pc_kv c) view" and "pc_prefixes c = [p]"
    and content: "content_is (pc_decode c) p (keyed_rows from_key to_key m) (view s)"
    and from_key: "\<And>u. from_key (to_key u) = Some u"
    and pre: "\<And>u. prefix_matches p (to_key u)" and valid: "\<And>u. kv_valid (to_key u)"
    and "I d" and "calm d"
  shows "\<exists>s' d'. bootstrap c s d = (Ok (), s', d') \<and> calm d'"
proof -
  obtain desired s1 where scan: "scan_passing c s = (Ok desired, s1)"
    and get: "bm_get desired = passed c (view s)"
    using scan_passing_reliable [OF rel content_selected_readable [OF content assms(3) valid]] by blast
  have "\<forall>k \<in> fst ` set desired. canonical_key to_key k"
  proof
    fix k
    assume "k \<in> fst ` set desired"
    then have "bm_get desired k \<noteq> None"
      by (simp add: map_of_eq_None_iff)
    then show "canonical_key to_key k"
      unfolding get content_passed [OF content assms(3) from_key pre] by (rule keyed_rows_canonical)
  qed
  from reliable_sink.bootstrap_ok [OF sink refl assms(8,9) scan this] show ?thesis
    by blast
qed

section \<open>Publishing\<close>

text \<open>The fabric finds the one bucket, and reading the source leaves the bucket alone.\<close>

definition lookup_finds :: "'s kv_lookup \<Rightarrow> 's kv_bucket \<Rightarrow> ('s \<Rightarrow> string \<Rightarrow> string option) \<Rightarrow> bool" where
  "lookup_finds get kv view \<longleftrightarrow> (\<forall>name s. \<exists>s'. get name s = (Ok kv, s') \<and> view s' = view s)"

definition gives :: "('s \<Rightarrow> ('a, directory_error) result \<times> 's) \<Rightarrow> 'a \<Rightarrow> ('s \<Rightarrow> string \<Rightarrow> string option) \<Rightarrow> bool" where
  "gives source v view \<longleftrightarrow> (\<forall>s. \<exists>s'. source s = (Ok v, s') \<and> view s' = view s)"

definition one_bucket :: "'s kv_bucket \<Rightarrow> 's directory_publisher" where
  "one_bucket kv = \<lparr>dp_users = kv, dp_groups = kv, dp_service_accounts = kv, dp_meta = kv\<rparr>"

lemma open_published_finds: "lookup_finds get kv view \<Longrightarrow>
    \<exists>s'. open_published get s = (Ok kv, s') \<and> view s' = view s"
  unfolding lookup_finds_def open_published_def open_bucket_def
  by (metis (mono_tags, lifting) map_err.simps(1) old.prod.case)

lemma publisher_open_finds:
  assumes "lookup_finds get kv view"
  shows "\<exists>s'. publisher_open get s = (Ok (one_bucket kv), s') \<and> view s' = view s"
proof -
  obtain s1 where s1: "open_published get s = (Ok kv, s1)" "view s1 = view s"
    using open_published_finds [OF assms] by blast
  obtain s2 where s2: "open_published get s1 = (Ok kv, s2)" "view s2 = view s1"
    using open_published_finds [OF assms] by blast
  obtain s3 where s3: "open_published get s2 = (Ok kv, s3)" "view s3 = view s2"
    using open_published_finds [OF assms] by blast
  obtain s4 where s4: "open_published get s3 = (Ok kv, s4)" "view s4 = view s3"
    using open_published_finds [OF assms] by blast
  show ?thesis
    using s1 s2 s3 s4 by (simp add: publisher_open_def one_bucket_def)
qed

text \<open>The source's side of the property: what it desires, in good order and readable.\<close>

definition source_ok :: "wire_format \<Rightarrow> 's directory_source \<Rightarrow> (uuid, published_user) bmap
    \<Rightarrow> (uuid, published_group) bmap \<Rightarrow> (uuid, published_service_account) bmap
    \<Rightarrow> ('s \<Rightarrow> string \<Rightarrow> string option) \<Rightarrow> bool" where
  "source_ok w src us gs sas view \<longleftrightarrow>
     gives (src_users src) us view \<and> gives (src_groups src) gs view \<and>
     gives (src_service_accounts src) sas view \<and> bm_ok us \<and> bm_ok gs \<and> bm_ok sas \<and>
     (\<forall>v \<in> snd ` set us. reads_back (to_bytes w user_json) (user_bytes w) v) \<and>
     (\<forall>v \<in> snd ` set gs. reads_back (to_bytes w (group_json (wf_codec w))) (group_bytes w) v) \<and>
     (\<forall>v \<in> snd ` set sas. reads_back (to_bytes w service_account_json) (account_bytes w) v) \<and>
     reads_back (to_bytes w meta_json) (from_bytes w meta_decoder) (src_manifest src)"

definition bucket_readable :: "wire_format \<Rightarrow> (string \<Rightarrow> string option) \<Rightarrow> bool" where
  "bucket_readable w content \<longleftrightarrow> readable (user_bytes w) users_prefix content \<and>
     readable (group_bytes w) groups_prefix content \<and>
     readable (account_bytes w) service_accounts_prefix content"

definition only_if :: "bool \<Rightarrow> ('k \<Rightarrow> 'v option) \<Rightarrow> 'k \<Rightarrow> 'v option" where
  "only_if b m = (if b then m else Map.empty)"

text \<open>What the bucket holds once a publisher has reconciled.\<close>

definition bucket_shows :: "wire_format \<Rightarrow> directory_meta \<Rightarrow> (uuid, published_user) bmap
    \<Rightarrow> (uuid, published_group) bmap \<Rightarrow> (uuid, published_service_account) bmap
    \<Rightarrow> (string \<Rightarrow> string option) \<Rightarrow> bool" where
  "bucket_shows w m us gs sas content \<longleftrightarrow> (let c = wf_codec w in
     content_is (user_bytes w) users_prefix (keyed_rows (user_id_from_kv_key c) (user_kv_key c)
       (only_if (publishes_users m) (bm_get us))) content \<and>
     content_is (group_bytes w) groups_prefix (keyed_rows (group_id_from_kv_key c) (group_kv_key c)
       (only_if (publishes_groups m) (bm_get gs))) content \<and>
     content_is (account_bytes w) service_accounts_prefix
       (keyed_rows (service_account_id_from_kv_key c) (service_account_kv_key c)
       (only_if (publishes_service_accounts m) (bm_get sas))) content \<and>
     (\<exists>b. content meta_key_str = Some b \<and> from_bytes w meta_decoder b = Ok m))"

lemma gives_reads: "bm_ok m \<Longrightarrow> \<forall>v \<in> snd ` set m. P v \<Longrightarrow> bm_get m u = Some v \<Longrightarrow> P v"
  by (force simp: bm_get_Some_iff)

lemma publish_kind_source:
  assumes "kv_reliable kv view" and "\<And>u. key_for u = Ok (KvKey (to_key u))"
    and "\<And>u. from_key (to_key u) = Some u" and "\<And>u. prefix_matches p (to_key u)"
    and "bm_ok desired" and "\<forall>v \<in> snd ` set desired. reads_back (to_bytes w enc) dec v"
    and "gives source desired view" and "readable dec p (view s)"
  shows "\<exists>s'. publish_kind kv (to_bytes w enc) dec p key_for published source s = (Ok (), s') \<and>
    content_is dec p (keyed_rows from_key to_key (only_if published (bm_get desired))) (view s') \<and>
    (\<forall>k. \<not> prefix_matches p k \<longrightarrow> view s' k = view s k)"
  unfolding only_if_def
  by (rule publish_kind_exact [OF assms(1-5) gives_reads [OF assms(5,6)] assms(8)])
    (use assms(7) in \<open>auto simp: gives_def\<close>)

lemma readable_cong: "readable dec p content \<Longrightarrow> (\<And>k. prefix_matches p k \<Longrightarrow> content' k = content k) \<Longrightarrow>
    readable dec p content'"
  by (simp add: readable_def)

lemma directory_publish_shows:
  assumes rel: "kv_reliable kv view" and c: "codec_ok (wf_codec w)" "uuid_text_ok (wf_codec w)"
    and src: "source_ok w src us gs sas view" and read: "bucket_readable w (view s)"
  shows "\<exists>s'. directory_publish w (one_bucket kv) src s = (Ok (), s') \<and>
    bucket_shows w (src_manifest src) us gs sas (view s')"
proof -
  let ?c = "wf_codec w" and ?m = "src_manifest src"
  have users: "bm_ok us" "\<forall>v \<in> snd ` set us. reads_back (to_bytes w user_json) (user_bytes w) v"
      "gives (src_users src) us view"
    and groups: "bm_ok gs" "\<forall>v \<in> snd ` set gs. reads_back (to_bytes w (group_json ?c)) (group_bytes w) v"
      "gives (src_groups src) gs view"
    and accounts: "bm_ok sas"
      "\<forall>v \<in> snd ` set sas. reads_back (to_bytes w service_account_json) (account_bytes w) v"
      "gives (src_service_accounts src) sas view"
    and meta: "reads_back (to_bytes w meta_json) (from_bytes w meta_decoder) ?m"
    using src by (simp_all add: source_ok_def)
  have read0: "readable (user_bytes w) users_prefix (view s)"
    using read by (simp add: bucket_readable_def)
  note keys = keys_new [OF c(2)]
  note rt = user_key_roundtrip [OF c(1)] group_key_roundtrip [OF c(1)] service_account_key_roundtrip [OF c(1)]
  obtain s1 where u: "publish_kind kv (to_bytes w user_json) (user_bytes w) users_prefix (user_key ?c)
      (publishes_users ?m) (src_users src) s = (Ok (), s1)"
    and u1: "content_is (user_bytes w) users_prefix (keyed_rows (user_id_from_kv_key ?c) (user_kv_key ?c)
      (only_if (publishes_users ?m) (bm_get us))) (view s1)"
    and u2: "\<And>k. \<not> prefix_matches users_prefix k \<Longrightarrow> view s1 k = view s k"
    using publish_kind_source [OF rel keys(1) rt(1) keys_match_prefix(1) users read0] by blast
  have read1: "readable (group_bytes w) groups_prefix (view s1)"
    by (rule readable_cong [of _ _ "view s"]) (use read u2 prefixes_disjoint in \<open>auto simp: bucket_readable_def\<close>)
  obtain s2 where g: "publish_kind kv (to_bytes w (group_json ?c)) (group_bytes w) groups_prefix
      (group_key ?c) (publishes_groups ?m) (src_groups src) s1 = (Ok (), s2)"
    and g1: "content_is (group_bytes w) groups_prefix (keyed_rows (group_id_from_kv_key ?c) (group_kv_key ?c)
      (only_if (publishes_groups ?m) (bm_get gs))) (view s2)"
    and g2: "\<And>k. \<not> prefix_matches groups_prefix k \<Longrightarrow> view s2 k = view s1 k"
    using publish_kind_source [OF rel keys(2) rt(2) keys_match_prefix(2) groups read1] by blast
  have read2: "readable (account_bytes w) service_accounts_prefix (view s2)"
  proof (rule readable_cong [of _ _ "view s"])
    show "view s2 k = view s k" if "prefix_matches service_accounts_prefix k" for k
      using that u2 g2 prefixes_disjoint(2,3) by metis
  qed (use read in \<open>simp add: bucket_readable_def\<close>)
  obtain s3 where a: "publish_kind kv (to_bytes w service_account_json) (account_bytes w)
      service_accounts_prefix (service_account_key ?c) (publishes_service_accounts ?m)
      (src_service_accounts src) s2 = (Ok (), s3)"
    and a1: "content_is (account_bytes w) service_accounts_prefix
      (keyed_rows (service_account_id_from_kv_key ?c) (service_account_kv_key ?c)
      (only_if (publishes_service_accounts ?m) (bm_get sas))) (view s3)"
    and a2: "\<And>k. \<not> prefix_matches service_accounts_prefix k \<Longrightarrow> view s3 k = view s2 k"
    using publish_kind_source [OF rel keys(3) rt(3) keys_match_prefix(3) accounts read2] by blast
  obtain r s4 where put: "kb_put kv meta_key_str (jt_print (wf_text w) (meta_json ?m)) s3 = (Ok r, s4)"
    and v4: "view s4 = (view s3)(meta_key_str \<mapsto> jt_print (wf_text w) (meta_json ?m))"
    using rel unfolding kv_reliable_def by blast
  have "directory_publish w (one_bucket kv) src s = (Ok (), s4)"
    using u g a put by (simp add: directory_publish_def one_bucket_def Let_def write_meta_def
        publisher_put_def kv_encode_def to_bytes_def meta_key_def)
  moreover have "bucket_shows w ?m us gs sas (view s4)"
    unfolding bucket_shows_def Let_def
  proof (intro conjI)
    show "content_is (user_bytes w) users_prefix (keyed_rows (user_id_from_kv_key ?c) (user_kv_key ?c)
        (only_if (publishes_users ?m) (bm_get us))) (view s4)"
      by (rule content_is_cong [OF u1]) (use prefixes_disjoint g2 a2 in \<open>auto simp: v4\<close>)
    show "content_is (group_bytes w) groups_prefix (keyed_rows (group_id_from_kv_key ?c) (group_kv_key ?c)
        (only_if (publishes_groups ?m) (bm_get gs))) (view s4)"
      by (rule content_is_cong [OF g1]) (use prefixes_disjoint a2 in \<open>auto simp: v4\<close>)
    show "content_is (account_bytes w) service_accounts_prefix
        (keyed_rows (service_account_id_from_kv_key ?c) (service_account_kv_key ?c)
        (only_if (publishes_service_accounts ?m) (bm_get sas))) (view s4)"
      by (rule content_is_cong [OF a1]) (use prefixes_disjoint in \<open>auto simp: v4\<close>)
    show "\<exists>b. view s4 meta_key_str = Some b \<and> from_bytes w meta_decoder b = Ok ?m"
      using meta by (simp add: v4 reads_back_to_bytes)
  qed
  ultimately show ?thesis by blast
qed

section \<open>Projecting\<close>

lemma bind_Some_map: "Option.bind x (\<lambda>v. Some (f v)) = map_option f x"
  by (cases x) auto

lemma open_and_bootstrap_OkD:
  assumes "open_and_bootstrap get consumer (s, d) = (Ok u, s', d')" and "lookup_finds get kv view"
  shows "\<exists>s1. view s1 = view s \<and> bootstrap (consumer kv) s1 d = (Ok (), s', d')"
proof -
  obtain s1 where "open_published get s = (Ok kv, s1)" "view s1 = view s"
    using open_published_finds [OF assms(2)] by blast
  with assms(1) show ?thesis
    by (auto simp: open_and_bootstrap_def split: prod.splits)
qed

lemma present_manifest_shows:
  assumes "kv_reliable kv view" and "lookup_finds get kv view"
    and "view s meta_key_str = Some b" and "from_bytes w meta_decoder b = Ok m"
  shows "\<exists>s'. present_manifest get w s = (Ok m, s') \<and> view s' = view s"
proof -
  obtain s1 where s1: "open_published get s = (Ok kv, s1)" "view s1 = view s"
    using open_published_finds [OF assms(2)] by blast
  obtain s2 where s2: "kb_get kv meta_key_str s1 = (Ok (Some b), s2)" "view s2 = view s1"
    using assms(1,3) s1(2) unfolding kv_reliable_def by metis
  have "read_manifest get w s = (Ok (ManifestPresent m), s2)"
    using s1 s2 assms(4) by (simp add: read_manifest_def frozen_keys_valid reader_get_def meta_key_def
        kv_decode_def)
  with s1 s2 show ?thesis
    by (simp add: present_manifest_def)
qed

lemma user_bootstrap_exact:
  assumes rel: "kv_reliable kv view" and c: "codec_ok (wf_codec w)" "uuid_text_ok (wf_codec w)"
    and env: "env_codec env = wf_codec w" and "sink_inv env d"
    and content: "content_is (user_bytes w) users_prefix (keyed_rows (user_id_from_kv_key (wf_codec w))
      (user_kv_key (wf_codec w)) m) (view s)"
    and boot: "bootstrap (user_consumer env w kv) s d = (Ok (), s', d')"
  shows "view s' = view s \<and> sink_inv env d' \<and> user_frame d' = user_frame d \<and>
    bm_get (known_users (db_tables d')) = (\<lambda>u. Option.bind (m u)
      (\<lambda>v. if cc_filter (env_config env) v then Some (user_row_of env v) else None))"
  using bootstrap_exact [of "user_consumer env w kv" "user_id_from_kv_key (wf_codec w)"
      "user_kv_key (wf_codec w)" "\<lambda>d. bm_get (known_users (db_tables d))"
      "\<lambda>e. sink_inv env e \<and> user_frame e = user_frame d" "user_row_of env" view users_prefix m s d s' d']
    users.projection_sink_axioms [of env "user_frame d"] user_key_roundtrip [OF c(1)]
    keys_match_prefix(1) kv_keys_valid(1) [OF c(2)] assms
  by (simp add: user_consumer_def env user_rows_def [abs_def])

lemma group_bootstrap_exact:
  assumes rel: "kv_reliable kv view" and c: "codec_ok (wf_codec w)" "uuid_text_ok (wf_codec w)"
    and env: "env_codec env = wf_codec w" and "sink_inv env d"
    and content: "content_is (group_bytes w) groups_prefix (keyed_rows (group_id_from_kv_key (wf_codec w))
      (group_kv_key (wf_codec w)) m) (view s)"
    and boot: "bootstrap (group_consumer env w kv) s d = (Ok (), s', d')"
  shows "view s' = view s \<and> sink_inv env d' \<and> group_frame d' = group_frame d \<and>
    group_at (db_tables d') = (\<lambda>u. map_option group_shown (m u))"
  using bootstrap_exact [of "group_consumer env w kv" "group_id_from_kv_key (wf_codec w)"
      "group_kv_key (wf_codec w)" "\<lambda>d. group_at (db_tables d)"
      "\<lambda>e. sink_inv env e \<and> group_frame e = group_frame d" group_shown view groups_prefix m s d s' d']
    groups.projection_sink_axioms [of env "group_frame d"] group_key_roundtrip [OF c(1)]
    keys_match_prefix(2) kv_keys_valid(2) [OF c(2)] assms
  by (simp add: group_consumer_def env group_rows_def [abs_def] keep_all_def bind_Some_map)

lemma account_bootstrap_exact:
  assumes rel: "kv_reliable kv view" and c: "codec_ok (wf_codec w)" "uuid_text_ok (wf_codec w)"
    and env: "env_codec env = wf_codec w" and "sink_inv env d"
    and content: "content_is (account_bytes w) service_accounts_prefix
      (keyed_rows (service_account_id_from_kv_key (wf_codec w)) (service_account_kv_key (wf_codec w)) m) (view s)"
    and boot: "bootstrap (service_account_consumer env w kv) s d = (Ok (), s', d')"
  shows "view s' = view s \<and> sink_inv env d' \<and> account_frame d' = account_frame d \<and>
    bm_get (known_service_accounts (db_tables d')) = (\<lambda>u. map_option psa_name (m u))"
  using bootstrap_exact [of "service_account_consumer env w kv" "service_account_id_from_kv_key (wf_codec w)"
      "service_account_kv_key (wf_codec w)" "\<lambda>d. bm_get (known_service_accounts (db_tables d))"
      "\<lambda>e. sink_inv env e \<and> account_frame e = account_frame d" psa_name view service_accounts_prefix
      m s d s' d']
    accounts.projection_sink_axioms [of env "account_frame d"] service_account_key_roundtrip [OF c(1)]
    keys_match_prefix(3) kv_keys_valid(3) [OF c(2)] assms
  by (simp add: service_account_consumer_def env service_account_rows_def [abs_def] keep_all_def bind_Some_map)

lemma user_bootstrap_succeeds:
  assumes rel: "kv_reliable kv view" and c: "codec_ok (wf_codec w)" "uuid_text_ok (wf_codec w)"
    and env: "env_codec env = wf_codec w" and "sink_inv env d" and "calm_db env d"
    and content: "content_is (user_bytes w) users_prefix (keyed_rows (user_id_from_kv_key (wf_codec w)) (user_kv_key (wf_codec w)) m) (view s)"
  shows "\<exists>s' d'. bootstrap (user_consumer env w kv) s d = (Ok (), s', d') \<and> calm_db env d'"
  using bootstrap_succeeds [of "user_consumer env w kv" "user_id_from_kv_key (wf_codec w)" "user_kv_key (wf_codec w)"
      "\<lambda>d. bm_get (known_users (db_tables d))" "\<lambda>e. sink_inv env e \<and> user_frame e = user_frame d" "user_row_of env"
      "calm_db env" view users_prefix m s d]
    users_live.reliable_sink_axioms [of env "user_frame d"] user_key_roundtrip [OF c(1)]
    keys_match_prefix(1) kv_keys_valid(1) [OF c(2)] assms
  by (simp add: user_consumer_def env user_rows_def [abs_def])

lemma group_bootstrap_succeeds:
  assumes rel: "kv_reliable kv view" and c: "codec_ok (wf_codec w)" "uuid_text_ok (wf_codec w)"
    and env: "env_codec env = wf_codec w" and "sink_inv env d" and "calm_db env d"
    and content: "content_is (group_bytes w) groups_prefix (keyed_rows (group_id_from_kv_key (wf_codec w)) (group_kv_key (wf_codec w)) m) (view s)"
  shows "\<exists>s' d'. bootstrap (group_consumer env w kv) s d = (Ok (), s', d') \<and> calm_db env d'"
  using bootstrap_succeeds [of "group_consumer env w kv" "group_id_from_kv_key (wf_codec w)" "group_kv_key (wf_codec w)"
      "\<lambda>d. group_at (db_tables d)" "\<lambda>e. sink_inv env e \<and> group_frame e = group_frame d" group_shown
      "calm_db env" view groups_prefix m s d]
    groups_live.reliable_sink_axioms [of env "group_frame d"] group_key_roundtrip [OF c(1)]
    keys_match_prefix(2) kv_keys_valid(2) [OF c(2)] assms
  by (simp add: group_consumer_def env group_rows_def [abs_def])

lemma account_bootstrap_succeeds:
  assumes rel: "kv_reliable kv view" and c: "codec_ok (wf_codec w)" "uuid_text_ok (wf_codec w)"
    and env: "env_codec env = wf_codec w" and "sink_inv env d" and "calm_db env d"
    and content: "content_is (account_bytes w) service_accounts_prefix (keyed_rows (service_account_id_from_kv_key (wf_codec w)) (service_account_kv_key (wf_codec w)) m) (view s)"
  shows "\<exists>s' d'. bootstrap (service_account_consumer env w kv) s d = (Ok (), s', d') \<and> calm_db env d'"
  using bootstrap_succeeds [of "service_account_consumer env w kv" "service_account_id_from_kv_key (wf_codec w)" "service_account_kv_key (wf_codec w)"
      "\<lambda>d. bm_get (known_service_accounts (db_tables d))" "\<lambda>e. sink_inv env e \<and> account_frame e = account_frame d" psa_name
      "calm_db env" view service_accounts_prefix m s d]
    accounts_live.reliable_sink_axioms [of env "account_frame d"] service_account_key_roundtrip [OF c(1)]
    keys_match_prefix(3) kv_keys_valid(3) [OF c(2)] assms
  by (simp add: service_account_consumer_def env service_account_rows_def [abs_def])

lemma reconciled_copy:
  assumes "kv_reliable kv view" and "lookup_finds get kv view"
    and "codec_ok (wf_codec w)" and "uuid_text_ok (wf_codec w)" and "env_codec env = wf_codec w"
    and "source_ok w src us gs sas view" and "bucket_readable w (view s)"
    and "tables_ok (db_tables d)"
    and "directory_publish w (one_bucket kv) src s = (r, s1)"
    and "directory_reconcile get w env (s1, d) = (Ok m, s2, d')"
  shows "r = Ok () \<and> m = src_manifest src \<and> tables_ok (db_tables d') \<and>
    bm_get (known_users (db_tables d')) =
      (\<lambda>u. Option.bind (only_if (publishes_users m) (bm_get us) u)
        (\<lambda>v. if cc_filter (env_config env) v then Some (user_row_of env v) else None)) \<and>
    (consumes_groups (cc_scope (env_config env)) \<longrightarrow> group_at (db_tables d') =
      (\<lambda>g. map_option group_shown (only_if (publishes_groups m) (bm_get gs) g))) \<and>
    (publishes_service_accounts m \<longrightarrow> bm_get (known_service_accounts (db_tables d')) =
      (\<lambda>a. map_option psa_name (bm_get sas a)))"
proof -
  let ?m = "src_manifest src"
  have r: "r = Ok ()" and shown: "bucket_shows w ?m us gs sas (view s1)"
    using directory_publish_shows [OF assms(1,3,4,6,7)] assms(9) by auto
  note S = shown [unfolded bucket_shows_def Let_def, THEN conjunct1]
    shown [unfolded bucket_shows_def Let_def, THEN conjunct2, THEN conjunct1]
    shown [unfolded bucket_shows_def Let_def, THEN conjunct2, THEN conjunct2, THEN conjunct1]
    shown [unfolded bucket_shows_def Let_def, THEN conjunct2, THEN conjunct2, THEN conjunct2]
  obtain s3 where s3: "present_manifest get w s1 = (Ok ?m, s3)" "view s3 = view s1"
    using present_manifest_shows [OF assms(1,2)] S(4) by blast
  obtain s4 d4 where u: "open_and_bootstrap get (user_consumer env w) (s3, d) = (Ok (), s4, d4)"
    using assms(10) s3 by (auto simp: directory_reconcile_def split: prod.splits sum.splits)
  obtain s5 d5 where g: "(if consumes_groups (cc_scope (env_config env))
      then open_and_bootstrap get (group_consumer env w) (s4, d4) else (Ok (), s4, d4)) = (Ok (), s5, d5)"
    using assms(10) s3 u by (auto simp: directory_reconcile_def split: prod.splits sum.splits)
  have a: "(if publishes_service_accounts ?m
      then open_and_bootstrap get (service_account_consumer env w) (s5, d5) else (Ok (), s5, d5))
      = (Ok (), s2, d')" and m: "m = ?m"
    using assms(10) s3 u g by (auto simp: directory_reconcile_def split: prod.splits sum.splits)
  have inv: "sink_inv env d"
    using assms(3,5,8) by (simp add: sink_inv_def)
  have U: "view s4 = view s3 \<and> sink_inv env d4 \<and> user_frame d4 = user_frame d \<and>
    bm_get (known_users (db_tables d4)) = (\<lambda>u. Option.bind (only_if (publishes_users ?m) (bm_get us) u)
      (\<lambda>v. if cc_filter (env_config env) v then Some (user_row_of env v) else None))"
  proof -
    obtain s' where s': "view s' = view s3" "bootstrap (user_consumer env w kv) s' d = (Ok (), s4, d4)"
      using open_and_bootstrap_OkD [OF u assms(2)] by blast
    from user_bootstrap_exact [OF assms(1,3,4,5) inv S(1) [folded s3(2) s'(1)] s'(2)] show ?thesis
      by (simp add: s'(1))
  qed
  have G: "view s5 = view s4 \<and> sink_inv env d5 \<and> group_frame d5 = group_frame d4 \<and>
    (consumes_groups (cc_scope (env_config env)) \<longrightarrow> group_at (db_tables d5) =
      (\<lambda>g. map_option group_shown (only_if (publishes_groups ?m) (bm_get gs) g)))"
  proof (cases "consumes_groups (cc_scope (env_config env))")
    case True
    then have "open_and_bootstrap get (group_consumer env w) (s4, d4) = (Ok (), s5, d5)"
      using g by simp
    then obtain s' where s': "view s' = view s4"
      "bootstrap (group_consumer env w kv) s' d4 = (Ok (), s5, d5)"
      using open_and_bootstrap_OkD [OF _ assms(2)] by blast
    have view: "view s' = view s1"
      using s' U s3 by simp
    from group_bootstrap_exact [OF assms(1,3,4,5) _ S(2) [folded view] s'(2)] U show ?thesis
      by (simp add: s'(1))
  qed (use g U in auto)
  have A: "sink_inv env d' \<and> account_frame d' = account_frame d5 \<and>
    (publishes_service_accounts ?m \<longrightarrow> bm_get (known_service_accounts (db_tables d')) =
      (\<lambda>a. map_option psa_name (bm_get sas a)))"
  proof (cases "publishes_service_accounts ?m")
    case True
    then have "open_and_bootstrap get (service_account_consumer env w) (s5, d5) = (Ok (), s2, d')"
      using a by simp
    then obtain s' where s': "view s' = view s5"
      "bootstrap (service_account_consumer env w kv) s' d5 = (Ok (), s2, d')"
      using open_and_bootstrap_OkD [OF _ assms(2)] by blast
    have view: "view s' = view s1"
      using s' U G s3 by simp
    from account_bootstrap_exact [OF assms(1,3,4,5) _ S(3) [folded view] s'(2)] G True show ?thesis
      by (simp add: only_if_def)
  qed (use a G in auto)
  have "group_at (db_tables d') = group_at (db_tables d5)"
    using A by (auto simp: account_frame_def group_at_def)
  then show ?thesis
    using r m U G A by (simp add: account_frame_def group_frame_def sink_inv_def)
qed

lemma reconcile_succeeds:
  assumes "kv_reliable kv view" and "lookup_finds get kv view"
    and "codec_ok (wf_codec w)" and "uuid_text_ok (wf_codec w)" and "env_codec env = wf_codec w"
    and shown: "bucket_shows w m us gs sas (view s1)"
    and "tables_ok (db_tables d)" and calm: "calm_db env d"
  shows "\<exists>s2 d'. directory_reconcile get w env (s1, d) = (Ok m, s2, d')"
proof -
  note S = shown [unfolded bucket_shows_def Let_def, THEN conjunct1]
    shown [unfolded bucket_shows_def Let_def, THEN conjunct2, THEN conjunct1]
    shown [unfolded bucket_shows_def Let_def, THEN conjunct2, THEN conjunct2, THEN conjunct1]
    shown [unfolded bucket_shows_def Let_def, THEN conjunct2, THEN conjunct2, THEN conjunct2]
  obtain s3 where s3: "present_manifest get w s1 = (Ok m, s3)" "view s3 = view s1"
    using present_manifest_shows [OF assms(1,2)] S(4) by blast
  have inv: "sink_inv env d"
    using assms(3,5,7) by (simp add: sink_inv_def)
  obtain t1 where t1: "open_published get s3 = (Ok kv, t1)" "view t1 = view s3"
    using open_published_finds [OF assms(2)] by blast
  have c1: "view t1 = view s1"
    using t1 s3 by simp
  obtain s4 d4 where u: "bootstrap (user_consumer env w kv) t1 d = (Ok (), s4, d4)" "calm_db env d4"
    using user_bootstrap_succeeds [OF assms(1,3,4,5) inv calm S(1) [folded c1]] by blast
  note U = user_bootstrap_exact [OF assms(1,3,4,5) inv S(1) [folded c1] u(1)]
  have "\<exists>s5 d5. (if consumes_groups (cc_scope (env_config env))
      then open_and_bootstrap get (group_consumer env w) (s4, d4) else (Ok (), s4, d4)) = (Ok (), s5, d5)
      \<and> calm_db env d5 \<and> sink_inv env d5 \<and> view s5 = view s1"
  proof (cases "consumes_groups (cc_scope (env_config env))")
    case True
    obtain t2 where t2: "open_published get s4 = (Ok kv, t2)" "view t2 = view s4"
      using open_published_finds [OF assms(2)] by blast
    have c2: "view t2 = view s1"
      using t2 U c1 by simp
    obtain s5 d5 where g: "bootstrap (group_consumer env w kv) t2 d4 = (Ok (), s5, d5)" "calm_db env d5"
      using group_bootstrap_succeeds [OF assms(1,3,4,5) _ u(2) S(2) [folded c2]] U by blast
    with group_bootstrap_exact [OF assms(1,3,4,5) _ S(2) [folded c2] g(1)] U t2(1) c2 True show ?thesis
      by (simp add: open_and_bootstrap_def)
  qed (use U u(2) c1 in simp)
  then obtain s5 d5 where g: "(if consumes_groups (cc_scope (env_config env))
      then open_and_bootstrap get (group_consumer env w) (s4, d4) else (Ok (), s4, d4)) = (Ok (), s5, d5)"
    and d5: "calm_db env d5" "sink_inv env d5" and v5: "view s5 = view s1"
    by blast
  have "\<exists>s6 d6. (if publishes_service_accounts m
      then open_and_bootstrap get (service_account_consumer env w) (s5, d5) else (Ok (), s5, d5))
      = (Ok (), s6, d6)"
  proof (cases "publishes_service_accounts m")
    case True
    obtain t3 where t3: "open_published get s5 = (Ok kv, t3)" "view t3 = view s5"
      using open_published_finds [OF assms(2)] by blast
    have c3: "view t3 = view s1"
      using t3 v5 by simp
    from account_bootstrap_succeeds [OF assms(1,3,4,5) d5(2,1) S(3) [folded c3]] t3(1) True
    show ?thesis
      by (auto simp: open_and_bootstrap_def)
  qed simp
  then show ?thesis
    using s3(1) t1(1) u(1) g by (auto simp: directory_reconcile_def open_and_bootstrap_def)
qed

text \<open>C8: once a publisher has reconciled a source into a reliable bucket, a projector's reconcile over a
  database without faults succeeds; and whenever it succeeds it returns the source's manifest and
  leaves in the local tables exactly the users the source desires and the copy filter keeps, each
  as the row made of it; exactly the desired groups with their names and members, when the
  consumer's scope has groups; and exactly the desired service accounts, when the manifest
  publishes them. A kind the manifest does not publish is emptied from the bucket, so its users and
  groups leave the copy as well.
\<close>

theorem copy_follows_source:
  assumes "kv_reliable kv view" and "lookup_finds get kv view"
    and "codec_ok (wf_codec w)" and "uuid_text_ok (wf_codec w)" and "env_codec env = wf_codec w"
    and "source_ok w src us gs sas view" and "bucket_readable w (view s)"
    and "tables_ok (db_tables d)"
    and "directory_publish w (one_bucket kv) src s = (r, s1)"
    and "directory_reconcile get w env (s1, d) = (q, s2, d')"
  shows "r = Ok () \<and> (calm_db env d \<longrightarrow> is_ok q) \<and> (\<forall>m. q = Ok m \<longrightarrow>
    m = src_manifest src \<and> tables_ok (db_tables d') \<and>
    bm_get (known_users (db_tables d')) =
      (\<lambda>u. Option.bind (only_if (publishes_users m) (bm_get us) u)
        (\<lambda>v. if cc_filter (env_config env) v then Some (user_row_of env v) else None)) \<and>
    (consumes_groups (cc_scope (env_config env)) \<longrightarrow> group_at (db_tables d') =
      (\<lambda>g. map_option group_shown (only_if (publishes_groups m) (bm_get gs) g))) \<and>
    (publishes_service_accounts m \<longrightarrow> bm_get (known_service_accounts (db_tables d')) =
      (\<lambda>a. map_option psa_name (bm_get sas a))))"
proof (intro conjI allI impI)
  have shown: "r = Ok () \<and> bucket_shows w (src_manifest src) us gs sas (view s1)"
    using directory_publish_shows [OF assms(1,3,4,6,7)] assms(9) by auto
  then show "r = Ok ()" by blast
  show "is_ok q" if "calm_db env d"
    using reconcile_succeeds [OF assms(1-5) _ assms(8) that] shown assms(10) by fastforce
qed (use reconciled_copy [OF assms(1-9)] assms(10) in blast)+

section \<open>A sample\<close>

text \<open>One user in one group, a text format that knows their JSON, and an empty copy.\<close>

definition sample_user :: published_user where
  "sample_user = \<lparr>pu_email = ''a'', pu_first_name = None, pu_last_name = None, pu_extensions = []\<rparr>"
definition sample_group :: published_group where
  "sample_group = \<lparr>pg_name = ''g'', pg_member_ids = [1], pg_extensions = []\<rparr>"
definition sample_meta :: directory_meta where
  "sample_meta = \<lparr>dm_version = 1, dm_entities = [EntUsers, EntGroups]\<rparr>"

text \<open>A text format that knows the three values of the sample.\<close>

definition sample_text :: json_text where
  "sample_text = \<lparr>jt_print = (\<lambda>j. if j = user_json sample_user then ''u''
       else if j = group_json decimal_codec sample_group then ''g'' else ''m''),
     jt_parse = (\<lambda>s. if s = ''u'' then Ok (user_json sample_user)
       else if s = ''g'' then Ok (group_json decimal_codec sample_group)
       else if s = ''m'' then Ok (meta_json sample_meta) else Err ''bad'')\<rparr>"

definition sample_format :: wire_format where
  "sample_format = \<lparr>wf_codec = decimal_codec, wf_text = sample_text, wf_render = (\<lambda>_. ''reserved'')\<rparr>"

definition sample_source :: "(string, string) bmap directory_source" where
  "sample_source = \<lparr>src_manifest = sample_meta, src_users = (\<lambda>s. (Ok [(1, sample_user)], s)),
     src_groups = (\<lambda>s. (Ok [(2, sample_group)], s)), src_service_accounts = default_service_accounts\<rparr>"

definition sample_env :: "unit directory_env" where
  "sample_env = \<lparr>env_codec = decimal_codec, env_jsonb = id, env_stager = None, env_config = config_default\<rparr>"

definition empty_tables :: "unit tables" where
  "empty_tables = \<lparr>known_users = [], known_groups = [], known_user_group = [],
     known_service_accounts = [], staging = ()\<rparr>"

definition empty_db :: "unit directory_db" where
  "empty_db = \<lparr>db_tables = empty_tables, db_faults = [], db_progress = 0\<rparr>"

definition memory_lookup :: "(string, string) bmap kv_lookup" where
  "memory_lookup name s = (Ok memory_bucket, s)"


lemma sample_parse:
  "j \<in> {user_json sample_user, group_json decimal_codec sample_group, meta_json sample_meta} \<Longrightarrow>
     jt_parse sample_text (jt_print sample_text j) = Ok j"
  by (auto simp: sample_text_def)

lemma meta_roundtrip:
  "\<forall>e \<in> set (dm_entities m). entity_from_wire (entity_as_wire e) = e \<Longrightarrow> meta_decoder (meta_json m) = Ok m"
proof -
  assume "\<forall>e \<in> set (dm_entities m). entity_from_wire (entity_as_wire e) = e"
  then have "vec_decoder entity_decoder (JArr (map (\<lambda>e. JStr (entity_as_wire e)) (dm_entities m)))
      = Ok (dm_entities m)"
    by (intro vec_decoder_map) (simp add: entity_decoder_def)
  then show ?thesis
    by (simp add: meta_decoder_def meta_json_def required_def del: vec_decoder.simps)
qed

lemma sample_source_ok: "source_ok sample_format sample_source [(1, sample_user)] [(2, sample_group)] [] bm_get"
proof -
  have "user_decoder (\<lambda>_. ''reserved'') (user_json sample_user) = Ok sample_user"
    by (rule user_roundtrip) (simp add: published_user_ok_def sample_user_def)
  moreover have "group_decoder decimal_codec (\<lambda>_. ''reserved'') (group_json decimal_codec sample_group) = Ok sample_group"
    by (rule group_roundtrip) (simp_all add: published_group_ok_def sample_group_def)
  moreover have "meta_decoder (meta_json sample_meta) = Ok sample_meta"
    by (rule meta_roundtrip) (simp add: sample_meta_def entity_from_wire_def)
  ultimately show ?thesis
    by (simp add: source_ok_def sample_source_def gives_def default_service_accounts_def bm_ok_def
        reads_back_to_bytes from_bytes_def sample_format_def sample_parse)
qed

lemma uuid_text_ok_decimal: "uuid_text_ok decimal_codec"
proof -
  have "list_all kv_valid_char (show_nat n)" for n
    using show_nat_digits [of n] by (rule list.pred_mono_strong)
      (simp add: kv_valid_char_def is_ascii_alphanumeric_def)
  then show ?thesis
    by (simp add: uuid_text_ok_def decimal_codec_def)
qed

theorem copy_follows_source_witness:
  "\<exists>s1 m s2 d'. directory_publish sample_format (one_bucket memory_bucket) sample_source [] = (Ok (), s1) \<and>
     directory_reconcile memory_lookup sample_format sample_env (s1, empty_db) = (Ok m, s2, d') \<and>
     bm_get (known_users (db_tables d')) 1 = Some (user_row_of sample_env sample_user) \<and>
     group_at (db_tables d') 2 = Some (''g'', {1}) \<and> group_at (db_tables d') 3 = None"
proof -
  obtain r s1 where pub: "directory_publish sample_format (one_bucket memory_bucket) sample_source [] = (r, s1)"
    by (metis surj_pair)
  obtain q s2 d' where rec: "directory_reconcile memory_lookup sample_format sample_env (s1, empty_db) = (q, s2, d')"
    by (metis prod_cases3)
  have "lookup_finds memory_lookup memory_bucket bm_get"
    by (simp add: lookup_finds_def memory_lookup_def)
  moreover have "calm_db sample_env empty_db"
    by (simp add: calm_db_def sample_env_def empty_db_def stager_total_def uuid_text_ok_decimal)
  moreover have "bucket_readable sample_format (bm_get [])"
    by (simp add: bucket_readable_def readable_def)
  moreover have "tables_ok (db_tables empty_db)"
    by (simp add: empty_db_def empty_tables_def tables_ok_def)
  moreover have "env_codec sample_env = wf_codec sample_format" "codec_ok (wf_codec sample_format)"
      "uuid_text_ok (wf_codec sample_format)"
    by (simp_all add: sample_env_def sample_format_def uuid_text_ok_decimal)
  moreover note copy_follows_source [OF memory_bucket_reliable, of memory_lookup sample_format sample_env
      sample_source "[(1, sample_user)]" "[(2, sample_group)]" "[]" "[]" empty_db r s1 q s2 d']
  ultimately have res: "r = Ok ()" "is_ok q" "\<And>m. q = Ok m \<Longrightarrow> m = sample_meta \<and>
    bm_get (known_users (db_tables d')) =
      (\<lambda>u. Option.bind (only_if (publishes_users m) (bm_get [(1, sample_user)]) u)
        (\<lambda>v. if cc_filter (env_config sample_env) v then Some (user_row_of sample_env v) else None)) \<and>
    (consumes_groups (cc_scope (env_config sample_env)) \<longrightarrow> group_at (db_tables d') =
      (\<lambda>g. map_option group_shown (only_if (publishes_groups m) (bm_get [(2, sample_group)]) g)))"
    using sample_source_ok pub rec by (auto simp: sample_source_def)
  then obtain m where m: "q = Ok m"
    unfolding is_ok_iff by blast
  with res(3) [OF m] pub rec res(1) show ?thesis
    by (simp add: sample_meta_def publishes_users_def publishes_groups_def publishes_def only_if_def
        sample_env_def config_default_def consumption_scope_default_def group_shown_def sample_group_def)
qed

end
