(* ===== verification/Directory_State.thy ===== *)
theory Directory_State
  imports Directory_Sync
begin

text \<open>
  The state the directory consumer keeps beside the tables: the health of its streams
  (\<^verbatim>\<open>consumer/health.rs\<close>), a run of its watch (\<^verbatim>\<open>project.rs\<close>), the snapshot
  (\<^verbatim>\<open>snapshot.rs\<close>) and the migration ledger (\<^verbatim>\<open>ledger.rs\<close>,
  \<^verbatim>\<open>migrate.rs\<close>), with their properties.
\<close>

section \<open>Stream health\<close>

datatype directory_stream = StreamUsers | StreamGroups | StreamServiceAccounts

text \<open>The derived order of \<^verbatim>\<open>DirectoryStream\<close> is the order of its variants.\<close>

fun stream_rank :: "directory_stream \<Rightarrow> nat" where
  "stream_rank StreamUsers = 0"
| "stream_rank StreamGroups = 1"
| "stream_rank StreamServiceAccounts = 2"

instantiation directory_stream :: linorder
begin

definition less_eq_directory_stream :: "directory_stream \<Rightarrow> directory_stream \<Rightarrow> bool" where
  "less_eq_directory_stream a b \<longleftrightarrow> stream_rank a \<le> stream_rank b"

definition less_directory_stream :: "directory_stream \<Rightarrow> directory_stream \<Rightarrow> bool" where
  "less_directory_stream a b \<longleftrightarrow> stream_rank a < stream_rank b"

instance
proof
  fix a b :: directory_stream
  show "a = b" if "a \<le> b" "b \<le> a"
    using that by (cases a; cases b) (simp_all add: less_eq_directory_stream_def)
qed (auto simp: less_eq_directory_stream_def less_directory_stream_def)

end

record projector_health =
  ph_generation :: u64
  ph_streams :: "(directory_stream, watch_health) bmap"
  ph_sent :: watch_health

definition health_new :: projector_health where
  "health_new = \<lparr>ph_generation = 0, ph_streams = [], ph_sent = WatchDegraded\<rparr>"

definition worst_of :: "(directory_stream, watch_health) bmap \<Rightarrow> watch_health" where
  "worst_of streams = (if streams \<noteq> [] \<and> list_all (\<lambda>(_, h). h = WatchHealthy) streams
     then WatchHealthy else WatchDegraded)"

definition mutate :: "(projector_health \<Rightarrow> projector_health) \<Rightarrow> projector_health \<Rightarrow> projector_health" where
  "mutate change h = (let h' = change h; composed = worst_of (ph_streams h')
     in h'\<lparr>ph_sent := snd (watch_health_set composed (ph_sent h'))\<rparr>)"

definition activate :: "directory_stream list \<Rightarrow> projector_health \<Rightarrow> u64 \<times> projector_health" where
  "activate active h =
     (let h' = mutate (\<lambda>a. a\<lparr>ph_generation := ph_generation a + 1,
            ph_streams := bm_of_list (map (\<lambda>s. (s, WatchDegraded)) active)\<rparr>) h
      in (ph_generation h', h'))"

definition stream_health_set :: "directory_stream \<Rightarrow> watch_health \<Rightarrow> projector_health \<Rightarrow> projector_health" where
  "stream_health_set stream health = mutate (\<lambda>a. if bm_contains (ph_streams a) stream
     then a\<lparr>ph_streams := bm_insert stream health (ph_streams a)\<rparr> else a)"

definition deactivate :: "u64 \<Rightarrow> projector_health \<Rightarrow> projector_health" where
  "deactivate generation = mutate (\<lambda>a. if ph_generation a = generation then a\<lparr>ph_streams := []\<rparr> else a)"

text \<open>The operations its callers perform, in any order and from any number of watches.\<close>

datatype health_op = HActivate "directory_stream list" | HSet directory_stream watch_health | HDrop u64

fun health_step :: "health_op \<Rightarrow> projector_health \<Rightarrow> projector_health" where
  "health_step (HActivate active) h = snd (activate active h)"
| "health_step (HSet s x) h = stream_health_set s x h"
| "health_step (HDrop g) h = deactivate g h"

lemma mutate_simps [simp]:
  "ph_streams (mutate f h) = ph_streams (f h)" "ph_generation (mutate f h) = ph_generation (f h)"
  "ph_sent (mutate f h) = worst_of (ph_streams (f h))"
  by (simp_all add: mutate_def Let_def)

lemma health_step_sent: "ph_sent (health_step op h) = worst_of (ph_streams (health_step op h))"
  by (cases op) (simp_all add: activate_def stream_health_set_def deactivate_def Let_def)

lemma health_run_sent: "ph_sent h = worst_of (ph_streams h) \<Longrightarrow>
    ph_sent (fold health_step ops h) = worst_of (ph_streams (fold health_step ops h))"
  by (induction ops arbitrary: h) (simp_all add: health_step_sent)

lemma health_run_ok: "bm_ok (ph_streams h) \<Longrightarrow> bm_ok (ph_streams (fold health_step ops h))"
proof (induction ops arbitrary: h)
  case (Cons op ops)
  have "bm_ok (ph_streams (health_step op h))"
    using Cons.prems by (cases op) (auto simp: activate_def stream_health_set_def deactivate_def Let_def)
  with Cons.IH show ?case by simp
qed simp

lemma worst_of_Healthy_iff: "bm_ok m \<Longrightarrow>
    worst_of m = WatchHealthy \<longleftrightarrow> m \<noteq> [] \<and> (\<forall>s h. bm_get m s = Some h \<longrightarrow> h = WatchHealthy)"
  by (auto simp: worst_of_def list_all_iff bm_get_Some_iff)

text \<open>whatever watches are started, reported on and dropped, in whatever order, the health on the
  channel is \<open>Healthy\<close> exactly when there is an active stream and every active stream is healthy;
  and the drop of an activation that a newer one has superseded leaves the state as it is.
\<close>

theorem projector_health_is_worst_stream:
  "(let h = fold health_step ops health_new in
     (ph_sent h = WatchHealthy \<longleftrightarrow>
        ph_streams h \<noteq> [] \<and> \<not> (\<exists>s x. bm_get (ph_streams h) s = Some x \<and> x \<noteq> WatchHealthy)) \<and>
     (ph_generation h = g \<or> deactivate g h = h))"
proof -
  define h where "h = fold health_step ops health_new"
  have ok: "bm_ok (ph_streams h)"
    unfolding h_def by (rule health_run_ok) (simp add: health_new_def)
  have sent: "ph_sent h = worst_of (ph_streams h)"
    unfolding h_def by (rule health_run_sent) (simp add: health_new_def worst_of_def)
  then have "ph_generation h = g \<or> deactivate g h = h"
    by (auto simp: deactivate_def mutate_def Let_def)
  with sent worst_of_Healthy_iff [OF ok] show ?thesis
    by (simp add: h_def [symmetric])
qed

section \<open>A run of the watch\<close>

definition active_streams :: "bool \<Rightarrow> bool \<Rightarrow> directory_stream list" where
  "active_streams watch_groups watch_service_accounts = [StreamUsers]
     @ (if watch_groups then [StreamGroups] else [])
     @ (if watch_service_accounts then [StreamServiceAccounts] else [])"

datatype watch_task = TaskOpening | TaskWatching | TaskEnded

record watch_run =
  wr_health :: projector_health
  wr_generation :: u64
  wr_tasks :: "directory_stream \<Rightarrow> watch_task"
  wr_result :: "(unit, directory_error) result option"

text \<open>
  The streams run concurrently and an event is what one of them waits for: its consumer has opened,
  or its watch has ended. The first error ends the run and drops the others.
\<close>

definition watch_finish :: "(unit, directory_error) result \<Rightarrow> watch_run \<Rightarrow> watch_run" where
  "watch_finish r run = run\<lparr>wr_health := deactivate (wr_generation run) (wr_health run), wr_result := Some r\<rparr>"

definition watch_begin :: "bool \<Rightarrow> bool \<Rightarrow> projector_health \<Rightarrow> watch_run" where
  "watch_begin watch_groups watch_service_accounts h =
     (let active = active_streams watch_groups watch_service_accounts in
      case activate active h of (g, h') \<Rightarrow>
        \<lparr>wr_health = h', wr_generation = g,
         wr_tasks = (\<lambda>s. if s \<in> set active then TaskOpening else TaskEnded), wr_result = None\<rparr>)"

definition all_ended :: "(directory_stream \<Rightarrow> watch_task) \<Rightarrow> bool" where
  "all_ended tasks \<longleftrightarrow> list_all (\<lambda>s. tasks s = TaskEnded) [StreamUsers, StreamGroups, StreamServiceAccounts]"

definition watch_event :: "directory_stream \<times> (unit, directory_error) result \<Rightarrow> watch_run \<Rightarrow> watch_run" where
  "watch_event ev run = (case ev of (s, r) \<Rightarrow>
     if wr_result run \<noteq> None then run
     else (case wr_tasks run s of
         TaskOpening \<Rightarrow> (case r of
             Err e \<Rightarrow> watch_finish (Err e) run
           | Ok _ \<Rightarrow> run\<lparr>wr_health := stream_health_set s WatchHealthy (wr_health run),
               wr_tasks := (wr_tasks run)(s := TaskWatching)\<rparr>)
       | TaskWatching \<Rightarrow>
           (let run1 = run\<lparr>wr_health := stream_health_set s WatchDegraded (wr_health run)\<rparr>
            in case r of
                 Err e \<Rightarrow> watch_finish (Err e) run1
               | Ok _ \<Rightarrow> (let run2 = run1\<lparr>wr_tasks := (wr_tasks run)(s := TaskEnded)\<rparr>
                   in if all_ended (wr_tasks run2) then watch_finish (Ok ()) run2 else run2))
       | TaskEnded \<Rightarrow> run))"

definition run_ok :: "directory_stream list \<Rightarrow> watch_run \<Rightarrow> bool" where
  "run_ok active run \<longleftrightarrow> ph_generation (wr_health run) = wr_generation run \<and>
     bm_ok (ph_streams (wr_health run)) \<and>
     ph_sent (wr_health run) = worst_of (ph_streams (wr_health run)) \<and>
     (case wr_result run of
        Some _ \<Rightarrow> ph_streams (wr_health run) = []
      | None \<Rightarrow> (\<forall>s. bm_get (ph_streams (wr_health run)) s = (if s \<in> set active
          then Some (if wr_tasks run s = TaskWatching then WatchHealthy else WatchDegraded) else None)) \<and>
          (\<forall>s. s \<notin> set active \<longrightarrow> wr_tasks run s = TaskEnded))"

lemma run_ok_begin: "run_ok (active_streams wg wa) (watch_begin wg wa h)"
  by (cases wg; cases wa) (simp_all add: run_ok_def watch_begin_def activate_def Let_def
      active_streams_def less_directory_stream_def bm_ok_def)

lemma stream_health_set_simps [simp]:
  "ph_generation (stream_health_set s x h) = ph_generation h"
  "bm_get (ph_streams h) s \<noteq> None \<Longrightarrow> ph_streams (stream_health_set s x h) = bm_insert s x (ph_streams h)"
  "ph_sent (stream_health_set s x h) = worst_of (ph_streams (stream_health_set s x h))"
  by (auto simp: stream_health_set_def bm_contains_def)

lemma deactivate_simps [simp]:
  "ph_generation (deactivate g h) = ph_generation h"
  "ph_generation h = g \<Longrightarrow> ph_streams (deactivate g h) = []"
  "ph_sent (deactivate g h) = worst_of (ph_streams (deactivate g h))"
  by (auto simp: deactivate_def)

lemma run_ok_finish: "ph_generation (wr_health run) = wr_generation run \<Longrightarrow> run_ok active (watch_finish r run)"
  by (simp add: run_ok_def watch_finish_def)

lemma run_ok_event:
  assumes "run_ok active run"
  shows "run_ok active (watch_event ev run)"
proof (cases "wr_result run")
  case (Some r)
  then show ?thesis
    using assms by (simp add: watch_event_def split: prod.split)
next
  case None
  obtain s r where ev: "ev = (s, r)" by (cases ev)
  have gen: "ph_generation (wr_health run) = wr_generation run"
    and get: "\<And>s. bm_get (ph_streams (wr_health run)) s = (if s \<in> set active
          then Some (if wr_tasks run s = TaskWatching then WatchHealthy else WatchDegraded) else None)"
    and out: "\<And>s. s \<notin> set active \<Longrightarrow> wr_tasks run s = TaskEnded"
    and ok: "bm_ok (ph_streams (wr_health run))"
    using assms None by (auto simp: run_ok_def)
  show ?thesis
  proof (cases "wr_tasks run s")
    case TaskEnded
    then show ?thesis
      using assms None by (simp add: watch_event_def ev)
  next
    case TaskOpening
    then have act: "s \<in> set active" using out by fastforce
    show ?thesis
    proof (cases r)
      case (Inl e)
      then show ?thesis
        using None TaskOpening gen by (simp add: watch_event_def ev run_ok_finish)
    next
      case (Inr u)
      have "bm_get (ph_streams (wr_health run)) s \<noteq> None"
        by (simp add: get act)
      then show ?thesis
        using None TaskOpening Inr gen ok act out
        by (auto simp: watch_event_def ev run_ok_def get)
    qed
  next
    case TaskWatching
    then have act: "s \<in> set active" using out by fastforce
    then have in_map: "bm_get (ph_streams (wr_health run)) s \<noteq> None"
      by (simp add: get)
    show ?thesis
    proof (cases r)
      case (Inl e)
      then show ?thesis
        using None TaskWatching gen by (simp add: watch_event_def ev run_ok_finish)
    next
      case (Inr u)
      then show ?thesis
        using None TaskWatching gen ok act out in_map
        by (auto simp: watch_event_def ev run_ok_def get Let_def watch_finish_def)
    qed
  qed
qed

lemma run_ok_events: "run_ok active run \<Longrightarrow> run_ok active (fold watch_event evs run)"
  by (induction evs arbitrary: run) (simp_all add: run_ok_event)

text \<open>C27: through a run of the watch, whatever its streams do and in whatever order, the directory is
  reported healthy exactly while the run is not over and every stream it watches has been opened
  and is still being watched.
\<close>

theorem watch_reports_live_streams:
  "(let run = fold watch_event evs (watch_begin wg wa h) in
     ph_sent (wr_health run) = WatchHealthy \<longleftrightarrow>
       wr_result run = None \<and> list_all (\<lambda>s. wr_tasks run s = TaskWatching) (active_streams wg wa))"
proof -
  define run where "run = fold watch_event evs (watch_begin wg wa h)"
  have ok: "run_ok (active_streams wg wa) run"
    unfolding run_def by (rule run_ok_events [OF run_ok_begin])
  have "ph_sent (wr_health run) = WatchHealthy \<longleftrightarrow>
       wr_result run = None \<and> list_all (\<lambda>s. wr_tasks run s = TaskWatching) (active_streams wg wa)"
  proof (cases "wr_result run")
    case None
    then have get: "\<And>s. bm_get (ph_streams (wr_health run)) s = (if s \<in> set (active_streams wg wa)
          then Some (if wr_tasks run s = TaskWatching then WatchHealthy else WatchDegraded) else None)"
      using ok by (simp add: run_ok_def)
    have "ph_streams (wr_health run) \<noteq> []"
      using get [of StreamUsers] by (auto simp: active_streams_def)
    then have "ph_sent (wr_health run) = WatchHealthy \<longleftrightarrow>
        (\<forall>s h. bm_get (ph_streams (wr_health run)) s = Some h \<longrightarrow> h = WatchHealthy)"
      using ok worst_of_Healthy_iff by (simp add: run_ok_def)
    then show ?thesis
      using None by (auto simp: get list_all_iff split: if_splits)
  next
    case (Some r)
    then show ?thesis
      using ok by (simp add: run_ok_def worst_of_def)
  qed
  then show ?thesis
    by (simp add: run_def)
qed

section \<open>The snapshot\<close>

record known_user =
  ku_user_id :: uuid
  ku_email :: string
  ku_first_name :: "string option"
  ku_last_name :: "string option"
  ku_extensions :: persisted_extensions

record known_service_account =
  ka_service_account_id :: uuid
  ka_name :: string

record directory_snapshot =
  sn_groups_published :: bool
  sn_service_accounts_published :: bool
  sn_users :: "(uuid, known_user) bmap"
  sn_group_names :: "(uuid, string) bmap"
  sn_memberships :: "(uuid \<times> uuid) list"
  sn_service_accounts :: "(uuid, known_service_account) bmap"

definition snapshot_new :: "directory_meta \<Rightarrow> directory_snapshot" where
  "snapshot_new manifest = \<lparr>sn_groups_published = publishes_groups manifest,
     sn_service_accounts_published = publishes_service_accounts manifest, sn_users = [],
     sn_group_names = [], sn_memberships = [], sn_service_accounts = []\<rparr>"

definition snapshot_upsert_user :: "known_user \<Rightarrow> directory_snapshot \<Rightarrow> directory_snapshot" where
  "snapshot_upsert_user user s = s\<lparr>sn_users := bm_insert (ku_user_id user) user (sn_users s)\<rparr>"

definition snapshot_upsert_group :: "uuid \<Rightarrow> string \<Rightarrow> directory_snapshot \<Rightarrow> directory_snapshot" where
  "snapshot_upsert_group g name s = s\<lparr>sn_group_names := bm_insert g name (sn_group_names s)\<rparr>"

definition set_members :: "uuid \<Rightarrow> uuid list \<Rightarrow> directory_snapshot \<Rightarrow> directory_snapshot" where
  "set_members g us s = s\<lparr>sn_memberships :=
     fold (\<lambda>u ms. List.insert (g, u) ms) us (filter (\<lambda>(g', u). g' \<noteq> g) (sn_memberships s))\<rparr>"

definition snapshot_upsert_service_account :: "known_service_account \<Rightarrow> directory_snapshot \<Rightarrow> directory_snapshot" where
  "snapshot_upsert_service_account a s = s\<lparr>sn_service_accounts :=
     bm_insert (ka_service_account_id a) a (sn_service_accounts s)\<rparr>"

definition resolve_user :: "directory_snapshot \<Rightarrow> uuid \<Rightarrow> known_user option" where
  "resolve_user s u = bm_get (sn_users s) u"

definition user_extensions :: "directory_snapshot \<Rightarrow> uuid \<Rightarrow> json option" where
  "user_extensions s u = map_option (\<lambda>user. extensions_into_value (ku_extensions user)) (bm_get (sn_users s) u)"

definition is_member :: "directory_snapshot \<Rightarrow> uuid \<Rightarrow> uuid \<Rightarrow> bool" where
  "is_member s g u \<longleftrightarrow> sn_groups_published s \<and> (g, u) \<in> set (sn_memberships s)"

definition group_name :: "directory_snapshot \<Rightarrow> uuid \<Rightarrow> string option" where
  "group_name s g = (if \<not> sn_groups_published s then None else bm_get (sn_group_names s) g)"

definition resolve_service_account :: "directory_snapshot \<Rightarrow> uuid \<Rightarrow> known_service_account option" where
  "resolve_service_account s a =
     (if \<not> sn_service_accounts_published s then None else bm_get (sn_service_accounts s) a)"

datatype snapshot_op =
  SnUser known_user | SnGroup uuid string | SnMembers uuid "uuid list" | SnAccount known_service_account

fun snapshot_step :: "snapshot_op \<Rightarrow> directory_snapshot \<Rightarrow> directory_snapshot" where
  "snapshot_step (SnUser u) s = snapshot_upsert_user u s"
| "snapshot_step (SnGroup g n) s = snapshot_upsert_group g n s"
| "snapshot_step (SnMembers g us) s = set_members g us s"
| "snapshot_step (SnAccount a) s = snapshot_upsert_service_account a s"

lemma set_fold_insert: "set (fold (\<lambda>u ms. List.insert (g, u) ms) us ms) = Pair g ` set us \<union> set ms"
  by (induction us arbitrary: ms) auto

lemma set_members_set: "set (sn_memberships (set_members g us s)) =
    Pair g ` set us \<union> {m \<in> set (sn_memberships s). fst m \<noteq> g}"
  by (auto simp: set_members_def set_fold_insert)

definition only_if_published :: "bool \<Rightarrow> 'v option \<Rightarrow> 'v option" where
  "only_if_published published v = (if published then v else None)"

text \<open>What the updates before a point say last of an entity.\<close>

definition last_of :: "('o \<Rightarrow> 'v option) \<Rightarrow> 'o list \<Rightarrow> 'v option" where
  "last_of pick ops = fold (\<lambda>op acc. case pick op of Some v \<Rightarrow> Some v | None \<Rightarrow> acc) ops None"

lemma last_of_simps [simp]: "last_of pick [] = None"
    "last_of pick (ops @ [op]) = (case pick op of Some v \<Rightarrow> Some v | None \<Rightarrow> last_of pick ops)"
  by (simp_all add: last_of_def split: option.split)

fun picks_user where
  "picks_user u (SnUser x) = (if ku_user_id x = u then Some x else None)"
| "picks_user u _ = None"
fun picks_group where
  "picks_group g (SnGroup g' n) = (if g' = g then Some n else None)"
| "picks_group g _ = None"
fun picks_members where
  "picks_members g (SnMembers g' us) = (if g' = g then Some (set us) else None)"
| "picks_members g _ = None"
fun picks_account where
  "picks_account a (SnAccount x) = (if ka_service_account_id x = a then Some x else None)"
| "picks_account a _ = None"

lemma snapshot_fold:
  "(let s = fold snapshot_step ops (snapshot_new m) in
     sn_groups_published s = publishes_groups m \<and>
     sn_service_accounts_published s = publishes_service_accounts m \<and>
     (\<forall>u. bm_get (sn_users s) u = last_of (picks_user u) ops) \<and>
     (\<forall>g. bm_get (sn_group_names s) g = last_of (picks_group g) ops) \<and>
     (\<forall>g u. (g, u) \<in> set (sn_memberships s) \<longleftrightarrow>
        (case last_of (picks_members g) ops of Some us \<Rightarrow> u \<in> us | None \<Rightarrow> False)) \<and>
     (\<forall>a. bm_get (sn_service_accounts s) a = last_of (picks_account a) ops))"
proof (induction ops rule: rev_induct)
  case Nil
  then show ?case by (simp add: snapshot_new_def Let_def)
next
  case (snoc op ops)
  then show ?case
    by (cases op) (simp_all add: Let_def snapshot_upsert_user_def snapshot_upsert_group_def
        snapshot_upsert_service_account_def set_members_set image_iff,
        auto simp: set_members_def)
qed

text \<open>after any sequence of updates a snapshot answers with the last of them: a user and a user's
  extensions always, a group's name and its members, which the last list replaces whole, only if
  the manifest publishes groups, and a service account only if it publishes those.
\<close>

theorem snapshot_answers_last_update:
  "(let s = fold snapshot_step ops (snapshot_new m) in
     resolve_user s u = last_of (picks_user u) ops \<and>
     user_extensions s u = map_option (extensions_into_value \<circ> ku_extensions) (last_of (picks_user u) ops) \<and>
     group_name s g = only_if_published (publishes_groups m) (last_of (picks_group g) ops) \<and>
     is_member s g u = (publishes_groups m \<and>
       (case last_of (picks_members g) ops of Some us \<Rightarrow> u \<in> us | None \<Rightarrow> False)) \<and>
     resolve_service_account s a =
       only_if_published (publishes_service_accounts m) (last_of (picks_account a) ops))"
  using snapshot_fold [of ops m]
  by (simp add: Let_def resolve_user_def user_extensions_def group_name_def is_member_def
      resolve_service_account_def only_if_published_def comp_def)

end
