(* ===== verification/Directory_Ledger.thy ===== *)
theory Directory_Ledger
  imports Directory_Sinks
begin

text \<open>
  The migration ledger of the directory consumer (\<^verbatim>\<open>consumer/ledger.rs\<close> and
  \<^verbatim>\<open>migrate.rs\<close>) over a database state: the ledger table, the legacy ledger of an
  earlier migrator, and the schema, which a migration's SQL transforms by a parameter. The faults
  are consumed one per database call, as for the sinks.
\<close>

section \<open>The database\<close>

record migration =
  mg_version :: int
  mg_description :: string
  mg_checksum :: string
  mg_sql :: string
  mg_down :: bool

record 'd ledger_tables =
  lg_recorded :: "(int \<times> string) list option"
  lg_legacy :: "(int \<times> string \<times> bool) list option"
  lg_schema :: 'd

type_synonym ('a, 'd) ledger_op = "'d ledger_tables \<times> db_fault list
    \<Rightarrow> ('a, directory_error) result \<times> 'd ledger_tables \<times> db_fault list"

definition ledger_call :: "('d ledger_tables \<Rightarrow> ('a \<times> 'd ledger_tables, string) result) \<Rightarrow> ('a, 'd) ledger_op" where
  "ledger_call stmt s = (case s of (t, fs) \<Rightarrow>
     let f = (case fs of [] \<Rightarrow> NoFault | f # _ \<Rightarrow> f)
     in case f of
          FailBefore e \<Rightarrow> (Err (DirPersistence e), t, tl fs)
        | _ \<Rightarrow> (case stmt t of
            Err e \<Rightarrow> (Err (DirPersistence e), t, tl fs)
          | Ok (v, t') \<Rightarrow>
              ((case f of FailAfter e \<Rightarrow> Err (DirPersistence e) | _ \<Rightarrow> Ok v), t', tl fs)))"

definition legacy_ledger_table :: string where "legacy_ledger_table = ''_sqlx_migrations''"
definition ledger_lock_key :: int where "ledger_lock_key = 0x62726469720001"

section \<open>Operations\<close>

definition ledger_lock :: "(unit, 'd) ledger_op" where
  "ledger_lock = ledger_call (\<lambda>t. Ok ((), t))"

definition ensure_table :: "(unit, 'd) ledger_op" where
  "ensure_table = ledger_call (\<lambda>t. Ok ((), t\<lparr>lg_recorded := (case lg_recorded t of
     None \<Rightarrow> Some [] | Some rows \<Rightarrow> Some rows)\<rparr>))"

definition recorded_checksums :: "((int \<times> string) list, 'd) ledger_op" where
  "recorded_checksums = ledger_call (\<lambda>t. case lg_recorded t of
     None \<Rightarrow> Err ''relation does not exist'' | Some rows \<Rightarrow> Ok (rows, t))"

definition has_legacy :: "(bool, 'd) ledger_op" where
  "has_legacy = ledger_call (\<lambda>t. Ok (lg_legacy t \<noteq> None, t))"

definition legacy_holds :: "migration \<Rightarrow> (bool, 'd) ledger_op" where
  "legacy_holds m = ledger_call (\<lambda>t. case lg_legacy t of
     None \<Rightarrow> Err ''relation does not exist''
   | Some rows \<Rightarrow> Ok (list_ex (\<lambda>(v, c, success). v = mg_version m \<and> c = mg_checksum m \<and> success) rows, t))"

definition adopted_from_legacy :: "migration \<Rightarrow> (bool, 'd) ledger_op" where
  "adopted_from_legacy m s = (case has_legacy s of
     (Err e, s1) \<Rightarrow> (Err e, s1)
   | (Ok has, s1) \<Rightarrow> if \<not> has then (Ok False, s1) else legacy_holds m s1)"

text \<open>The version is the table's primary key.\<close>

definition ledger_record :: "migration \<Rightarrow> (unit, 'd) ledger_op" where
  "ledger_record m = ledger_call (\<lambda>t. case lg_recorded t of
     None \<Rightarrow> Err ''relation does not exist''
   | Some rows \<Rightarrow> if mg_version m \<in> fst ` set rows then Err ''duplicate key''
       else Ok ((), t\<lparr>lg_recorded := Some (rows @ [(mg_version m, mg_checksum m)])\<rparr>))"

definition ledger_execute :: "(string \<Rightarrow> 'd \<Rightarrow> ('d, string) result) \<Rightarrow> migration \<Rightarrow> (unit, 'd) ledger_op" where
  "ledger_execute run_sql m = ledger_call (\<lambda>t. case run_sql (mg_sql m) (lg_schema t) of
     Err e \<Rightarrow> Err e | Ok d \<Rightarrow> Ok ((), t\<lparr>lg_schema := d\<rparr>))"

text \<open>The loop over the migrations, with the checksums read before it.\<close>

fun apply_each :: "(string \<Rightarrow> 'd \<Rightarrow> ('d, string) result) \<Rightarrow> (int \<times> string) list \<Rightarrow> migration list
    \<Rightarrow> (unit, 'd) ledger_op" where
  "apply_each run_sql recorded [] s = (Ok (), s)"
| "apply_each run_sql recorded (m # ms) s =
     (case List.find (\<lambda>(v, _). v = mg_version m) recorded of
        Some (_, checksum) \<Rightarrow>
          if checksum = mg_checksum m then apply_each run_sql recorded ms s
          else (Err (DirMigrate (VersionMismatch (mg_version m))), s)
      | None \<Rightarrow> (case adopted_from_legacy m s of
          (Err e, s1) \<Rightarrow> (Err e, s1)
        | (Ok True, s1) \<Rightarrow> (case ledger_record m s1 of
            (Err e, s2) \<Rightarrow> (Err e, s2) | (Ok _, s2) \<Rightarrow> apply_each run_sql recorded ms s2)
        | (Ok False, s1) \<Rightarrow> (case ledger_execute run_sql m s1 of
            (Err e, s2) \<Rightarrow> (Err e, s2)
          | (Ok _, s2) \<Rightarrow> (case ledger_record m s2 of
              (Err e, s3) \<Rightarrow> (Err e, s3) | (Ok _, s3) \<Rightarrow> apply_each run_sql recorded ms s3))))"

definition apply_pending :: "(string \<Rightarrow> 'd \<Rightarrow> ('d, string) result) \<Rightarrow> migration list \<Rightarrow> (unit, 'd) ledger_op" where
  "apply_pending run_sql ms s = (case recorded_checksums s of
     (Err e, s1) \<Rightarrow> (Err e, s1)
   | (Ok recorded, s1) \<Rightarrow> apply_each run_sql recorded ms s1)"

definition up_migrations :: "migration list \<Rightarrow> migration list" where
  "up_migrations ms = filter (\<lambda>m. \<not> mg_down m) ms"

definition migration_steps :: "(string \<Rightarrow> 'd \<Rightarrow> ('d, string) result) \<Rightarrow> migration list \<Rightarrow> (unit, 'd) ledger_op" where
  "migration_steps run_sql ms s = (case ledger_lock s of
     (Err e, s1) \<Rightarrow> (Err e, s1)
   | (Ok _, s1) \<Rightarrow> (case ensure_table s1 of
       (Err e, s2) \<Rightarrow> (Err e, s2)
     | (Ok _, s2) \<Rightarrow> apply_pending run_sql (up_migrations ms) s2))"

text \<open>The transaction around them: an error rolls back, and so does a commit that fails before it took effect.\<close>

definition migrate :: "(string \<Rightarrow> 'd \<Rightarrow> ('d, string) result) \<Rightarrow> migration list \<Rightarrow> (unit, 'd) ledger_op" where
  "migrate run_sql ms s = (case ledger_call (\<lambda>t. Ok ((), t)) s of
     (Err e, s1) \<Rightarrow> (Err e, s1)
   | (Ok _, s1) \<Rightarrow> (case migration_steps run_sql ms s1 of
       (Err e, _, fs) \<Rightarrow> (Err e, fst s1, fs)
     | (Ok _, t, fs) \<Rightarrow> (case fs of
         FailBefore e # fs' \<Rightarrow> (Err (DirPersistence e), fst s1, fs')
       | FailAfter e # fs' \<Rightarrow> (Err (DirPersistence e), t, fs')
       | _ \<Rightarrow> (Ok (), t, tl fs))))"

definition connect_pool :: "(string \<Rightarrow> ('p, string) result) \<Rightarrow> string \<Rightarrow> ('p, directory_error) result" where
  "connect_pool init_pool url = map_err DirPool (init_pool url)"

section \<open>Specification\<close>

text \<open>What the ledger holds of a migration, and the migrations whose SQL has to run.\<close>

definition ledger_rows :: "'d ledger_tables \<Rightarrow> (int \<times> string) list" where
  "ledger_rows t = (case lg_recorded t of None \<Rightarrow> [] | Some rows \<Rightarrow> rows)"

lemma ledger_rows_upd [simp]: "ledger_rows (t\<lparr>lg_recorded := Some rows\<rparr>) = rows"
    "ledger_rows (t\<lparr>lg_schema := d\<rparr>) = ledger_rows t"
  by (simp_all add: ledger_rows_def)

definition legacy_rows :: "'d ledger_tables \<Rightarrow> (int \<times> string \<times> bool) list" where
  "legacy_rows t = (case lg_legacy t of None \<Rightarrow> [] | Some rows \<Rightarrow> rows)"

definition unrecorded :: "'d ledger_tables \<Rightarrow> migration list \<Rightarrow> migration list" where
  "unrecorded t ms = filter (\<lambda>m. mg_version m \<notin> fst ` set (ledger_rows t)) ms"

definition to_run :: "'d ledger_tables \<Rightarrow> migration list \<Rightarrow> migration list" where
  "to_run t ms = filter (\<lambda>m. (mg_version m, mg_checksum m, True) \<notin> set (legacy_rows t)) (unrecorded t ms)"

fun run_all :: "(string \<Rightarrow> 'd \<Rightarrow> ('d, string) result) \<Rightarrow> migration list \<Rightarrow> 'd \<Rightarrow> ('d, string) result" where
  "run_all run_sql [] d = Ok d"
| "run_all run_sql (m # ms) d = and_then (run_sql (mg_sql m) d) (run_all run_sql ms)"

lemma ledger_call_Ok_iff:
  "ledger_call stmt (t, fs) = (Ok v, s') \<longleftrightarrow>
     (fs = [] \<or> hd fs = NoFault) \<and> (\<exists>t'. stmt t = Ok (v, t') \<and> s' = (t', tl fs))"
  by (cases fs) (auto simp: ledger_call_def Let_def split: db_fault.splits sum.splits)

lemma ledger_call_calm: "ledger_call stmt (t, []) = (case stmt t of
    Err e \<Rightarrow> (Err (DirPersistence e), t, []) | Ok (v, t') \<Rightarrow> (Ok v, t', []))"
  by (auto simp: ledger_call_def split: sum.split)

lemma adopted_OkD:
  assumes "adopted_from_legacy m (t, fs) = (Ok b, s')"
  shows "\<exists>fs'. s' = (t, fs') \<and> (b \<longleftrightarrow> (mg_version m, mg_checksum m, True) \<in> set (legacy_rows t)) \<and>
    adopted_from_legacy m (t, []) = (Ok b, t, [])"
  using assms
  by (cases "lg_legacy t") (auto simp: adopted_from_legacy_def has_legacy_def legacy_holds_def
      legacy_rows_def list_ex_iff ledger_call_Ok_iff ledger_call_calm split: prod.splits sum.splits if_splits)

lemma record_OkD:
  assumes "ledger_record m (t, fs) = (Ok u, s')"
  shows "\<exists>fs'. s' = (t\<lparr>lg_recorded := Some (ledger_rows t @ [(mg_version m, mg_checksum m)])\<rparr>, fs') \<and>
    mg_version m \<notin> fst ` set (ledger_rows t) \<and> lg_recorded t \<noteq> None \<and>
    ledger_record m (t, []) = (Ok (), t\<lparr>lg_recorded := Some (ledger_rows t @ [(mg_version m, mg_checksum m)])\<rparr>, [])"
  using assms by (auto simp: ledger_record_def ledger_call_Ok_iff ledger_call_calm ledger_rows_def
      split: option.splits if_splits)

lemma execute_OkD:
  assumes "ledger_execute run_sql m (t, fs) = (Ok u, s')"
  shows "\<exists>d fs'. run_sql (mg_sql m) (lg_schema t) = Ok d \<and> s' = (t\<lparr>lg_schema := d\<rparr>, fs') \<and>
    ledger_execute run_sql m (t, []) = (Ok (), t\<lparr>lg_schema := d\<rparr>, [])"
  using assms by (auto simp: ledger_execute_def ledger_call_Ok_iff ledger_call_calm split: sum.splits)

lemma find_recorded:
  "List.find (\<lambda>(v, _). v = x) rows = None \<longleftrightarrow> x \<notin> fst ` set rows"
  "List.find (\<lambda>(v, _). v = x) rows = Some vc \<Longrightarrow> vc \<in> set rows \<and> fst vc = x"
  by (induction rows) (auto split: if_splits)

text \<open>A run of the loop that succeeds, described; the loop then also succeeds without faults.\<close>

lemma apply_each_OkD:
  "apply_each run_sql recorded ms (t, fs) = (Ok u, t', fs') \<Longrightarrow> distinct (map mg_version ms) \<Longrightarrow>
   set recorded \<subseteq> set (ledger_rows t) \<Longrightarrow>
   (\<forall>m \<in> set ms. mg_version m \<in> fst ` set (ledger_rows t) \<longrightarrow> mg_version m \<in> fst ` set recorded) \<Longrightarrow>
   apply_each run_sql recorded ms (t, []) = (Ok (), t', []) \<and>
   set (ledger_rows t) \<subseteq> set (ledger_rows t') \<and>
   (\<forall>m \<in> set ms. (mg_version m, mg_checksum m) \<in> set (ledger_rows t')) \<and>
   lg_legacy t' = lg_legacy t \<and>
   run_all run_sql (to_run t ms) (lg_schema t) = Ok (lg_schema t')"
proof (induction ms arbitrary: t fs)
  case Nil
  then show ?case by (simp add: to_run_def unrecorded_def)
next
  case (Cons m ms)
  show ?case
  proof (cases "List.find (\<lambda>(v, _). v = mg_version m) recorded")
    case (Some vc)
    then have vc: "vc \<in> set recorded" "fst vc = mg_version m"
      using find_recorded(2) [OF Some] by simp_all
    obtain c where c: "vc = (mg_version m, c)"
      using vc(2) by (cases vc) simp
    have eq: "c = mg_checksum m" and run: "apply_each run_sql recorded ms (t, fs) = (Ok u, t', fs')"
      using Cons.prems(1) Some c by (auto split: if_splits)
    have rec: "(mg_version m, mg_checksum m) \<in> set (ledger_rows t)"
      using vc(1) c eq Cons.prems(3) by auto
    then have skip: "to_run t (m # ms) = to_run t ms"
      by (force simp: to_run_def unrecorded_def)
    show ?thesis
      using Cons.IH [OF run] Cons.prems(2-4) rec Some c eq unfolding skip by auto
  next
    case None
    then have new: "mg_version m \<notin> fst ` set recorded"
      by (simp add: find_recorded(1))
    then have new_t: "mg_version m \<notin> fst ` set (ledger_rows t)"
      using Cons.prems(4) by auto
    define adopted where "adopted \<longleftrightarrow> (mg_version m, mg_checksum m, True) \<in> set (legacy_rows t)"
    obtain b s1 where ad: "adopted_from_legacy m (t, fs) = (Ok b, s1)"
      using Cons.prems(1) None by (auto split: prod.splits sum.splits)
    obtain fs1 where s1: "s1 = (t, fs1)" and b: "b \<longleftrightarrow> adopted"
      and ad0: "adopted_from_legacy m (t, []) = (Ok b, t, [])"
      using adopted_OkD [OF ad] by (auto simp: adopted_def)
    obtain d fs2 where ex: "if b then d = lg_schema t \<and> fs2 = fs1
        else run_sql (mg_sql m) (lg_schema t) = Ok d \<and>
          ledger_execute run_sql m (t, fs1) = (Ok (), t\<lparr>lg_schema := d\<rparr>, fs2) \<and>
          ledger_execute run_sql m (t, []) = (Ok (), t\<lparr>lg_schema := d\<rparr>, [])"
    proof (cases b)
      case True
      with that [of "lg_schema t" fs1] show ?thesis by simp
    next
      case False
      then obtain u2 s2 where "ledger_execute run_sql m (t, fs1) = (Ok u2, s2)"
        using Cons.prems(1) None ad s1 by (auto split: prod.splits sum.splits)
      from execute_OkD [OF this] this False that show ?thesis by auto
    qed
    define t2 where "t2 = t\<lparr>lg_schema := d\<rparr>"
    have t2b: "b \<Longrightarrow> t2 = t"
      using ex by (simp add: t2_def)
    obtain u3 s3 where r: "ledger_record m (t2, fs2) = (Ok u3, s3)"
      and rest: "apply_each run_sql recorded ms s3 = (Ok u, t', fs')"
      using Cons.prems(1) None ad s1 ex by (cases b) (auto simp: t2_def split: prod.splits sum.splits)
    define t3 where "t3 = t2\<lparr>lg_recorded := Some (ledger_rows t2 @ [(mg_version m, mg_checksum m)])\<rparr>"
    obtain fs3 where s3: "s3 = (t3, fs3)" and r0: "ledger_record m (t2, []) = (Ok (), t3, [])"
      using record_OkD [OF r] by (auto simp: t3_def)
    have rows3: "ledger_rows t3 = ledger_rows t @ [(mg_version m, mg_checksum m)]"
      by (simp add: t3_def ledger_rows_def t2_def)
    have other: "mg_version m' \<noteq> mg_version m" if "m' \<in> set ms" for m'
      using Cons.prems(2) that by (force simp: image_iff)
    have IH: "apply_each run_sql recorded ms (t3, []) = (Ok (), t', []) \<and>
       set (ledger_rows t3) \<subseteq> set (ledger_rows t') \<and>
       (\<forall>m \<in> set ms. (mg_version m, mg_checksum m) \<in> set (ledger_rows t')) \<and>
       lg_legacy t' = lg_legacy t3 \<and>
       run_all run_sql (to_run t3 ms) (lg_schema t3) = Ok (lg_schema t')"
      by (rule Cons.IH [OF rest [unfolded s3]]) (use Cons.prems(2-4) other in \<open>auto simp: rows3\<close>)
    have "to_run t (m # ms) = (if adopted then to_run t ms else m # to_run t ms)"
      using new_t by (simp add: to_run_def unrecorded_def adopted_def)
    moreover have "to_run t3 ms = to_run t ms"
      using other by (auto simp: to_run_def unrecorded_def rows3 legacy_rows_def t3_def t2_def
          intro!: filter_cong)
    moreover have "apply_each run_sql recorded (m # ms) (t, []) = (Ok (), t', [])"
      using None ad0 ex r0 IH t2b by (cases b) (auto simp: t2_def)
    ultimately show ?thesis
      using IH ex b by (auto simp: rows3 t3_def t2_def split: if_splits)
  qed
qed

lemma find_in: "distinct (map fst rows) \<Longrightarrow> (x, c) \<in> set rows \<Longrightarrow>
    List.find (\<lambda>(v, _). v = x) rows = Some (x, c)"
  by (induction rows) (auto simp: rev_image_eqI)

text \<open>With every migration recorded the loop has nothing to do.\<close>

lemma apply_each_recorded:
  "distinct (map fst recorded) \<Longrightarrow> \<forall>m \<in> set ms. (mg_version m, mg_checksum m) \<in> set recorded \<Longrightarrow>
     apply_each run_sql recorded ms s = (Ok (), s)"
proof (induction ms)
  case (Cons m ms)
  then have "List.find (\<lambda>(v, _). v = mg_version m) recorded = Some (mg_version m, mg_checksum m)"
    by (simp add: find_in)
  with Cons show ?case by simp
qed simp

lemma apply_each_distinct:
  "apply_each run_sql recorded ms (t, fs) = (Ok u, t', fs') \<Longrightarrow> distinct (map fst (ledger_rows t)) \<Longrightarrow>
     distinct (map fst (ledger_rows t'))"
proof (induction ms arbitrary: t fs)
  case (Cons m ms)
  have rec: "distinct (map fst (ledger_rows t2))"
    if "ledger_record m (t1, fs1) = (Ok v, t2, fs2)" "ledger_rows t1 = ledger_rows t" for t1 t2 fs1 fs2 v
    using record_OkD [OF that(1)] Cons.prems(2) that(2) by auto
  have ex: "ledger_rows t2 = ledger_rows t1"
    if "ledger_execute run_sql m (t1, fs1) = (Ok v, t2, fs2)" for t1 t2 fs1 fs2 v
    using execute_OkD [OF that] by auto
  have ad: "t2 = t" if "adopted_from_legacy m (t, fs) = (Ok v, t2, fs2)" for t2 fs2 v
    using adopted_OkD [OF that] by auto
  show ?case
    using Cons by (fastforce split: option.splits if_splits prod.splits sum.splits bool.splits
        dest: rec ex ad)
qed simp

lemma apply_each_some:
  "apply_each run_sql recorded ms (t, fs) = (Ok u, t', fs') \<Longrightarrow> lg_recorded t \<noteq> None \<Longrightarrow>
     lg_recorded t' \<noteq> None"
proof (induction ms arbitrary: t fs)
  case (Cons m ms)
  have rec: "lg_recorded t2 \<noteq> None" if "ledger_record m (t1, fs1) = (Ok v, t2, fs2)" for t1 t2 fs1 fs2 v
    using record_OkD [OF that] by auto
  have ad: "t2 = t" if "adopted_from_legacy m (t, fs) = (Ok v, t2, fs2)" for t2 fs2 v
    using adopted_OkD [OF that] by auto
  show ?case
    using Cons by (fastforce split: option.splits if_splits prod.splits sum.splits bool.splits
        dest: rec ad)
qed simp

lemma migration_steps_OkD:
  assumes "migration_steps run_sql ms (t, fs) = (Ok u, t', fs')"
    and dist: "distinct (map mg_version (up_migrations ms))" "distinct (map fst (ledger_rows t))"
  shows "migration_steps run_sql ms (t, []) = (Ok (), t', []) \<and>
    lg_recorded t' \<noteq> None \<and> distinct (map fst (ledger_rows t')) \<and>
    set (ledger_rows t) \<subseteq> set (ledger_rows t') \<and>
    (\<forall>m \<in> set (up_migrations ms). (mg_version m, mg_checksum m) \<in> set (ledger_rows t')) \<and>
    lg_legacy t' = lg_legacy t \<and>
    run_all run_sql (to_run t (up_migrations ms)) (lg_schema t) = Ok (lg_schema t')"
proof -
  define t1 where "t1 = t\<lparr>lg_recorded := Some (ledger_rows t)\<rparr>"
  obtain fs1 where run: "apply_each run_sql (ledger_rows t) (up_migrations ms) (t1, fs1) = (Ok u, t', fs')"
    and calm: "\<And>r. apply_each run_sql (ledger_rows t) (up_migrations ms) (t1, []) = r \<Longrightarrow>
      migration_steps run_sql ms (t, []) = r"
    using assms(1) by (cases "lg_recorded t") (auto simp: migration_steps_def ledger_lock_def ensure_table_def
        apply_pending_def recorded_checksums_def ledger_call_Ok_iff ledger_call_calm t1_def ledger_rows_def
        split: prod.splits sum.splits option.splits)
  have rows: "ledger_rows t1 = ledger_rows t" "lg_legacy t1 = lg_legacy t" "lg_schema t1 = lg_schema t"
    by (simp_all add: t1_def ledger_rows_def)
  have run_list: "to_run t1 (up_migrations ms) = to_run t (up_migrations ms)"
    by (simp add: to_run_def unrecorded_def rows legacy_rows_def)
  have "lg_recorded t' \<noteq> None"
    using apply_each_some [OF run] by (simp add: t1_def)
  with apply_each_OkD [OF run dist(1)] apply_each_distinct [OF run] dist(2) calm show ?thesis
    by (simp add: rows run_list)
qed

text \<open>C20: a migration run that succeeds has, for every up migration, its version and checksum in the
  ledger; it has executed exactly the SQL of those that were neither in the ledger nor adopted from
  the legacy ledger, in order, and forgot nothing. Running it again then succeeds and changes
  nothing. A run that fails has changed nothing at all, or everything, when only the answer to the
  commit was lost.
\<close>

theorem migrate_applies_pending_once:
  assumes "distinct (map mg_version (up_migrations ms))" and "distinct (map fst (ledger_rows t))"
    and "migrate run_sql ms (t, fs) = (r, t', fs')"
  shows "(r = Ok () \<longrightarrow>
      (\<forall>m \<in> set (up_migrations ms). (mg_version m, mg_checksum m) \<in> set (ledger_rows t')) \<and>
      set (ledger_rows t) \<subseteq> set (ledger_rows t') \<and> lg_legacy t' = lg_legacy t \<and>
      run_all run_sql (to_run t (up_migrations ms)) (lg_schema t) = Ok (lg_schema t') \<and>
      migrate run_sql ms (t', []) = (Ok (), t', [])) \<and>
    (r \<noteq> Ok () \<longrightarrow> t' = t \<or> migrate run_sql ms (t, []) = (Ok (), t', []))"
proof (cases "migration_steps run_sql ms (t, tl fs)")
  case (fields q t1 fs1)
  have begin_ok: "ledger_call (\<lambda>t. Ok ((), t)) (t, []) = (Ok (), t, [])" for t :: "'a ledger_tables"
    by (simp add: ledger_call_calm)
  show ?thesis
  proof (cases "fs = [] \<or> hd fs = NoFault")
    case False
    then have "t' = t \<and> r \<noteq> Ok ()"
      using assms(3) by (cases fs; cases "hd fs") (auto simp: migrate_def ledger_call_def Let_def)
    then show ?thesis by blast
  next
    case True
    then have begun: "ledger_call (\<lambda>t. Ok ((), t)) (t, fs) = (Ok (), t, tl fs)"
      by (simp add: ledger_call_Ok_iff)
    show ?thesis
    proof (cases q)
      case (Inl e)
      then show ?thesis
        using assms(3) fields by (auto simp: migrate_def begun)
    next
      case (Inr u)
      note steps = migration_steps_OkD [OF fields [unfolded Inr] assms(1,2)]
      have calm: "migrate run_sql ms (t, []) = (Ok (), t1, [])"
        using steps by (simp add: migrate_def begin_ok)
      have again: "migrate run_sql ms (t1, []) = (Ok (), t1, [])"
      proof -
        obtain rows where rows: "lg_recorded t1 = Some rows" "ledger_rows t1 = rows"
          using steps by (auto simp: ledger_rows_def)
        have "apply_each run_sql rows (up_migrations ms) (t1, []) = (Ok (), t1, [])"
          by (rule apply_each_recorded) (use steps rows in simp_all)
        moreover have same: "t1\<lparr>lg_recorded := Some rows\<rparr> = t1"
          using rows(1) by simp
        ultimately have "migration_steps run_sql ms (t1, []) = (Ok (), t1, [])"
          using rows(1) by (simp add: migration_steps_def ledger_lock_def ensure_table_def apply_pending_def
              recorded_checksums_def ledger_call_calm same)
        then show ?thesis
          by (simp add: migrate_def begin_ok)
      qed
      show ?thesis
        using assms(3) fields Inr steps calm again
        by (auto simp: migrate_def begun split: list.splits db_fault.splits)
    qed
  qed
qed

definition sample_migration :: migration where
  "sample_migration = \<lparr>mg_version = 1, mg_description = ''known directory'', mg_checksum = ''c1'',
     mg_sql = ''CREATE'', mg_down = False\<rparr>"

theorem migrate_applies_pending_once_witness:
  "migrate (\<lambda>sql d. Ok (d @ [sql])) [sample_migration] (\<lparr>lg_recorded = Some [(1, ''c1'')], lg_legacy = None,
      lg_schema = [''CREATE'']\<rparr>, []) = (Ok (), \<lparr>lg_recorded = Some [(1, ''c1'')], lg_legacy = None,
      lg_schema = [''CREATE'']\<rparr>, [])"
  using migrate_applies_pending_once [of "[sample_migration]"
      "\<lparr>lg_recorded = None, lg_legacy = None, lg_schema = []\<rparr>" "\<lambda>sql d. Ok (d @ [sql])" "[]" "Ok ()"
      "\<lparr>lg_recorded = Some [(1, ''c1'')], lg_legacy = None, lg_schema = [''CREATE'']\<rparr>" "[]"]
  by (simp add: up_migrations_def sample_migration_def ledger_rows_def migrate_def migration_steps_def
      ledger_call_calm ledger_lock_def ensure_table_def apply_pending_def recorded_checksums_def
      adopted_from_legacy_def has_legacy_def ledger_execute_def ledger_record_def)

end
