(* ===== verification/Scope_Key.thy ===== *)
theory Scope_Key
  imports Rust_Str
begin

text \<open>
  The language of scope declarations, from \<^verbatim>\<open>br-core-scope\<close>: the checked service
  and scope keys (\<^verbatim>\<open>service.rs\<close>, \<^verbatim>\<open>key.rs\<close>), a declaration and the
  rules its constructor checks (\<^verbatim>\<open>spec.rs\<close>, \<^verbatim>\<open>declaration.rs\<close>), and
  its unchecked wire form with the validation of the receiver (\<^verbatim>\<open>raw.rs\<close>,
  \<^verbatim>\<open>messages.rs\<close>).
\<close>

section \<open>Keys\<close>

datatype key_validation_error =
  KeyEmpty | KeyTooLong nat nat | KeyInvalidCharset | KeyMalformedSegments

definition service_key_max_len :: nat where "service_key_max_len = 64"
definition scope_key_max_len :: nat where "scope_key_max_len = 128"

definition key_char :: "char \<Rightarrow> bool" where
  "key_char c \<longleftrightarrow> is_ascii_lowercase c \<or> is_ascii_digit c \<or> c = CHR ''_''"

definition validate_key_segment :: "string \<Rightarrow> nat \<Rightarrow> (unit, key_validation_error) result" where
  "validate_key_segment s max_len =
     (if s = [] then Err KeyEmpty
      else if max_len < length s then Err (KeyTooLong max_len (length s))
      else if \<not> list_all key_char s then Err KeyInvalidCharset
      else Ok ())"

datatype service_key = ServiceKey (service_str: string)

definition service_key_new :: "string \<Rightarrow> (service_key, key_validation_error) result" where
  "service_key_new s = (case validate_key_segment s service_key_max_len of
     Err e \<Rightarrow> Err e | Ok _ \<Rightarrow> Ok (ServiceKey s))"

text \<open>A scope key keeps its text and the position of its colon.\<close>

datatype scope_key = ScopeKey (scope_str: string) (scope_colon: nat)

definition scope_key_new :: "string \<Rightarrow> (scope_key, key_validation_error) result" where
  "scope_key_new s =
     (if scope_key_max_len < length s then Err (KeyTooLong scope_key_max_len (length s))
      else (case split_on (CHR '':'') s of
          [service, capability] \<Rightarrow>
            (case validate_key_segment service service_key_max_len of
               Err e \<Rightarrow> Err e
             | Ok _ \<Rightarrow> (case validate_key_segment capability scope_key_max_len of
                 Err e \<Rightarrow> Err e
               | Ok _ \<Rightarrow> Ok (ScopeKey s (length service))))
        | _ \<Rightarrow> Err KeyMalformedSegments))"

definition service_segment :: "scope_key \<Rightarrow> string" where
  "service_segment k = take (scope_colon k) (scope_str k)"

definition capability_segment :: "scope_key \<Rightarrow> string" where
  "capability_segment k = drop (scope_colon k + 1) (scope_str k)"

definition is_owned_by :: "scope_key \<Rightarrow> service_key \<Rightarrow> bool" where
  "is_owned_by k service \<longleftrightarrow> service_segment k = service_str service"

section \<open>Valid keys\<close>

definition key_segment_ok :: "nat \<Rightarrow> string \<Rightarrow> bool" where
  "key_segment_ok n s \<longleftrightarrow> s \<noteq> [] \<and> length s \<le> n \<and> list_all key_char s"

definition service_key_ok :: "service_key \<Rightarrow> bool" where
  "service_key_ok k \<longleftrightarrow> key_segment_ok service_key_max_len (service_str k)"

text \<open>The keys that the constructor builds: two valid segments around the colon.\<close>

definition scope_key_ok :: "scope_key \<Rightarrow> bool" where
  "scope_key_ok k \<longleftrightarrow> key_segment_ok service_key_max_len (service_segment k) \<and>
     key_segment_ok scope_key_max_len (capability_segment k) \<and>
     scope_str k = service_segment k @ CHR '':'' # capability_segment k \<and>
     scope_colon k = length (service_segment k) \<and> length (scope_str k) \<le> scope_key_max_len"

definition scope_text_ok :: "string \<Rightarrow> bool" where
  "scope_text_ok s \<longleftrightarrow> (\<exists>a b. s = a @ CHR '':'' # b \<and> key_segment_ok service_key_max_len a \<and>
     key_segment_ok scope_key_max_len b \<and> length s \<le> scope_key_max_len)"

lemma validate_key_segment_Ok_iff: "validate_key_segment s n = Ok u \<longleftrightarrow> key_segment_ok n s"
  by (auto simp: validate_key_segment_def key_segment_ok_def)

lemma validate_key_segment_ErrD: "validate_key_segment s n = Err e \<Longrightarrow> \<not> key_segment_ok n s"
  using validate_key_segment_Ok_iff [of s n "()"] by auto

lemma key_char_not_colon [simp]: "\<not> key_char (CHR '':'')"
  by (simp add: key_char_def ascii_defs)

lemma key_segment_no_colon: "key_segment_ok n s \<Longrightarrow> CHR '':'' \<notin> set s"
  by (auto simp: key_segment_ok_def list_all_iff)

interpretation svc: checked_string service_key_new service_str "key_segment_ok service_key_max_len"
  by unfold_locales (auto simp: service_key_new_def validate_key_segment_Ok_iff
      service_key.expand split: sum.splits dest: validate_key_segment_ErrD)

lemma split_on_two_iff:
  "split_on d s = [a, b] \<longleftrightarrow> s = a @ d # b \<and> d \<notin> set a \<and> d \<notin> set b"
  by (auto simp: split_on_eq_iff)

lemma scope_key_new_Ok_iff: "scope_key_new s = Ok k \<longleftrightarrow> scope_key_ok k \<and> scope_str k = s"
proof
  assume "scope_key_new s = Ok k"
  then obtain a b where split: "split_on (CHR '':'') s = [a, b]" and "length s \<le> scope_key_max_len"
    and "key_segment_ok service_key_max_len a" "key_segment_ok scope_key_max_len b"
    and "k = ScopeKey s (length a)"
    by (auto simp: scope_key_new_def validate_key_segment_Ok_iff split: if_splits list.splits sum.splits)
  then show "scope_key_ok k \<and> scope_str k = s"
    using split_on_two_iff [of "CHR '':''" s a b]
    by (simp add: scope_key_ok_def service_segment_def capability_segment_def)
next
  assume ok: "scope_key_ok k \<and> scope_str k = s"
  then have "split_on (CHR '':'') s = [service_segment k, capability_segment k]"
    unfolding split_on_two_iff by (auto simp: scope_key_ok_def dest: key_segment_no_colon)
  moreover have "validate_key_segment (service_segment k) service_key_max_len = Ok ()"
    "validate_key_segment (capability_segment k) scope_key_max_len = Ok ()"
    using ok by (simp_all add: validate_key_segment_Ok_iff scope_key_ok_def)
  moreover have "k = ScopeKey s (length (service_segment k))" "\<not> scope_key_max_len < length s"
    using ok by (auto simp: scope_key_ok_def intro: scope_key.expand)
  ultimately show "scope_key_new s = Ok k"
    by (simp add: scope_key_new_def)
qed

lemma scope_text_ok_iff: "scope_text_ok s \<longleftrightarrow> (\<exists>k. scope_key_ok k \<and> scope_str k = s)"
proof
  assume "scope_text_ok s"
  then obtain a b where "s = a @ CHR '':'' # b" "key_segment_ok service_key_max_len a"
     "key_segment_ok scope_key_max_len b" "length s \<le> scope_key_max_len"
    by (auto simp: scope_text_ok_def)
  then have "scope_key_ok (ScopeKey s (length a)) \<and> scope_str (ScopeKey s (length a)) = s"
    by (simp add: scope_key_ok_def service_segment_def capability_segment_def)
  then show "\<exists>k. scope_key_ok k \<and> scope_str k = s" ..
qed (auto simp: scope_text_ok_def scope_key_ok_def)

lemma scope_str_inj: "scope_key_ok k \<Longrightarrow> scope_key_ok l \<Longrightarrow> scope_str k = scope_str l \<Longrightarrow> k = l"
  using scope_key_new_Ok_iff [of "scope_str k" k] scope_key_new_Ok_iff [of "scope_str k" l] by auto

lemma scope_key_new_str: "scope_key_ok k \<Longrightarrow> scope_key_new (scope_str k) = Ok k"
  by (simp add: scope_key_new_Ok_iff)

text \<open>a scope key is accepted exactly when it is two non-empty segments of lower-case letters,
  digits and underscores around one colon, within the length bounds; the accepted key prints as
  the text it was read from, its two accessors give back the two segments, and it is owned by the
  one service whose key is its first segment.
\<close>

theorem scope_key_grammar:
  "(is_ok (scope_key_new s) \<longleftrightarrow> scope_text_ok s) \<and>
   (case scope_key_new s of
      Ok k \<Rightarrow> scope_str k = s \<and> s = service_segment k @ '':'' @ capability_segment k \<and>
        CHR '':'' \<notin> set (service_segment k @ capability_segment k) \<and>
        {v. is_owned_by k v} = {ServiceKey (service_segment k)} \<and>
        service_key_new (service_segment k) = Ok (ServiceKey (service_segment k))
    | Err e \<Rightarrow> True)"
proof (cases "scope_key_new s")
  case (Inl e)
  then have "\<not> scope_text_ok s"
    using scope_key_new_Ok_iff [of s] by (auto simp: scope_text_ok_iff)
  with Inl show ?thesis
    by simp
next
  case (Inr k)
  then have k: "scope_key_ok k" "scope_str k = s"
    by (simp_all add: scope_key_new_Ok_iff)
  have "{v. is_owned_by k v} = {ServiceKey (service_segment k)}"
    by (auto simp: is_owned_by_def intro: service_key.expand)
  moreover have "service_key_new (service_segment k) = Ok (ServiceKey (service_segment k))"
    using k by (simp add: svc.mk_Ok_iff scope_key_ok_def)
  ultimately show ?thesis
    using k Inr by (auto simp: scope_text_ok_iff scope_key_ok_def dest: key_segment_no_colon)
qed

section \<open>Declarations\<close>

record service_manifest =
  sm_key :: service_key
  sm_label_key :: string
  sm_description_key :: string

record scope_spec =
  ss_key :: scope_key
  ss_label_key :: string
  ss_description_key :: string
  ss_platform_only :: bool

definition service_manifest_new :: "service_key \<Rightarrow> string \<Rightarrow> string \<Rightarrow> service_manifest" where
  "service_manifest_new key label_key description_key =
     \<lparr>sm_key = key, sm_label_key = label_key, sm_description_key = description_key\<rparr>"

definition scope_spec_new :: "scope_key \<Rightarrow> string \<Rightarrow> string \<Rightarrow> bool \<Rightarrow> scope_spec" where
  "scope_spec_new key label_key description_key platform_only =
     \<lparr>ss_key = key, ss_label_key = label_key, ss_description_key = description_key,
      ss_platform_only = platform_only\<rparr>"

record scope_declaration =
  sd_manifest :: service_manifest
  sd_scopes :: "scope_spec list"

datatype declaration_error =
  InvalidScopeKey string key_validation_error
| ScopePrefixMismatch string string
| DuplicateScopeInDeclaration string
| ScopeOwnedByAnotherService string string

text \<open>The loop of the constructor, with the keys seen so far.\<close>

fun check_specs :: "service_key \<Rightarrow> string set \<Rightarrow> scope_spec list
    \<Rightarrow> (unit, declaration_error) result" where
  "check_specs service seen [] = Ok ()"
| "check_specs service seen (spec # specs) =
     (if \<not> is_owned_by (ss_key spec) service
      then Err (ScopePrefixMismatch (service_segment (ss_key spec)) (service_str service))
      else if scope_str (ss_key spec) \<in> seen
      then Err (DuplicateScopeInDeclaration (scope_str (ss_key spec)))
      else check_specs service (insert (scope_str (ss_key spec)) seen) specs)"

definition declaration_new :: "service_manifest \<Rightarrow> scope_spec list
    \<Rightarrow> (scope_declaration, declaration_error) result" where
  "declaration_new manifest scopes = (case check_specs (sm_key manifest) {} scopes of
     Err e \<Rightarrow> Err e | Ok _ \<Rightarrow> Ok \<lparr>sd_manifest = manifest, sd_scopes = scopes\<rparr>)"

section \<open>The wire form\<close>

record raw_manifest =
  rm_key :: string
  rm_label_key :: string
  rm_description_key :: string

record raw_spec =
  rs_key :: string
  rs_label_key :: string
  rs_description_key :: string
  rs_platform_only :: bool

record raw_declaration =
  rd_manifest :: raw_manifest
  rd_scopes :: "raw_spec list"

fun validate_specs :: "raw_spec list \<Rightarrow> (scope_spec list, declaration_error) result" where
  "validate_specs [] = Ok []"
| "validate_specs (r # rs) = (case scope_key_new (rs_key r) of
     Err v \<Rightarrow> Err (InvalidScopeKey (rs_key r) v)
   | Ok key \<Rightarrow> (case validate_specs rs of
       Err e \<Rightarrow> Err e
     | Ok specs \<Rightarrow> Ok (\<lparr>ss_key = key, ss_label_key = rs_label_key r,
         ss_description_key = rs_description_key r, ss_platform_only = rs_platform_only r\<rparr> # specs)))"

definition raw_validate :: "raw_declaration \<Rightarrow> (scope_declaration, declaration_error) result" where
  "raw_validate raw = (case service_key_new (rm_key (rd_manifest raw)) of
     Err v \<Rightarrow> Err (InvalidScopeKey (rm_key (rd_manifest raw)) v)
   | Ok service \<Rightarrow> (case validate_specs (rd_scopes raw) of
       Err e \<Rightarrow> Err e
     | Ok specs \<Rightarrow> declaration_new
         \<lparr>sm_key = service, sm_label_key = rm_label_key (rd_manifest raw),
          sm_description_key = rm_description_key (rd_manifest raw)\<rparr> specs))"

definition raw_of_spec :: "scope_spec \<Rightarrow> raw_spec" where
  "raw_of_spec s = \<lparr>rs_key = scope_str (ss_key s), rs_label_key = ss_label_key s,
     rs_description_key = ss_description_key s, rs_platform_only = ss_platform_only s\<rparr>"

definition raw_of_declaration :: "scope_declaration \<Rightarrow> raw_declaration" where
  "raw_of_declaration d = \<lparr>rd_manifest =
       \<lparr>rm_key = service_str (sm_key (sd_manifest d)), rm_label_key = sm_label_key (sd_manifest d),
        rm_description_key = sm_description_key (sd_manifest d)\<rparr>,
     rd_scopes = map raw_of_spec (sd_scopes d)\<rparr>"

text \<open>The command carries the wire form; building it from a declaration loses nothing.\<close>

datatype declare_service_scopes = DeclareServiceScopes (ds_raw: raw_declaration)

definition declare_new :: "scope_declaration \<Rightarrow> declare_service_scopes" where
  "declare_new d = DeclareServiceScopes (raw_of_declaration d)"

definition declare_validate :: "declare_service_scopes
    \<Rightarrow> (scope_declaration, declaration_error) result" where
  "declare_validate c = raw_validate (ds_raw c)"

record scopes_accepted =
  sa_service :: service_key

record scopes_rejected =
  sr_service :: service_key
  sr_reason :: declaration_error

section \<open>Valid declarations\<close>

text \<open>What every declaration satisfies: valid keys, all in the name of the manifest's service, none twice.\<close>

definition specs_of :: "service_key \<Rightarrow> scope_spec list \<Rightarrow> bool" where
  "specs_of service specs \<longleftrightarrow>
     (\<forall>s \<in> set specs. scope_key_ok (ss_key s) \<and> is_owned_by (ss_key s) service) \<and>
     distinct (map ss_key specs)"

definition declaration_ok :: "scope_declaration \<Rightarrow> bool" where
  "declaration_ok d \<longleftrightarrow> service_key_ok (sm_key (sd_manifest d)) \<and>
     specs_of (sm_key (sd_manifest d)) (sd_scopes d)"

lemma check_specs_Ok_iff:
  "check_specs service seen specs = Ok u \<longleftrightarrow>
     (\<forall>s \<in> set specs. is_owned_by (ss_key s) service \<and> scope_str (ss_key s) \<notin> seen) \<and>
     distinct (map (\<lambda>s. scope_str (ss_key s)) specs)"
  by (induction service seen specs rule: check_specs.induct) (force simp: image_iff)+

lemma distinct_scope_str:
  assumes "\<forall>s \<in> set specs. scope_key_ok (ss_key s)"
  shows "distinct (map (\<lambda>s. scope_str (ss_key s)) specs) \<longleftrightarrow> distinct (map ss_key specs)"
proof -
  have "inj_on scope_str (ss_key ` set specs)"
    using assms by (auto intro!: inj_onI scope_str_inj)
  then have "distinct (map scope_str (map ss_key specs)) \<longleftrightarrow> distinct (map ss_key specs)"
    by (auto simp only: distinct_map set_map)
  then show ?thesis
    by (simp add: comp_def)
qed

lemma declaration_new_Ok_iff:
  assumes "service_key_ok (sm_key m)" and "\<forall>s \<in> set specs. scope_key_ok (ss_key s)"
  shows "declaration_new m specs = Ok d \<longleftrightarrow>
    d = \<lparr>sd_manifest = m, sd_scopes = specs\<rparr> \<and> declaration_ok d"
  using distinct_scope_str [OF assms(2)] assms check_specs_Ok_iff [of "sm_key m" "{}" specs "()"]
  by (auto simp: declaration_new_def declaration_ok_def specs_of_def split: sum.splits)

lemma validate_specs_Ok_iff:
  "validate_specs rs = Ok specs \<longleftrightarrow>
     map raw_of_spec specs = rs \<and> (\<forall>s \<in> set specs. scope_key_ok (ss_key s))"
proof (induction rs arbitrary: specs)
  case Nil
  then show ?case by auto
next
  case (Cons r rs)
  show ?case
  proof (cases specs)
    case Nil
    then show ?thesis
      by (auto split: sum.splits)
  next
    case (Cons s ss)
    have "scope_key_new (rs_key r) = Ok (ss_key s) \<and> s = \<lparr>ss_key = ss_key s, ss_label_key = rs_label_key r,
        ss_description_key = rs_description_key r, ss_platform_only = rs_platform_only r\<rparr> \<longleftrightarrow>
      raw_of_spec s = r \<and> scope_key_ok (ss_key s)"
      by (cases r; cases s) (auto simp: raw_of_spec_def scope_key_new_Ok_iff)
    then show ?thesis
      using Cons.IH [of ss] unfolding Cons by (force split: sum.splits)
  qed
qed

lemma raw_validate_Ok_iff:
  "raw_validate raw = Ok d \<longleftrightarrow> declaration_ok d \<and> raw_of_declaration d = raw"
proof
  assume "raw_validate raw = Ok d"
  then obtain service specs where service: "service_key_new (rm_key (rd_manifest raw)) = Ok service"
    and specs: "validate_specs (rd_scopes raw) = Ok specs"
    and new: "declaration_new \<lparr>sm_key = service, sm_label_key = rm_label_key (rd_manifest raw),
          sm_description_key = rm_description_key (rd_manifest raw)\<rparr> specs = Ok d"
    by (auto simp: raw_validate_def split: sum.splits)
  have "service_key_ok service" "service_str service = rm_key (rd_manifest raw)"
    using service by (auto simp: svc.mk_Ok_iff service_key_ok_def)
  moreover have "map raw_of_spec specs = rd_scopes raw" "\<forall>s \<in> set specs. scope_key_ok (ss_key s)"
    using specs by (auto simp: validate_specs_Ok_iff)
  ultimately show "declaration_ok d \<and> raw_of_declaration d = raw"
    using new by (subst (asm) declaration_new_Ok_iff) (auto simp: raw_of_declaration_def)
next
  assume ok: "declaration_ok d \<and> raw_of_declaration d = raw"
  then have "service_key_new (rm_key (rd_manifest raw)) = Ok (sm_key (sd_manifest d))"
    by (auto simp: svc.mk_Ok_iff declaration_ok_def service_key_ok_def raw_of_declaration_def)
  moreover have "validate_specs (rd_scopes raw) = Ok (sd_scopes d)"
    using ok by (auto simp: validate_specs_Ok_iff declaration_ok_def specs_of_def raw_of_declaration_def)
  moreover have "declaration_new (sd_manifest d) (sd_scopes d) = Ok d"
    using ok by (subst declaration_new_Ok_iff) (auto simp: declaration_ok_def specs_of_def)
  moreover have eta: "\<lparr>sm_key = sm_key m, sm_label_key = sm_label_key m,
      sm_description_key = sm_description_key m\<rparr> = m" for m :: service_manifest
    by (cases m) simp
  ultimately show "raw_validate raw = Ok d"
    using ok by (auto simp: raw_validate_def raw_of_declaration_def eta)
qed

lemma raw_validate_of: "declaration_ok d \<Longrightarrow> raw_validate (raw_of_declaration d) = Ok d"
  by (simp add: raw_validate_Ok_iff)

lemma declare_validate_Ok_iff:
  "declare_validate c = Ok d \<longleftrightarrow> declaration_ok d \<and> c = declare_new d"
  by (cases c) (auto simp: declare_validate_def declare_new_def raw_validate_Ok_iff)

text \<open>the receiver of a declaration accepts exactly the wire forms of valid declarations, and
  reads from each the declaration it was built from: the sender's checks and the receiver's agree,
  and nothing is lost between them.
\<close>

theorem declaration_wire_exact:
  "declare_validate c = Ok d \<longleftrightarrow> declaration_ok d \<and> c = declare_new d"
  by (rule declare_validate_Ok_iff)

end
