(* ===== verification/Scope_Wire.thy ===== *)
theory Scope_Wire
  imports Scope_Key Core_Types
begin

text \<open>
  The JSON forms of the messages about scopes, from the serde implementations of
  \<^verbatim>\<open>br-core-scope\<close>: keys are their texts, a declaration is read strictly, with its keys
  and rules checked, or raw.
\<close>

section \<open>Keys\<close>

definition service_key_json :: "service_key \<Rightarrow> json" where
  "service_key_json k = JStr (service_str k)"

definition scope_key_json :: "scope_key \<Rightarrow> json" where
  "scope_key_json k = JStr (scope_str k)"

fun key_error_code :: "key_validation_error \<Rightarrow> string" where
  "key_error_code KeyEmpty = ''empty''"
| "key_error_code (KeyTooLong _ _) = ''too_long''"
| "key_error_code KeyInvalidCharset = ''invalid_charset''"
| "key_error_code KeyMalformedSegments = ''malformed_segments''"

fun declaration_error_code :: "declaration_error \<Rightarrow> string" where
  "declaration_error_code (InvalidScopeKey _ _) = ''invalid_scope_key''"
| "declaration_error_code (ScopePrefixMismatch _ _) = ''scope_prefix_mismatch''"
| "declaration_error_code (DuplicateScopeInDeclaration _) = ''duplicate_scope_in_declaration''"
| "declaration_error_code (ScopeOwnedByAnotherService _ _) = ''scope_owned_by_another_service''"

definition service_key_decoder :: "service_key decoder" where
  "service_key_decoder v = and_then (str_decoder v) (\<lambda>s. map_err key_error_code (service_key_new s))"

definition scope_key_decoder :: "scope_key decoder" where
  "scope_key_decoder v = and_then (str_decoder v) (\<lambda>s. map_err key_error_code (scope_key_new s))"

section \<open>Reasons\<close>

fun key_error_json :: "key_validation_error \<Rightarrow> json" where
  "key_error_json (KeyTooLong m a) =
     json_obj [(''validation'', JStr ''too_long''), (''max'', JNat m), (''actual'', JNat a)]"
| "key_error_json e = json_obj [(''validation'', JStr (key_error_code e))]"

text \<open>A unit variant ignores what is left of an object; nothing may be left of an array.\<close>

definition unit_rest :: "'a \<Rightarrow> 'a decoder" where
  "unit_rest x rest = (case rest of JArr (_ # _) \<Rightarrow> Err ''invalid length'' | _ \<Rightarrow> Ok x)"

definition key_error_decoder :: "key_validation_error decoder" where
  "key_error_decoder v = and_then (tagged_content ''validation'' v) (\<lambda>(t, rest).
     and_then (buffered_tag [''empty'', ''too_long'', ''invalid_charset'', ''malformed_segments''] t) (\<lambda>name.
       if name = ''empty'' then unit_rest KeyEmpty rest
       else if name = ''too_long'' then and_then (struct_fields [''max'', ''actual''] rest) (\<lambda>fs.
         and_then (required usize_decoder ''max'' fs) (\<lambda>m.
         and_then (required usize_decoder ''actual'' fs) (\<lambda>a. Ok (KeyTooLong m a))))
       else if name = ''invalid_charset'' then unit_rest KeyInvalidCharset rest
       else if name = ''malformed_segments'' then unit_rest KeyMalformedSegments rest
       else Err ''unknown variant''))"

fun declaration_error_json :: "declaration_error \<Rightarrow> json" where
  "declaration_error_json (InvalidScopeKey k e) =
     json_obj [(''reason'', JStr ''invalid_scope_key''), (''key'', JStr k), (''validation'', key_error_json e)]"
| "declaration_error_json (ScopePrefixMismatch s d) = json_obj [(''reason'', JStr ''scope_prefix_mismatch''),
     (''scope_service'', JStr s), (''declaring_service'', JStr d)]"
| "declaration_error_json (DuplicateScopeInDeclaration k) =
     json_obj [(''reason'', JStr ''duplicate_scope_in_declaration''), (''key'', JStr k)]"
| "declaration_error_json (ScopeOwnedByAnotherService k w) =
     json_obj [(''reason'', JStr ''scope_owned_by_another_service''), (''key'', JStr k), (''owner'', JStr w)]"

text \<open>Two fields of a variant.\<close>

definition two_fields :: "string \<Rightarrow> 'a decoder \<Rightarrow> string \<Rightarrow> 'b decoder \<Rightarrow> ('a \<Rightarrow> 'b \<Rightarrow> 'c) \<Rightarrow> 'c decoder" where
  "two_fields k d k' d' mk rest = and_then (struct_fields [k, k'] rest) (\<lambda>fs.
     and_then (required d k fs) (\<lambda>x. and_then (required d' k' fs) (\<lambda>y. Ok (mk x y))))"

definition declaration_error_decoder :: "declaration_error decoder" where
  "declaration_error_decoder v = and_then (tagged_content ''reason'' v) (\<lambda>(t, rest).
     and_then (str_decoder t) (\<lambda>name.
       if name = ''invalid_scope_key'' then
         two_fields ''key'' str_decoder ''validation'' key_error_decoder InvalidScopeKey rest
       else if name = ''scope_prefix_mismatch'' then
         two_fields ''scope_service'' str_decoder ''declaring_service'' str_decoder ScopePrefixMismatch rest
       else if name = ''duplicate_scope_in_declaration'' then
         and_then (struct_fields [''key''] rest) (\<lambda>fs.
           and_then (required str_decoder ''key'' fs) (\<lambda>k. Ok (DuplicateScopeInDeclaration k)))
       else if name = ''scope_owned_by_another_service'' then
         two_fields ''key'' str_decoder ''owner'' str_decoder ScopeOwnedByAnotherService rest
       else Err ''unknown variant''))"

section \<open>Declarations\<close>

definition raw_manifest_json :: "raw_manifest \<Rightarrow> json" where
  "raw_manifest_json m = json_obj [(''key'', JStr (rm_key m)), (''label_key'', JStr (rm_label_key m)),
     (''description_key'', JStr (rm_description_key m))]"

definition raw_spec_json :: "raw_spec \<Rightarrow> json" where
  "raw_spec_json s = json_obj [(''key'', JStr (rs_key s)), (''label_key'', JStr (rs_label_key s)),
     (''description_key'', JStr (rs_description_key s)), (''platform_only'', JBool (rs_platform_only s))]"

definition raw_declaration_json :: "raw_declaration \<Rightarrow> json" where
  "raw_declaration_json d = json_obj [(''manifest'', raw_manifest_json (rd_manifest d)),
     (''scopes'', JArr (map raw_spec_json (rd_scopes d)))]"

text \<open>The manifest and the scope read their key with the decoder given: of texts, or of keys.\<close>

definition manifest_decoder :: "'k decoder \<Rightarrow> ('k \<Rightarrow> string \<Rightarrow> string \<Rightarrow> 'm) \<Rightarrow> 'm decoder" where
  "manifest_decoder d mk v = and_then (struct_fields [''key'', ''label_key'', ''description_key''] v) (\<lambda>fs.
     and_then (required d ''key'' fs) (\<lambda>k.
     and_then (required str_decoder ''label_key'' fs) (\<lambda>l.
     and_then (required str_decoder ''description_key'' fs) (\<lambda>t. Ok (mk k l t)))))"

definition spec_decoder :: "'k decoder \<Rightarrow> ('k \<Rightarrow> string \<Rightarrow> string \<Rightarrow> bool \<Rightarrow> 's) \<Rightarrow> 's decoder" where
  "spec_decoder d mk v =
     and_then (struct_fields [''key'', ''label_key'', ''description_key'', ''platform_only''] v) (\<lambda>fs.
     and_then (required d ''key'' fs) (\<lambda>k.
     and_then (required str_decoder ''label_key'' fs) (\<lambda>l.
     and_then (required str_decoder ''description_key'' fs) (\<lambda>t.
     and_then (required bool_decoder ''platform_only'' fs) (\<lambda>p. Ok (mk k l t p))))))"

definition raw_manifest_decoder :: "raw_manifest decoder" where
  "raw_manifest_decoder = manifest_decoder str_decoder
     (\<lambda>k l t. \<lparr>rm_key = k, rm_label_key = l, rm_description_key = t\<rparr>)"

definition raw_spec_decoder :: "raw_spec decoder" where
  "raw_spec_decoder = spec_decoder str_decoder
     (\<lambda>k l t p. \<lparr>rs_key = k, rs_label_key = l, rs_description_key = t, rs_platform_only = p\<rparr>)"

definition service_manifest_decoder :: "service_manifest decoder" where
  "service_manifest_decoder = manifest_decoder service_key_decoder
     (\<lambda>k l t. \<lparr>sm_key = k, sm_label_key = l, sm_description_key = t\<rparr>)"

definition scope_spec_decoder :: "scope_spec decoder" where
  "scope_spec_decoder = spec_decoder scope_key_decoder
     (\<lambda>k l t p. \<lparr>ss_key = k, ss_label_key = l, ss_description_key = t, ss_platform_only = p\<rparr>)"

definition raw_declaration_decoder :: "raw_declaration decoder" where
  "raw_declaration_decoder = two_fields ''manifest'' raw_manifest_decoder ''scopes'' (vec_decoder raw_spec_decoder)
     (\<lambda>m ss. \<lparr>rd_manifest = m, rd_scopes = ss\<rparr>)"

definition scope_declaration_decoder :: "scope_declaration decoder" where
  "scope_declaration_decoder v = and_then
     (two_fields ''manifest'' service_manifest_decoder ''scopes'' (vec_decoder scope_spec_decoder) Pair v)
     (\<lambda>(m, ss). map_err declaration_error_code (declaration_new m ss))"

definition declare_json :: "declare_service_scopes \<Rightarrow> json" where
  "declare_json c = json_obj [(''declaration'', raw_declaration_json (ds_raw c))]"

definition declare_decoder :: "declare_service_scopes decoder" where
  "declare_decoder v = and_then (struct_fields [''declaration''] v) (\<lambda>fs.
     and_then (required raw_declaration_decoder ''declaration'' fs) (\<lambda>r. Ok (DeclareServiceScopes r)))"

definition accepted_json :: "scopes_accepted \<Rightarrow> json" where
  "accepted_json a = json_obj [(''service'', service_key_json (sa_service a))]"

definition rejected_json :: "scopes_rejected \<Rightarrow> json" where
  "rejected_json r = json_obj [(''service'', service_key_json (sr_service r)),
     (''reason'', declaration_error_json (sr_reason r))]"

definition accepted_decoder :: "scopes_accepted decoder" where
  "accepted_decoder v = and_then (struct_fields [''service''] v) (\<lambda>fs.
     and_then (required service_key_decoder ''service'' fs) (\<lambda>k. Ok \<lparr>sa_service = k\<rparr>))"

definition rejected_decoder :: "scopes_rejected decoder" where
  "rejected_decoder = two_fields ''service'' service_key_decoder ''reason'' declaration_error_decoder
     (\<lambda>k e. \<lparr>sr_service = k, sr_reason = e\<rparr>)"

section \<open>Reading back\<close>

lemma struct_fields_rest: "struct_fields names (JObj m) = Ok (bm_get m)"
  by (simp add: struct_fields_def)

lemma key_error_roundtrip: "key_error_decoder (key_error_json e) = Ok e"
  by (cases e) (simp_all add: key_error_decoder_def tagged_content_obj buffered_tag_def unit_rest_def
      struct_fields_rest required_def usize_decoder_def bm_get_extend)

lemma declaration_error_roundtrip: "declaration_error_decoder (declaration_error_json e) = Ok e"
  by (cases e) (simp_all add: declaration_error_decoder_def tagged_content_obj two_fields_def
      struct_fields_rest required_def bm_get_extend key_error_roundtrip)

lemma service_key_decoder_Ok_iff:
  "service_key_decoder v = Ok k \<longleftrightarrow> str_decoder v = Ok (service_str k) \<and> service_key_ok k"
  by (auto simp: service_key_decoder_def and_then_Ok_iff map_err_Ok_iff svc.mk_Ok_iff service_key_ok_def)

lemma scope_key_decoder_Ok_iff:
  "scope_key_decoder v = Ok k \<longleftrightarrow> str_decoder v = Ok (scope_str k) \<and> scope_key_ok k"
  by (auto simp: scope_key_decoder_def and_then_Ok_iff map_err_Ok_iff scope_key_new_Ok_iff)

text \<open>The keys and the two confirmations read back exactly when their keys are ones the constructors make.\<close>

interpretation svk: wire_form service_key_json service_key_decoder service_key_ok
  by unfold_locales (simp_all add: service_key_json_def service_key_decoder_Ok_iff)

interpretation sck: wire_form scope_key_json scope_key_decoder scope_key_ok
  by unfold_locales (simp_all add: scope_key_json_def scope_key_decoder_Ok_iff)

interpretation acm: wire_form accepted_json accepted_decoder "\<lambda>a. service_key_ok (sa_service a)"
proof unfold_locales
  show "accepted_decoder (accepted_json a) = Ok a" if "service_key_ok (sa_service a)" for a
    using that by (simp add: accepted_decoder_def accepted_json_def required_def svk.reads_back)
  show "service_key_ok (sa_service a)" if "accepted_decoder v = Ok a" for v a
    using that by (auto simp: accepted_decoder_def and_then_Ok_iff dest: svk.field_reads_valid)
qed

interpretation rjm: wire_form rejected_json rejected_decoder "\<lambda>r. service_key_ok (sr_service r)"
proof unfold_locales
  show "rejected_decoder (rejected_json r) = Ok r" if "service_key_ok (sr_service r)" for r
    using that by (simp add: rejected_decoder_def two_fields_def rejected_json_def required_def svk.reads_back
        declaration_error_roundtrip)
  show "service_key_ok (sr_service r)" if "rejected_decoder v = Ok r" for v r
    using that by (auto simp: rejected_decoder_def two_fields_def and_then_Ok_iff dest: svk.field_reads_valid)
qed

lemma raw_declaration_roundtrip: "raw_declaration_decoder (raw_declaration_json d) = Ok d"
proof -
  have "raw_manifest_decoder (raw_manifest_json m) = Ok m" for m
    by (cases m) (simp add: raw_manifest_decoder_def manifest_decoder_def raw_manifest_json_def required_def)
  moreover have "raw_spec_decoder (raw_spec_json s) = Ok s" for s
    by (cases s) (simp add: raw_spec_decoder_def spec_decoder_def raw_spec_json_def required_def)
  then have "vec_decoder raw_spec_decoder (JArr (map raw_spec_json ss)) = Ok ss" for ss
    by (intro vec_decoder_map) simp
  ultimately show ?thesis
    by (cases d) (simp add: raw_declaration_decoder_def two_fields_def raw_declaration_json_def required_def
        del: vec_decoder.simps)
qed

lemma declare_roundtrip: "declare_decoder (declare_json c) = Ok c"
  by (cases c) (simp add: declare_decoder_def declare_json_def required_def raw_declaration_roundtrip)

section \<open>The two readers of a declaration\<close>

lemma scope_spec_decoder_Ok_iff:
  "scope_spec_decoder v = Ok s \<longleftrightarrow> raw_spec_decoder v = Ok (raw_of_spec s) \<and> scope_key_ok (ss_key s)"
  by (cases s) (auto simp: scope_spec_decoder_def raw_spec_decoder_def spec_decoder_def and_then_Ok_iff
      required_Ok_iff scope_key_decoder_Ok_iff raw_of_spec_def)

definition raw_of_manifest :: "service_manifest \<Rightarrow> raw_manifest" where
  "raw_of_manifest m = \<lparr>rm_key = service_str (sm_key m), rm_label_key = sm_label_key m,
     rm_description_key = sm_description_key m\<rparr>"

lemma service_manifest_decoder_Ok_iff:
  "service_manifest_decoder v = Ok m \<longleftrightarrow>
     raw_manifest_decoder v = Ok (raw_of_manifest m) \<and> service_key_ok (sm_key m)"
  by (cases m) (auto simp: service_manifest_decoder_def raw_manifest_decoder_def manifest_decoder_def
      and_then_Ok_iff required_Ok_iff service_key_decoder_Ok_iff raw_of_manifest_def)

lemma vec_scope_specs_Ok_iff:
  "vec_decoder scope_spec_decoder v = Ok ss \<longleftrightarrow>
     vec_decoder raw_spec_decoder v = Ok (map raw_of_spec ss) \<and> (\<forall>s \<in> set ss. scope_key_ok (ss_key s))"
proof (cases v)
  case (JArr xs)
  have "map scope_spec_decoder xs = map Ok ss \<longleftrightarrow>
      map raw_spec_decoder xs = map Ok (map raw_of_spec ss) \<and> (\<forall>s \<in> set ss. scope_key_ok (ss_key s))"
    by (induction xs arbitrary: ss) (auto simp: scope_spec_decoder_Ok_iff Cons_eq_map_conv)
  then show ?thesis
    by (simp add: JArr collect_results_Ok_iff)
qed simp_all

lemma two_fields_Ok_iff:
  "two_fields k d k' d' mk v = Ok z \<longleftrightarrow> (\<exists>fs x y. struct_fields [k, k'] v = Ok fs \<and>
     required d k fs = Ok x \<and> required d' k' fs = Ok y \<and> z = mk x y)"
  by (auto simp: two_fields_def and_then_Ok_iff)

lemma declaration_new_parts:
  "declaration_new m ss = Ok d \<longleftrightarrow>
     m = sd_manifest d \<and> ss = sd_scopes d \<and> declaration_new (sd_manifest d) (sd_scopes d) = Ok d"
  by (cases d) (auto simp: declaration_new_def split: sum.splits)

lemma scope_declaration_decoder_Ok_iff:
  "scope_declaration_decoder v = Ok d \<longleftrightarrow>
     raw_declaration_decoder v = Ok (raw_of_declaration d) \<and> declaration_ok d"
proof -
  have "scope_declaration_decoder v = Ok d \<longleftrightarrow> (\<exists>fs vm vs. struct_fields [''manifest'', ''scopes''] v = Ok fs \<and>
      fs ''manifest'' = Some vm \<and> service_manifest_decoder vm = Ok (sd_manifest d) \<and>
      fs ''scopes'' = Some vs \<and> vec_decoder scope_spec_decoder vs = Ok (sd_scopes d) \<and>
      declaration_new (sd_manifest d) (sd_scopes d) = Ok d)"
    unfolding scope_declaration_decoder_def and_then_Ok_iff split_paired_Ex prod.case map_err_Ok_iff
    by (subst declaration_new_parts) (auto simp: two_fields_Ok_iff required_Ok_iff)
  moreover have "raw_declaration_decoder v = Ok (raw_of_declaration d) \<longleftrightarrow>
    (\<exists>fs vm vs. struct_fields [''manifest'', ''scopes''] v = Ok fs \<and>
      fs ''manifest'' = Some vm \<and> raw_manifest_decoder vm = Ok (raw_of_manifest (sd_manifest d)) \<and>
      fs ''scopes'' = Some vs \<and> vec_decoder raw_spec_decoder vs = Ok (map raw_of_spec (sd_scopes d)))"
    by (auto simp: raw_declaration_decoder_def two_fields_Ok_iff required_Ok_iff raw_of_declaration_def
        raw_of_manifest_def)
  moreover have "declaration_ok d \<longleftrightarrow> service_key_ok (sm_key (sd_manifest d)) \<and>
      (\<forall>s \<in> set (sd_scopes d). scope_key_ok (ss_key s)) \<and> declaration_new (sd_manifest d) (sd_scopes d) = Ok d"
    by (cases d) (auto simp: declaration_ok_def specs_of_def declaration_new_Ok_iff)
  ultimately show ?thesis
    by (auto simp: service_manifest_decoder_Ok_iff vec_scope_specs_Ok_iff)
qed

text \<open>the strict reader of a declaration and the raw reader followed by validation accept the same
  JSON values and read the same declaration from each, although one checks every key as it reads and
  the other afterwards; and the message of a declaration, valid or not, reads back as it was
  written.
\<close>

theorem declaration_readers_agree:
  "(scope_declaration_decoder v = Ok d \<longleftrightarrow> (\<exists>raw. raw_declaration_decoder v = Ok raw \<and> raw_validate raw = Ok d)) \<and>
   declare_decoder (declare_json c) = Ok c"
  using declare_roundtrip by (auto simp: scope_declaration_decoder_Ok_iff raw_validate_Ok_iff)

end
