(* ===== verification/Scope_Registry.thy ===== *)
theory Scope_Registry
  imports Scope_Key
begin

text \<open>
  The scope registry of the identity context, from \<^verbatim>\<open>br-identity-domain\<close>: the
  aggregate with its hydration from stored rows and its one command (\<^verbatim>\<open>registry.rs\<close>,
  \<^verbatim>\<open>service.rs\<close>, \<^verbatim>\<open>event.rs\<close>), and the verdict on a received
  declaration (\<^verbatim>\<open>handler.rs\<close>, \<^verbatim>\<open>identity.rs\<close>).

  \<^verbatim>\<open>RegistryWarning\<close> has no values, so the warnings of a
  \<^verbatim>\<open>CommandResult\<close> are always empty and the result is its events.
\<close>

section \<open>The aggregate\<close>

record registered_service =
  rv_manifest :: service_manifest
  rv_scopes :: "scope_spec list"

definition registered_new :: "service_manifest \<Rightarrow> registered_service" where
  "registered_new m = \<lparr>rv_manifest = m, rv_scopes = []\<rparr>"

definition push_scope :: "scope_spec \<Rightarrow> registered_service \<Rightarrow> registered_service" where
  "push_scope spec sv = sv\<lparr>rv_scopes := rv_scopes sv @ [spec]\<rparr>"

definition owns_key :: "registered_service \<Rightarrow> scope_key \<Rightarrow> bool" where
  "owns_key sv k \<longleftrightarrow> list_ex (\<lambda>owned. ss_key owned = k) (rv_scopes sv)"

definition rv_key :: "registered_service \<Rightarrow> service_key" where
  "rv_key sv = sm_key (rv_manifest sv)"

record scope_registry =
  rg_version :: u64
  rg_services :: "registered_service list"

definition registry_new :: scope_registry where
  "registry_new = \<lparr>rg_version = 0, rg_services = []\<rparr>"

definition find_service :: "service_key \<Rightarrow> registered_service list \<Rightarrow> registered_service option" where
  "find_service k svs = find (\<lambda>sv. rv_key sv = k) svs"

definition owner_of :: "scope_key \<Rightarrow> registered_service list \<Rightarrow> service_key option" where
  "owner_of k svs = map_option rv_key (find (\<lambda>sv. owns_key sv k) svs)"

text \<open>\<^verbatim>\<open>service_mut\<close>: the first service with the key is changed in place.\<close>

fun service_mut :: "service_key \<Rightarrow> (registered_service \<Rightarrow> registered_service)
    \<Rightarrow> registered_service list \<Rightarrow> registered_service list" where
  "service_mut k f [] = []"
| "service_mut k f (sv # svs) = (if rv_key sv = k then f sv # svs else sv # service_mut k f svs)"

section \<open>Hydration\<close>

datatype hydration_error =
  DuplicateScope scope_key
| DuplicateService service_key
| ScopeOwnerMismatch scope_key service_key

fun hydrate_scopes :: "service_manifest \<Rightarrow> scope_spec list \<Rightarrow> scope_key set \<Rightarrow> registered_service
    \<Rightarrow> (scope_key set \<times> registered_service, hydration_error) result" where
  "hydrate_scopes m [] seen sv = Ok (seen, sv)"
| "hydrate_scopes m (spec # specs) seen sv =
     (if \<not> is_owned_by (ss_key spec) (sm_key m) then Err (ScopeOwnerMismatch (ss_key spec) (sm_key m))
      else if ss_key spec \<in> seen then Err (DuplicateScope (ss_key spec))
      else hydrate_scopes m specs (insert (ss_key spec) seen) (push_scope spec sv))"

fun hydrate_services :: "(service_manifest \<times> scope_spec list) list \<Rightarrow> scope_key set
    \<Rightarrow> service_key set \<Rightarrow> registered_service list
    \<Rightarrow> (registered_service list, hydration_error) result" where
  "hydrate_services [] seen seen_services registered = Ok registered"
| "hydrate_services ((m, scopes) # rest) seen seen_services registered =
     (if sm_key m \<in> seen_services then Err (DuplicateService (sm_key m))
      else (case hydrate_scopes m scopes seen (registered_new m) of
          Err e \<Rightarrow> Err e
        | Ok (seen', sv) \<Rightarrow>
            hydrate_services rest seen' (insert (sm_key m) seen_services) (registered @ [sv])))"

definition hydrate :: "u64 \<Rightarrow> (service_manifest \<times> scope_spec list) list
    \<Rightarrow> (scope_registry, hydration_error) result" where
  "hydrate version services = (case hydrate_services services {} {} [] of
     Err e \<Rightarrow> Err e
   | Ok registered \<Rightarrow> Ok \<lparr>rg_version = version, rg_services = registered\<rparr>)"

section \<open>The command\<close>

datatype registry_event =
  ServiceRegistered service_key string string
| ScopeRegistered scope_key service_key string string bool

type_synonym command_result = "registry_event list"

text \<open>There is no warning yet, so a result without events changed nothing.\<close>

definition is_noop :: "command_result \<Rightarrow> bool" where
  "is_noop result \<longleftrightarrow> result = []"

definition service_registered_event :: "service_manifest \<Rightarrow> registry_event" where
  "service_registered_event m = ServiceRegistered (sm_key m) (sm_label_key m) (sm_description_key m)"

definition scope_registered_event :: "scope_spec \<Rightarrow> service_key \<Rightarrow> registry_event" where
  "scope_registered_event spec owner = ScopeRegistered (ss_key spec) owner (ss_label_key spec)
     (ss_description_key spec) (ss_platform_only spec)"

fun check_owners :: "service_key \<Rightarrow> scope_spec list \<Rightarrow> registered_service list
    \<Rightarrow> (unit, declaration_error) result" where
  "check_owners declaring [] svs = Ok ()"
| "check_owners declaring (spec # specs) svs = (case owner_of (ss_key spec) svs of
     Some owner \<Rightarrow> if owner \<noteq> declaring
       then Err (ScopeOwnedByAnotherService (scope_str (ss_key spec)) (service_str owner))
       else check_owners declaring specs svs
   | None \<Rightarrow> check_owners declaring specs svs)"

text \<open>
  The loop that adds the scopes. The declaring service is present, so its absence, on which the
  code would panic, is the branch that never runs (\<open>register_scopes_present\<close>).
\<close>

fun register_scopes :: "service_key \<Rightarrow> scope_spec list \<Rightarrow> registered_service list \<Rightarrow> registry_event list
    \<Rightarrow> (registered_service list \<times> registry_event list) option" where
  "register_scopes declaring [] svs events = Some (svs, events)"
| "register_scopes declaring (spec # specs) svs events = (case find_service declaring svs of
     None \<Rightarrow> None
   | Some sv \<Rightarrow> if owns_key sv (ss_key spec) then register_scopes declaring specs svs events
       else register_scopes declaring specs (service_mut declaring (push_scope spec) svs)
         (events @ [scope_registered_event spec declaring]))"

definition ensure_service :: "service_manifest \<Rightarrow> registered_service list
    \<Rightarrow> registered_service list \<times> registry_event list" where
  "ensure_service m svs = (case find_service (sm_key m) svs of
     None \<Rightarrow> (svs @ [registered_new m], [service_registered_event m])
   | Some _ \<Rightarrow> (svs, []))"

text \<open>The command answers with its result and the aggregate after it; \<open>None\<close> is the panic.\<close>

definition register_declaration :: "scope_declaration \<Rightarrow> scope_registry
    \<Rightarrow> ((command_result, declaration_error) result \<times> scope_registry) option" where
  "register_declaration d r =
     (let m = sd_manifest d; declaring = sm_key m in
      case check_owners declaring (sd_scopes d) (rg_services r) of
        Err e \<Rightarrow> Some (Err e, r)
      | Ok _ \<Rightarrow> (case ensure_service m (rg_services r) of
          (svs, events) \<Rightarrow> (case register_scopes declaring (sd_scopes d) svs events of
            None \<Rightarrow> None
          | Some (svs', events') \<Rightarrow>
              if events' = [] then Some (Ok [], r\<lparr>rg_services := svs'\<rparr>)
              else Some (Ok events', \<lparr>rg_version = rg_version r + 1, rg_services = svs'\<rparr>))))"

section \<open>The verdict\<close>

datatype rejected_identity = RejectedService service_key | Unrepresentable string

definition identity_from_raw_key :: "string \<Rightarrow> rejected_identity" where
  "identity_from_raw_key raw = (case service_key_new raw of
     Ok service \<Rightarrow> RejectedService service | Err _ \<Rightarrow> Unrepresentable raw)"

datatype declaration_outcome =
  Accepted service_key command_result
| Rejected rejected_identity declaration_error

definition judge_declaration :: "declare_service_scopes \<Rightarrow> scope_registry
    \<Rightarrow> (declaration_outcome \<times> scope_registry) option" where
  "judge_declaration command r = (case declare_validate command of
     Err reason \<Rightarrow> Some (Rejected (identity_from_raw_key (rm_key (rd_manifest (ds_raw command)))) reason, r)
   | Ok d \<Rightarrow>
       (let service = sm_key (sd_manifest d) in
        case register_declaration d r of
          None \<Rightarrow> None
        | Some (Ok result, r') \<Rightarrow> Some (Accepted service result, r')
        | Some (Err reason, r') \<Rightarrow> Some (Rejected (RejectedService service) reason, r')))"

section \<open>Well-formed registries\<close>

definition service_ok :: "registered_service \<Rightarrow> bool" where
  "service_ok sv \<longleftrightarrow> service_key_ok (rv_key sv) \<and> specs_of (rv_key sv) (rv_scopes sv)"

definition services_ok :: "registered_service list \<Rightarrow> bool" where
  "services_ok svs \<longleftrightarrow> distinct (map rv_key svs) \<and> list_all service_ok svs"

definition registry_ok :: "scope_registry \<Rightarrow> bool" where
  "registry_ok r \<longleftrightarrow> services_ok (rg_services r)"

text \<open>What a registry holds: the manifest of each service and the specification of each scope.\<close>

definition all_scopes :: "registered_service list \<Rightarrow> scope_spec list" where
  "all_scopes svs = concat (map rv_scopes svs)"

definition service_at :: "scope_registry \<Rightarrow> service_key \<Rightarrow> service_manifest option" where
  "service_at r k = map_option rv_manifest (find_service k (rg_services r))"

definition scope_at :: "scope_registry \<Rightarrow> scope_key \<Rightarrow> scope_spec option" where
  "scope_at r k = find (\<lambda>s. ss_key s = k) (all_scopes (rg_services r))"

lemma services_ok_simps [simp]:
  "services_ok []"
  "services_ok (sv # svs) \<longleftrightarrow> service_ok sv \<and> rv_key sv \<notin> rv_key ` set svs \<and> services_ok svs"
  by (auto simp: services_ok_def)

lemma registry_new_ok [simp]: "registry_ok registry_new"
  by (simp add: registry_ok_def registry_new_def)

lemma find_service_None_iff: "find_service k svs = None \<longleftrightarrow> k \<notin> rv_key ` set svs"
  by (auto simp: find_service_def find_None_iff)

lemma find_service_SomeD: "find_service k svs = Some sv \<Longrightarrow> sv \<in> set svs \<and> rv_key sv = k"
  by (auto simp: find_service_def find_Some_iff)

lemma find_service_unique:
  "services_ok svs \<Longrightarrow> find_service k svs = Some sv \<longleftrightarrow> sv \<in> set svs \<and> rv_key sv = k"
  by (induction svs) (auto simp: find_service_def)

text \<open>A scope of a valid registry belongs to the service its key names.\<close>

lemma scope_of_service:
  assumes "services_ok svs" and "sv \<in> set svs" and "s \<in> set (rv_scopes sv)"
  shows "rv_key sv = ServiceKey (service_segment (ss_key s))"
  using assms by (cases "rv_key sv")
    (auto simp: services_ok_def list_all_iff service_ok_def specs_of_def is_owned_by_def)

lemma owner_of_own:
  assumes "services_ok svs" and "owner_of k svs = Some owner"
  shows "is_owned_by k owner"
  using assms by (auto simp: owner_of_def find_Some_iff owns_key_def list_ex_iff is_owned_by_def
      dest!: scope_of_service nth_mem)

lemma is_owned_by_unique: "is_owned_by k a \<Longrightarrow> is_owned_by k b \<Longrightarrow> a = b"
  by (auto simp: is_owned_by_def intro: service_key.expand)

text \<open>So the check for a foreign owner never fires on a declaration of the service's own scopes.\<close>

lemma check_owners_ok:
  assumes "services_ok svs" and "\<forall>s \<in> set specs. is_owned_by (ss_key s) declaring"
  shows "check_owners declaring specs svs = Ok ()"
  using assms(2)
  by (induction specs) (auto split: option.splits dest: owner_of_own [OF assms(1)] is_owned_by_unique)

lemma distinct_all_scopes: "services_ok svs \<Longrightarrow> distinct (map ss_key (all_scopes svs))"
proof (induction svs)
  case Nil
  then show ?case by (simp add: all_scopes_def)
next
  case (Cons sv svs)
  have "False" if st: "s \<in> set (rv_scopes sv)" "t \<in> set (all_scopes svs)" "ss_key s = ss_key t" for s t
  proof -
    obtain tv where "tv \<in> set svs" "t \<in> set (rv_scopes tv)"
      using st(2) by (auto simp: all_scopes_def)
    then have "rv_key tv = rv_key sv"
      using Cons.prems st scope_of_service [OF Cons.prems, of sv s]
        scope_of_service [OF Cons.prems, of tv t] by auto
    with \<open>tv \<in> set svs\<close> Cons.prems show False
      by (metis services_ok_simps(2) image_eqI)
  qed
  moreover have "distinct (map ss_key (rv_scopes sv))"
    using Cons.prems by (simp add: service_ok_def specs_of_def)
  moreover have "distinct (map ss_key (all_scopes svs))"
    using Cons by simp
  moreover have "all_scopes (sv # svs) = rv_scopes sv @ all_scopes svs"
    by (simp add: all_scopes_def)
  ultimately show ?case
    by (fastforce simp: distinct_append)
qed

lemma find_key_Some_iff:
  "distinct (map f xs) \<Longrightarrow> find (\<lambda>x. f x = k) xs = Some x \<longleftrightarrow> x \<in> set xs \<and> f x = k"
  by (induction xs) auto

lemma scope_at_Some_iff:
  "registry_ok r \<Longrightarrow> scope_at r k = Some s \<longleftrightarrow> s \<in> set (all_scopes (rg_services r)) \<and> ss_key s = k"
  by (simp add: scope_at_def registry_ok_def distinct_all_scopes find_key_Some_iff)

section \<open>What the command does\<close>

definition add_scopes :: "scope_spec list \<Rightarrow> registered_service \<Rightarrow> registered_service" where
  "add_scopes specs sv = sv\<lparr>rv_scopes := rv_scopes sv @ specs\<rparr>"

lemma rv_key_updates [simp]:
  "rv_key (push_scope s sv) = rv_key sv" "rv_key (add_scopes ss sv) = rv_key sv"
  "rv_key (registered_new m) = sm_key m" "rv_manifest (registered_new m) = m"
  by (simp_all add: rv_key_def push_scope_def add_scopes_def registered_new_def)

lemma add_scopes_simps [simp]:
  "add_scopes [] = id" "add_scopes ss (push_scope s sv) = add_scopes (s # ss) sv"
  "rv_scopes (add_scopes ss sv) = rv_scopes sv @ ss" "rv_manifest (add_scopes ss sv) = rv_manifest sv"
  by (auto simp: add_scopes_def push_scope_def)

lemma service_mut_id [simp]: "service_mut k id svs = svs" "service_mut k (\<lambda>a. a) svs = svs"
  by (induction svs) auto

lemma service_mut_twice:
  "(\<And>sv. rv_key (f sv) = rv_key sv) \<Longrightarrow> service_mut k g (service_mut k f svs) = service_mut k (\<lambda>sv. g (f sv)) svs"
  by (induction svs) auto

lemma keys_service_mut [simp]:
  "(\<And>sv. rv_key (f sv) = rv_key sv) \<Longrightarrow> map rv_key (service_mut k f svs) = map rv_key svs"
  by (induction svs) auto

lemma find_service_mut:
  "(\<And>sv. rv_key (f sv) = rv_key sv) \<Longrightarrow>
     find_service k (service_mut k' f svs) = (if k = k' then map_option f (find_service k svs) else find_service k svs)"
  by (induction svs) (auto simp: find_service_def)

lemma owns_key_push: "owns_key (push_scope s sv) k \<longleftrightarrow> owns_key sv k \<or> ss_key s = k"
  by (auto simp: owns_key_def push_scope_def)

definition unowned :: "registered_service \<Rightarrow> scope_spec list \<Rightarrow> scope_spec list" where
  "unowned sv specs = filter (\<lambda>s. \<not> owns_key sv (ss_key s)) specs"

lemma register_scopes_eq:
  "find_service declaring svs = Some sv \<Longrightarrow> distinct (map ss_key specs) \<Longrightarrow>
   register_scopes declaring specs svs events =
     Some (service_mut declaring (add_scopes (unowned sv specs)) svs,
       events @ map (\<lambda>s. scope_registered_event s declaring) (unowned sv specs))"
proof (induction specs arbitrary: svs sv events)
  case Nil
  then show ?case
    by (simp add: unowned_def)
next
  case (Cons spec specs)
  show ?case
  proof (cases "owns_key sv (ss_key spec)")
    case True
    then show ?thesis
      using Cons by (simp add: unowned_def)
  next
    case False
    have same: "unowned (push_scope spec sv) specs = unowned sv specs"
      using Cons.prems(2) by (auto simp: unowned_def owns_key_push intro!: filter_cong)
    have "find_service declaring (service_mut declaring (push_scope spec) svs) = Some (push_scope spec sv)"
      using Cons.prems(1) by (simp add: find_service_mut)
    from Cons.IH [OF this]
    have "register_scopes declaring specs (service_mut declaring (push_scope spec) svs) ev =
        Some (service_mut declaring (add_scopes (spec # unowned sv specs)) svs,
          ev @ map (\<lambda>s. scope_registered_event s declaring) (unowned sv specs))" for ev
      using Cons.prems(2) by (simp add: same service_mut_twice)
    moreover have "unowned sv (spec # specs) = spec # unowned sv specs"
      using False by (simp add: unowned_def)
    ultimately show ?thesis
      using Cons.prems(1) False by simp
  qed
qed

lemma find_service_append: "find_service k (svs @ [sv]) = (case find_service k svs of
    Some x \<Rightarrow> Some x | None \<Rightarrow> if rv_key sv = k then Some sv else None)"
  by (induction svs) (auto simp: find_service_def)

definition ensured :: "service_manifest \<Rightarrow> registered_service list \<Rightarrow> registered_service" where
  "ensured m svs = (case find_service (sm_key m) svs of None \<Rightarrow> registered_new m | Some sv \<Rightarrow> sv)"

lemma ensure_service_present: "find_service (sm_key m) (fst (ensure_service m svs)) = Some (ensured m svs)"
  by (auto simp: ensure_service_def ensured_def find_service_append split: option.splits)

text \<open>The panic of the loop is out of reach: the service was just put in place.\<close>

lemma register_scopes_present:
  "distinct (map ss_key specs) \<Longrightarrow>
   register_scopes (sm_key m) specs (fst (ensure_service m svs)) events \<noteq> None"
  by (simp add: register_scopes_eq [OF ensure_service_present])

lemma services_ok_ensure:
  "services_ok svs \<Longrightarrow> service_key_ok (sm_key m) \<Longrightarrow> services_ok (fst (ensure_service m svs))"
  by (auto simp: ensure_service_def services_ok_def service_ok_def specs_of_def registered_new_def
      rv_key_def find_service_def find_None_iff split: option.splits)

lemma all_scopes_ensure [simp]: "all_scopes (fst (ensure_service m svs)) = all_scopes svs"
  by (simp add: ensure_service_def all_scopes_def registered_new_def split: option.splits)

lemma set_service_mut:
  "distinct (map rv_key svs) \<Longrightarrow>
     set (service_mut k f svs) = (\<lambda>sv. if rv_key sv = k then f sv else sv) ` set svs"
proof (induction svs)
  case (Cons sv svs)
  then show ?case
    by (cases "rv_key sv = k") (auto simp: image_iff)
qed simp

lemma owned_scope_iff:
  assumes "services_ok svs" and "is_owned_by k s"
  shows "(\<exists>x \<in> set (all_scopes svs). ss_key x = k) \<longleftrightarrow>
    (\<exists>sv. find_service s svs = Some sv \<and> owns_key sv k)"
proof
  assume "\<exists>x \<in> set (all_scopes svs). ss_key x = k"
  then obtain x sv where sv: "sv \<in> set svs" "x \<in> set (rv_scopes sv)" "ss_key x = k"
    by (auto simp: all_scopes_def)
  then have "rv_key sv = s"
    using scope_of_service [OF assms(1) sv(1,2)] assms(2) by (auto simp: is_owned_by_def)
  with sv show "\<exists>sv. find_service s svs = Some sv \<and> owns_key sv k"
    using assms(1) by (auto simp: find_service_unique owns_key_def list_ex_iff)
qed (auto simp: owns_key_def list_ex_iff all_scopes_def dest: find_service_SomeD)

lemma unowned_eq:
  assumes "services_ok svs" and "service_key_ok (sm_key m)" and "specs_of (sm_key m) specs"
  shows "unowned (ensured m svs) specs =
    filter (\<lambda>s. \<not> (\<exists>x \<in> set (all_scopes svs). ss_key x = ss_key s)) specs"
  unfolding unowned_def
proof (rule filter_cong [OF refl])
  fix s
  assume "s \<in> set specs"
  then have "is_owned_by (ss_key s) (sm_key m)"
    using assms(3) by (simp add: specs_of_def)
  from owned_scope_iff [OF services_ok_ensure [OF assms(1,2)] this]
  show "(\<not> owns_key (ensured m svs) (ss_key s)) = (\<not> (\<exists>x \<in> set (all_scopes svs). ss_key x = ss_key s))"
    by (simp add: ensure_service_present)
qed

lemma services_ok_add_scopes:
  assumes "services_ok svs" and "find_service s svs = Some sv"
    and "specs_of s specs" and "\<forall>x \<in> set specs. \<not> owns_key sv (ss_key x)"
  shows "services_ok (service_mut s (add_scopes specs) svs)"
proof -
  have keys: "distinct (map rv_key svs)"
    using assms(1) by (simp add: services_ok_def)
  have ok: "service_ok v" if "v \<in> set svs" for v
    using that assms(1) by (simp add: services_ok_def list_all_iff)
  have "service_ok (add_scopes specs v)" if "v \<in> set svs" "rv_key v = s" for v
  proof -
    have "v = sv"
      using that assms(1,2) find_service_unique [OF assms(1), of s v] by simp
    moreover have "ss_key x \<noteq> ss_key y" if "x \<in> set (rv_scopes sv)" "y \<in> set specs" for x y
      using that assms(4) by (auto simp: owns_key_def list_ex_iff)
    ultimately show ?thesis
      using ok [OF that(1)] that(2) assms(3) by (fastforce simp: service_ok_def specs_of_def distinct_append)
  qed
  then show ?thesis
    using ok keys by (auto simp: services_ok_def list_all_iff set_service_mut)
qed

lemma set_all_scopes_add:
  assumes "services_ok svs" and "find_service s svs = Some sv"
  shows "set (all_scopes (service_mut s (add_scopes specs) svs)) = set (all_scopes svs) \<union> set specs"
  using assms find_service_SomeD [OF assms(2)]
  by (force simp: all_scopes_def services_ok_def set_service_mut)

section \<open>The command, exactly\<close>

text \<open>The scopes of a declaration that the registry does not hold yet, and the events they give.\<close>

definition fresh_scopes :: "scope_registry \<Rightarrow> scope_spec list \<Rightarrow> scope_spec list" where
  "fresh_scopes r specs = filter (\<lambda>s. scope_at r (ss_key s) = None) specs"

definition declared_events :: "scope_registry \<Rightarrow> scope_declaration \<Rightarrow> registry_event list" where
  "declared_events r d = (let m = sd_manifest d in
     (if service_at r (sm_key m) = None then [service_registered_event m] else [])
     @ map (\<lambda>s. scope_registered_event s (sm_key m)) (fresh_scopes r (sd_scopes d)))"

text \<open>What a registry answers after an accepted declaration: what it answered before, and the
  declaration where it had no answer.\<close>

definition registers :: "scope_declaration \<Rightarrow> scope_registry \<Rightarrow> scope_registry \<Rightarrow> bool" where
  "registers d r r' \<longleftrightarrow>
     (\<forall>k. service_at r' k = (case service_at r k of Some m \<Rightarrow> Some m
        | None \<Rightarrow> if k = sm_key (sd_manifest d) then Some (sd_manifest d) else None)) \<and>
     (\<forall>k. scope_at r' k = (case scope_at r k of Some s \<Rightarrow> Some s
        | None \<Rightarrow> find (\<lambda>s. ss_key s = k) (sd_scopes d)))"

lemma scope_at_None_iff:
  "scope_at r k = None \<longleftrightarrow> \<not> (\<exists>x \<in> set (all_scopes (rg_services r)). ss_key x = k)"
  by (auto simp: scope_at_def find_None_iff)

lemma fresh_scopes_unowned:
  "registry_ok r \<Longrightarrow> declaration_ok d \<Longrightarrow>
     unowned (ensured (sd_manifest d) (rg_services r)) (sd_scopes d) = fresh_scopes r (sd_scopes d)"
  by (simp add: registry_ok_def declaration_ok_def unowned_eq fresh_scopes_def scope_at_None_iff)

lemma snd_ensure_service:
  "snd (ensure_service m (rg_services r)) =
     (if service_at r (sm_key m) = None then [service_registered_event m] else [])"
  by (simp add: ensure_service_def service_at_def split: option.splits)

definition registered :: "scope_declaration \<Rightarrow> scope_registry \<Rightarrow> scope_registry" where
  "registered d r = \<lparr>rg_version = (if declared_events r d = [] then rg_version r else rg_version r + 1),
     rg_services = service_mut (sm_key (sd_manifest d)) (add_scopes (fresh_scopes r (sd_scopes d)))
       (fst (ensure_service (sd_manifest d) (rg_services r)))\<rparr>"

lemma register_declaration_eq:
  assumes "registry_ok r" and "declaration_ok d"
  shows "register_declaration d r = Some (Ok (declared_events r d), registered d r)"
proof -
  let ?m = "sd_manifest d"
  let ?svs = "fst (ensure_service ?m (rg_services r))"
  have check: "check_owners (sm_key ?m) (sd_scopes d) (rg_services r) = Ok ()"
    using assms by (intro check_owners_ok)
      (auto simp: registry_ok_def declaration_ok_def specs_of_def)
  have loop: "register_scopes (sm_key ?m) (sd_scopes d) ?svs events =
      Some (service_mut (sm_key ?m) (add_scopes (fresh_scopes r (sd_scopes d))) ?svs,
        events @ map (\<lambda>s. scope_registered_event s (sm_key ?m)) (fresh_scopes r (sd_scopes d)))" for events
    using register_scopes_eq [OF ensure_service_present, of "sd_scopes d" ?m "rg_services r" events]
      assms by (simp add: fresh_scopes_unowned declaration_ok_def specs_of_def)
  obtain svs events where pair: "ensure_service ?m (rg_services r) = (svs, events)"
    by (cases "ensure_service ?m (rg_services r)") auto
  have "events @ map (\<lambda>s. scope_registered_event s (sm_key ?m)) (fresh_scopes r (sd_scopes d))
      = declared_events r d"
    using snd_ensure_service [of ?m r] by (simp add: pair declared_events_def Let_def)
  then show ?thesis
    using loop [of events] by (simp add: register_declaration_def Let_def check pair registered_def)
qed

lemma fresh_specs_of:
  "declaration_ok d \<Longrightarrow> specs_of (sm_key (sd_manifest d)) (fresh_scopes r (sd_scopes d))"
  by (auto simp: declaration_ok_def specs_of_def fresh_scopes_def distinct_map_filter)

lemma registered_ok:
  assumes "registry_ok r" and "declaration_ok d"
  shows "registry_ok (registered d r)"
proof -
  have "services_ok (fst (ensure_service (sd_manifest d) (rg_services r)))"
    using assms by (simp add: services_ok_ensure registry_ok_def declaration_ok_def)
  moreover have "\<forall>x \<in> set (fresh_scopes r (sd_scopes d)).
      \<not> owns_key (ensured (sd_manifest d) (rg_services r)) (ss_key x)"
    unfolding fresh_scopes_unowned [OF assms, symmetric] by (simp add: unowned_def)
  ultimately show ?thesis
    using services_ok_add_scopes [OF _ ensure_service_present fresh_specs_of [OF assms(2)]]
    by (simp add: registry_ok_def registered_def)
qed

lemma registered_registers:
  assumes "registry_ok r" and "declaration_ok d"
  shows "registers d r (registered d r)"
  unfolding registers_def
proof (intro conjI allI)
  fix k
  show "service_at (registered d r) k = (case service_at r k of Some m \<Rightarrow> Some m
        | None \<Rightarrow> if k = sm_key (sd_manifest d) then Some (sd_manifest d) else None)"
    by (auto simp: service_at_def registered_def find_service_mut ensure_service_def
        find_service_append split: option.splits dest: find_service_SomeD)
next
  fix k
  let ?svs = "fst (ensure_service (sd_manifest d) (rg_services r))"
  have "services_ok ?svs"
    using assms by (simp add: services_ok_ensure registry_ok_def declaration_ok_def)
  from set_all_scopes_add [OF this ensure_service_present]
  have all: "set (all_scopes (rg_services (registered d r))) =
      set (all_scopes (rg_services r)) \<union> set (fresh_scopes r (sd_scopes d))"
    by (simp add: registered_def)
  have dist: "distinct (map ss_key (sd_scopes d))"
    using assms(2) by (simp add: declaration_ok_def specs_of_def)
  show "scope_at (registered d r) k = (case scope_at r k of Some s \<Rightarrow> Some s
        | None \<Rightarrow> find (\<lambda>s. ss_key s = k) (sd_scopes d))"
  proof (cases "scope_at r k")
    case (Some s)
    then have "scope_at (registered d r) k = Some s"
      by (simp add: scope_at_Some_iff [OF registered_ok [OF assms]] scope_at_Some_iff [OF assms(1)] all)
    with Some show ?thesis
      by simp
  next
    case None
    have "scope_at (registered d r) k = Some s \<longleftrightarrow> find (\<lambda>s. ss_key s = k) (sd_scopes d) = Some s" for s
      using None by (auto simp: scope_at_Some_iff [OF registered_ok [OF assms]] all fresh_scopes_def
          find_key_Some_iff [OF dist] scope_at_None_iff [of r])
    then show ?thesis
      using None by (metis not_Some_eq option.simps(4))
  qed
qed

text \<open>Declaring again changes nothing.\<close>

lemma declared_events_again:
  assumes "registers d r r'"
  shows "declared_events r' d = []"
proof -
  have "scope_at r' (ss_key s) \<noteq> None" if s: "s \<in> set (sd_scopes d)" for s
  proof (cases "scope_at r (ss_key s)")
    case None
    then have "scope_at r' (ss_key s) = find (\<lambda>t. ss_key t = ss_key s) (sd_scopes d)"
      using assms by (simp add: registers_def)
    with s show ?thesis
      by (auto simp: find_None_iff)
  qed (use assms in \<open>auto simp: registers_def\<close>)
  then show ?thesis
    using assms by (auto simp: declared_events_def fresh_scopes_def registers_def Let_def filter_empty_conv
        split: option.splits)
qed

lemma registered_noop:
  assumes "declared_events r d = []"
  shows "registered d r = r"
proof -
  have "fresh_scopes r (sd_scopes d) = []" "service_at r (sm_key (sd_manifest d)) \<noteq> None"
    using assms by (auto simp: declared_events_def Let_def split: if_splits)
  then show ?thesis
    using assms by (auto simp: registered_def ensure_service_def service_at_def split: option.splits)
qed

text \<open>C15: on a valid registry a valid declaration is always accepted: the service and exactly the
  scopes the registry did not know are added and nothing it knew changes, one event tells of each
  addition in order, the version advances by one where there is an event and stays where there is
  none, the registry stays valid, and declaring the same again is accepted without an event or a
  change. In particular the panic of the loop and the conflict with another owner cannot happen.
\<close>

theorem register_declaration_exact:
  assumes "registry_ok r" and "declaration_ok d"
  shows "\<exists>r'. register_declaration d r = Some (Ok (declared_events r d), r') \<and>
    registry_ok r' \<and> registers d r r' \<and>
    rg_version r' = (if declared_events r d = [] then rg_version r else rg_version r + 1) \<and>
    register_declaration d r' = Some (Ok [], r')"
proof (intro exI conjI)
  show "register_declaration d r = Some (Ok (declared_events r d), registered d r)"
    by (rule register_declaration_eq [OF assms])
  show "registry_ok (registered d r)" and reg: "registers d r (registered d r)"
    using assms by (simp_all add: registered_ok registered_registers)
  show "rg_version (registered d r) = (if declared_events r d = [] then rg_version r else rg_version r + 1)"
    by (simp add: registered_def)
  show "register_declaration d (registered d r) = Some (Ok [], registered d r)"
    using assms registered_ok [OF assms] declared_events_again [OF reg]
    by (simp add: register_declaration_eq registered_noop)
qed

definition sample_declaration :: scope_declaration where
  "sample_declaration = \<lparr>sd_manifest = \<lparr>sm_key = ServiceKey ''a'', sm_label_key = ''l'', sm_description_key = ''d''\<rparr>,
     sd_scopes = [\<lparr>ss_key = ScopeKey ''a:r'' 1, ss_label_key = ''l'', ss_description_key = ''d'',
       ss_platform_only = False\<rparr>]\<rparr>"

lemmas key_eval = service_key_ok_def scope_key_ok_def key_segment_ok_def service_segment_def
  capability_segment_def is_owned_by_def key_char_def ascii_defs service_key_max_len_def
  scope_key_max_len_def

lemma sample_declaration_ok: "declaration_ok sample_declaration"
  by (simp add: declaration_ok_def sample_declaration_def specs_of_def key_eval)

theorem register_declaration_exact_witness:
  "\<exists>r'. register_declaration sample_declaration registry_new = Some (Ok
      [ServiceRegistered (ServiceKey ''a'') ''l'' ''d'',
       ScopeRegistered (ScopeKey ''a:r'' 1) (ServiceKey ''a'') ''l'' ''d'' False], r') \<and>
    rg_version r' = 1 \<and> register_declaration sample_declaration r' = Some (Ok [], r')"
proof -
  have "declared_events registry_new sample_declaration =
      [ServiceRegistered (ServiceKey ''a'') ''l'' ''d'',
       ScopeRegistered (ScopeKey ''a:r'' 1) (ServiceKey ''a'') ''l'' ''d'' False]"
    by (simp add: declared_events_def registry_new_def sample_declaration_def service_at_def
        find_service_def fresh_scopes_def scope_at_def all_scopes_def service_registered_event_def
        scope_registered_event_def)
  then show ?thesis
    using register_declaration_exact [OF registry_new_ok sample_declaration_ok]
    by (auto simp: registry_new_def)
qed

section \<open>Hydration, exactly\<close>

definition stored_form :: "scope_registry \<Rightarrow> (service_manifest \<times> scope_spec list) list" where
  "stored_form r = map (\<lambda>sv. (rv_manifest sv, rv_scopes sv)) (rg_services r)"

definition hydrated :: "service_manifest \<times> scope_spec list \<Rightarrow> registered_service" where
  "hydrated p = \<lparr>rv_manifest = fst p, rv_scopes = snd p\<rparr>"

lemma hydrate_scopes_Ok_iff:
  "hydrate_scopes m specs seen sv = Ok (seen', sv') \<longleftrightarrow>
     (\<forall>s \<in> set specs. is_owned_by (ss_key s) (sm_key m) \<and> ss_key s \<notin> seen) \<and>
     distinct (map ss_key specs) \<and> seen' = seen \<union> ss_key ` set specs \<and> sv' = add_scopes specs sv"
  by (induction m specs seen sv rule: hydrate_scopes.induct) (force simp: image_iff)+

lemma apart_iff: "(\<forall>p \<in> R. \<forall>s \<in> S p. Q p s \<and> f s \<notin> X \<union> A) \<longleftrightarrow>
    (\<forall>p \<in> R. \<forall>s \<in> S p. Q p s \<and> f s \<notin> X) \<and> A \<inter> f ` (\<Union>p \<in> R. S p) = {}"
  by blast

lemma hydrate_services_Ok_iff:
  "hydrate_services ps seen seen_services done = Ok svs \<longleftrightarrow>
     svs = done @ map hydrated ps \<and>
     distinct (map (\<lambda>p. sm_key (fst p)) ps) \<and> (\<forall>p \<in> set ps. sm_key (fst p) \<notin> seen_services) \<and>
     (\<forall>p \<in> set ps. \<forall>s \<in> set (snd p). is_owned_by (ss_key s) (sm_key (fst p)) \<and> ss_key s \<notin> seen) \<and>
     distinct (map ss_key (concat (map snd ps)))"
proof (induction ps seen seen_services "done" rule: hydrate_services.induct)
  case (1 seen seen_services registered)
  then show ?case by auto
next
  case (2 m scopes rest seen seen_services registered)
  show ?case
  proof (cases "sm_key m \<notin> seen_services \<and>
      (\<forall>s \<in> set scopes. is_owned_by (ss_key s) (sm_key m) \<and> ss_key s \<notin> seen) \<and> distinct (map ss_key scopes)")
    case True
    then have "hydrate_scopes m scopes seen (registered_new m)
        = Ok (seen \<union> ss_key ` set scopes, add_scopes scopes (registered_new m))"
      by (simp add: hydrate_scopes_Ok_iff)
    moreover have "add_scopes scopes (registered_new m) = hydrated (m, scopes)"
      by (simp add: add_scopes_def registered_new_def hydrated_def)
    moreover have "(\<forall>p \<in> set rest. \<forall>s \<in> set (snd p). is_owned_by (ss_key s) (sm_key (fst p)) \<and>
          ss_key s \<notin> seen \<union> ss_key ` set scopes) \<and> distinct (map ss_key (concat (map snd rest))) \<longleftrightarrow>
        (\<forall>p \<in> set rest. \<forall>s \<in> set (snd p). is_owned_by (ss_key s) (sm_key (fst p)) \<and> ss_key s \<notin> seen) \<and>
          distinct (map ss_key (scopes @ concat (map snd rest)))"
      unfolding apart_iff using True by (simp only: map_append distinct_append set_map set_concat
          image_image) auto
    moreover have "(\<forall>p \<in> set rest. sm_key (fst p) \<notin> insert (sm_key m) seen_services) \<longleftrightarrow>
        (\<forall>p \<in> set rest. sm_key (fst p) \<notin> seen_services) \<and> sm_key m \<notin> (\<lambda>p. sm_key (fst p)) ` set rest"
      by (force simp: image_iff)
    ultimately show ?thesis
      using True "2.IH" [of "(seen \<union> ss_key ` set scopes, hydrated (m, scopes))"] by (simp add: conj_ac)
  next
    case False
    then show ?thesis
      by (auto simp: hydrate_scopes_Ok_iff split: sum.splits)
  qed
qed

definition keys_ok :: "(service_manifest \<times> scope_spec list) list \<Rightarrow> bool" where
  "keys_ok ps \<longleftrightarrow> list_all (\<lambda>p. service_key_ok (sm_key (fst p)) \<and>
     list_all (\<lambda>s. scope_key_ok (ss_key s)) (snd p)) ps"

lemma hydrated_stored [simp]: "hydrated (rv_manifest sv, rv_scopes sv) = sv"
  by (simp add: hydrated_def)

lemma hydrate_Ok_iff:
  assumes "keys_ok ps"
  shows "hydrate v ps = Ok r \<longleftrightarrow> registry_ok r \<and> rg_version r = v \<and> stored_form r = ps"
proof
  assume "hydrate v ps = Ok r"
  then have svs: "hydrate_services ps {} {} [] = Ok (rg_services r)" and v: "rg_version r = v"
    by (auto simp: hydrate_def split: sum.splits)
  then have r: "rg_services r = map hydrated ps"
    and d: "distinct (map (\<lambda>p. sm_key (fst p)) ps)" "distinct (map ss_key (concat (map snd ps)))"
    and o: "\<And>p s. p \<in> set ps \<Longrightarrow> s \<in> set (snd p) \<Longrightarrow> is_owned_by (ss_key s) (sm_key (fst p))"
    by (auto simp: hydrate_services_Ok_iff)
  have dp: "distinct (map ss_key (snd p))" if "p \<in> set ps" for p
    using d(2) that by (induction ps) auto
  then have "service_ok (hydrated p)" if "p \<in> set ps" for p
    using that o assms by (auto simp: service_ok_def rv_key_def hydrated_def specs_of_def keys_ok_def
        list_all_iff split: prod.splits)
  moreover have "distinct (map rv_key (rg_services r))"
    using d(1) by (simp add: r rv_key_def hydrated_def comp_def)
  ultimately show "registry_ok r \<and> rg_version r = v \<and> stored_form r = ps"
    using v by (auto simp: registry_ok_def services_ok_def list_all_iff r stored_form_def hydrated_def comp_def)
next
  assume ok: "registry_ok r \<and> rg_version r = v \<and> stored_form r = ps"
  then have "ps = map (\<lambda>sv. (rv_manifest sv, rv_scopes sv)) (rg_services r)"
    by (simp add: stored_form_def)
  then have "hydrate_services ps {} {} [] = Ok (rg_services r)"
    using ok distinct_all_scopes [of "rg_services r"]
    by (auto simp: hydrate_services_Ok_iff comp_def registry_ok_def services_ok_def list_all_iff
        service_ok_def specs_of_def rv_key_def [abs_def] all_scopes_def)
  then show "hydrate v ps = Ok r"
    using ok by (simp add: hydrate_def)
qed

text \<open>hydration accepts exactly the stored forms of valid registries and gives back the
  registry that was stored; whatever else it is handed, it refuses.
\<close>

theorem hydration_exact:
  assumes "keys_ok ps"
  shows "hydrate v ps = Ok r \<longleftrightarrow> registry_ok r \<and> rg_version r = v \<and> stored_form r = ps"
  by (rule hydrate_Ok_iff [OF assms])

theorem hydration_exact_witness:
  "hydrate 3 [(sd_manifest sample_declaration, sd_scopes sample_declaration)] = Ok
     \<lparr>rg_version = 3, rg_services = [\<lparr>rv_manifest = sd_manifest sample_declaration,
        rv_scopes = sd_scopes sample_declaration\<rparr>]\<rparr>"
proof -
  have "keys_ok [(sd_manifest sample_declaration, sd_scopes sample_declaration)]"
    using sample_declaration_ok by (simp add: keys_ok_def declaration_ok_def specs_of_def list_all_iff)
  from hydration_exact [OF this] show ?thesis
    using sample_declaration_ok
    by (simp add: stored_form_def registry_ok_def service_ok_def rv_key_def declaration_ok_def)
qed

section \<open>The verdict, exactly\<close>

lemma judge_declaration_eq:
  assumes "registry_ok r"
  shows "judge_declaration c r = Some (case declare_validate c of
     Ok d \<Rightarrow> (Accepted (sm_key (sd_manifest d)) (declared_events r d), registered d r)
   | Err e \<Rightarrow> (Rejected (identity_from_raw_key (rm_key (rd_manifest (ds_raw c)))) e, r))"
proof (cases "declare_validate c")
  case (Inr d)
  then have "declaration_ok d"
    by (simp add: declare_validate_Ok_iff)
  with Inr show ?thesis
    by (simp add: judge_declaration_def register_declaration_eq [OF assms] Let_def)
qed (simp add: judge_declaration_def)

text \<open>A rejection names the service where the manifest's key is valid, and quotes it where it is not.\<close>

lemma identity_from_raw_key_eq:
  "identity_from_raw_key raw = (if key_segment_ok service_key_max_len raw
     then RejectedService (ServiceKey raw) else Unrepresentable raw)"
proof (cases "key_segment_ok service_key_max_len raw")
  case True
  then have "service_key_new raw = Ok (ServiceKey raw)"
    by (simp add: svc.mk_Ok_iff)
  with True show ?thesis
    by (simp add: identity_from_raw_key_def)
next
  case False
  then obtain e where "service_key_new raw = Err e"
    using svc.mk_Err_iff by blast
  with False show ?thesis
    by (simp add: identity_from_raw_key_def)
qed

end
