(* ===== verification/Identity_Store.thy ===== *)
theory Identity_Store
  imports Scope_Registry Fabric
begin

text \<open>
  The store of the identity context, from \<^verbatim>\<open>br-identity-app\<close>: the three tables of its
  migration, and loading and saving the registry (\<^verbatim>\<open>hydration.rs\<close>,
  \<^verbatim>\<open>repository.rs\<close>, \<^verbatim>\<open>conflict.rs\<close>, \<^verbatim>\<open>error.rs\<close>).

  A statement of PostgreSQL sees what other clients committed before it. The environment of a
  statement is a \<open>call\<close>: the fault it meets, what the others commit before it, and its time.
  Transactions run at the default level, read committed, so every statement of
  \<^verbatim>\<open>load\<close> reads its own snapshot. A save first updates the one row of the head table and
  so holds its lock until it ends: no other save takes effect between that statement and its commit
  or rollback.
\<close>

section \<open>The tables\<close>

record service_row =
  sv_label_key :: string
  sv_description_key :: string

record scope_row =
  sc_owning_service :: string
  sc_label_key :: string
  sc_description_key :: string
  sc_platform_only :: bool
  sc_registered_at :: int
  sc_last_seen_at :: int

text \<open>The version is a \<^verbatim>\<open>bigint\<close>; text is ordered bytewise.\<close>

record registry_db =
  hd_version :: "u64 option"
  db_services :: "(string, service_row) bmap"
  db_scopes :: "(string, scope_row) bmap"

definition migrated_db :: registry_db where
  "migrated_db = \<lparr>hd_version = Some 0, db_services = [], db_scopes = []\<rparr>"

section \<open>Calls\<close>

datatype sqlx_error = SqlxDatabase string | SqlxOther string

definition unique_violation :: string where "unique_violation = ''23505''"
definition check_violation :: string where "check_violation = ''23514''"

record call =
  cl_fault :: db_fault
  cl_others :: "registry_db \<Rightarrow> registry_db"
  cl_now :: int

definition calm_call :: call where
  "calm_call = \<lparr>cl_fault = NoFault, cl_others = id, cl_now = 0\<rparr>"

datatype app_error =
  AppPersistence sqlx_error
| AppHydration hydration_error
| AppPublish fabric_error
| AppMissingRegistryHead
| AppConflictRetriesExhausted nat
| AppCorruptStoredKey string

fun is_permanent :: "app_error \<Rightarrow> bool" where
  "is_permanent (AppHydration _) = True"
| "is_permanent (AppCorruptStoredKey _) = True"
| "is_permanent _ = False"

text \<open>The database and its coming calls, the broker, the number of messages built, and the errors the
  permanent-failure callback was given.\<close>

record 'b identity_world =
  iw_db :: registry_db
  iw_calls :: "call list"
  iw_bus :: 'b
  iw_tick :: nat
  iw_alarms :: "app_error list"

definition next_call :: "'b identity_world \<Rightarrow> call" where
  "next_call w = (case iw_calls w of [] \<Rightarrow> calm_call | c # _ \<Rightarrow> c)"

text \<open>The database as the next statement finds it.\<close>

definition others_db :: "'b identity_world \<Rightarrow> registry_db" where
  "others_db w = cl_others (next_call w) (iw_db w)"

type_synonym 'a statement = "registry_db \<Rightarrow> ('a \<times> registry_db, sqlx_error) result"

definition run_call :: "'a statement \<Rightarrow> registry_db \<Rightarrow> 'b identity_world
    \<Rightarrow> ('a, sqlx_error) result \<times> 'b identity_world" where
  "run_call stmt d w =
     (let c = next_call w; w1 = w\<lparr>iw_calls := tl (iw_calls w), iw_db := d\<rparr>
      in case cl_fault c of
           FailBefore e \<Rightarrow> (Err (SqlxOther e), w1)
         | f \<Rightarrow> (case stmt d of
             Err e \<Rightarrow> (Err e, w1)
           | Ok (v, d') \<Rightarrow>
               ((case f of FailAfter e \<Rightarrow> Err (SqlxOther e) | _ \<Rightarrow> Ok v), w1\<lparr>iw_db := d'\<rparr>)))"

text \<open>A statement outside the lock, and one under it.\<close>

definition open_call :: "'a statement \<Rightarrow> 'b identity_world
    \<Rightarrow> ('a, sqlx_error) result \<times> 'b identity_world" where
  "open_call stmt w = run_call stmt (others_db w) w"

definition locked_call :: "'a statement \<Rightarrow> 'b identity_world
    \<Rightarrow> ('a, sqlx_error) result \<times> 'b identity_world" where
  "locked_call stmt w = run_call stmt (iw_db w) w"

text \<open>Beginning, rolling back and the commit of a read change no row themselves.\<close>

definition no_effect :: "unit statement" where
  "no_effect d = Ok ((), d)"

text \<open>The commit of the work since \<open>saved\<close>.\<close>

definition commit_since :: "registry_db \<Rightarrow> 'b identity_world
    \<Rightarrow> (unit, sqlx_error) result \<times> 'b identity_world" where
  "commit_since saved w =
     (let w1 = w\<lparr>iw_calls := tl (iw_calls w)\<rparr> in case cl_fault (next_call w) of
        FailBefore e \<Rightarrow> (Err (SqlxOther e), w1\<lparr>iw_db := saved\<rparr>)
      | FailAfter e \<Rightarrow> (Err (SqlxOther e), w1)
      | NoFault \<Rightarrow> (Ok (), w1))"

section \<open>Hydrating from rows\<close>

type_synonym service_select = "string \<times> string \<times> string"
type_synonym scope_select = "string \<times> string \<times> string \<times> string \<times> bool"

definition parse_service_key :: "string \<Rightarrow> (service_key, app_error) result" where
  "parse_service_key s = map_err (\<lambda>_. AppCorruptStoredKey s) (service_key_new s)"

definition parse_scope_key :: "string \<Rightarrow> (scope_key, app_error) result" where
  "parse_scope_key s = map_err (\<lambda>_. AppCorruptStoredKey s) (scope_key_new s)"

type_synonym gathered = "service_key \<times> service_manifest \<times> scope_spec list"

fun gather_services :: "service_select list \<Rightarrow> (gathered list, app_error) result" where
  "gather_services [] = Ok []"
| "gather_services ((key, label, description) # rows) = (case parse_service_key key of
     Err e \<Rightarrow> Err e
   | Ok k \<Rightarrow> (case gather_services rows of
       Err e \<Rightarrow> Err e
     | Ok gs \<Rightarrow> Ok ((k, \<lparr>sm_key = k, sm_label_key = label, sm_description_key = description\<rparr>, []) # gs)))"

text \<open>The scope goes to the first service with its owner's key.\<close>

fun file_scope :: "service_key \<Rightarrow> scope_spec \<Rightarrow> gathered list \<Rightarrow> gathered list option" where
  "file_scope owner spec [] = None"
| "file_scope owner spec ((k, m, specs) # gs) =
     (if k = owner then Some ((k, m, specs @ [spec]) # gs)
      else map_option (Cons (k, m, specs)) (file_scope owner spec gs))"

fun file_scopes :: "scope_select list \<Rightarrow> gathered list \<Rightarrow> (gathered list, app_error) result" where
  "file_scopes [] gs = Ok gs"
| "file_scopes ((scope, owning, label, description, platform_only) # rows) gs =
     (case parse_scope_key scope of
        Err e \<Rightarrow> Err e
      | Ok key \<Rightarrow> (case parse_service_key owning of
          Err e \<Rightarrow> Err e
        | Ok owner \<Rightarrow>
            (case file_scope owner \<lparr>ss_key = key, ss_label_key = label, ss_description_key = description,
                ss_platform_only = platform_only\<rparr> gs of
               None \<Rightarrow> Err (AppHydration (ScopeOwnerMismatch key owner))
             | Some gs' \<Rightarrow> file_scopes rows gs')))"

definition build_hydration_input :: "service_select list \<Rightarrow> scope_select list
    \<Rightarrow> ((service_manifest \<times> scope_spec list) list, app_error) result" where
  "build_hydration_input service_rows scope_rows = (case gather_services service_rows of
     Err e \<Rightarrow> Err e
   | Ok gs \<Rightarrow> (case file_scopes scope_rows gs of
       Err e \<Rightarrow> Err e
     | Ok gs' \<Rightarrow> Ok (map snd gs')))"

section \<open>The repository: load\<close>

definition select_version :: "u64 option statement" where
  "select_version d = Ok (hd_version d, d)"

definition service_rows :: "registry_db \<Rightarrow> service_select list" where
  "service_rows d = map (\<lambda>(k, r). (k, sv_label_key r, sv_description_key r)) (db_services d)"

definition select_services :: "service_select list statement" where
  "select_services d = Ok (service_rows d, d)"

text \<open>Ordered by the owner and then by the key, in which order the rows are kept.\<close>

definition scope_rows :: "registry_db \<Rightarrow> scope_select list" where
  "scope_rows d = map (\<lambda>(k, r). (k, sc_owning_service r, sc_label_key r, sc_description_key r,
     sc_platform_only r)) (sort_key (\<lambda>(k, r). sc_owning_service r) (db_scopes d))"

definition select_scopes :: "scope_select list statement" where
  "select_scopes d = Ok (scope_rows d, d)"

definition hydrate_rows :: "u64 \<Rightarrow> service_select list \<Rightarrow> scope_select list
    \<Rightarrow> (scope_registry, app_error) result" where
  "hydrate_rows version services scopes = (case build_hydration_input services scopes of
     Err e \<Rightarrow> Err e | Ok input \<Rightarrow> map_err AppHydration (hydrate version input))"

definition load_in_tx :: "'b identity_world
    \<Rightarrow> (scope_registry \<times> u64, app_error) result \<times> 'b identity_world" where
  "load_in_tx w = (case open_call select_version w of
     (Err e, w1) \<Rightarrow> (Err (AppPersistence e), w1)
   | (Ok None, w1) \<Rightarrow> (Err AppMissingRegistryHead, w1)
   | (Ok (Some version), w1) \<Rightarrow> (case open_call select_services w1 of
       (Err e, w2) \<Rightarrow> (Err (AppPersistence e), w2)
     | (Ok services, w2) \<Rightarrow> (case open_call select_scopes w2 of
         (Err e, w3) \<Rightarrow> (Err (AppPersistence e), w3)
       | (Ok scopes, w3) \<Rightarrow> (case hydrate_rows version services scopes of
           Err e \<Rightarrow> (Err e, w3)
         | Ok registry \<Rightarrow> (Ok (registry, version), w3)))))"

definition load :: "'b identity_world
    \<Rightarrow> (scope_registry \<times> u64, app_error) result \<times> 'b identity_world" where
  "load w = (case open_call no_effect w of
     (Err e, w1) \<Rightarrow> (Err (AppPersistence e), w1)
   | (Ok _, w1) \<Rightarrow> (case load_in_tx w1 of
       (Err e, w2) \<Rightarrow> (Err e, w2)
     | (Ok loaded, w2) \<Rightarrow> (case open_call no_effect w2 of
         (Err e, w3) \<Rightarrow> (Err (AppPersistence e), w3)
       | (Ok _, w3) \<Rightarrow> (Ok loaded, w3))))"

section \<open>The repository: save\<close>

datatype save_outcome = Persisted | VersionConflict | ScopeConflict string string

definition classify_unique_violation :: "sqlx_error \<Rightarrow> string \<Rightarrow> string option" where
  "classify_unique_violation err scope_key = (case err of
     SqlxDatabase code \<Rightarrow> if code = unique_violation then Some scope_key else None
   | SqlxOther _ \<Rightarrow> None)"

text \<open>\<^verbatim>\<open>UPDATE \<dots> WHERE version = $2\<close>; the table checks that the version is not negative.\<close>

definition advance_head :: "u64 \<Rightarrow> u64 \<Rightarrow> nat statement" where
  "advance_head new loaded d =
     (if hd_version d = Some loaded
      then if sint new < 0 then Err (SqlxDatabase check_violation) else Ok (1, d\<lparr>hd_version := Some new\<rparr>)
      else Ok (0, d))"

definition insert_service :: "service_manifest \<Rightarrow> unit statement" where
  "insert_service m d = (let k = service_str (sm_key m) in
     if bm_contains (db_services d) k then Ok ((), d)
     else Ok ((), d\<lparr>db_services := bm_insert k
       \<lparr>sv_label_key = sm_label_key m, sv_description_key = sm_description_key m\<rparr> (db_services d)\<rparr>))"

text \<open>The key is the primary key; the conflict clause is for a row with the same key and owner.\<close>

definition write_scope :: "int \<Rightarrow> service_manifest \<Rightarrow> scope_spec \<Rightarrow> unit statement" where
  "write_scope now m spec d =
     (let k = scope_str (ss_key spec); owner = service_str (sm_key m) in case bm_get (db_scopes d) k of
        None \<Rightarrow> Ok ((), d\<lparr>db_scopes := bm_insert k \<lparr>sc_owning_service = owner,
            sc_label_key = ss_label_key spec, sc_description_key = ss_description_key spec,
            sc_platform_only = ss_platform_only spec, sc_registered_at = now, sc_last_seen_at = now\<rparr>
            (db_scopes d)\<rparr>)
      | Some row \<Rightarrow> if sc_owning_service row = owner
          then Ok ((), d\<lparr>db_scopes := bm_insert k (row\<lparr>sc_last_seen_at := now\<rparr>) (db_scopes d)\<rparr>)
          else Err (SqlxDatabase unique_violation))"

fun write_scopes :: "int \<Rightarrow> service_manifest \<Rightarrow> scope_spec list \<Rightarrow> 'b identity_world
    \<Rightarrow> ((unit, string) result, app_error) result \<times> 'b identity_world" where
  "write_scopes now m [] w = (Ok (Ok ()), w)"
| "write_scopes now m (spec # specs) w = (case locked_call (write_scope now m spec) w of
     (Err err, w1) \<Rightarrow> (case classify_unique_violation err (scope_str (ss_key spec)) of
         Some key \<Rightarrow> (Ok (Err key), w1)
       | None \<Rightarrow> (Err (AppPersistence err), w1))
   | (Ok _, w1) \<Rightarrow> write_scopes now m specs w1)"

definition write_service :: "int \<Rightarrow> registered_service \<Rightarrow> 'b identity_world
    \<Rightarrow> ((unit, string) result, app_error) result \<times> 'b identity_world" where
  "write_service now sv w = (case locked_call (insert_service (rv_manifest sv)) w of
     (Err e, w1) \<Rightarrow> (Err (AppPersistence e), w1)
   | (Ok _, w1) \<Rightarrow> write_scopes now (rv_manifest sv) (rv_scopes sv) w1)"

fun write_services :: "int \<Rightarrow> registered_service list \<Rightarrow> 'b identity_world
    \<Rightarrow> ((unit, string) result, app_error) result \<times> 'b identity_world" where
  "write_services now [] w = (Ok (Ok ()), w)"
| "write_services now (sv # svs) w = (case write_service now sv w of
     (Ok (Ok _), w1) \<Rightarrow> write_services now svs w1
   | (r, w1) \<Rightarrow> (r, w1))"

definition select_owner :: "string \<Rightarrow> string option statement" where
  "select_owner k d = Ok (map_option sc_owning_service (bm_get (db_scopes d) k), d)"

definition classify_scope_conflict :: "string \<Rightarrow> 'b identity_world
    \<Rightarrow> (save_outcome, app_error) result \<times> 'b identity_world" where
  "classify_scope_conflict key w = (case open_call (select_owner key) w of
     (Err e, w1) \<Rightarrow> (Err (AppPersistence e), w1)
   | (Ok (Some owner), w1) \<Rightarrow> (Ok (ScopeConflict key owner), w1)
   | (Ok None, w1) \<Rightarrow> (Ok VersionConflict, w1))"

text \<open>
  The writes under the lock, which ends with the commit, with the rollback, or with the rollback of a
  dropped transaction; \<open>saved\<close> is the database the head update found.
\<close>

definition save_locked :: "int \<Rightarrow> scope_registry \<Rightarrow> registry_db \<Rightarrow> 'b identity_world
    \<Rightarrow> (save_outcome, app_error) result \<times> 'b identity_world" where
  "save_locked now r saved w = (case write_services now (rg_services r) w of
     (Err e, w1) \<Rightarrow> (Err e, w1\<lparr>iw_db := saved\<rparr>)
   | (Ok (Err conflict), w1) \<Rightarrow> (case locked_call no_effect (w1\<lparr>iw_db := saved\<rparr>) of
       (Err e, w2) \<Rightarrow> (Err (AppPersistence e), w2)
     | (Ok _, w2) \<Rightarrow> classify_scope_conflict conflict w2)
   | (Ok (Ok _), w1) \<Rightarrow> (case commit_since saved w1 of
       (Err e, w2) \<Rightarrow> (Err (AppPersistence e), w2)
     | (Ok _, w2) \<Rightarrow> (Ok Persisted, w2)))"

definition save_missed :: "'b identity_world \<Rightarrow> (save_outcome, app_error) result \<times> 'b identity_world" where
  "save_missed w = (case open_call select_version w of
     (Err e, w1) \<Rightarrow> (Err (AppPersistence e), w1)
   | (Ok head_exists, w1) \<Rightarrow> (case open_call no_effect w1 of
       (Err e, w2) \<Rightarrow> (Err (AppPersistence e), w2)
     | (Ok _, w2) \<Rightarrow> (case head_exists of
         Some _ \<Rightarrow> (Ok VersionConflict, w2)
       | None \<Rightarrow> (Err AppMissingRegistryHead, w2))))"

text \<open>\<^verbatim>\<open>now()\<close> is the time at which the transaction began.\<close>

definition save :: "scope_registry \<Rightarrow> u64 \<Rightarrow> 'b identity_world
    \<Rightarrow> (save_outcome, app_error) result \<times> 'b identity_world" where
  "save r loaded w = (let now = cl_now (next_call w) in case open_call no_effect w of
     (Err e, w1) \<Rightarrow> (Err (AppPersistence e), w1)
   | (Ok _, w1) \<Rightarrow>
       (let saved = others_db w1 in case open_call (advance_head (rg_version r) loaded) w1 of
          (Err e, w2) \<Rightarrow> (Err (AppPersistence e), w2\<lparr>iw_db := saved\<rparr>)
        | (Ok advanced, w2) \<Rightarrow> if advanced = 0 then save_missed w2 else save_locked now r saved w2))"

end
