(* ===== verification/Identity_Pipeline.thy ===== *)
theory Identity_Pipeline
  imports Identity_Store Consumer_Loop
begin

text \<open>
  Answering declarations, from \<^verbatim>\<open>br-identity-app\<close>: the confirmations
  (\<^verbatim>\<open>publisher.rs\<close>) on the coordinates that
  \<^verbatim>\<open>br-scope-declaration-contract\<close> fixes, the load, judge, save and confirm pipeline
  with its bounded retry (\<^verbatim>\<open>pipeline.rs\<close>) and the durable consumer around it
  (\<^verbatim>\<open>consumer.rs\<close>).
\<close>

section \<open>The contract\<close>

definition contract_bc :: string where "contract_bc = ''identity''"
definition contract_aggregate :: string where "contract_aggregate = ''service_scope''"
definition contract_version :: u8 where "contract_version = 1"
definition contract_command_name :: string where "contract_command_name = ''declare''"
definition contract_accepted :: string where "contract_accepted = ''accepted''"
definition contract_rejected :: string where "contract_rejected = ''rejected''"
definition unrepresentable_service :: string where
  "unrepresentable_service = ''unrepresentable_service''"

lemmas contract_defs = contract_bc_def contract_aggregate_def contract_version_def
  contract_command_name_def contract_accepted_def contract_rejected_def unrepresentable_service_def

definition declare_command_coords :: "(command_coords, coord_error) result" where
  "declare_command_coords = and_then (bc_new contract_bc) (\<lambda>receiver.
     and_then (aggregate_new contract_aggregate) (\<lambda>agg.
     and_then (verb_new contract_command_name) (\<lambda>verb.
       Ok \<lparr>cmd_receiver = receiver, cmd_aggregate = agg, cmd_verb = verb, cmd_version = contract_version\<rparr>)))"

definition contract_event_coords :: "string \<Rightarrow> (event_coords, coord_error) result" where
  "contract_event_coords name = and_then (bc_new contract_bc) (\<lambda>producer.
     and_then (aggregate_new contract_aggregate) (\<lambda>agg.
     and_then (past_fact_new name) (\<lambda>f.
       Ok \<lparr>evt_producer = producer, evt_aggregate = agg, evt_fact = f, evt_version = contract_version\<rparr>)))"

definition accepted_event_coords :: "(event_coords, coord_error) result" where
  "accepted_event_coords = contract_event_coords contract_accepted"

definition rejected_event_coords :: "(event_coords, coord_error) result" where
  "rejected_event_coords = contract_event_coords contract_rejected"

definition command_type :: string where
  "command_type = contract_aggregate @ ''.'' @ contract_command_name"

definition event_type :: "string \<Rightarrow> string" where
  "event_type name = contract_aggregate @ ''.'' @ name"

text \<open>\<^verbatim>\<open>expect\<close> on a result that is always \<open>Ok\<close>.\<close>

definition contract_coords :: "string \<Rightarrow> event_coords" where
  "contract_coords name = \<lparr>evt_producer = Bc ''identity'', evt_aggregate = Aggregate ''service_scope'',
     evt_fact = PastFact name, evt_version = 1\<rparr>"

definition declare_coords :: command_coords where
  "declare_coords = \<lparr>cmd_receiver = Bc ''identity'', cmd_aggregate = Aggregate ''service_scope'',
     cmd_verb = Verb ''declare'', cmd_version = 1\<rparr>"

lemma contract_segments [simp]:
  "bc_new ''identity'' = Ok (Bc ''identity'')"
  "aggregate_new ''service_scope'' = Ok (Aggregate ''service_scope'')"
  "past_fact_new ''accepted'' = Ok (PastFact ''accepted'')"
  "past_fact_new ''rejected'' = Ok (PastFact ''rejected'')"
  "verb_new ''declare'' = Ok (Verb ''declare'')"
  by (simp_all add: bc_new_def aggregate_new_def past_fact_new_def verb_new_def validate_segment_def
      segment_char_def ascii_defs)

lemma contract_coords_valid:
  "accepted_event_coords = Ok (contract_coords contract_accepted)"
  "rejected_event_coords = Ok (contract_coords contract_rejected)"
  "declare_command_coords = Ok declare_coords"
  by (simp_all add: accepted_event_coords_def rejected_event_coords_def declare_command_coords_def
      contract_event_coords_def contract_coords_def declare_coords_def contract_defs)

section \<open>Confirmations\<close>

text \<open>The fabric's client and serializers, and the fresh identifier and time of each message.\<close>

record 'b pipeline =
  pl_context :: "'b jet_context"
  pl_accepted_vec :: "scopes_accepted integration_event \<Rightarrow> (string, string) result"
  pl_rejected_vec :: "scopes_rejected integration_event \<Rightarrow> (string, string) result"
  pl_stamp :: "nat \<Rightarrow> uuid \<times> int"

type_synonym declare_command = "declare_service_scopes integration_command"

definition confirmation :: "'b pipeline \<Rightarrow> string \<Rightarrow> declare_command \<Rightarrow> 'p \<Rightarrow> nat \<Rightarrow> 'p integration_event" where
  "confirmation pl name command payload tick =
     (let metadata = with_causation (ic_command_id command)
            (metadata_new (md_actor (ic_metadata command)) (md_correlation_id (ic_metadata command)));
          (i, at) = pl_stamp pl tick
      in integration_event_new i (event_type name) contract_version at metadata payload)"

definition publish_confirmation :: "'b pipeline \<Rightarrow> ('p integration_event \<Rightarrow> (string, string) result)
    \<Rightarrow> string \<Rightarrow> declare_command \<Rightarrow> 'p \<Rightarrow> 'b identity_world
    \<Rightarrow> (unit, app_error) result \<times> 'b identity_world" where
  "publish_confirmation pl to_vec name command payload w =
     (let event = confirmation pl name command payload (iw_tick w);
          w1 = w\<lparr>iw_tick := iw_tick w + 1\<rparr>
      in case publish_event (pl_context pl) to_vec (contract_coords name) event (iw_bus w1) of
           (r, b) \<Rightarrow> (map_err AppPublish r, w1\<lparr>iw_bus := b\<rparr>))"

definition publish_accepted :: "'b pipeline \<Rightarrow> declare_command \<Rightarrow> service_key \<Rightarrow> 'b identity_world
    \<Rightarrow> (unit, app_error) result \<times> 'b identity_world" where
  "publish_accepted pl command service w =
     publish_confirmation pl (pl_accepted_vec pl) contract_accepted command \<lparr>sa_service = service\<rparr> w"

definition publish_rejected :: "'b pipeline \<Rightarrow> declare_command \<Rightarrow> service_key \<Rightarrow> declaration_error
    \<Rightarrow> 'b identity_world \<Rightarrow> (unit, app_error) result \<times> 'b identity_world" where
  "publish_rejected pl command service reason w =
     publish_confirmation pl (pl_rejected_vec pl) contract_rejected command
       \<lparr>sr_service = service, sr_reason = reason\<rparr> w"

section \<open>The pipeline\<close>

definition max_attempts_declare :: nat where "max_attempts_declare = 5"

text \<open>The sentinel is a valid service key (\<open>unrepresentable_valid\<close>).\<close>

fun reply_service :: "rejected_identity \<Rightarrow> service_key" where
  "reply_service (RejectedService service) = service"
| "reply_service (Unrepresentable _) = ServiceKey unrepresentable_service"

lemma unrepresentable_valid:
  "service_key_new unrepresentable_service = Ok (ServiceKey unrepresentable_service)"
  by (simp add: svc.mk_Ok_iff key_eval contract_defs)

definition reject :: "'b pipeline \<Rightarrow> declare_command \<Rightarrow> rejected_identity \<Rightarrow> declaration_error
    \<Rightarrow> 'b identity_world \<Rightarrow> (declaration_outcome, app_error) result \<times> 'b identity_world" where
  "reject pl command identity reason w =
     (case publish_rejected pl command (reply_service identity) reason w of
        (Err e, w1) \<Rightarrow> (Err e, w1) | (Ok _, w1) \<Rightarrow> (Ok (Rejected identity reason), w1))"

text \<open>The attempts left to a declaration. \<open>None\<close> is the panic of the judgement, which cannot happen.\<close>

fun handle_attempts :: "'b pipeline \<Rightarrow> declare_command \<Rightarrow> nat \<Rightarrow> 'b identity_world
    \<Rightarrow> (declaration_outcome, app_error) result option \<times> 'b identity_world" where
  "handle_attempts pl command 0 w = (Some (Err (AppConflictRetriesExhausted max_attempts_declare)), w)"
| "handle_attempts pl command (Suc n) w = (case load w of
     (Err e, w1) \<Rightarrow> (Some (Err e), w1)
   | (Ok (registry, loaded_version), w1) \<Rightarrow>
       (case judge_declaration (ic_payload command) registry of
          None \<Rightarrow> (None, w1)
        | Some (Rejected identity reason, _) \<Rightarrow>
            (case reject pl command identity reason w1 of (r, w2) \<Rightarrow> (Some r, w2))
        | Some (Accepted service result, registry') \<Rightarrow>
            (case save registry' loaded_version w1 of
               (Err e, w2) \<Rightarrow> (Some (Err e), w2)
             | (Ok Persisted, w2) \<Rightarrow> (case publish_accepted pl command service w2 of
                 (Err e, w3) \<Rightarrow> (Some (Err e), w3)
               | (Ok _, w3) \<Rightarrow> (Some (Ok (Accepted service result)), w3))
             | (Ok VersionConflict, w2) \<Rightarrow> handle_attempts pl command n w2
             | (Ok (ScopeConflict key owner), w2) \<Rightarrow>
                 (case reject pl command (RejectedService service) (ScopeOwnedByAnotherService key owner) w2 of
                    (r, w3) \<Rightarrow> (Some r, w3)))))"

definition pipeline_handle :: "'b pipeline \<Rightarrow> declare_command \<Rightarrow> 'b identity_world
    \<Rightarrow> (declaration_outcome, app_error) result option \<times> 'b identity_world" where
  "pipeline_handle pl command w = handle_attempts pl command max_attempts_declare w"

section \<open>The consumer\<close>

definition nak_delay :: duration where "nak_delay = from_secs 5"

definition handle_delivery :: "'b pipeline \<Rightarrow> declare_command \<Rightarrow> 'b identity_world
    \<Rightarrow> message_outcome option \<times> 'b identity_world" where
  "handle_delivery pl command w = (case pipeline_handle pl command w of
     (None, w1) \<Rightarrow> (None, w1)
   | (Some (Ok _), w1) \<Rightarrow> (Some OAck, w1)
   | (Some (Err e), w1) \<Rightarrow>
       (Some (ONak (Some nak_delay)),
        if is_permanent e then w1\<lparr>iw_alarms := iw_alarms w1 @ [e]\<rparr> else w1))"

text \<open>The handler given to the managed consumer; a delivery it did not answer is not reached
  (\<open>handle_never_panics\<close>).\<close>

definition declaration_handler :: "'b pipeline \<Rightarrow> declare_command delivery \<Rightarrow> 'b identity_world
    \<Rightarrow> message_outcome \<times> 'b identity_world" where
  "declaration_handler pl d w = (case handle_delivery pl (dv_envelope d) w of
     (Some oc, w1) \<Rightarrow> (oc, w1) | (None, w1) \<Rightarrow> (ONak None, w1))"

definition run_scope_declarations where
  "run_scope_declarations ja from_slice fuel coords durable pl on_poison w b =
     (case run_commands ja from_slice fuel coords durable (declaration_handler pl) on_poison w b of
        (r, w', b') \<Rightarrow> (map_option (map_err AppPublish) r, w', b'))"

end
