(* ===== verification/Handshake.thy ===== *)
theory Handshake
  imports Scope_Wire Identity_Pipeline
begin

text \<open>
  A service announces its scopes when it starts and is ready once they are accepted: the readiness
  gate (\<^verbatim>\<open>br-util-axum-readiness\<close>), the correlated awaiter
  (\<^verbatim>\<open>br-util-nats-fabric/src/awaiter.rs\<close>) and the handshake
  (\<^verbatim>\<open>br-util-scope-declaration\<close>).
\<close>

section \<open>Readiness\<close>

datatype readiness = Ready | NotReady string

fun is_ready :: "readiness \<Rightarrow> bool" where
  "is_ready Ready = True"
| "is_ready (NotReady _) = False"

definition handle_ready :: readiness where "handle_ready = Ready"
definition handle_not_ready :: "string \<Rightarrow> readiness" where "handle_not_ready reason = NotReady reason"

text \<open>The handle's state is its one cell; a change tells whether it is announced in the log.\<close>

definition set_ready :: "readiness \<Rightarrow> bool \<times> readiness" where
  "set_ready r = (\<not> is_ready r, Ready)"

definition set_not_ready :: "string \<Rightarrow> readiness \<Rightarrow> bool \<times> readiness" where
  "set_not_ready reason r = (case r of Ready \<Rightarrow> True | NotReady prev \<Rightarrow> prev \<noteq> reason, NotReady reason)"

definition readiness_path :: string where "readiness_path = ''/readyz''"

text \<open>Status and body of a probe.\<close>

fun readiness_route :: "readiness \<Rightarrow> nat \<times> string" where
  "readiness_route Ready = (200, ''ready'')"
| "readiness_route (NotReady reason) = (503, reason)"

text \<open>The requests of a method on a path that the router answers; the others go to the service's.\<close>

definition readiness_router :: "string \<Rightarrow> readiness \<Rightarrow> (nat \<times> string) option" where
  "readiness_router path r = (if path = readiness_path then Some (readiness_route r) else None)"

section \<open>The correlated awaiter\<close>

text \<open>
  The messages of the core subscriptions come one by one, with the timer of the wait among them; the
  script of what comes next is the environment's. A wait that has used up its script is still
  waiting.
\<close>

datatype arrival = Arrived string string | Deadline | Closed

record correlated_match =
  cm_subject :: string
  cm_metadata :: event_metadata
  cm_payload :: string

definition probe_decoder :: "wire_codec \<Rightarrow> event_metadata decoder" where
  "probe_decoder c v = and_then (struct_fields [''metadata''] v) (required (metadata_decoder c) ''metadata'')"

fun await_correlation :: "(string \<Rightarrow> (event_metadata, string) result) \<Rightarrow> uuid \<Rightarrow> arrival list
    \<Rightarrow> (correlated_match option, fabric_error) result option \<times> arrival list" where
  "await_correlation probe correlation [] = (None, [])"
| "await_correlation probe correlation (Deadline # as) = (Some (Ok None), as)"
| "await_correlation probe correlation (Closed # as) =
     (Some (Err (FabConsume ConConsumerGone ''awaiter subscription ended (NATS connection closed)'')), as)"
| "await_correlation probe correlation (Arrived subject payload # as) = (case probe payload of
     Err _ \<Rightarrow> await_correlation probe correlation as
   | Ok metadata \<Rightarrow> if md_correlation_id metadata = correlation
       then (Some (Ok (Some \<lparr>cm_subject = subject, cm_metadata = metadata, cm_payload = payload\<rparr>)), as)
       else await_correlation probe correlation as)"

lemma await_shorter:
  "await_correlation probe correlation as = (Some r, as') \<Longrightarrow> length as' < length as"
  by (induction probe correlation as rule: await_correlation.induct) (auto split: sum.splits if_splits)

text \<open>The streams and subscriptions of the client, over the state of the broker.\<close>

record 'b core_client =
  co_get_stream :: "string \<Rightarrow> 'b \<Rightarrow> (string list, jetstream_kind \<times> string) result"
  co_subscribe :: "string \<Rightarrow> 'b \<Rightarrow> (unit, string) result \<times> 'b"

fun subscribe_all :: "'b core_client \<Rightarrow> string list \<Rightarrow> 'b \<Rightarrow> (unit, fabric_error) result \<times> 'b" where
  "subscribe_all co [] b = (Ok (), b)"
| "subscribe_all co (subject # subjects) b = (case co_subscribe co subject b of
     (Err e, b1) \<Rightarrow> (Err (FabConsume ConOther e), b1)
   | (Ok _, b1) \<Rightarrow> subscribe_all co subjects b1)"

definition await_on_stream :: "'b core_client \<Rightarrow> string \<Rightarrow> string list \<Rightarrow> 'b
    \<Rightarrow> (unit, fabric_error) result \<times> 'b" where
  "await_on_stream co stream subjects b = (case co_get_stream co stream b of
     Err (kind, e) \<Rightarrow> (Err (FabConsume (classify_get_stream kind) e), b)
   | Ok _ \<Rightarrow> subscribe_all co subjects b)"

definition await_events :: "'b core_client \<Rightarrow> event_coords list \<Rightarrow> 'b \<Rightarrow> (unit, fabric_error) result \<times> 'b" where
  "await_events co coords b = await_on_stream co integration_evt (map event_subject coords) b"

definition await_event where "await_event co coords b = await_events co [coords] b"

definition await_commands :: "'b core_client \<Rightarrow> command_coords list \<Rightarrow> 'b \<Rightarrow> (unit, fabric_error) result \<times> 'b" where
  "await_commands co coords b = await_on_stream co integration_cmd (map command_subject coords) b"

definition await_command where "await_command co coords b = await_commands co [coords] b"

section \<open>The handshake\<close>

record declaration_config =
  dc_enabled :: bool
  dc_wait_timeout :: duration

definition default_wait_timeout :: duration where "default_wait_timeout = from_secs 10"

definition config_enabled :: declaration_config where
  "config_enabled = \<lparr>dc_enabled = True, dc_wait_timeout = default_wait_timeout\<rparr>"

definition config_disabled :: declaration_config where
  "config_disabled = config_enabled\<lparr>dc_enabled := False\<rparr>"

datatype handshake_outcome = ScopesAccepted | ScopesRejected scopes_rejected | ScopesDisabled

fun outcome_is_ready :: "handshake_outcome \<Rightarrow> bool" where
  "outcome_is_ready ScopesAccepted = True"
| "outcome_is_ready ScopesDisabled = True"
| "outcome_is_ready (ScopesRejected _) = False"

record declaration_coords =
  dco_declare :: command_coords
  dco_accepted :: event_coords
  dco_rejected :: event_coords
  dco_accepted_subject :: string

definition declaration_coords_build :: declaration_coords where
  "declaration_coords_build = \<lparr>dco_declare = declare_coords,
     dco_accepted = contract_coords contract_accepted, dco_rejected = contract_coords contract_rejected,
     dco_accepted_subject = event_subject (contract_coords contract_accepted)\<rparr>"

definition confirmation_coords :: "declaration_coords \<Rightarrow> event_coords list" where
  "confirmation_coords dc = [dco_accepted dc, dco_rejected dc]"

text \<open>
  The client, the serializers, the name-based identifiers of the \<^verbatim>\<open>uuid\<close> crate, and the
  identifiers and time that are fresh at the start.
\<close>

record 'b handshake_env =
  he_context :: "'b jet_context"
  he_client :: "'b core_client"
  he_command_vec :: "declare_command \<Rightarrow> (string, string) result"
  he_probe :: "string \<Rightarrow> (event_metadata, string) result"
  he_rejected :: "string \<Rightarrow> (scopes_rejected integration_event, string) result"
  he_uuid_v5 :: "uuid \<Rightarrow> string \<Rightarrow> uuid"
  he_correlation :: uuid
  he_command_id :: uuid
  he_now :: int

definition declaring_service_namespace :: uuid where
  "declaring_service_namespace = 0x6f3a1c8e4b274d599e10a3f277c58d41"

definition declaring_actor :: "(uuid \<Rightarrow> string \<Rightarrow> uuid) \<Rightarrow> service_key \<Rightarrow> actor" where
  "declaring_actor uuid_v5 service =
     Service (ServiceAccountId (uuid_v5 declaring_service_namespace (service_str service)))"

definition build_command :: "'b handshake_env \<Rightarrow> service_key \<Rightarrow> uuid \<Rightarrow> scope_declaration \<Rightarrow> declare_command" where
  "build_command he service correlation declaration =
     integration_command_new (he_command_id he) command_type contract_version (he_now he)
       (metadata_new (declaring_actor (he_uuid_v5 he) service) correlation) (declare_new declaration)"

definition resolve_match :: "'b handshake_env \<Rightarrow> declaration_coords \<Rightarrow> correlated_match \<Rightarrow> readiness
    \<Rightarrow> handshake_outcome option \<times> readiness" where
  "resolve_match he coords matched r =
     (if cm_subject matched = dco_accepted_subject coords
      then (Some ScopesAccepted, snd (set_ready r))
      else (case he_rejected he (cm_payload matched) of
          Err _ \<Rightarrow> (None, r)
        | Ok event \<Rightarrow> (let reason = ie_payload event in
            (Some (ScopesRejected reason), snd (set_not_ready
               (''scope declaration rejected: '' @ declaration_error_code (sr_reason reason)) r)))))"

text \<open>One round publishes, whatever comes of it, and waits. \<open>None\<close> is a handshake that still runs when
  its script ends.\<close>

function handshake_loop :: "'b handshake_env \<Rightarrow> declaration_coords \<Rightarrow> declare_command \<Rightarrow> arrival list
    \<Rightarrow> readiness \<Rightarrow> 'b \<Rightarrow> (handshake_outcome, fabric_error) result option \<times> readiness \<times> 'b" where
  "handshake_loop he coords command as r b =
     (case publish_command (he_context he) (he_command_vec he) (dco_declare coords) command b of
        (_, b1) \<Rightarrow> (case await_correlation (he_probe he) (he_correlation he) as of
           (None, _) \<Rightarrow> (None, r, b1)
         | (Some (Err e), _) \<Rightarrow> (Some (Err e), r, b1)
         | (Some (Ok None), as') \<Rightarrow> handshake_loop he coords command as' r b1
         | (Some (Ok (Some matched)), as') \<Rightarrow> (case resolve_match he coords matched r of
               (Some oc, r') \<Rightarrow> (Some (Ok oc), r', b1)
             | (None, r') \<Rightarrow> handshake_loop he coords command as' r' b1)))"
  by pat_completeness auto

termination
  by (relation "measure (\<lambda>(he, coords, command, as, r, b). length as)") (auto dest!: await_shorter [OF sym])

declare handshake_loop.simps [simp del]

definition declare_scopes :: "'b handshake_env \<Rightarrow> scope_declaration \<Rightarrow> declaration_config \<Rightarrow> arrival list
    \<Rightarrow> readiness \<Rightarrow> 'b \<Rightarrow> (handshake_outcome, fabric_error) result option \<times> readiness \<times> 'b" where
  "declare_scopes he declaration config as r b =
     (let service = sm_key (sd_manifest declaration) in
      if \<not> dc_enabled config then (Some (Ok ScopesDisabled), snd (set_ready r), b)
      else let coords = declaration_coords_build in
        case await_events (he_client he) (confirmation_coords coords) b of
          (Err e, b1) \<Rightarrow> (Some (Err e), r, b1)
        | (Ok _, b1) \<Rightarrow> handshake_loop he coords (build_command he service (he_correlation he) declaration) as r b1)"

end
