(* ===== verification/Identity_Valid.thy ===== *)
theory Identity_Valid
  imports Identity_Pipeline
begin

text \<open>
  The stores of the scope registry that are valid, and what loading one gives: exactly the registry
  its rows describe, never an error.
\<close>

section \<open>Valid stores\<close>

definition db_ok :: "registry_db \<Rightarrow> bool" where
  "db_ok d \<longleftrightarrow> (\<exists>v. hd_version d = Some v \<and> 0 \<le> sint v) \<and>
     bm_ok (db_services d) \<and> bm_ok (db_scopes d) \<and>
     (\<forall>k \<in> fst ` set (db_services d). key_segment_ok service_key_max_len k) \<and>
     (\<forall>(k, row) \<in> set (db_scopes d). sc_owning_service row \<in> fst ` set (db_services d) \<and>
        (\<exists>key. scope_key_ok key \<and> scope_str key = k \<and> service_segment key = sc_owning_service row))"

definition manifest_of :: "service_key \<Rightarrow> service_row \<Rightarrow> service_manifest" where
  "manifest_of k row = \<lparr>sm_key = k, sm_label_key = sv_label_key row,
     sm_description_key = sv_description_key row\<rparr>"

definition spec_of :: "scope_key \<Rightarrow> scope_row \<Rightarrow> scope_spec" where
  "spec_of k row = \<lparr>ss_key = k, ss_label_key = sc_label_key row,
     ss_description_key = sc_description_key row, ss_platform_only = sc_platform_only row\<rparr>"

text \<open>The registry a valid store holds.\<close>

definition holds :: "registry_db \<Rightarrow> scope_registry \<Rightarrow> bool" where
  "holds d r \<longleftrightarrow> registry_ok r \<and> hd_version d = Some (rg_version r) \<and>
     (\<forall>k. service_at r (ServiceKey k) =
        map_option (manifest_of (ServiceKey k)) (bm_get (db_services d) k)) \<and>
     (\<forall>k. scope_at r k = (if scope_key_ok k then map_option (spec_of k) (bm_get (db_scopes d) (scope_str k))
        else None))"

section \<open>Loading a valid store\<close>

definition the_scope_key :: "string \<Rightarrow> scope_key" where
  "the_scope_key k = ScopeKey k (length (takeWhile (\<lambda>c. c \<noteq> CHR '':'') k))"

lemma the_scope_key: "scope_key_ok key \<Longrightarrow> the_scope_key (scope_str key) = key"
proof -
  assume ok: "scope_key_ok key"
  then have "CHR '':'' \<notin> set (service_segment key)"
    by (auto simp: scope_key_ok_def dest: key_segment_no_colon)
  then have "takeWhile (\<lambda>c. c \<noteq> CHR '':'') (service_segment key @ CHR '':'' # capability_segment key)
      = service_segment key"
    by (subst takeWhile_append2) auto
  then have "takeWhile (\<lambda>c. c \<noteq> CHR '':'') (scope_str key) = service_segment key"
    using ok by (simp add: scope_key_ok_def)
  then show "the_scope_key (scope_str key) = key"
    using ok by (auto simp: the_scope_key_def scope_key_ok_def intro: scope_key.expand)
qed

lemma gather_services_ok:
  "\<forall>k \<in> fst ` set svs. key_segment_ok service_key_max_len k \<Longrightarrow>
   gather_services (map (\<lambda>(k, r). (k, sv_label_key r, sv_description_key r)) svs) =
     Ok (map (\<lambda>(k, r). (ServiceKey k, manifest_of (ServiceKey k) r, [])) svs)"
proof (induction svs)
  case (Cons p svs)
  obtain k r where p: "p = (k, r)" by (cases p)
  have "service_key_new k = Ok (ServiceKey k)"
    using Cons.prems by (simp add: p svc.mk_Ok_iff)
  then show ?case
    using Cons by (simp add: p parse_service_key_def manifest_of_def)
qed simp

definition file_all :: "(string \<times> scope_row) list \<Rightarrow> gathered list \<Rightarrow> gathered list" where
  "file_all rows gs = map (\<lambda>(k, m, specs). (k, m, specs @
     map (\<lambda>(s, row). spec_of (the_scope_key s) row)
       (filter (\<lambda>(s, row). sc_owning_service row = service_str k) rows))) gs"

lemma file_scope_eq:
  "owner \<in> fst ` set gs \<Longrightarrow> distinct (map fst gs) \<Longrightarrow>
   file_scope owner spec gs = Some (map (\<lambda>(k, m, specs). (k, m, if k = owner then specs @ [spec] else specs)) gs)"
proof (induction gs)
  case (Cons g gs)
  obtain k m specs where g: "g = (k, m, specs)" by (cases g)
  show ?case
  proof (cases "k = owner")
    case True
    then have "map (\<lambda>(k, m, specs). (k, m, if k = owner then specs @ [spec] else specs)) gs = gs"
      using Cons.prems by (intro map_idI) (auto simp: g image_iff)
    then show ?thesis
      using True by (simp add: g)
  next
    case False
    then show ?thesis
      using Cons by (simp add: g)
  qed
qed simp

lemma file_scopes_ok:
  assumes "distinct (map fst gs)"
    and "\<forall>(k, row) \<in> set rows. ServiceKey (sc_owning_service row) \<in> set (map fst gs) \<and>
        key_segment_ok service_key_max_len (sc_owning_service row) \<and>
        (\<exists>key. scope_key_ok key \<and> scope_str key = k)"
  shows "file_scopes (map (\<lambda>(k, r). (k, sc_owning_service r, sc_label_key r, sc_description_key r,
     sc_platform_only r)) rows) gs = Ok (file_all rows gs)"
  using assms
proof (induction rows arbitrary: gs)
  case Nil
  then show ?case by (simp add: file_all_def case_prod_beta)
next
  case (Cons p rows)
  obtain k row where p: "p = (k, row)" by (cases p)
  from Cons.prems(2) obtain key where key: "scope_key_ok key" "scope_str key = k"
    by (auto simp: p)
  have owner: "service_key_new (sc_owning_service row) = Ok (ServiceKey (sc_owning_service row))"
    using Cons.prems(2) by (simp add: p svc.mk_Ok_iff)
  have new: "scope_key_new k = Ok key"
    using key by (simp add: scope_key_new_Ok_iff)
  define gs' where "gs' = map (\<lambda>(k, m, specs). (k, m, if k = ServiceKey (sc_owning_service row)
      then specs @ [spec_of key row] else specs)) gs"
  have keys: "map fst gs' = map fst gs"
    by (simp add: gs'_def case_prod_beta comp_def)
  have "file_scope (ServiceKey (sc_owning_service row)) (spec_of key row) gs = Some gs'"
    unfolding gs'_def using Cons.prems by (intro file_scope_eq) (simp_all add: p)
  moreover have "file_scopes (map (\<lambda>(k, r). (k, sc_owning_service r, sc_label_key r, sc_description_key r,
     sc_platform_only r)) rows) gs' = Ok (file_all rows gs')"
  proof (rule Cons.IH)
    show "distinct (map fst gs')"
      using Cons.prems(1) by (simp add: keys)
    show "\<forall>(k, row) \<in> set rows. ServiceKey (sc_owning_service row) \<in> set (map fst gs') \<and>
        key_segment_ok service_key_max_len (sc_owning_service row) \<and>
        (\<exists>key. scope_key_ok key \<and> scope_str key = k)"
      unfolding keys using Cons.prems(2) by simp
  qed
  moreover have "file_all rows gs' = file_all (p # rows) gs"
    using key by (auto simp: gs'_def file_all_def p the_scope_key [OF key(1)])
  ultimately show ?case
    by (simp add: p parse_scope_key_def parse_service_key_def owner new spec_of_def)
qed

definition specs_in :: "(string \<times> scope_row) list \<Rightarrow> string \<Rightarrow> scope_spec list" where
  "specs_in rows k = map (\<lambda>(s, row). spec_of (the_scope_key s) row)
     (filter (\<lambda>(s, row). sc_owning_service row = k) rows)"

definition store_input :: "registry_db \<Rightarrow> (service_manifest \<times> scope_spec list) list" where
  "store_input d = map (\<lambda>(k, r). (manifest_of (ServiceKey k) r,
     specs_in (sort_key (\<lambda>(k, r). sc_owning_service r) (db_scopes d)) k)) (db_services d)"

lemma db_okD:
  assumes "db_ok d"
  shows "bm_ok (db_services d)" "bm_ok (db_scopes d)"
    "distinct (map fst (db_services d))" "distinct (map fst (db_scopes d))"
    "\<And>k. k \<in> fst ` set (db_services d) \<Longrightarrow> key_segment_ok service_key_max_len k"
    "\<And>k row. (k, row) \<in> set (db_scopes d) \<Longrightarrow> sc_owning_service row \<in> fst ` set (db_services d)"
    "\<And>k row. (k, row) \<in> set (db_scopes d) \<Longrightarrow> scope_key_ok (the_scope_key k) \<and>
       scope_str (the_scope_key k) = k \<and> service_segment (the_scope_key k) = sc_owning_service row"
proof -
  show "scope_key_ok (the_scope_key k) \<and> scope_str (the_scope_key k) = k \<and>
      service_segment (the_scope_key k) = sc_owning_service row" if "(k, row) \<in> set (db_scopes d)" for k row
  proof -
    obtain key where "scope_key_ok key" "scope_str key = k" "service_segment key = sc_owning_service row"
      using assms \<open>(k, row) \<in> set (db_scopes d)\<close> by (fastforce simp: db_ok_def)
    then show ?thesis
      using the_scope_key [of key] by simp
  qed
qed (use assms bm_ok_distinct in \<open>auto simp: db_ok_def\<close>)

lemma build_input_ok:
  assumes "db_ok d"
  shows "build_hydration_input (service_rows d) (scope_rows d) = Ok (store_input d)"
proof -
  let ?gs = "map (\<lambda>(k, r). (ServiceKey k, manifest_of (ServiceKey k) r, [])) (db_services d) :: gathered list"
  let ?rows = "sort_key (\<lambda>(k, r). sc_owning_service r) (db_scopes d)"
  have "gather_services (service_rows d) = Ok ?gs"
    unfolding service_rows_def using db_okD(5) [OF assms] by (intro gather_services_ok) blast
  moreover have "file_scopes (scope_rows d) ?gs = Ok (file_all ?rows ?gs)"
    unfolding scope_rows_def
  proof (rule file_scopes_ok)
    have "map fst ?gs = map ServiceKey (map fst (db_services d))"
      by (simp add: case_prod_beta comp_def)
    then show "distinct (map fst ?gs)"
      using db_okD(3) [OF assms] by (simp only: distinct_map) (auto intro: inj_onI)
    show "\<forall>(k, row) \<in> set ?rows. ServiceKey (sc_owning_service row) \<in> set (map fst ?gs) \<and>
        key_segment_ok service_key_max_len (sc_owning_service row) \<and>
        (\<exists>key. scope_key_ok key \<and> scope_str key = k)"
    proof clarify
      fix k row
      assume "(k, row) \<in> set ?rows"
      then have row: "(k, row) \<in> set (db_scopes d)"
        by simp
      then show "ServiceKey (sc_owning_service row) \<in> set (map fst ?gs) \<and>
          key_segment_ok service_key_max_len (sc_owning_service row) \<and>
          (\<exists>key. scope_key_ok key \<and> scope_str key = k)"
        using db_okD(5) [OF assms] db_okD(6) [OF assms row] db_okD(7) [OF assms row]
        by (force simp: case_prod_beta)
    qed
  qed
  moreover have "map snd (file_all ?rows ?gs) = store_input d"
    by (simp add: file_all_def store_input_def specs_in_def case_prod_beta comp_def)
  ultimately show ?thesis
    by (simp add: build_hydration_input_def)
qed

definition store_registry :: "registry_db \<Rightarrow> scope_registry" where
  "store_registry d = \<lparr>rg_version = the (hd_version d), rg_services = map hydrated (store_input d)\<rparr>"

lemma store_services_ok:
  assumes "db_ok d"
  shows "services_ok (map hydrated (store_input d))"
proof -
  let ?rows = "sort_key (\<lambda>(k, r). sc_owning_service r) (db_scopes d)"
  have keys: "map rv_key (map hydrated (store_input d)) = map ServiceKey (map fst (db_services d))"
    by (simp add: store_input_def hydrated_def rv_key_def manifest_of_def case_prod_beta comp_def)
  have "distinct (map rv_key (map hydrated (store_input d)))"
    unfolding keys using db_okD(3) [OF assms] by (simp only: distinct_map) (auto intro: inj_onI)
  moreover have "specs_of (ServiceKey k) (specs_in ?rows k)" for k
  proof -
    have "inj_on (the_scope_key \<circ> fst) (set ?rows)"
    proof (rule inj_onI)
      fix p q
      assume pq: "p \<in> set ?rows" "q \<in> set ?rows" "(the_scope_key \<circ> fst) p = (the_scope_key \<circ> fst) q"
      then have in_p: "(fst p, snd p) \<in> set (db_scopes d)" and in_q: "(fst q, snd q) \<in> set (db_scopes d)"
        by simp_all
      have "scope_str (the_scope_key (fst p)) = fst p" "scope_str (the_scope_key (fst q)) = fst q"
        using db_okD(7) [OF assms in_p] db_okD(7) [OF assms in_q] by blast+
      then have "fst p = fst q"
        using pq(3) by (metis comp_apply)
      then show "p = q"
        using pq db_okD(4) [OF assms] by (auto simp: distinct_map inj_on_def)
    qed
    moreover have "distinct ?rows"
      using db_okD(4) [OF assms] by (simp add: distinct_map)
    moreover have "map ss_key (specs_in ?rows k) = map (the_scope_key \<circ> fst)
        (filter (\<lambda>(s, row). sc_owning_service row = k) ?rows)"
      by (simp add: specs_in_def spec_of_def case_prod_beta comp_def)
    ultimately have "distinct (map ss_key (specs_in ?rows k))"
      by (simp only: distinct_map distinct_filter set_filter) (blast intro: inj_on_subset)
    moreover have "scope_key_ok (ss_key s) \<and> is_owned_by (ss_key s) (ServiceKey k)"
      if "s \<in> set (specs_in ?rows k)" for s
      using that db_okD(7) [OF assms] by (auto simp: specs_in_def spec_of_def is_owned_by_def)
    ultimately show ?thesis
      by (simp add: specs_of_def)
  qed
  then have "service_ok (hydrated p)" if "p \<in> set (store_input d)" for p
    using that db_okD(5) [OF assms]
    by (force simp: store_input_def service_ok_def rv_key_def hydrated_def manifest_of_def service_key_ok_def)
  ultimately show ?thesis
    by (auto simp: services_ok_def list_all_iff)
qed

lemma store_scopes_set:
  assumes "db_ok d"
  shows "set (all_scopes (map hydrated (store_input d))) =
    (\<lambda>(k, row). spec_of (the_scope_key k) row) ` set (db_scopes d)"
proof -
  have "set (all_scopes (map hydrated (store_input d))) =
      (\<Union>k \<in> fst ` set (db_services d). set (specs_in (sort_key (\<lambda>(k, r). sc_owning_service r) (db_scopes d)) k))"
    by (force simp: all_scopes_def store_input_def hydrated_def)
  also have "\<dots> = (\<lambda>(k, row). spec_of (the_scope_key k) row) `
      {p \<in> set (db_scopes d). sc_owning_service (snd p) \<in> fst ` set (db_services d)}"
    by (force simp: specs_in_def)
  also have "{p \<in> set (db_scopes d). sc_owning_service (snd p) \<in> fst ` set (db_services d)} = set (db_scopes d)"
    using db_okD(6) [OF assms] by auto
  finally show ?thesis .
qed

lemma store_registry_holds:
  assumes "db_ok d"
  shows "holds d (store_registry d)"
  unfolding holds_def
proof (intro conjI allI)
  let ?svs = "map hydrated (store_input d)"
  show ok: "registry_ok (store_registry d)"
    using store_services_ok [OF assms] by (simp add: registry_ok_def store_registry_def)
  show "hd_version d = Some (rg_version (store_registry d))"
    using assms by (auto simp: store_registry_def db_ok_def)
  show "service_at (store_registry d) (ServiceKey k) =
      map_option (manifest_of (ServiceKey k)) (bm_get (db_services d) k)" for k
  proof -
    have "service_at (store_registry d) (ServiceKey k) = Some m \<longleftrightarrow>
        map_option (manifest_of (ServiceKey k)) (bm_get (db_services d) k) = Some m" for m
      using find_service_unique [OF store_services_ok [OF assms], of "ServiceKey k"]
        bm_get_Some_iff [OF db_okD(1) [OF assms], of k]
      by (force simp: service_at_def store_registry_def store_input_def hydrated_def rv_key_def manifest_of_def)
    then show ?thesis
      by (metis not_Some_eq)
  qed
  show "scope_at (store_registry d) k = (if scope_key_ok k
      then map_option (spec_of k) (bm_get (db_scopes d) (scope_str k)) else None)" for k
  proof -
    have "scope_at (store_registry d) k = Some s \<longleftrightarrow> scope_key_ok k \<and>
        (\<exists>row. (scope_str k, row) \<in> set (db_scopes d) \<and> s = spec_of k row)" for s
    proof -
      have "scope_at (store_registry d) k = Some s \<longleftrightarrow>
          (\<exists>p \<in> set (db_scopes d). s = spec_of (the_scope_key (fst p)) (snd p) \<and> ss_key s = k)"
        unfolding scope_at_Some_iff [OF ok]
        by (simp add: store_registry_def store_scopes_set [OF assms] image_iff case_prod_beta)
      also have "\<dots> \<longleftrightarrow> scope_key_ok k \<and> (\<exists>row. (scope_str k, row) \<in> set (db_scopes d) \<and> s = spec_of k row)"
      proof
        assume "\<exists>p \<in> set (db_scopes d). s = spec_of (the_scope_key (fst p)) (snd p) \<and> ss_key s = k"
        then obtain a b where ab: "(a, b) \<in> set (db_scopes d)" "s = spec_of (the_scope_key a) b" "ss_key s = k"
          by auto
        then have "k = the_scope_key a"
          by (simp add: spec_of_def)
        with ab db_okD(7) [OF assms ab(1)]
        show "scope_key_ok k \<and> (\<exists>row. (scope_str k, row) \<in> set (db_scopes d) \<and> s = spec_of k row)"
          by auto
      next
        assume "scope_key_ok k \<and> (\<exists>row. (scope_str k, row) \<in> set (db_scopes d) \<and> s = spec_of k row)"
        then obtain row where "(scope_str k, row) \<in> set (db_scopes d)" "s = spec_of k row"
          and "the_scope_key (scope_str k) = k"
          using the_scope_key by auto
        then show "\<exists>p \<in> set (db_scopes d). s = spec_of (the_scope_key (fst p)) (snd p) \<and> ss_key s = k"
          by (intro bexI [of _ "(scope_str k, row)"]) (simp_all add: spec_of_def)
      qed
      finally show ?thesis .
    qed
    then have "scope_at (store_registry d) k = Some s \<longleftrightarrow> (if scope_key_ok k
        then map_option (spec_of k) (bm_get (db_scopes d) (scope_str k)) else None) = Some s" for s
      using bm_get_Some_iff [OF db_okD(2) [OF assms], of "scope_str k"] by auto
    then show ?thesis
      by (metis not_Some_eq)
  qed
qed

lemma hydrate_store:
  assumes "db_ok d" and "hd_version d = Some v"
  shows "hydrate_rows v (service_rows d) (scope_rows d) = Ok (store_registry d)"
proof -
  have "stored_form (store_registry d) = store_input d"
    by (simp add: stored_form_def store_registry_def hydrated_def comp_def)
  moreover have "keys_ok (store_input d)"
    using store_services_ok [OF assms(1)]
    by (auto simp: keys_ok_def services_ok_def list_all_iff service_ok_def rv_key_def hydrated_def specs_of_def)
  moreover have "registry_ok (store_registry d)" "rg_version (store_registry d) = v"
    using store_registry_holds [OF assms(1)] assms(2) by (simp_all add: holds_def)
  ultimately show ?thesis
    by (simp add: hydrate_rows_def build_input_ok [OF assms(1)] hydrate_Ok_iff)
qed

end
