(* ===== verification/Identity_Steps.thy ===== *)
theory Identity_Steps
  imports Identity_Valid
begin

text \<open>
  The steps of the scope registry's store. A save that takes effect is one registration on the
  registry the store holds; a store only ever takes such steps, so it stays valid and grows.
\<close>

section \<open>The effect of a save\<close>

definition new_row :: "int \<Rightarrow> scope_spec \<Rightarrow> scope_row" where
  "new_row now s = \<lparr>sc_owning_service = service_segment (ss_key s), sc_label_key = ss_label_key s,
     sc_description_key = ss_description_key s, sc_platform_only = ss_platform_only s,
     sc_registered_at = now, sc_last_seen_at = now\<rparr>"

definition manifest_row :: "service_manifest \<Rightarrow> service_row" where
  "manifest_row m = \<lparr>sv_label_key = sm_label_key m, sv_description_key = sm_description_key m\<rparr>"

definition spec_at :: "scope_spec list \<Rightarrow> string \<Rightarrow> scope_spec option" where
  "spec_at specs k = find (\<lambda>s. scope_str (ss_key s) = k) specs"

definition manifest_at :: "registered_service list \<Rightarrow> string \<Rightarrow> service_manifest option" where
  "manifest_at svs k = map_option rv_manifest (find_service (ServiceKey k) svs)"

text \<open>What the writes of some services leave: rows that were there stay, with the time they were
  last seen, and the missing ones are added.\<close>

definition touched :: "int \<Rightarrow> scope_spec list \<Rightarrow> (string \<Rightarrow> scope_row option) \<Rightarrow> string \<Rightarrow> scope_row option" where
  "touched now specs f k = (case spec_at specs k of None \<Rightarrow> f k
     | Some s \<Rightarrow> Some (case f k of None \<Rightarrow> new_row now s | Some row \<Rightarrow> row\<lparr>sc_last_seen_at := now\<rparr>))"

definition wrote :: "int \<Rightarrow> registered_service list \<Rightarrow> registry_db \<Rightarrow> registry_db \<Rightarrow> bool" where
  "wrote now svs d d' \<longleftrightarrow> hd_version d' = hd_version d \<and> bm_ok (db_services d') \<and> bm_ok (db_scopes d') \<and>
     (\<forall>k. bm_get (db_services d') k = (case bm_get (db_services d) k of Some row \<Rightarrow> Some row
        | None \<Rightarrow> map_option manifest_row (manifest_at svs k))) \<and>
     (\<forall>k. bm_get (db_scopes d') k = touched now (all_scopes svs) (bm_get (db_scopes d)) k)"

text \<open>No scope of the services has a row with another owner.\<close>

definition unclaimed :: "registered_service list \<Rightarrow> registry_db \<Rightarrow> bool" where
  "unclaimed svs d \<longleftrightarrow> (\<forall>s \<in> set (all_scopes svs). \<forall>row. bm_get (db_scopes d) (scope_str (ss_key s)) = Some row \<longrightarrow>
     sc_owning_service row = service_segment (ss_key s))"

lemma run_call_cases:
  assumes "run_call stmt d w = (r, w')"
  obtains (failed) e where "r = Err (SqlxOther e)" "iw_db w' = d \<or> (\<exists>v. stmt d = Ok (v, iw_db w'))"
  | (refused) e where "stmt d = Err e" "r = Err e" "iw_db w' = d"
  | (took) v where "stmt d = Ok (v, iw_db w')" "r = Ok v"
  using assms by (auto simp: run_call_def Let_def split: db_fault.splits sum.splits)

lemma run_call_others:
  "run_call stmt d w = (r, w') \<Longrightarrow> iw_calls w' = tl (iw_calls w) \<and> iw_bus w' = iw_bus w \<and>
     iw_tick w' = iw_tick w \<and> iw_alarms w' = iw_alarms w"
  by (auto simp: run_call_def Let_def split: db_fault.splits sum.splits)

definition write_scope_ok where
  "write_scope_ok now m spec d = d\<lparr>db_scopes := bm_insert (scope_str (ss_key spec))
     (case bm_get (db_scopes d) (scope_str (ss_key spec)) of
        None \<Rightarrow> new_row now spec | Some row \<Rightarrow> row\<lparr>sc_last_seen_at := now\<rparr>) (db_scopes d)\<rparr>"

lemma write_scope_eq:
  assumes "is_owned_by (ss_key spec) (sm_key m)"
    and "\<And>row. bm_get (db_scopes d) (scope_str (ss_key spec)) = Some row \<Longrightarrow>
      sc_owning_service row = service_segment (ss_key spec)"
  shows "write_scope now m spec d = Ok ((), write_scope_ok now m spec d)"
  using assms by (auto simp: write_scope_def write_scope_ok_def Let_def is_owned_by_def new_row_def
      split: option.splits)

text \<open>The scopes of one service.\<close>

lemma write_scopes_outcome:
  assumes "write_scopes now m specs w = (r, w')" and "bm_ok (db_scopes (iw_db w))"
    and "\<forall>s \<in> set specs. is_owned_by (ss_key s) (sm_key m)"
    and "\<forall>s \<in> set specs. \<forall>row. bm_get (db_scopes (iw_db w)) (scope_str (ss_key s)) = Some row \<longrightarrow>
      sc_owning_service row = service_segment (ss_key s)"
    and "distinct (map (\<lambda>s. scope_str (ss_key s)) specs)"
  shows "(\<exists>e. r = Err (AppPersistence (SqlxOther e))) \<or>
    r = Ok (Ok ()) \<and> bm_ok (db_scopes (iw_db w')) \<and> db_services (iw_db w') = db_services (iw_db w) \<and>
    hd_version (iw_db w') = hd_version (iw_db w) \<and>
    (\<forall>k. bm_get (db_scopes (iw_db w')) k = touched now specs (bm_get (db_scopes (iw_db w))) k)"
  using assms
proof (induction specs arbitrary: w)
  case Nil
  then show ?case by (simp add: touched_def spec_at_def)
next
  case (Cons spec specs)
  have ok: "write_scope now m spec (iw_db w) = Ok ((), write_scope_ok now m spec (iw_db w))"
    using Cons.prems(3,4) by (intro write_scope_eq) auto
  obtain r1 w1 where call: "locked_call (write_scope now m spec) w = (r1, w1)"
    by (cases "locked_call (write_scope now m spec) w")
  from call [unfolded locked_call_def] show ?case
  proof (cases rule: run_call_cases)
    case (failed e)
    then show ?thesis
      using Cons.prems(1) by (auto simp: call classify_unique_violation_def)
  next
    case (refused e)
    then show ?thesis by (simp add: ok)
  next
    case (took v)
    then have db: "iw_db w1 = write_scope_ok now m spec (iw_db w)"
      by (simp add: ok)
    have rest: "write_scopes now m specs w1 = (r, w')"
      using Cons.prems(1) took(2) by (simp add: call)
    have ne: "scope_str (ss_key s) \<noteq> scope_str (ss_key spec)" if "s \<in> set specs" for s
      using Cons.prems(5) that by (auto simp: image_iff)
    have get: "bm_get (db_scopes (iw_db w1)) k = (if k = scope_str (ss_key spec)
        then touched now [spec] (bm_get (db_scopes (iw_db w))) k else bm_get (db_scopes (iw_db w)) k)" for k
      by (auto simp: db write_scope_ok_def touched_def spec_at_def split: option.splits)
    have "(\<exists>e. r = Err (AppPersistence (SqlxOther e))) \<or>
      r = Ok (Ok ()) \<and> bm_ok (db_scopes (iw_db w')) \<and> db_services (iw_db w') = db_services (iw_db w1) \<and>
      hd_version (iw_db w') = hd_version (iw_db w1) \<and>
      (\<forall>k. bm_get (db_scopes (iw_db w')) k = touched now specs (bm_get (db_scopes (iw_db w1))) k)"
    proof (rule Cons.IH [OF rest])
      show "bm_ok (db_scopes (iw_db w1))"
        using Cons.prems(2) by (simp add: db write_scope_ok_def)
    qed (use Cons.prems(3-5) ne in \<open>simp_all add: get\<close>)
    moreover have "touched now specs (bm_get (db_scopes (iw_db w1))) k =
        touched now (spec # specs) (bm_get (db_scopes (iw_db w))) k" for k
    proof (cases "k = scope_str (ss_key spec)")
      case True
      then have "spec_at specs k = None"
        using ne by (auto simp: spec_at_def find_None_iff)
      then show ?thesis
        using True by (simp add: touched_def get spec_at_def)
    qed (auto simp: touched_def get spec_at_def split: option.split)
    ultimately show ?thesis
      by (auto simp: db write_scope_ok_def)
  qed
qed

lemma all_scopes_Cons [simp]: "all_scopes (sv # svs) = rv_scopes sv @ all_scopes svs"
  by (simp add: all_scopes_def)

lemma all_scopes_ok:
  assumes "services_ok svs"
  shows "\<forall>s \<in> set (all_scopes svs). scope_key_ok (ss_key s)"
    and "distinct (map (\<lambda>s. scope_str (ss_key s)) (all_scopes svs))"
proof -
  show ok: "\<forall>s \<in> set (all_scopes svs). scope_key_ok (ss_key s)"
    using assms by (auto simp: all_scopes_def services_ok_def list_all_iff service_ok_def specs_of_def)
  show "distinct (map (\<lambda>s. scope_str (ss_key s)) (all_scopes svs))"
    using distinct_scope_str [OF ok] distinct_all_scopes [OF assms] by simp
qed

lemma spec_at_None_iff: "spec_at specs k = None \<longleftrightarrow> k \<notin> (\<lambda>s. scope_str (ss_key s)) ` set specs"
  by (auto simp: spec_at_def find_None_iff)

lemma spec_at_append: "spec_at (xs @ ys) k = (case spec_at xs k of None \<Rightarrow> spec_at ys k | Some s \<Rightarrow> Some s)"
  by (induction xs) (auto simp: spec_at_def)

lemma touched_append:
  assumes "distinct (map (\<lambda>s. scope_str (ss_key s)) (xs @ ys))"
  shows "touched now ys (touched now xs f) k = touched now (xs @ ys) f k"
proof -
  have "spec_at xs k = None \<or> spec_at ys k = None"
    using assms by (auto simp: spec_at_None_iff)
  then show ?thesis
    by (auto simp: touched_def spec_at_append split: option.splits)
qed

definition insert_service_ok where
  "insert_service_ok m d = (if bm_contains (db_services d) (service_str (sm_key m)) then d
     else d\<lparr>db_services := bm_insert (service_str (sm_key m)) (manifest_row m) (db_services d)\<rparr>)"

lemma insert_service_eq: "insert_service m d = Ok ((), insert_service_ok m d)"
  by (simp add: insert_service_def insert_service_ok_def manifest_row_def Let_def)

lemma insert_service_ok_simps [simp]:
  "db_scopes (insert_service_ok m d) = db_scopes d" "hd_version (insert_service_ok m d) = hd_version d"
  "bm_ok (db_services d) \<Longrightarrow> bm_ok (db_services (insert_service_ok m d))"
  by (simp_all add: insert_service_ok_def)

lemma write_service_outcome:
  assumes "write_service now sv w = (r, w')" and "bm_ok (db_services (iw_db w))" "bm_ok (db_scopes (iw_db w))"
    and "services_ok [sv]" and "unclaimed [sv] (iw_db w)"
  shows "(\<exists>e. r = Err (AppPersistence (SqlxOther e))) \<or>
    r = Ok (Ok ()) \<and> wrote now [sv] (iw_db w) (iw_db w')"
proof -
  let ?m = "rv_manifest sv"
  obtain r1 w1 where call: "locked_call (insert_service ?m) w = (r1, w1)"
    by (cases "locked_call (insert_service ?m) w")
  from call [unfolded locked_call_def] show ?thesis
  proof (cases rule: run_call_cases)
    case (failed e)
    then show ?thesis
      using assms(1) by (auto simp: write_service_def call)
  next
    case (refused e)
    then show ?thesis
      by (simp add: insert_service_eq)
  next
    case (took v)
    then have db: "iw_db w1 = insert_service_ok ?m (iw_db w)"
      by (simp add: insert_service_eq)
    have rest: "write_scopes now ?m (rv_scopes sv) w1 = (r, w')"
      using assms(1) took(2) by (simp add: write_service_def call)
    have keep: "db_scopes (iw_db w1) = db_scopes (iw_db w)" "hd_version (iw_db w1) = hd_version (iw_db w)"
      by (simp_all add: db)
    have services: "bm_ok (db_services (iw_db w1)) \<and>
        bm_get (db_services (iw_db w1)) k = (case bm_get (db_services (iw_db w)) k of Some row \<Rightarrow> Some row
          | None \<Rightarrow> map_option manifest_row (manifest_at [sv] k))" for k
      using assms(2) by (cases "sm_key ?m")
        (auto simp: db insert_service_ok_def bm_contains_def manifest_at_def find_service_def
          rv_key_def split: option.splits)
    have "(\<exists>e. r = Err (AppPersistence (SqlxOther e))) \<or>
      r = Ok (Ok ()) \<and> bm_ok (db_scopes (iw_db w')) \<and> db_services (iw_db w') = db_services (iw_db w1) \<and>
      hd_version (iw_db w') = hd_version (iw_db w1) \<and>
      (\<forall>k. bm_get (db_scopes (iw_db w')) k = touched now (rv_scopes sv) (bm_get (db_scopes (iw_db w1))) k)"
    proof (rule write_scopes_outcome [OF rest])
      show "\<forall>s \<in> set (rv_scopes sv). is_owned_by (ss_key s) (sm_key ?m)"
        using assms(4) by (simp add: service_ok_def specs_of_def rv_key_def)
      show "distinct (map (\<lambda>s. scope_str (ss_key s)) (rv_scopes sv))"
        using all_scopes_ok(2) [OF assms(4)] by (simp add: all_scopes_def)
    qed (use assms(3,5) in \<open>auto simp: keep unclaimed_def all_scopes_def\<close>)
    then show ?thesis
      using services keep by (auto simp: wrote_def all_scopes_def)
  qed
qed

lemma wrote_Cons:
  assumes "wrote now [sv] d d1" and "wrote now svs d1 d2" and "services_ok (sv # svs)"
  shows "wrote now (sv # svs) d d2"
  unfolding wrote_def
proof (intro conjI allI)
  show "bm_get (db_scopes d2) k = touched now (all_scopes (sv # svs)) (bm_get (db_scopes d)) k" for k
  proof -
    have "bm_get (db_scopes d1) = touched now (rv_scopes sv) (bm_get (db_scopes d))"
      using assms(1) by (auto simp: wrote_def all_scopes_def)
    then show ?thesis
      using assms(2) touched_append [of "rv_scopes sv" "all_scopes svs" now "bm_get (db_scopes d)" k]
        all_scopes_ok(2) [OF assms(3)] by (simp add: wrote_def)
  qed
  show "bm_get (db_services d2) k = (case bm_get (db_services d) k of Some row \<Rightarrow> Some row
      | None \<Rightarrow> map_option manifest_row (manifest_at (sv # svs) k))" for k
    using assms(1,2) by (auto simp: wrote_def manifest_at_def find_service_def split: option.splits)
qed (use assms(1,2) in \<open>auto simp: wrote_def\<close>)

lemma unclaimed_rest:
  assumes "wrote now [sv] d d1" and "unclaimed (sv # svs) d" and "services_ok (sv # svs)"
  shows "unclaimed svs d1"
  unfolding unclaimed_def
proof clarify
  fix s row
  assume s: "s \<in> set (all_scopes svs)" and row: "bm_get (db_scopes d1) (scope_str (ss_key s)) = Some row"
  have "spec_at (rv_scopes sv) (scope_str (ss_key s)) = None"
    using all_scopes_ok(2) [OF assms(3)] s by (auto simp: spec_at_None_iff)
  then have "bm_get (db_scopes d) (scope_str (ss_key s)) = Some row"
    using assms(1) row by (simp add: wrote_def touched_def all_scopes_def)
  then show "sc_owning_service row = service_segment (ss_key s)"
    using assms(2) s by (simp add: unclaimed_def)
qed

lemma write_services_outcome:
  assumes "write_services now svs w = (r, w')" and "bm_ok (db_services (iw_db w))" "bm_ok (db_scopes (iw_db w))"
    and "services_ok svs" and "unclaimed svs (iw_db w)"
  shows "(\<exists>e. r = Err (AppPersistence (SqlxOther e))) \<or>
    r = Ok (Ok ()) \<and> wrote now svs (iw_db w) (iw_db w')"
  using assms
proof (induction svs arbitrary: w)
  case Nil
  then show ?case
    by (auto simp: wrote_def touched_def spec_at_def manifest_at_def find_service_def all_scopes_def
        split: option.split)
next
  case (Cons sv svs)
  obtain r1 w1 where first: "write_service now sv w = (r1, w1)"
    by (cases "write_service now sv w")
  have "services_ok [sv]" "unclaimed [sv] (iw_db w)"
    using Cons.prems(4,5) by (auto simp: unclaimed_def all_scopes_def)
  from write_service_outcome [OF first Cons.prems(2,3) this]
  show ?case
  proof (elim disjE exE conjE)
    fix e
    assume "r1 = Err (AppPersistence (SqlxOther e))"
    then show ?thesis
      using Cons.prems(1) by (auto simp: first)
  next
    assume r1: "r1 = Ok (Ok ())" and wrote: "wrote now [sv] (iw_db w) (iw_db w1)"
    have "write_services now svs w1 = (r, w')"
      using Cons.prems(1) by (simp add: first r1)
    moreover have "bm_ok (db_services (iw_db w1))" "bm_ok (db_scopes (iw_db w1))" "services_ok svs"
      using wrote Cons.prems(4) by (simp_all add: wrote_def)
    ultimately have "(\<exists>e. r = Err (AppPersistence (SqlxOther e))) \<or>
        r = Ok (Ok ()) \<and> wrote now svs (iw_db w1) (iw_db w')"
      using unclaimed_rest [OF wrote Cons.prems(5,4)] by (rule Cons.IH)
    then show ?thesis
      using wrote_Cons [OF wrote _ Cons.prems(4)] by blast
  qed
qed

section \<open>Steps\<close>

definition saved_as :: "int \<Rightarrow> scope_registry \<Rightarrow> registry_db \<Rightarrow> registry_db \<Rightarrow> bool" where
  "saved_as now r d d' \<longleftrightarrow> wrote now (rg_services r) (d\<lparr>hd_version := Some (rg_version r)\<rparr>) d'"

inductive registry_step :: "registry_db \<Rightarrow> registry_db \<Rightarrow> bool" where
  register: "db_ok d \<Longrightarrow> declaration_ok dcl \<Longrightarrow> 0 \<le> sint (rg_version (registered dcl (store_registry d))) \<Longrightarrow>
     saved_as now (registered dcl (store_registry d)) d d' \<Longrightarrow> registry_step d d'"

abbreviation registry_steps :: "registry_db \<Rightarrow> registry_db \<Rightarrow> bool" where
  "registry_steps \<equiv> registry_step\<^sup>*\<^sup>*"

definition extends_registry :: "scope_registry \<Rightarrow> scope_registry \<Rightarrow> bool" where
  "extends_registry r r' \<longleftrightarrow> (\<forall>k m. service_at r k = Some m \<longrightarrow> service_at r' k = Some m) \<and>
     (\<forall>k s. scope_at r k = Some s \<longrightarrow> scope_at r' k = Some s)"

lemma registers_extends: "registers d r r' \<Longrightarrow> extends_registry r r'"
  by (auto simp: registers_def extends_registry_def)

lemma service_at_key: "service_at r k = Some m \<Longrightarrow> sm_key m = k"
  by (auto simp: service_at_def rv_key_def dest: find_service_SomeD)

lemma service_at_ok:
  assumes "registry_ok r" and "service_at r (ServiceKey k) \<noteq> None"
  shows "key_segment_ok service_key_max_len k"
proof -
  obtain sv where sv: "sv \<in> set (rg_services r)" "rv_key sv = ServiceKey k"
    using assms(2) by (auto simp: service_at_def dest: find_service_SomeD)
  then have "service_key_ok (rv_key sv)"
    using assms(1) by (auto simp: registry_ok_def services_ok_def list_all_iff service_ok_def)
  then show ?thesis
    by (simp add: sv(2) service_key_ok_def)
qed

lemma manifest_at_service: "manifest_at (rg_services r) k = service_at r (ServiceKey k)"
  by (simp add: manifest_at_def service_at_def)

lemma spec_at_scope:
  assumes "registry_ok r" and "scope_key_ok key"
  shows "spec_at (all_scopes (rg_services r)) (scope_str key) = scope_at r key"
proof -
  have "(scope_str (ss_key s) = scope_str key) = (ss_key s = key)"
    if "s \<in> set (all_scopes (rg_services r))" for s
    using that assms all_scopes_ok(1) [of "rg_services r"]
    by (auto simp: registry_ok_def intro: scope_str_inj)
  then show ?thesis
    unfolding spec_at_def scope_at_def by (intro find_cong) auto
qed

lemma spec_at_SomeD:
  assumes "spec_at specs k = Some s"
  shows "s \<in> set specs \<and> scope_str (ss_key s) = k"
  using assms by (auto simp: spec_at_def find_Some_iff)

lemma scope_service_present:
  assumes "registry_ok r" and "s \<in> set (all_scopes (rg_services r))"
  shows "service_at r (ServiceKey (service_segment (ss_key s))) \<noteq> None"
proof -
  obtain sv where sv: "sv \<in> set (rg_services r)" "s \<in> set (rv_scopes sv)"
    using assms(2) by (auto simp: all_scopes_def)
  have "find_service (rv_key sv) (rg_services r) = Some sv"
    using assms(1) sv(1) by (simp add: registry_ok_def find_service_unique)
  then show ?thesis
    using scope_of_service [OF _ sv] assms(1) by (simp add: service_at_def registry_ok_def)
qed

lemma db_ok_owner:
  assumes "db_ok d" and "bm_get (db_scopes d) (scope_str key) = Some row" and "scope_key_ok key"
  shows "sc_owning_service row = service_segment key"
  using db_okD(7) [OF assms(1), of "scope_str key" row] assms the_scope_key [OF assms(3)]
    bm_get_Some_iff [OF db_okD(2) [OF assms(1)]] by simp

lemma store_unclaimed:
  assumes "db_ok d" and "services_ok svs"
  shows "unclaimed svs d"
  using assms all_scopes_ok(1) [OF assms(2)] by (auto simp: unclaimed_def intro: db_ok_owner)

lemma saved_services:
  assumes "holds d r" and "saved_as now r' d d'" and "extends_registry r r'"
  shows "service_at r' (ServiceKey k) = map_option (manifest_of (ServiceKey k)) (bm_get (db_services d') k)"
proof (cases "bm_get (db_services d) k")
  case None
  then have "bm_get (db_services d') k = map_option manifest_row (service_at r' (ServiceKey k))"
    using assms(2) by (simp add: saved_as_def wrote_def manifest_at_service)
  moreover have "manifest_of (ServiceKey k) (manifest_row m) = m" if "service_at r' (ServiceKey k) = Some m" for m
    using service_at_key [OF that] by (cases m) (simp add: manifest_of_def manifest_row_def)
  ultimately show ?thesis
    by (cases "service_at r' (ServiceKey k)") auto
next
  case (Some row)
  then have "service_at r (ServiceKey k) = Some (manifest_of (ServiceKey k) row)"
    using assms(1) by (simp add: holds_def)
  then show ?thesis
    using assms(2,3) Some by (auto simp: saved_as_def wrote_def extends_registry_def)
qed

lemma saved_scopes:
  assumes "holds d r" and "saved_as now r' d d'" and "extends_registry r r'" and "registry_ok r'"
    and "scope_key_ok key"
  shows "scope_at r' key = map_option (spec_of key) (bm_get (db_scopes d') (scope_str key))"
proof -
  have get: "bm_get (db_scopes d') (scope_str key) = (case scope_at r' key of
      None \<Rightarrow> bm_get (db_scopes d) (scope_str key)
    | Some s \<Rightarrow> Some (case bm_get (db_scopes d) (scope_str key) of None \<Rightarrow> new_row now s
        | Some row \<Rightarrow> row\<lparr>sc_last_seen_at := now\<rparr>))"
    using assms(2) spec_at_scope [OF assms(4,5)] by (simp add: saved_as_def wrote_def touched_def)
  have r: "scope_at r key = map_option (spec_of key) (bm_get (db_scopes d) (scope_str key))"
    using assms(1,5) by (simp add: holds_def)
  show ?thesis
  proof (cases "bm_get (db_scopes d) (scope_str key)")
    case None
    moreover have "spec_of key (new_row now s) = s" if "scope_at r' key = Some s" for s
      using that by (cases s) (auto simp: spec_of_def new_row_def scope_at_Some_iff [OF assms(4)])
    ultimately show ?thesis
      by (auto simp: get split: option.splits)
  next
    case (Some row)
    then have "scope_at r' key = Some (spec_of key row)"
      using r assms(3) by (auto simp: extends_registry_def)
    then show ?thesis
      by (simp add: get Some spec_of_def)
  qed
qed

lemma saved_ok:
  assumes "db_ok d" and "holds d r" and "saved_as now r' d d'" and "extends_registry r r'"
    and "registry_ok r'" and "0 \<le> sint (rg_version r')"
  shows "db_ok d'" and "holds d' r'"
proof -
  have bm: "bm_ok (db_services d')" "bm_ok (db_scopes d')" and head: "hd_version d' = Some (rg_version r')"
    using assms(3) by (simp_all add: saved_as_def wrote_def)
  have svc: "bm_get (db_services d') k \<noteq> None \<longleftrightarrow> service_at r' (ServiceKey k) \<noteq> None" for k
    using saved_services [OF assms(2-4), of k] by simp
  have svc_d: "bm_get (db_services d') k \<noteq> None" if "bm_get (db_services d) k \<noteq> None" for k
    using that assms(3) by (auto simp: saved_as_def wrote_def)
  have mem: "k \<in> fst ` set (db_services d') \<longleftrightarrow> bm_get (db_services d') k \<noteq> None" for k
    by (simp flip: bm_contains_iff add: bm_contains_def)
  have row_ok: "sc_owning_service row \<in> fst ` set (db_services d') \<and>
      (\<exists>key. scope_key_ok key \<and> scope_str key = k \<and> service_segment key = sc_owning_service row)"
    if "(k, row) \<in> set (db_scopes d')" for k row
  proof -
    have get: "touched now (all_scopes (rg_services r')) (bm_get (db_scopes d)) k = Some row"
      using that bm(2) assms(3) by (simp add: bm_get_Some_iff [symmetric] saved_as_def wrote_def)
    show ?thesis
    proof (cases "spec_at (all_scopes (rg_services r')) k")
      case None
      then have row: "(k, row) \<in> set (db_scopes d)"
        using get bm_get_Some_iff [OF db_okD(2) [OF assms(1)]] by (simp add: touched_def)
      have "bm_get (db_services d') (sc_owning_service row) \<noteq> None"
        using db_okD(6) [OF assms(1) row] svc_d by (auto simp: bm_contains_def bm_contains_iff [symmetric])
      then show ?thesis
        unfolding mem using db_okD(7) [OF assms(1) row] by blast
    next
      case (Some s)
      then have s: "s \<in> set (all_scopes (rg_services r'))" "scope_str (ss_key s) = k"
        by (auto dest: spec_at_SomeD)
      have key: "scope_key_ok (ss_key s)"
        using all_scopes_ok(1) s(1) assms(5) by (auto simp: registry_ok_def)
      have "sc_owning_service row = service_segment (ss_key s)"
        using get Some db_ok_owner [OF assms(1) _ key, unfolded s(2)]
        by (auto simp: touched_def new_row_def split: option.splits)
      moreover have "bm_get (db_services d') (service_segment (ss_key s)) \<noteq> None"
        using scope_service_present [OF assms(5) s(1)] svc by blast
      ultimately show ?thesis
        using key s(2) unfolding mem by auto
    qed
  qed
  have "key_segment_ok service_key_max_len k" if "k \<in> fst ` set (db_services d')" for k
    using that service_at_ok [OF assms(5)] unfolding mem svc by blast
  then show "db_ok d'"
    unfolding db_ok_def using bm head assms(6) row_ok by blast
  show "holds d' r'"
    unfolding holds_def
  proof (intro conjI allI)
    show "scope_at r' k = (if scope_key_ok k then map_option (spec_of k) (bm_get (db_scopes d') (scope_str k)) else None)" for k
    proof (cases "scope_key_ok k")
      case True
      then show ?thesis
        using saved_scopes [OF assms(2-5)] by simp
    next
      case False
      then have "scope_at r' k \<noteq> Some s" for s
        using all_scopes_ok(1) assms(5) by (auto simp: scope_at_Some_iff [OF assms(5)] registry_ok_def)
      with False show ?thesis
        by (cases "scope_at r' k") auto
    qed
  qed (use assms(5) head saved_services [OF assms(2-4)] in auto)
qed

section \<open>What the steps keep\<close>

definition same_rows :: "registry_db \<Rightarrow> registry_db \<Rightarrow> bool" where
  "same_rows d d' \<longleftrightarrow> service_rows d' = service_rows d \<and> scope_rows d' = scope_rows d"

text \<open>A registry's version as a number; a valid store's fits 63 bits.\<close>

definition head_nat :: "registry_db \<Rightarrow> nat" where
  "head_nat d = (case hd_version d of None \<Rightarrow> 0 | Some v \<Rightarrow> unat v)"

text \<open>Rows that stay: the same owner, texts and time of registration.\<close>

definition rows_kept :: "registry_db \<Rightarrow> registry_db \<Rightarrow> bool" where
  "rows_kept d d' \<longleftrightarrow> (\<forall>k row. bm_get (db_services d) k = Some row \<longrightarrow> bm_get (db_services d') k = Some row) \<and>
     (\<forall>k row. bm_get (db_scopes d) k = Some row \<longrightarrow> (\<exists>now. bm_get (db_scopes d') k =
        Some (row\<lparr>sc_last_seen_at := now\<rparr>)))"

lemma row_same [simp]: "\<exists>t. row = row\<lparr>sc_last_seen_at := t\<rparr>" for row :: scope_row
  by (rule exI [of _ "sc_last_seen_at row"]) simp

lemma insort_key_map: "insort_key f (g x) (map g xs) = map g (insort_key (\<lambda>x. f (g x)) x xs)"
  by (induction xs) auto

lemma sort_key_map: "sort_key f (map g xs) = map g (sort_key (\<lambda>x. f (g x)) xs)"
  by (induction xs) (simp_all add: insort_key_map)

lemma bm_ok_map_value: "bm_ok m \<Longrightarrow> bm_ok (map (\<lambda>(k, v). (k, h v)) m)"
  by (simp add: bm_ok_def case_prod_beta comp_def)

lemma bm_get_map_value: "bm_get (map (\<lambda>(k, v). (k, h v)) m) k = map_option h (bm_get m k)"
  by (induction m) auto

lemma noop_same_rows:
  assumes "db_ok d" and "saved_as now (store_registry d) d d'"
  shows "same_rows d d'"
proof -
  let ?r = "store_registry d"
  have holds: "holds d ?r" and ok: "registry_ok ?r"
    using store_registry_holds [OF assms(1)] by (simp_all add: holds_def)
  have "db_services d' = db_services d"
  proof (rule bm_ext)
    show "bm_get (db_services d') = bm_get (db_services d)"
      using assms(2) holds by (auto simp: fun_eq_iff saved_as_def wrote_def manifest_at_service holds_def
          split: option.split)
  qed (use assms db_okD(1) in \<open>auto simp: saved_as_def wrote_def\<close>)
  moreover have "db_scopes d' = map (\<lambda>(k, row). (k, row\<lparr>sc_last_seen_at := now\<rparr>)) (db_scopes d)"
  proof (rule bm_ext)
    have "touched now (all_scopes (rg_services ?r)) (bm_get (db_scopes d)) k =
        map_option (\<lambda>row. row\<lparr>sc_last_seen_at := now\<rparr>) (bm_get (db_scopes d) k)" for k
    proof (cases "spec_at (all_scopes (rg_services ?r)) k")
      case None
      have "bm_get (db_scopes d) k = None"
      proof (rule ccontr)
        assume "bm_get (db_scopes d) k \<noteq> None"
        then obtain row where row: "bm_get (db_scopes d) k = Some row" by auto
        then have key: "scope_key_ok (the_scope_key k)" "scope_str (the_scope_key k) = k"
          using db_okD(7) [OF assms(1), of k row] bm_get_Some_iff [OF db_okD(2) [OF assms(1)]] by auto
        have "scope_at ?r (the_scope_key k) \<noteq> None"
          using holds key row by (simp add: holds_def)
        then show False
          using spec_at_scope [OF ok key(1)] None key(2) by simp
      qed
      then show ?thesis
        using None by (simp add: touched_def)
    next
      case (Some s)
      then have s: "s \<in> set (all_scopes (rg_services ?r))" "scope_str (ss_key s) = k"
        by (auto dest: spec_at_SomeD)
      then have key: "scope_key_ok (ss_key s)"
        using all_scopes_ok(1) ok by (auto simp: registry_ok_def)
      have "scope_at ?r (ss_key s) = Some s"
        using s(1) by (simp add: scope_at_Some_iff [OF ok])
      then have "bm_get (db_scopes d) k \<noteq> None"
        using holds key s(2) by (auto simp: holds_def)
      then show ?thesis
        using Some by (auto simp: touched_def)
    qed
    then show "bm_get (db_scopes d') = bm_get (map (\<lambda>(k, row). (k, row\<lparr>sc_last_seen_at := now\<rparr>)) (db_scopes d))"
      using assms(2) by (auto simp: fun_eq_iff saved_as_def wrote_def bm_get_map_value)
    show "bm_ok (map (\<lambda>(k, row). (k, row\<lparr>sc_last_seen_at := now\<rparr>)) (db_scopes d))"
      using db_okD(2) [OF assms(1)] by (rule bm_ok_map_value)
  qed (use assms(2) in \<open>simp add: saved_as_def wrote_def\<close>)
  ultimately show ?thesis
    by (simp add: same_rows_def service_rows_def scope_rows_def sort_key_map split_def comp_def)
qed

lemma registry_step_ok:
  assumes "registry_step d d'"
  shows "db_ok d' \<and> rows_kept d d' \<and> head_nat d \<le> head_nat d' \<and>
    (head_nat d' = head_nat d \<longrightarrow> same_rows d d')"
  using assms
proof (cases rule: registry_step.cases)
  case (register dcl now)
  let ?r = "store_registry d" and ?r' = "registered dcl (store_registry d)"
  have holds: "holds d ?r" and ok: "registry_ok ?r" and v: "hd_version d = Some (rg_version ?r)"
    using store_registry_holds [OF register(1)] by (simp_all add: holds_def)
  have ext: "extends_registry ?r ?r'" and ok': "registry_ok ?r'"
    using registered_registers [OF ok register(2)] registered_ok [OF ok register(2)]
    by (simp_all add: registers_extends)
  have d': "db_ok d'" "holds d' ?r'"
    using saved_ok [OF register(1) holds register(4) ext ok' register(3)] by blast+
  have v': "hd_version d' = Some (rg_version ?r')"
    using d'(2) by (simp add: holds_def)
  have kept: "rows_kept d d'"
    unfolding rows_kept_def
  proof (intro conjI allI impI)
    fix k row
    assume "bm_get (db_scopes d) k = Some row"
    then show "\<exists>now. bm_get (db_scopes d') k = Some (row\<lparr>sc_last_seen_at := now\<rparr>)"
      using register(4)
      by (cases "spec_at (all_scopes (rg_services ?r')) k") (auto simp: saved_as_def wrote_def touched_def)
  qed (use register(4) in \<open>simp add: saved_as_def wrote_def\<close>)
  have "0 \<le> sint (rg_version ?r)"
    using register(1) v by (auto simp: db_ok_def)
  then have "1 + rg_version ?r \<noteq> 0"
    by (auto simp: add_eq_0_iff)
  then have up: "unat (rg_version ?r + 1) = Suc (unat (rg_version ?r))"
    using unatSuc [of "rg_version ?r"] by (simp add: add.commute)
  show "db_ok d' \<and> rows_kept d d' \<and> head_nat d \<le> head_nat d' \<and> (head_nat d' = head_nat d \<longrightarrow> same_rows d d')"
  proof (cases "declared_events ?r dcl = []")
    case True
    then have "?r' = ?r"
      by (rule registered_noop)
    then show ?thesis
      using d'(1) kept noop_same_rows [OF register(1)] register(4) v v' by (simp add: head_nat_def)
  next
    case False
    then have "rg_version ?r' = rg_version ?r + 1"
      by (simp add: registered_def)
    then show ?thesis
      using d'(1) kept v v' up by (simp add: head_nat_def)
  qed
qed

lemma rows_kept_refl [simp]: "rows_kept d d"
  by (simp add: rows_kept_def)

lemma rows_kept_trans:
  assumes "rows_kept a b" and "rows_kept b c"
  shows "rows_kept a c"
  unfolding rows_kept_def
proof (intro conjI allI impI)
  fix k row
  assume "bm_get (db_scopes a) k = Some row"
  then obtain t where "bm_get (db_scopes b) k = Some (row\<lparr>sc_last_seen_at := t\<rparr>)"
    using assms(1) unfolding rows_kept_def by blast
  then obtain u where "bm_get (db_scopes c) k = Some (row\<lparr>sc_last_seen_at := t, sc_last_seen_at := u\<rparr>)"
    using assms(2) unfolding rows_kept_def by blast
  then show "\<exists>now. bm_get (db_scopes c) k = Some (row\<lparr>sc_last_seen_at := now\<rparr>)"
    by auto
qed (use assms in \<open>simp add: rows_kept_def\<close>)

lemma same_rows_trans: "same_rows a b \<Longrightarrow> same_rows b c \<Longrightarrow> same_rows a c"
  by (simp add: same_rows_def)

lemma registry_steps_ok:
  assumes "registry_steps d d'" and "db_ok d"
  shows "db_ok d' \<and> rows_kept d d' \<and> head_nat d \<le> head_nat d' \<and>
    (head_nat d' = head_nat d \<longrightarrow> same_rows d d')"
  using assms
proof (induction rule: rtranclp_induct)
  case base
  then show ?case by (simp add: same_rows_def)
next
  case (step e f)
  have e: "db_ok e" "rows_kept d e" "head_nat d \<le> head_nat e" "head_nat e = head_nat d \<longrightarrow> same_rows d e"
    using step.IH step.prems by blast+
  have f: "db_ok f" "rows_kept e f" "head_nat e \<le> head_nat f" "head_nat f = head_nat e \<longrightarrow> same_rows e f"
    using registry_step_ok [OF step.hyps(2)] by blast+
  have "same_rows d f" if eq: "head_nat f = head_nat d"
  proof (rule same_rows_trans)
    show "same_rows d e" using e(3,4) f(3) eq by simp
    show "same_rows e f" using e(3) f(3,4) eq by simp
  qed
  then show ?case
    using rows_kept_trans [OF e(2) f(2)] e(3) f(1,3) by simp
qed

text \<open>Two points of a run with the same version have the same rows.\<close>

lemma steps_same_version:
  assumes "registry_steps d d'" and "db_ok d" and "hd_version d' = hd_version d"
  shows "same_rows d d'"
  using registry_steps_ok [OF assms(1,2)] assms(3) by (simp add: head_nat_def)

end
