(* ===== verification/Identity_Correct.thy ===== *)
theory Identity_Correct
  imports Identity_Steps
begin

text \<open>
  What the identity context guarantees when several replicas work on one database: as long as the
  others take registration steps, so does every delivery handled here; a verdict is that of one
  atomic registration on the registry as it is at that moment, and it has been confirmed.
\<close>

section \<open>Reads under interference\<close>

text \<open>The others only take registration steps.\<close>

definition rely :: "'b identity_world \<Rightarrow> bool" where
  "rely w \<longleftrightarrow> (\<forall>c \<in> set (iw_calls w). \<forall>d. db_ok d \<longrightarrow> registry_steps d (cl_others c d))"

text \<open>A database call touches the database and its coming calls, nothing else.\<close>

definition db_only :: "'b identity_world \<Rightarrow> 'b identity_world \<Rightarrow> bool" where
  "db_only w w' \<longleftrightarrow> set (iw_calls w') \<subseteq> set (iw_calls w) \<and> iw_bus w' = iw_bus w \<and>
     iw_tick w' = iw_tick w \<and> iw_alarms w' = iw_alarms w"

lemma db_only_refl [simp]: "db_only w w" "db_only w (w\<lparr>iw_db := d\<rparr>)"
  by (simp_all add: db_only_def)

lemma db_only_set [simp]: "db_only w (w'\<lparr>iw_db := d\<rparr>) \<longleftrightarrow> db_only w w'" "db_only (w\<lparr>iw_db := d\<rparr>) w' \<longleftrightarrow> db_only w w'"
  by (simp_all add: db_only_def)

lemma db_only_trans: "db_only a b \<Longrightarrow> db_only b c \<Longrightarrow> db_only a c"
  by (auto simp: db_only_def)

lemma rely_db_only: "rely w \<Longrightarrow> db_only w w' \<Longrightarrow> rely w'"
  by (auto simp: rely_def db_only_def)

lemma run_call_db_only: "run_call stmt d w = (r, w') \<Longrightarrow> db_only w w'"
  by (cases "iw_calls w") (auto simp: db_only_def dest!: run_call_others)

lemma others_steps: "rely w \<Longrightarrow> db_ok (iw_db w) \<Longrightarrow> registry_steps (iw_db w) (others_db w)"
  by (auto simp: rely_def others_db_def next_call_def calm_call_def split: list.split)

definition reads :: "'a statement \<Rightarrow> bool" where
  "reads stmt \<longleftrightarrow> (\<forall>d. \<exists>v. stmt d = Ok (v, d))"

lemma reads_simps [simp]:
  "reads no_effect" "reads select_version" "reads select_services" "reads select_scopes" "reads (select_owner k)"
  by (simp_all add: reads_def no_effect_def select_version_def select_services_def select_scopes_def
      select_owner_def)

lemma open_read:
  assumes "open_call stmt w = (r, w')" and "reads stmt"
  shows "iw_db w' = others_db w \<and> db_only w w' \<and>
    ((\<exists>e. r = Err (SqlxOther e)) \<or> (\<exists>v. r = Ok v \<and> stmt (others_db w) = Ok (v, others_db w)))"
proof -
  obtain v where "stmt (others_db w) = Ok (v, others_db w)"
    using assms(2) by (auto simp: reads_def)
  with assms(1) [unfolded open_call_def] run_call_db_only [OF assms(1) [unfolded open_call_def]]
  show ?thesis
    by (cases rule: run_call_cases) auto
qed

text \<open>A world whose database is valid and whose others behave, and one that took steps from another.\<close>

definition sound :: "'b identity_world \<Rightarrow> bool" where
  "sound w \<longleftrightarrow> rely w \<and> db_ok (iw_db w)"

definition evolves :: "'b identity_world \<Rightarrow> 'b identity_world \<Rightarrow> bool" where
  "evolves w w' \<longleftrightarrow> registry_steps (iw_db w) (iw_db w') \<and> db_only w w'"

lemma evolves_refl [simp]: "evolves w w"
  by (simp add: evolves_def)

lemma evolves_trans: "evolves a b \<Longrightarrow> evolves b c \<Longrightarrow> evolves a c"
  by (auto simp: evolves_def intro: rtranclp_trans db_only_trans)

lemma sound_evolves: "sound w \<Longrightarrow> evolves w w' \<Longrightarrow> sound w'"
  using registry_steps_ok rely_db_only by (auto simp: sound_def evolves_def)

lemma open_read_evolves:
  assumes "open_call stmt w = (r, w')" and "reads stmt" and "sound w"
  shows "evolves w w' \<and> sound w' \<and>
    ((\<exists>e. r = Err (SqlxOther e)) \<or> (\<exists>v. r = Ok v \<and> stmt (iw_db w') = Ok (v, iw_db w')))"
proof -
  have "evolves w w'"
    using open_read [OF assms(1,2)] others_steps [of w] assms(3) by (simp add: evolves_def sound_def)
  then show ?thesis
    using open_read [OF assms(1,2)] sound_evolves [OF assms(3)] by auto
qed

section \<open>Loading\<close>

text \<open>A load that succeeds read the version, the services and the scopes at three moments of a run.\<close>

definition read_apart :: "registry_db \<Rightarrow> scope_registry \<Rightarrow> u64 \<Rightarrow> registry_db \<Rightarrow> bool" where
  "read_apart d r v d' \<longleftrightarrow> (\<exists>d1 d2 d3. registry_steps d d1 \<and> registry_steps d1 d2 \<and> registry_steps d2 d3 \<and>
     registry_steps d3 d' \<and> db_ok d1 \<and> hd_version d1 = Some v \<and>
     hydrate_rows v (service_rows d2) (scope_rows d3) = Ok r)"

lemma load_outcome:
  assumes "load w = (res, w')" and "sound w"
  shows "evolves w w' \<and> (\<forall>r v. res = Ok (r, v) \<longrightarrow> read_apart (iw_db w) r v (iw_db w'))"
proof -
  obtain q0 w0 where c0: "open_call no_effect w = (q0, w0)" by (cases "open_call no_effect w")
  obtain q1 w1 where c1: "open_call select_version w0 = (q1, w1)" by (cases "open_call select_version w0")
  obtain q2 w2 where c2: "open_call select_services w1 = (q2, w2)" by (cases "open_call select_services w1")
  obtain q3 w3 where c3: "open_call select_scopes w2 = (q3, w3)" by (cases "open_call select_scopes w2")
  obtain q4 w4 where c4: "open_call no_effect w3 = (q4, w4)" by (cases "open_call no_effect w3")
  have s0: "evolves w w0" "sound w0"
    using open_read_evolves [OF c0 reads_simps(1) assms(2)] by blast+
  have s1: "evolves w0 w1" "sound w1" and v1: "\<And>v. q1 = Ok v \<Longrightarrow> v = hd_version (iw_db w1)"
    using open_read_evolves [OF c1 reads_simps(2) s0(2)] by (auto simp: select_version_def)
  have s2: "evolves w1 w2" "sound w2" and v2: "\<And>v. q2 = Ok v \<Longrightarrow> v = service_rows (iw_db w2)"
    using open_read_evolves [OF c2 reads_simps(3) s1(2)] by (auto simp: select_services_def)
  have s3: "evolves w2 w3" "sound w3" and v3: "\<And>v. q3 = Ok v \<Longrightarrow> v = scope_rows (iw_db w3)"
    using open_read_evolves [OF c3 reads_simps(4) s2(2)] by (auto simp: select_scopes_def)
  have s4: "evolves w3 w4"
    using open_read_evolves [OF c4 reads_simps(1) s3(2)] by blast
  have chain: "evolves w w1" "evolves w w2" "evolves w w3" "evolves w w4"
    using s0 s1 s2 s3 s4 by (blast intro: evolves_trans)+
  have ends: "w' \<in> {w0, w1, w2, w3, w4}"
    using assms(1) by (auto simp: load_def load_in_tx_def c0 c1 c2 c3 c4 split: sum.splits option.splits)
  have "read_apart (iw_db w) r v (iw_db w')" if res: "res = Ok (r, v)" for r v
  proof -
    obtain ss cs where q: "q1 = Ok (Some v)" "q2 = Ok ss" "q3 = Ok cs"
      and h: "hydrate_rows v ss cs = Ok r" and w': "w' = w4"
      using assms(1) res by (auto simp: load_def load_in_tx_def c0 c1 c2 c3 c4 split: sum.splits option.splits)
    show ?thesis
      unfolding read_apart_def w'
      using v1 [OF q(1)] v2 [OF q(2)] v3 [OF q(3)] h s1 s2 s3 s4 chain(1)
      by (intro exI [of _ "iw_db w1"] exI [of _ "iw_db w2"] exI [of _ "iw_db w3"])
        (simp add: evolves_def sound_def)
  qed
  then show ?thesis
    using ends s0(1) chain by auto
qed

text \<open>What hydrates is a valid registry, wherever its rows came from.\<close>

lemma gather_services_keys: "gather_services rows = Ok gs \<Longrightarrow> keys_ok (map snd gs)"
proof (induction rows arbitrary: gs)
  case (Cons row rows)
  then show ?case
    by (cases row) (auto simp: keys_ok_def parse_service_key_def svc.mk_Ok_iff service_key_ok_def
        split: sum.splits)
qed (simp add: keys_ok_def)

lemma file_scope_keys:
  "file_scope owner spec gs = Some gs' \<Longrightarrow> keys_ok (map snd gs) \<Longrightarrow> scope_key_ok (ss_key spec) \<Longrightarrow>
     keys_ok (map snd gs')"
  by (induction owner spec gs arbitrary: gs' rule: file_scope.induct) (auto simp: keys_ok_def split: if_splits)

lemma file_scopes_keys: "file_scopes rows gs = Ok gs' \<Longrightarrow> keys_ok (map snd gs) \<Longrightarrow> keys_ok (map snd gs')"
proof (induction rows arbitrary: gs)
  case (Cons row rows)
  obtain scope owning label description platform_only where
    row: "row = (scope, owning, label, description, platform_only)" by (cases row)
  from Cons.prems(1) obtain key owner gs1 where key: "scope_key_new scope = Ok key"
    and f: "file_scope owner \<lparr>ss_key = key, ss_label_key = label, ss_description_key = description,
      ss_platform_only = platform_only\<rparr> gs = Some gs1" and rest: "file_scopes rows gs1 = Ok gs'"
    by (auto simp: row parse_scope_key_def split: sum.splits option.splits)
  have "keys_ok (map snd gs1)"
    using f Cons.prems(2) by (rule file_scope_keys) (use key in \<open>simp add: scope_key_new_Ok_iff\<close>)
  with rest show ?case
    by (rule Cons.IH)
qed simp

lemma hydrate_rows_ok: "hydrate_rows v ss cs = Ok r \<Longrightarrow> registry_ok r"
  by (auto simp: hydrate_rows_def build_hydration_input_def hydrate_Ok_iff split: sum.splits
      dest: gather_services_keys file_scopes_keys)

text \<open>At a later moment with the version that was loaded, the registry loaded is the one in the store.\<close>

lemma load_current:
  assumes "read_apart d r v d'" and "registry_steps d' e" and "hd_version e = Some v"
  shows "r = store_registry e"
proof -
  obtain d1 d2 d3 where s: "registry_steps d1 d2" "registry_steps d2 d3" "registry_steps d3 d'"
    and ok: "db_ok d1" and v: "hd_version d1 = Some v"
    and h: "hydrate_rows v (service_rows d2) (scope_rows d3) = Ok r"
    using assms(1) by (auto simp: read_apart_def)
  have d2: "db_ok d2" "head_nat d1 \<le> head_nat d2"
    using registry_steps_ok [OF s(1) ok] by blast+
  have d3: "db_ok d3" "head_nat d2 \<le> head_nat d3"
    using registry_steps_ok [OF s(2) d2(1)] by blast+
  have e3: "registry_steps d3 e" and e2: "registry_steps d2 e"
    using s assms(2) by (blast intro: rtranclp_trans)+
  have e: "db_ok e" "head_nat d3 \<le> head_nat e"
    using registry_steps_ok [OF e3 d3(1)] by blast+
  have "head_nat e = head_nat d1"
    using v assms(3) by (simp add: head_nat_def)
  then have "same_rows d2 e" "same_rows d3 e"
    using registry_steps_ok [OF e2 d2(1)] registry_steps_ok [OF e3 d3(1)] d2(2) d3(2) e(2) by auto
  then have "hydrate_rows v (service_rows e) (scope_rows e) = Ok r"
    using h by (simp add: same_rows_def)
  then show ?thesis
    using hydrate_store [OF e(1) assms(3)] by simp
qed

text \<open>Rows that do not hydrate are reported as a corrupt store.\<close>

lemma gather_services_Err: "gather_services rows = Err e \<Longrightarrow> is_permanent e"
  by (induction rows rule: gather_services.induct)
    (auto simp: parse_service_key_def map_err_Err_iff split: sum.splits)

lemma file_scopes_Err: "file_scopes rows gs = Err e \<Longrightarrow> is_permanent e"
  by (induction rows gs rule: file_scopes.induct)
    (auto simp: parse_scope_key_def parse_service_key_def map_err_Err_iff split: sum.splits option.splits)

lemma hydrate_rows_Err: "hydrate_rows v ss cs = Err e \<Longrightarrow> is_permanent e"
  by (auto simp: hydrate_rows_def build_hydration_input_def map_err_Err_iff split: sum.splits
      dest: gather_services_Err file_scopes_Err)

lemma load_Err: "load w = (Err e, w') \<Longrightarrow> is_permanent e \<or> e = AppMissingRegistryHead \<or> (\<exists>x. e = AppPersistence x)"
  by (auto simp: load_def load_in_tx_def split: prod.splits sum.splits option.splits dest: hydrate_rows_Err)

section \<open>Saving\<close>

lemma write_scopes_db_only: "write_scopes now m specs w = (r, w') \<Longrightarrow> db_only w w'"
proof (induction specs arbitrary: w)
  case (Cons spec specs)
  obtain q w1 where c: "locked_call (write_scope now m spec) w = (q, w1)"
    by (cases "locked_call (write_scope now m spec) w")
  have "db_only w w1"
    using c [unfolded locked_call_def] by (rule run_call_db_only)
  moreover have "w' = w1 \<or> write_scopes now m specs w1 = (r, w')"
    using Cons.prems by (auto simp: c split: sum.splits option.splits)
  ultimately show ?case
    using Cons.IH [of w1] db_only_trans by blast
qed simp

lemma write_services_db_only: "write_services now svs w = (r, w') \<Longrightarrow> db_only w w'"
proof (induction svs arbitrary: w)
  case (Cons sv svs)
  obtain q w1 where c: "locked_call (insert_service (rv_manifest sv)) w = (q, w1)"
    by (cases "locked_call (insert_service (rv_manifest sv)) w")
  have w1: "db_only w w1"
    using c [unfolded locked_call_def] by (rule run_call_db_only)
  obtain q2 w2 where d: "write_service now sv w = (q2, w2)"
    by (cases "write_service now sv w")
  have "w2 = w1 \<or> write_scopes now (rv_manifest sv) (rv_scopes sv) w1 = (q2, w2)"
    using d by (auto simp: write_service_def c split: sum.splits)
  then have "db_only w w2"
    using write_scopes_db_only w1 db_only_trans by blast
  moreover have "w' = w2 \<or> write_services now svs w2 = (r, w')"
    using Cons.prems by (auto simp: d split: sum.splits)
  ultimately show ?case
    using Cons.IH [of w2] db_only_trans by blast
qed simp

text \<open>A registration that took effect at one moment of a run: on the registry then in the store.\<close>

definition registration_at :: "registry_db \<Rightarrow> scope_declaration \<Rightarrow> registry_db \<Rightarrow> bool" where
  "registration_at d dcl d' \<longleftrightarrow> db_ok d \<and> declaration_ok dcl \<and>
     0 \<le> sint (rg_version (registered dcl (store_registry d))) \<and>
     (\<exists>now. saved_as now (registered dcl (store_registry d)) d d')"

lemma registration_step: "registration_at d dcl d' \<Longrightarrow> registry_step d d'"
  by (auto simp: registration_at_def intro: registry_step.register)

text \<open>Under the lock: the writes take effect together or not at all.\<close>

lemma save_locked_outcome:
  assumes "save_locked now (registered dcl (store_registry d)) d w = (res, w')"
    and "iw_db w = d\<lparr>hd_version := Some (rg_version (registered dcl (store_registry d)))\<rparr>"
    and "db_ok d" and "declaration_ok dcl" and "0 \<le> sint (rg_version (registered dcl (store_registry d)))"
  shows "db_only w w' \<and> (res = Ok Persisted \<and> registration_at d dcl (iw_db w') \<or>
    (\<exists>e. res = Err (AppPersistence e)) \<and> (iw_db w' = d \<or> registration_at d dcl (iw_db w')))"
proof -
  let ?r = "registered dcl (store_registry d)"
  have ok: "services_ok (rg_services ?r)"
    using store_registry_holds [OF assms(3)] registered_ok [OF _ assms(4)]
    by (simp add: holds_def registry_ok_def)
  obtain q w1 where c: "write_services now (rg_services ?r) w = (q, w1)"
    by (cases "write_services now (rg_services ?r) w")
  have w1: "db_only w w1"
    using c by (rule write_services_db_only)
  have "(\<exists>e. q = Err (AppPersistence (SqlxOther e))) \<or>
      q = Ok (Ok ()) \<and> wrote now (rg_services ?r) (iw_db w) (iw_db w1)"
  proof (rule write_services_outcome [OF c _ _ ok])
    show "unclaimed (rg_services ?r) (iw_db w)"
      using store_unclaimed [OF assms(3) ok] by (simp add: assms(2) unclaimed_def)
  qed (use db_okD [OF assms(3)] in \<open>simp_all add: assms(2)\<close>)
  then show ?thesis
  proof (elim disjE exE conjE)
    fix e
    assume "q = Err (AppPersistence (SqlxOther e))"
    then show ?thesis
      using assms(1) w1 by (auto simp: save_locked_def c)
  next
    assume q: "q = Ok (Ok ())" and wrote: "wrote now (rg_services ?r) (iw_db w) (iw_db w1)"
    have at: "registration_at d dcl (iw_db w1)"
      using wrote assms(2-5) by (auto simp: registration_at_def saved_as_def)
    have tl: "db_only w (w1\<lparr>iw_calls := tl (iw_calls w1)\<rparr>)"
      using w1 by (cases "iw_calls w1") (auto simp: db_only_def)
    show ?thesis
      using assms(1) at tl by (cases "cl_fault (next_call w1)")
        (auto simp: save_locked_def c q commit_since_def Let_def db_only_def)
  qed
qed

lemma db_ok_head: "db_ok d \<Longrightarrow> \<exists>v. hd_version d = Some v"
  by (auto simp: db_ok_def)

lemma save_missed_outcome:
  assumes "save_missed w = (res, w')" and "sound w"
  shows "evolves w w' \<and> (res = Ok VersionConflict \<or> (\<exists>e. res = Err (AppPersistence e)))"
proof -
  obtain q1 w1 where c1: "open_call select_version w = (q1, w1)" by (cases "open_call select_version w")
  obtain q2 w2 where c2: "open_call no_effect w1 = (q2, w2)" by (cases "open_call no_effect w1")
  have s1: "evolves w w1" "sound w1" and v1: "\<And>v. q1 = Ok v \<Longrightarrow> v = hd_version (iw_db w1)"
    using open_read_evolves [OF c1 reads_simps(2) assms(2)] by (auto simp: select_version_def)
  have s2: "evolves w w2"
    using open_read_evolves [OF c2 reads_simps(1) s1(2)] evolves_trans [OF s1(1)] by blast
  have "q1 \<noteq> Ok None"
    using v1 [of None] db_ok_head [of "iw_db w1"] s1(2) by (auto simp: sound_def)
  then show ?thesis
    using assms(1) s1(1) s2 by (auto simp: save_missed_def c1 c2 split: sum.splits option.splits)
qed

text \<open>A save of a registry that was current when it was judged takes effect only on that registry.\<close>

lemma save_outcome:
  assumes "save (registered dcl r) v w = (res, w')" and "sound w" and "declaration_ok dcl"
    and current: "\<And>e. registry_steps (iw_db w) e \<Longrightarrow> hd_version e = Some v \<Longrightarrow> r = store_registry e"
  shows "evolves w w' \<and>
    (res = Ok Persisted \<and> (\<exists>d. registry_steps (iw_db w) d \<and> r = store_registry d \<and>
       registration_at d dcl (iw_db w')) \<or>
     res = Ok VersionConflict \<and> (\<exists>d. registry_steps (iw_db w) d \<and> registry_steps d (iw_db w') \<and>
       hd_version d \<noteq> Some v) \<or>
     (\<exists>e. res = Err (AppPersistence e)))"
proof -
  let ?r = "registered dcl r"
  obtain q0 w0 where c0: "open_call no_effect w = (q0, w0)" by (cases "open_call no_effect w")
  define saved where "saved = others_db w0"
  obtain q1 w1 where c1: "open_call (advance_head (rg_version ?r) v) w0 = (q1, w1)"
    by (cases "open_call (advance_head (rg_version ?r) v) w0")
  have s0: "evolves w w0" "sound w0"
    using open_read_evolves [OF c0 reads_simps(1) assms(2)] by blast+
  have steps: "registry_steps (iw_db w) saved"
    using s0 others_steps [of w0] by (auto simp: saved_def evolves_def sound_def)
  have ok: "db_ok saved"
    using registry_steps_ok [OF steps] assms(2) by (simp add: sound_def)
  have only: "db_only w w1"
    using s0(1) run_call_db_only [OF c1 [unfolded open_call_def]] db_only_trans by (auto simp: evolves_def)
  have undone: "evolves w (w1\<lparr>iw_db := saved\<rparr>)"
    using steps only by (simp add: evolves_def)
  have sv: "save ?r v w = (case q0 of Err e \<Rightarrow> (Err (AppPersistence e), w0) | Ok _ \<Rightarrow>
      (case q1 of Err e \<Rightarrow> (Err (AppPersistence e), w1\<lparr>iw_db := saved\<rparr>)
       | Ok advanced \<Rightarrow> if advanced = 0 then save_missed w1 else save_locked (cl_now (next_call w)) ?r saved w1))"
    by (simp add: save_def Let_def c0 c1 saved_def split: sum.split)
  show ?thesis
  proof (cases q0)
    case (Inl e)
    then show ?thesis
      using assms(1) s0(1) by (auto simp: sv)
  next
    case (Inr u)
    show ?thesis
    proof (cases q1)
      case (Inl e)
      then show ?thesis
        using assms(1) undone Inr by (auto simp: sv)
    next
      case adv: (Inr n)
      have stmt: "advance_head (rg_version ?r) v saved = Ok (n, iw_db w1)"
        using c1 [unfolded open_call_def] adv by (cases rule: run_call_cases) (auto simp: saved_def)
      show ?thesis
      proof (cases "hd_version saved = Some v")
        case False
        then have n: "n = 0" and db: "iw_db w1 = saved"
          using stmt by (simp_all add: advance_head_def)
        then have w1: "evolves w w1"
          using steps only by (simp add: evolves_def)
        then have s1: "sound w1"
          using sound_evolves assms(2) by blast
        have missed: "save_missed w1 = (res, w')"
          using assms(1) Inr adv n by (simp add: sv)
        from save_missed_outcome [OF this s1] have "evolves w1 w'"
          and "res = Ok VersionConflict \<or> (\<exists>e. res = Err (AppPersistence e))"
          by blast+
        moreover from this have "registry_steps saved (iw_db w')"
          by (simp add: evolves_def db)
        ultimately show ?thesis
          using evolves_trans [OF w1] steps False by blast
      next
        case True
        then have n: "n = 1" and db: "iw_db w1 = saved\<lparr>hd_version := Some (rg_version ?r)\<rparr>"
          and pos: "0 \<le> sint (rg_version ?r)"
          using stmt by (auto simp: advance_head_def split: if_splits)
        have r: "r = store_registry saved"
          using current [OF steps True] .
        have "save_locked (cl_now (next_call w)) (registered dcl (store_registry saved)) saved w1 = (res, w')"
          using assms(1) Inr adv n by (simp add: sv flip: r)
        from save_locked_outcome [OF this _ ok assms(3)] db pos
        have out: "db_only w1 w'" "res = Ok Persisted \<and> registration_at saved dcl (iw_db w') \<or>
            (\<exists>e. res = Err (AppPersistence e)) \<and> (iw_db w' = saved \<or> registration_at saved dcl (iw_db w'))"
          by (simp_all flip: r)
        have "registry_steps saved (iw_db w')"
          using out(2) registration_step by auto
        then have "evolves w w'"
          using steps only out(1) db_only_trans by (auto simp: evolves_def)
        then show ?thesis
          using out(2) steps r by blast
      qed
    qed
  qed
qed

section \<open>The pipeline\<close>

text \<open>The broker acknowledged the confirmation of a verdict.\<close>

definition confirmed :: "'b pipeline \<Rightarrow> ('p integration_event \<Rightarrow> (string, string) result) \<Rightarrow> string
    \<Rightarrow> declare_command \<Rightarrow> 'p \<Rightarrow> 'b identity_world \<Rightarrow> bool" where
  "confirmed pl to_vec name command payload w' \<longleftrightarrow> (\<exists>tick bytes b ack.
     to_vec (confirmation pl name command payload tick) = Ok bytes \<and>
     jc_publish (pl_context pl) (event_subject (contract_coords name)) [] bytes b = (Ok (Ok ack), iw_bus w'))"

lemma publish_confirmation_outcome:
  assumes "publish_confirmation pl to_vec name command payload w = (res, w')"
  shows "iw_db w' = iw_db w \<and> iw_calls w' = iw_calls w \<and> iw_alarms w' = iw_alarms w \<and>
    (res = Ok () \<and> confirmed pl to_vec name command payload w' \<or> (\<exists>e. res = Err (AppPublish e)))"
proof -
  let ?event = "confirmation pl name command payload (iw_tick w)"
  obtain r b where p: "publish_event (pl_context pl) to_vec (contract_coords name) ?event (iw_bus w) = (r, b)"
    by (cases "publish_event (pl_context pl) to_vec (contract_coords name) ?event (iw_bus w)")
  have w': "w' = w\<lparr>iw_tick := iw_tick w + 1, iw_bus := b\<rparr>" "res = map_err AppPublish r"
    using assms by (simp_all add: publish_confirmation_def Let_def p)
  have "r = Ok () \<Longrightarrow> confirmed pl to_vec name command payload w'"
    using p by (auto simp: confirmed_def w' publish_event_def publish_def split: sum.splits prod.splits)
  then show ?thesis
    by (cases r) (auto simp: w')
qed

text \<open>What a run of the pipeline tells: the verdict that was confirmed, or an error.\<close>

definition verdict_sound :: "'b pipeline \<Rightarrow> declare_command \<Rightarrow> registry_db \<Rightarrow> 'b identity_world
    \<Rightarrow> (declaration_outcome, app_error) result \<Rightarrow> bool" where
  "verdict_sound pl command d w' out = (case out of
     Ok (Accepted service events) \<Rightarrow> (\<exists>dcl e. declare_validate (ic_payload command) = Ok dcl \<and>
         service = sm_key (sd_manifest dcl) \<and> registry_steps d e \<and> registration_at e dcl (iw_db w') \<and>
         events = declared_events (store_registry e) dcl \<and>
         confirmed pl (pl_accepted_vec pl) contract_accepted command \<lparr>sa_service = service\<rparr> w')
   | Ok (Rejected identity reason) \<Rightarrow> declare_validate (ic_payload command) = Err reason \<and>
         identity = identity_from_raw_key (rm_key (rd_manifest (ds_raw (ic_payload command)))) \<and>
         confirmed pl (pl_rejected_vec pl) contract_rejected command
           \<lparr>sr_service = reply_service identity, sr_reason = reason\<rparr> w'
   | Err _ \<Rightarrow> True)"

lemma verdict_sound_later:
  "registry_steps d e \<Longrightarrow> verdict_sound pl command e w' out \<Longrightarrow> verdict_sound pl command d w' out"
  by (auto simp: verdict_sound_def intro: rtranclp_trans split: sum.splits declaration_outcome.splits)

lemma reject_outcome:
  assumes "reject pl command identity reason w = (out, w')"
  shows "iw_db w' = iw_db w \<and> iw_calls w' = iw_calls w \<and> iw_alarms w' = iw_alarms w \<and>
    (out = Ok (Rejected identity reason) \<and> confirmed pl (pl_rejected_vec pl) contract_rejected command
       \<lparr>sr_service = reply_service identity, sr_reason = reason\<rparr> w' \<or> (\<exists>e. out = Err (AppPublish e)))"
proof -
  obtain r w1 where p: "publish_rejected pl command (reply_service identity) reason w = (r, w1)"
    by (cases "publish_rejected pl command (reply_service identity) reason w")
  show ?thesis
    using assms publish_confirmation_outcome [OF p [unfolded publish_rejected_def]]
    by (auto simp: reject_def p split: sum.splits)
qed

text \<open>A version that was read and then missed tells that another registration came between.\<close>

lemma missed_version_advanced:
  assumes "read_apart d r v d1" and "registry_steps d1 e" and "registry_steps e d2" and "hd_version e \<noteq> Some v"
    and "db_ok d"
  shows "head_nat d < head_nat d2"
proof -
  obtain a where a: "registry_steps d a" "registry_steps a d1" "hd_version a = Some v"
    using assms(1) unfolding read_apart_def by (blast intro: rtranclp_trans)
  have ok_a: "db_ok a" "head_nat d \<le> head_nat a"
    using registry_steps_ok [OF a(1) assms(5)] by blast+
  have ae: "registry_steps a e"
    using a(2) assms(2) by (rule rtranclp_trans)
  have e: "db_ok e" "head_nat a \<le> head_nat e"
    using registry_steps_ok [OF ae ok_a(1)] by blast+
  have "head_nat a \<noteq> head_nat e"
    using assms(4) a(3) db_ok_head [OF e(1)] by (auto simp: head_nat_def word_unat_eq_iff)
  moreover have "head_nat e \<le> head_nat d2"
    using registry_steps_ok [OF assms(3) e(1)] by blast
  ultimately show ?thesis
    using ok_a(2) e(2) by linarith
qed

lemma handle_attempts_outcome:
  assumes "handle_attempts pl command n w = (res, w')" and "sound w"
  shows "sound w' \<and> registry_steps (iw_db w) (iw_db w') \<and> iw_alarms w' = iw_alarms w \<and>
    (\<exists>out. res = Some out \<and> verdict_sound pl command (iw_db w) w' out \<and>
      (\<forall>k. out = Err (AppConflictRetriesExhausted k) \<longrightarrow> head_nat (iw_db w) + n \<le> head_nat (iw_db w')))"
  using assms
proof (induction n arbitrary: w)
  case 0
  then show ?case by (auto simp: verdict_sound_def)
next
  case (Suc n)
  obtain q1 w1 where l: "load w = (q1, w1)" by (cases "load w")
  have e1: "evolves w w1" and read: "\<And>r v. q1 = Ok (r, v) \<Longrightarrow> read_apart (iw_db w) r v (iw_db w1)"
    using load_outcome [OF l Suc.prems(2)] by auto
  have s1: "sound w1" and d1: "registry_steps (iw_db w) (iw_db w1)" "iw_alarms w1 = iw_alarms w"
    using sound_evolves [OF Suc.prems(2) e1] e1 by (auto simp: evolves_def db_only_def)
  have same_sound: "sound w''" if "iw_db w'' = iw_db x" "iw_calls w'' = iw_calls x" "sound x"
    for w'' x :: "'a identity_world"
    using that by (simp add: sound_def rely_def)
  show ?case
  proof (cases q1)
    case (Inl e)
    then show ?thesis
      using Suc.prems(1) s1 d1 load_Err [of w e w1] by (auto simp: l verdict_sound_def)
  next
    case (Inr rv)
    then obtain r v where q1: "q1 = Ok (r, v)" by (cases rv) auto
    note read = read [OF q1]
    have current: "r = store_registry e" if "registry_steps (iw_db w1) e" "hd_version e = Some v" for e
      using load_current [OF read that] .
    have reg: "registry_ok r"
      using read hydrate_rows_ok by (auto simp: read_apart_def)
    show ?thesis
    proof (cases "declare_validate (ic_payload command)")
      case (Inl reason)
      let ?id = "identity_from_raw_key (rm_key (rd_manifest (ds_raw (ic_payload command))))"
      obtain out w2 where rj: "reject pl command ?id reason w1 = (out, w2)"
        by (cases "reject pl command ?id reason w1")
      have res: "res = Some out" "w' = w2"
        using Suc.prems(1) by (simp_all add: l q1 judge_declaration_eq [OF reg] Inl rj)
      show ?thesis
        using reject_outcome [OF rj] same_sound [of w2 w1] s1 d1 Inl
        by (auto simp: res verdict_sound_def)
    next
      case (Inr dcl)
      then have dok: "declaration_ok dcl"
        by (simp add: declare_validate_Ok_iff)
      let ?service = "sm_key (sd_manifest dcl)"
      obtain q2 w2 where sv: "save (registered dcl r) v w1 = (q2, w2)"
        by (cases "save (registered dcl r) v w1")
      have e2: "evolves w1 w2" and out: "q2 = Ok Persisted \<and> (\<exists>d. registry_steps (iw_db w1) d \<and>
            r = store_registry d \<and> registration_at d dcl (iw_db w2)) \<or>
          q2 = Ok VersionConflict \<and> (\<exists>d. registry_steps (iw_db w1) d \<and> registry_steps d (iw_db w2) \<and>
            hd_version d \<noteq> Some v) \<or> (\<exists>e. q2 = Err (AppPersistence e))"
        using save_outcome [OF sv s1 dok current] by blast+
      have s2: "sound w2" and d2: "registry_steps (iw_db w) (iw_db w2)" "iw_alarms w2 = iw_alarms w"
        using sound_evolves [OF s1 e2] e2 d1 by (auto simp: evolves_def db_only_def)
      have run: "(res, w') = (case q2 of Err e \<Rightarrow> (Some (Err e), w2)
          | Ok Persisted \<Rightarrow> (case publish_accepted pl command ?service w2 of
              (Err e, w3) \<Rightarrow> (Some (Err e), w3)
            | (Ok _, w3) \<Rightarrow> (Some (Ok (Accepted ?service (declared_events r dcl))), w3))
          | Ok VersionConflict \<Rightarrow> handle_attempts pl command n w2
          | Ok (ScopeConflict key owner) \<Rightarrow>
              (case reject pl command (RejectedService ?service) (ScopeOwnedByAnotherService key owner) w2 of
                 (r, w3) \<Rightarrow> (Some r, w3)))"
        using Suc.prems(1) by (simp add: l q1 judge_declaration_eq [OF reg] Inr sv split: sum.splits save_outcome.splits)
      from out show ?thesis
      proof (elim disjE exE conjE)
        fix e
        assume p: "q2 = Ok Persisted" and e: "registry_steps (iw_db w1) e" "r = store_registry e"
          "registration_at e dcl (iw_db w2)"
        obtain q3 w3 where pa: "publish_accepted pl command ?service w2 = (q3, w3)"
          by (cases "publish_accepted pl command ?service w2")
        have "registry_steps (iw_db w) e"
          using d1(1) e(1) by (rule rtranclp_trans)
        then show ?thesis
          using run publish_confirmation_outcome [OF pa [unfolded publish_accepted_def]] same_sound [of w3 w2]
            s2 d2 e(2,3) Inr
          by (auto simp: p pa verdict_sound_def)
      next
        fix e
        assume q2: "q2 = Ok VersionConflict" and e: "registry_steps (iw_db w1) e" "registry_steps e (iw_db w2)"
          "hd_version e \<noteq> Some v"
        have more: "head_nat (iw_db w) < head_nat (iw_db w2)"
          using missed_version_advanced [OF read e] Suc.prems(2) by (simp add: sound_def)
        have "handle_attempts pl command n w2 = (res, w')"
          using run by (simp add: q2)
        from Suc.IH [OF this s2] more show ?thesis
          using d2 verdict_sound_later [OF d2(1)] by (fastforce intro: rtranclp_trans)
      next
        fix e
        assume "q2 = Err (AppPersistence e)"
        then show ?thesis
          using run s2 d2 by (simp add: verdict_sound_def)
      qed
    qed
  qed
qed

end
