(* ===== verification/Identity_Guarantees.thy ===== *)
theory Identity_Guarantees
  imports Identity_Correct
begin

text \<open>
  The guarantees of the identity context as properties, each with a run it applies to: one replica
  answers a declaration while another one registers services of its own.
\<close>

section \<open>Sample runs\<close>

text \<open>A broker that counts what it acknowledged, and services that declare one scope each.\<close>

definition counting_pipeline :: "nat pipeline" where
  "counting_pipeline = \<lparr>pl_context = \<lparr>jc_publish = \<lambda>subject headers bytes n.
       (Ok (Ok \<lparr>pa_sequence = of_nat n, pa_duplicate = False\<rparr>), n + 1)\<rparr>,
     pl_accepted_vec = \<lambda>_. Ok ''accepted'', pl_rejected_vec = \<lambda>_. Ok ''rejected'',
     pl_stamp = \<lambda>n. (of_nat n, int n)\<rparr>"

definition declares :: "string \<Rightarrow> declare_command" where
  "declares k = integration_command_new 7 command_type contract_version 0
     (metadata_new (Service (ServiceAccountId 3)) 9)
     (DeclareServiceScopes \<lparr>rd_manifest = \<lparr>rm_key = k, rm_label_key = ''l'', rm_description_key = ''d''\<rparr>,
       rd_scopes = [\<lparr>rs_key = k @ '':r'', rs_label_key = ''l'', rs_description_key = ''d'',
         rs_platform_only = False\<rparr>]\<rparr>)"

definition world_at :: "registry_db \<Rightarrow> call list \<Rightarrow> nat identity_world" where
  "world_at d calls = \<lparr>iw_db = d, iw_calls = calls, iw_bus = 0, iw_tick = 0, iw_alarms = []\<rparr>"

text \<open>Another replica answers the declaration of a service while a statement of ours waits.\<close>

definition replica :: "string \<Rightarrow> registry_db \<Rightarrow> registry_db" where
  "replica k d = iw_db (snd (pipeline_handle counting_pipeline (declares k) (world_at d [])))"

definition meeting :: "string \<Rightarrow> call" where
  "meeting k = calm_call\<lparr>cl_others := replica k\<rparr>"

text \<open>Every attempt meets a registration between its load and its save.\<close>

definition contested :: "string list \<Rightarrow> nat identity_world" where
  "contested ks = world_at migrated_db
     (concat (map (\<lambda>k. replicate 6 calm_call @ [meeting k] @ replicate 2 calm_call) ks))"

text \<open>A registration is committed between the two selects of a load.\<close>

definition torn_world :: "nat identity_world" where
  "torn_world = world_at migrated_db [calm_call, calm_call, calm_call, meeting ''a'']"

lemma migrated_db_ok [simp]: "db_ok migrated_db"
  by (simp add: db_ok_def migrated_db_def)

lemma handle_outcome:
  assumes "pipeline_handle pl command w = (res, w')" and "sound w"
  shows "sound w' \<and> registry_steps (iw_db w) (iw_db w') \<and> iw_alarms w' = iw_alarms w \<and>
    (\<exists>out. res = Some out \<and> verdict_sound pl command (iw_db w) w' out \<and>
      (\<forall>k. out = Err (AppConflictRetriesExhausted k) \<longrightarrow>
         head_nat (iw_db w) + max_attempts_declare \<le> head_nat (iw_db w')))"
  using handle_attempts_outcome [OF assms(1) [unfolded pipeline_handle_def] assms(2)] .

lemma replica_steps:
  assumes "db_ok d"
  shows "registry_steps d (replica k d)"
proof -
  have "sound (world_at d [])"
    using assms by (simp add: sound_def rely_def world_at_def)
  from handle_outcome [OF surjective_pairing this] show ?thesis
    by (simp add: replica_def world_at_def)
qed

lemma sound_world_at:
  assumes "list_all (\<lambda>c. c = calm_call \<or> (\<exists>k. c = meeting k)) calls" and "db_ok d"
  shows "sound (world_at d calls)"
  using assms replica_steps
  by (fastforce simp: sound_def rely_def world_at_def meeting_def calm_call_def list_all_iff)

lemma sound_contested [simp]: "sound (contested ks)"
  unfolding contested_def by (rule sound_world_at) (auto simp: list_all_iff)

section \<open>Verdicts\<close>

text \<open>C2: while the other replicas only take registration steps, so does a run of the pipeline: it
  never panics, the store stays valid and moves by registration steps alone, and a verdict is
  exact. An acceptance is one registration that took effect on the registry as the store held it
  at that moment, with exactly the events of that registration; a rejection is the reason for
  which the message itself does not validate; and either was confirmed to the broker before it was
  returned.
\<close>

theorem concurrent_verdicts_atomic:
  assumes "pipeline_handle pl command w = (res, w')" and "sound w"
  shows "\<exists>out. res = Some out \<and> verdict_sound pl command (iw_db w) w' out \<and>
    registry_steps (iw_db w) (iw_db w') \<and> db_ok (iw_db w')"
  using handle_outcome [OF assms] by (auto simp: sound_def)

theorem concurrent_verdicts_atomic_witness:
  "case pipeline_handle counting_pipeline (declares ''b'') (contested [''a'']) of (res, w') \<Rightarrow>
     (\<exists>out. res = Some out \<and> verdict_sound counting_pipeline (declares ''b'') migrated_db w' out \<and>
       registry_steps migrated_db (iw_db w') \<and> db_ok (iw_db w'))"
  using concurrent_verdicts_atomic [OF surjective_pairing sound_contested,
      of counting_pipeline "declares ''b''" "[''a'']"]
  by (simp add: split_def contested_def world_at_def)

text \<open>C36: a declaration that runs out of attempts does so because the others made progress: the
  registry's version advanced by at least the number of attempts meanwhile.
\<close>

theorem exhausted_only_under_progress:
  assumes "pipeline_handle pl command w = (Some (Err (AppConflictRetriesExhausted k)), w')" and "sound w"
  shows "head_nat (iw_db w) + 5 \<le> head_nat (iw_db w')"
  using handle_outcome [OF assms] by (simp add: max_attempts_declare_def)

theorem exhausted_only_under_progress_witness:
  "case pipeline_handle counting_pipeline (declares ''b'') (contested [''c'', ''d'', ''e'', ''f'', ''g'']) of
     (res, w') \<Rightarrow> res = Some (Err (AppConflictRetriesExhausted 5)) \<and> 5 \<le> head_nat (iw_db w')"
proof -
  let ?run = "pipeline_handle counting_pipeline (declares ''b'') (contested [''c'', ''d'', ''e'', ''f'', ''g''])"
  have lost: "fst ?run = Some (Err (AppConflictRetriesExhausted 5))"
    by code_simp
  then have "?run = (Some (Err (AppConflictRetriesExhausted 5)), snd ?run)"
    by (simp add: prod_eq_iff)
  from exhausted_only_under_progress [OF this sound_contested] show ?thesis
    using lost by (simp add: split_def)
qed

section \<open>The store\<close>

text \<open>C17: handling a declaration loses or changes nothing that was registered, whatever faults and
  registrations of other replicas it meets: the store that was valid stays valid, it has every
  service and scope it had, with the same owner, texts and time of registration; its version does
  not go back; and a scope key has one owner, the service it names.
\<close>

theorem store_only_grows:
  assumes "pipeline_handle pl command w = (res, w')" and "sound w"
  shows "db_ok (iw_db w') \<and> rows_kept (iw_db w) (iw_db w') \<and> head_nat (iw_db w) \<le> head_nat (iw_db w') \<and>
    (\<forall>key row. scope_key_ok key \<and> bm_get (db_scopes (iw_db w')) (scope_str key) = Some row \<longrightarrow>
       sc_owning_service row = service_segment key)"
proof -
  have steps: "registry_steps (iw_db w) (iw_db w')" and ok: "db_ok (iw_db w)"
    using handle_outcome [OF assms] assms(2) by (auto simp: sound_def)
  show ?thesis
    using registry_steps_ok [OF steps ok] db_ok_owner by blast
qed

theorem store_only_grows_witness:
  "db_scopes (replica ''a'' migrated_db) \<noteq> [] \<and>
   (case pipeline_handle counting_pipeline (declares ''b'') (world_at (replica ''a'' migrated_db) [meeting ''c'']) of
     (res, w') \<Rightarrow> db_ok (iw_db w') \<and> rows_kept (replica ''a'' migrated_db) (iw_db w'))"
proof -
  let ?d = "replica ''a'' migrated_db"
  have "db_scopes ?d \<noteq> []"
    by code_simp
  moreover have "sound (world_at ?d [meeting ''c''])"
    using registry_steps_ok [OF replica_steps] by (intro sound_world_at) auto
  ultimately show ?thesis
    using store_only_grows [OF surjective_pairing, of "world_at ?d [meeting ''c'']"]
    by (simp add: split_def world_at_def)
qed

section \<open>Torn reads\<close>

text \<open>The key of the row that is blamed, among those whose service was not read.\<close>

lemma file_scope_keeps_keys: "file_scope owner spec gs = Some gs' \<Longrightarrow> map fst gs' = map fst gs"
  by (induction owner spec gs arbitrary: gs' rule: file_scope.induct) (auto split: if_splits)

lemma file_scope_unowned: "file_scope owner spec gs = None \<longleftrightarrow> owner \<notin> fst ` set gs"
  by (induction owner spec gs rule: file_scope.induct) auto

lemma file_scopes_unowned:
  assumes "\<forall>(k, row) \<in> set rows. scope_key_new k = Ok (the_scope_key k) \<and>
        service_key_new (sc_owning_service row) = Ok (ServiceKey (sc_owning_service row))"
    and "\<exists>(k, row) \<in> set rows. ServiceKey (sc_owning_service row) \<notin> fst ` set gs"
  shows "\<exists>(k, row) \<in> set rows. ServiceKey (sc_owning_service row) \<notin> fst ` set gs \<and>
    file_scopes (map (\<lambda>(k, r). (k, sc_owning_service r, sc_label_key r, sc_description_key r,
       sc_platform_only r)) rows) gs =
      Err (AppHydration (ScopeOwnerMismatch (the_scope_key k) (ServiceKey (sc_owning_service row))))"
  using assms
proof (induction rows arbitrary: gs)
  case (Cons p rows)
  obtain k row where p: "p = (k, row)" by (cases p)
  have parse: "parse_scope_key k = Ok (the_scope_key k)"
      "parse_service_key (sc_owning_service row) = Ok (ServiceKey (sc_owning_service row))"
    using Cons.prems(1) by (simp_all add: p parse_scope_key_def parse_service_key_def)
  show ?case
  proof (cases "file_scope (ServiceKey (sc_owning_service row)) \<lparr>ss_key = the_scope_key k,
      ss_label_key = sc_label_key row, ss_description_key = sc_description_key row,
      ss_platform_only = sc_platform_only row\<rparr> gs")
    case None
    then have "ServiceKey (sc_owning_service row) \<notin> fst ` set gs"
      by (simp only: file_scope_unowned not_False_eq_True)
    with None show ?thesis
      using parse by (simp add: p)
  next
    case (Some gs1)
    then have keys: "fst ` set gs1 = fst ` set gs"
      using file_scope_keeps_keys [OF Some] by (metis list.set_map)
    have "ServiceKey (sc_owning_service row) \<in> fst ` set gs"
      using Some file_scope_unowned by (metis option.distinct(1))
    then have "\<exists>(k, row) \<in> set rows. ServiceKey (sc_owning_service row) \<notin> fst ` set gs1"
      using Cons.prems(2) by (auto simp: p keys)
    from Cons.IH [OF _ this] Cons.prems(1) show ?thesis
      using parse Some by (fastforce simp: p keys)
  qed
qed simp

text \<open>Services and scopes that were read from two valid stores.\<close>

definition torn :: "registry_db \<Rightarrow> registry_db \<Rightarrow> bool" where
  "torn d2 d3 \<longleftrightarrow> (\<exists>(k, row) \<in> set (db_scopes d3). sc_owning_service row \<notin> fst ` set (db_services d2))"

lemma hydrate_torn:
  assumes "db_ok d2" and "db_ok d3" and "torn d2 d3"
  shows "\<exists>(k, row) \<in> set (db_scopes d3). sc_owning_service row \<notin> fst ` set (db_services d2) \<and>
    hydrate_rows v (service_rows d2) (scope_rows d3) =
      Err (AppHydration (ScopeOwnerMismatch (the_scope_key k) (ServiceKey (sc_owning_service row))))"
proof -
  let ?gs = "map (\<lambda>(k, r). (ServiceKey k, manifest_of (ServiceKey k) r, [])) (db_services d2) :: gathered list"
  let ?rows = "sort_key (\<lambda>(k, r). sc_owning_service r) (db_scopes d3)"
  have gs: "gather_services (service_rows d2) = Ok ?gs"
    unfolding service_rows_def using db_okD(5) [OF assms(1)] by (intro gather_services_ok) blast
  have keys: "ServiceKey x \<in> fst ` set ?gs \<longleftrightarrow> x \<in> fst ` set (db_services d2)" for x
    by force
  have "\<forall>(k, row) \<in> set ?rows. scope_key_new k = Ok (the_scope_key k) \<and>
        service_key_new (sc_owning_service row) = Ok (ServiceKey (sc_owning_service row))"
    using db_okD(5,6,7) [OF assms(2)] by (fastforce simp: scope_key_new_Ok_iff svc.mk_Ok_iff)
  moreover have "\<exists>(k, row) \<in> set ?rows. ServiceKey (sc_owning_service row) \<notin> fst ` set ?gs"
    using assms(3) unfolding torn_def keys by simp
  ultimately have "\<exists>(k, row) \<in> set ?rows. ServiceKey (sc_owning_service row) \<notin> fst ` set ?gs \<and>
      file_scopes (scope_rows d3) ?gs =
        Err (AppHydration (ScopeOwnerMismatch (the_scope_key k) (ServiceKey (sc_owning_service row))))"
    unfolding scope_rows_def by (rule file_scopes_unowned)
  then show ?thesis
    unfolding keys by (fastforce simp: hydrate_rows_def build_hydration_input_def gs)
qed

lemma hydrate_not_torn:
  assumes "db_ok d2" and "db_ok d3" and "\<not> torn d2 d3" and "0 \<le> sint v"
  shows "\<exists>r. hydrate_rows v (service_rows d2) (scope_rows d3) = Ok r"
proof -
  define d where "d = d3\<lparr>hd_version := Some v, db_services := db_services d2\<rparr>"
  have "db_ok d"
    using assms unfolding db_ok_def torn_def d_def by fastforce
  moreover have "service_rows d = service_rows d2" "scope_rows d = scope_rows d3"
    by (simp_all add: d_def service_rows_def scope_rows_def)
  ultimately show ?thesis
    using hydrate_store [of d v] by (simp add: d_def)
qed

lemma open_read_calm:
  assumes "iw_calls w = c # cs" and "cl_fault c = NoFault" and "stmt (cl_others c (iw_db w)) = Ok (v, cl_others c (iw_db w))"
  shows "open_call stmt w = (Ok v, w\<lparr>iw_calls := cs, iw_db := cl_others c (iw_db w)\<rparr>)"
  using assms by (simp add: open_call_def run_call_def others_db_def next_call_def Let_def)

text \<open>The load of a delivery whose first four statements meet no fault.\<close>

lemma load_apart:
  assumes "sound w" and calls: "iw_calls w = c0 # c1 # c2 # c3 # cs"
    and calm: "\<forall>c \<in> {c0, c1, c2, c3}. cl_fault c = NoFault"
    and d2: "d2 = cl_others c2 (cl_others c1 (cl_others c0 (iw_db w)))" and d3: "d3 = cl_others c3 d2"
  shows "db_ok d2 \<and> db_ok d3 \<and> registry_steps d2 d3 \<and> (\<exists>v. 0 \<le> sint v \<and>
    load w = (case hydrate_rows v (service_rows d2) (scope_rows d3) of
        Err e \<Rightarrow> (Err e, w\<lparr>iw_calls := cs, iw_db := d3\<rparr>)
      | Ok r \<Rightarrow> (case open_call no_effect (w\<lparr>iw_calls := cs, iw_db := d3\<rparr>) of
          (Err e, w4) \<Rightarrow> (Err (AppPersistence e), w4) | (Ok _, w4) \<Rightarrow> (Ok (r, v), w4))))"
proof -
  have step: "registry_steps d (cl_others c d)" if "c \<in> {c0, c1, c2, c3}" "db_ok d" for c d
    using assms(1) that by (auto simp: sound_def rely_def calls)
  have ok: "db_ok (cl_others c d)" if "c \<in> {c0, c1, c2, c3}" "db_ok d" for c d
    using registry_steps_ok [OF step [OF that]] that(2) by blast
  have db1: "db_ok (cl_others c1 (cl_others c0 (iw_db w)))"
    using assms(1) ok by (simp add: sound_def)
  then have db2: "db_ok d2" and db3: "db_ok d3" and moved: "registry_steps d2 d3"
    using ok step unfolding d3 d2 by simp_all
  obtain v where v: "hd_version (cl_others c1 (cl_others c0 (iw_db w))) = Some v" "0 \<le> sint v"
    using db1 by (auto simp: db_ok_def)
  have "load w = (case hydrate_rows v (service_rows d2) (scope_rows d3) of
        Err e \<Rightarrow> (Err e, w\<lparr>iw_calls := cs, iw_db := d3\<rparr>)
      | Ok r \<Rightarrow> (case open_call no_effect (w\<lparr>iw_calls := cs, iw_db := d3\<rparr>) of
          (Err e, w4) \<Rightarrow> (Err (AppPersistence e), w4) | (Ok _, w4) \<Rightarrow> (Ok (r, v), w4)))"
    using calm v(1) calls by (simp add: load_def load_in_tx_def open_read_calm no_effect_def select_version_def
        select_services_def select_scopes_def d2 d3 split: sum.split)
  then show ?thesis
    using db2 db3 moved v(2) by blast
qed

text \<open>C31: the two selects of a load can see different stores, both of them valid. If no statement up to the
  second one fails, whatever the declaration, the load takes the store for corrupt exactly when the
  second select sees a scope whose service was not there at the first, that is when another replica
  committed the registration of a new service between them. Then the delivery is put back with the
  delay, nothing is written or published, and the alarm of a permanent failure is raised for such a
  scope and its service, which the store has by then.
\<close>

theorem torn_read_alarms:
  assumes "sound w" and "iw_calls w = c0 # c1 # c2 # c3 # cs"
    and "\<forall>c \<in> {c0, c1, c2, c3}. cl_fault c = NoFault"
    and "d2 = cl_others c2 (cl_others c1 (cl_others c0 (iw_db w)))" and "d3 = cl_others c3 d2"
  shows "if \<exists>(k, row) \<in> set (db_scopes d3). sc_owning_service row \<notin> fst ` set (db_services d2)
    then \<exists>(k, row) \<in> set (db_scopes d3). \<exists>key.
      sc_owning_service row \<in> fst ` set (db_services d3) - fst ` set (db_services d2) \<and> scope_str key = k \<and>
      db_ok d2 \<and> db_ok d3 \<and> handle_delivery pl command w = (Some (ONak (Some (from_secs 5))),
        w\<lparr>iw_calls := cs, iw_db := d3, iw_alarms := iw_alarms w @
          [AppHydration (ScopeOwnerMismatch key (ServiceKey (sc_owning_service row)))]\<rparr>)
    else \<forall>e. fst (load w) = Err e \<longrightarrow> (\<exists>x. e = AppPersistence x)"
proof -
  obtain v where ok: "db_ok d2" "db_ok d3" and v: "0 \<le> sint v"
    and load: "load w = (case hydrate_rows v (service_rows d2) (scope_rows d3) of
        Err e \<Rightarrow> (Err e, w\<lparr>iw_calls := cs, iw_db := d3\<rparr>)
      | Ok r \<Rightarrow> (case open_call no_effect (w\<lparr>iw_calls := cs, iw_db := d3\<rparr>) of
          (Err e, w4) \<Rightarrow> (Err (AppPersistence e), w4) | (Ok _, w4) \<Rightarrow> (Ok (r, v), w4)))"
    using load_apart [OF assms] by blast
  show ?thesis
  proof (cases "torn d2 d3")
    case True
    then obtain k row where row: "(k, row) \<in> set (db_scopes d3)" "sc_owning_service row \<notin> fst ` set (db_services d2)"
      and h: "hydrate_rows v (service_rows d2) (scope_rows d3) =
        Err (AppHydration (ScopeOwnerMismatch (the_scope_key k) (ServiceKey (sc_owning_service row))))"
      using hydrate_torn [OF ok] by blast
    have "handle_delivery pl command w = (Some (ONak (Some (from_secs 5))),
        w\<lparr>iw_calls := cs, iw_db := d3, iw_alarms := iw_alarms w @
          [AppHydration (ScopeOwnerMismatch (the_scope_key k) (ServiceKey (sc_owning_service row)))]\<rparr>)"
      by (simp add: handle_delivery_def pipeline_handle_def max_attempts_declare_def numeral_eq_Suc load h nak_delay_def)
    then show ?thesis
      using True row ok db_okD(6,7) [OF ok(2) row(1)] unfolding torn_def by auto
  next
    case False
    then obtain r where "hydrate_rows v (service_rows d2) (scope_rows d3) = Ok r"
      using hydrate_not_torn [OF ok _ v] by blast
    then show ?thesis
      using False unfolding torn_def by (auto simp: load split: prod.splits sum.splits)
  qed
qed

theorem torn_read_alarms_witness:
  "\<exists>key owner. fst (handle_delivery counting_pipeline (declares ''b'') torn_world) = Some (ONak (Some (from_secs 5))) \<and>
     iw_alarms (snd (handle_delivery counting_pipeline (declares ''b'') torn_world)) =
       [AppHydration (ScopeOwnerMismatch key owner)]"
proof -
  have sound: "sound torn_world"
    unfolding torn_world_def by (rule sound_world_at) auto
  have calls: "iw_calls torn_world = [calm_call, calm_call, calm_call, meeting ''a'']"
    by (simp add: torn_world_def world_at_def)
  have "map (sc_owning_service \<circ> snd) (db_scopes (replica ''a'' migrated_db)) = [''a'']"
    by code_simp
  then have "\<exists>(k, row) \<in> set (db_scopes (replica ''a'' migrated_db)).
      sc_owning_service row \<notin> fst ` set (db_services migrated_db)"
    by (cases "db_scopes (replica ''a'' migrated_db)") (auto simp: migrated_db_def)
  moreover have "cl_others calm_call d = d" "cl_others (meeting ''a'') d = replica ''a'' d" for d
    by (simp_all add: calm_call_def meeting_def)
  moreover have "iw_db torn_world = migrated_db" "iw_alarms torn_world = []"
    by (simp_all add: torn_world_def world_at_def)
  ultimately show ?thesis
    using torn_read_alarms [OF sound calls _ refl refl, of counting_pipeline "declares ''b''"]
    by (auto simp: calm_call_def meeting_def)
qed

end
