(* ===== verification/Identity_Calm.thy ===== *)
theory Identity_Calm
  imports Identity_Guarantees
begin

text \<open>
  The pipeline when no call meets a fault or another replica: every delivery is answered at the first
  attempt, a valid declaration by its registration.
\<close>

section \<open>Calls without faults\<close>

text \<open>No faults and no others to come.\<close>

definition quiet :: "'b identity_world \<Rightarrow> bool" where
  "quiet w \<longleftrightarrow> iw_calls w = []"

lemma quiet_set [simp]: "quiet (w\<lparr>iw_db := d\<rparr>) = quiet w"
  by (simp add: quiet_def)

lemma quiet_same [simp]: "w\<lparr>iw_db := iw_db w\<rparr> = w"
  by simp

lemma run_call_quiet:
  "quiet w \<Longrightarrow> run_call stmt d w = (case stmt d of
     Err e \<Rightarrow> (Err e, w\<lparr>iw_db := d\<rparr>) | Ok (v, d') \<Rightarrow> (Ok v, w\<lparr>iw_db := d'\<rparr>))"
  by (cases w) (auto simp: quiet_def run_call_def next_call_def calm_call_def split: sum.split)

lemma open_call_quiet:
  "quiet w \<Longrightarrow> open_call stmt w = (case stmt (iw_db w) of
     Err e \<Rightarrow> (Err e, w) | Ok (v, d') \<Rightarrow> (Ok v, w\<lparr>iw_db := d'\<rparr>))"
  by (cases w) (simp add: open_call_def run_call_quiet others_db_def quiet_def next_call_def calm_call_def
      split: sum.split)

lemma locked_call_quiet:
  "quiet w \<Longrightarrow> locked_call stmt w = (case stmt (iw_db w) of
     Err e \<Rightarrow> (Err e, w) | Ok (v, d') \<Rightarrow> (Ok v, w\<lparr>iw_db := d'\<rparr>))"
  by (simp add: locked_call_def run_call_quiet split: sum.split)

lemma commit_quiet: "quiet w \<Longrightarrow> commit_since saved w = (Ok (), w)"
  by (cases w) (simp add: commit_since_def quiet_def next_call_def calm_call_def)

lemma load_quiet:
  assumes "quiet w" and "db_ok (iw_db w)" and "hd_version (iw_db w) = Some v"
  shows "load w = (Ok (store_registry (iw_db w), v), w)"
  using assms(1,3) by (simp add: load_def load_in_tx_def open_call_quiet no_effect_def select_version_def
      select_services_def select_scopes_def hydrate_store [OF assms(2,3)])

text \<open>A write that the table refuses is the only error left.\<close>

lemma write_scopes_quiet:
  assumes "write_scopes now m specs w = (r, w')" and "quiet w"
  shows "quiet w' \<and> (\<forall>e. r \<noteq> Err (AppPersistence (SqlxOther e)))"
  using assms
proof (induction specs arbitrary: w)
  case (Cons spec specs)
  show ?case
  proof (cases "write_scope now m spec (iw_db w)")
    case (Inl e)
    then have "e = SqlxDatabase unique_violation"
      by (auto simp: write_scope_def Let_def split: option.splits if_splits)
    then show ?thesis
      using Cons.prems Inl by (auto simp: locked_call_quiet classify_unique_violation_def)
  next
    case (Inr vd)
    then show ?thesis
      using Cons.prems Cons.IH [of "w\<lparr>iw_db := snd vd\<rparr>"] by (simp add: locked_call_quiet split_def)
  qed
qed auto

lemma write_services_quiet:
  assumes "write_services now svs w = (r, w')" and "quiet w"
  shows "quiet w' \<and> (\<forall>e. r \<noteq> Err (AppPersistence (SqlxOther e)))"
  using assms
proof (induction svs arbitrary: w)
  case (Cons sv svs)
  obtain r1 w1 where c: "write_scopes now (rv_manifest sv) (rv_scopes sv)
      (w\<lparr>iw_db := insert_service_ok (rv_manifest sv) (iw_db w)\<rparr>) = (r1, w1)"
    by (metis surj_pair)
  have "write_service now sv w = (r1, w1)"
    using Cons.prems(2) c by (simp add: write_service_def locked_call_quiet insert_service_eq)
  with Cons.prems(1) have "(r, w') = (case r1 of Ok (Ok _) \<Rightarrow> write_services now svs w1 | r \<Rightarrow> (r, w1))"
    by simp
  then show ?case
    using Cons.IH [of w1] write_scopes_quiet [OF c] Cons.prems(2) by (auto split: sum.splits)
qed auto

lemma save_quiet:
  assumes "quiet w" and "db_ok (iw_db w)" and "declaration_ok dcl" and "hd_version (iw_db w) = Some v"
    and "0 \<le> sint (rg_version (registered dcl (store_registry (iw_db w))))"
  shows "\<exists>w'. save (registered dcl (store_registry (iw_db w))) v w = (Ok Persisted, w') \<and> quiet w' \<and>
    registration_at (iw_db w) dcl (iw_db w') \<and> db_only w w'"
proof -
  let ?d = "iw_db w" and ?r = "registered dcl (store_registry (iw_db w))"
  let ?now = "cl_now (next_call w)" and ?w1 = "w\<lparr>iw_db := ?d\<lparr>hd_version := Some (rg_version ?r)\<rparr>\<rparr>"
  have others: "others_db w = ?d"
    using assms(1) by (simp add: others_db_def quiet_def next_call_def calm_call_def)
  have sv: "save ?r v w = save_locked ?now ?r ?d ?w1"
    using assms(1,4,5) by (simp add: save_def Let_def open_call_quiet no_effect_def advance_head_def others)
  obtain q w2 where c: "write_services ?now (rg_services ?r) ?w1 = (q, w2)"
    by (metis surj_pair)
  have q: "quiet w2" "\<And>e. q \<noteq> Err (AppPersistence (SqlxOther e))"
    using write_services_quiet [OF c] assms(1) by auto
  obtain res w' where lk: "save_locked ?now ?r ?d ?w1 = (res, w')"
    by (metis surj_pair)
  have "services_ok (rg_services ?r)"
    using store_registry_holds [OF assms(2)] registered_ok [OF _ assms(3)]
    by (simp add: holds_def registry_ok_def)
  then have "q = Ok (Ok ())"
    using write_services_outcome [OF c] db_okD(1,2) [OF assms(2)] store_unclaimed [OF assms(2)] q(2)
    by (simp add: unclaimed_def)
  then have res: "res = Ok Persisted" "quiet w'"
    using lk q(1) by (simp_all add: save_locked_def c commit_quiet)
  moreover have "db_only w w'" "registration_at ?d dcl (iw_db w')"
    using save_locked_outcome [OF lk _ assms(2,3,5)] res(1) by auto
  ultimately show ?thesis
    by (simp add: sv lk)
qed

section \<open>Every delivery is answered\<close>

lemma unat_small_sint:
  assumes "unat (v :: u64) < 2 ^ 63"
  shows "0 \<le> sint v"
proof -
  have "uint v < 2 ^ 63"
    using assms by (metis of_nat_less_iff of_nat_numeral of_nat_power uint_nat)
  then have "signed_take_bit 63 (uint v) = uint v"
    by (intro signed_take_bit_int_eq_self) (simp_all add: order_trans [OF _ uint_ge_0])
  then show ?thesis
    by (simp only: sint_uint len_bit0 len_num1 uint_ge_0) simp
qed

text \<open>The broker acknowledges what is published, and messages serialize.\<close>

definition broker_accepts :: "'b pipeline \<Rightarrow> bool" where
  "broker_accepts pl \<longleftrightarrow> (\<forall>s h m b. \<exists>ack b'. jc_publish (pl_context pl) s h m b = (Ok (Ok ack), b')) \<and>
     (\<forall>e. \<exists>m. pl_accepted_vec pl e = Ok m) \<and> (\<forall>e. \<exists>m. pl_rejected_vec pl e = Ok m)"

lemma publish_accepting:
  assumes "broker_accepts pl" and "\<forall>e. \<exists>m. to_vec e = Ok m"
  shows "fst (publish_confirmation pl to_vec name command payload w) = Ok ()"
proof -
  let ?event = "confirmation pl name command payload (iw_tick w)"
  obtain m where m: "to_vec ?event = Ok m"
    using assms(2) by blast
  obtain ack b where "jc_publish (pl_context pl) (event_subject (contract_coords name)) [] m (iw_bus w) = (Ok (Ok ack), b)"
    using assms(1) by (fastforce simp: broker_accepts_def)
  then show ?thesis
    by (simp add: publish_confirmation_def Let_def publish_event_def publish_def m)
qed

lemma publish_quiet:
  assumes "broker_accepts pl" and "\<forall>e. \<exists>m. to_vec e = Ok m"
  obtains w' where "publish_confirmation pl to_vec name command payload w = (Ok (), w')" "iw_db w' = iw_db w"
    "confirmed pl to_vec name command payload w'"
proof -
  obtain r w' where p: "publish_confirmation pl to_vec name command payload w = (r, w')"
    by (metis surj_pair)
  then have "r = Ok ()"
    using publish_accepting [OF assms, of name command payload w] by simp
  then show thesis
    using that p publish_confirmation_outcome [OF p] by auto
qed

text \<open>C9: without faults and interference, with a broker that acknowledges, every delivery of a
  declaration to a valid store is answered and acknowledged: a valid declaration by its registration
  and the confirmation that accepts it, any other by the confirmation that gives the reason, with
  the store as it was. The bound is that of the version, which has 63 bits.
\<close>

theorem calm_delivery_answered:
  assumes "quiet w" and "db_ok (iw_db w)" and "head_nat (iw_db w) + 1 < 2 ^ 63" and "broker_accepts pl"
  shows "\<exists>w'. handle_delivery pl command w = (Some OAck, w') \<and>
    (case declare_validate (ic_payload command) of
       Ok dcl \<Rightarrow> registration_at (iw_db w) dcl (iw_db w') \<and>
         confirmed pl (pl_accepted_vec pl) contract_accepted command \<lparr>sa_service = sm_key (sd_manifest dcl)\<rparr> w'
     | Err reason \<Rightarrow> iw_db w' = iw_db w \<and>
         confirmed pl (pl_rejected_vec pl) contract_rejected command \<lparr>sr_service = reply_service
           (identity_from_raw_key (rm_key (rd_manifest (ds_raw (ic_payload command))))), sr_reason = reason\<rparr> w')"
proof -
  let ?r = "store_registry (iw_db w)"
  obtain v where v: "hd_version (iw_db w) = Some v"
    using assms(2) by (auto simp: db_ok_def)
  have reg: "registry_ok ?r" "rg_version ?r = v"
    using store_registry_holds [OF assms(2)] v by (simp_all add: holds_def)
  have small: "0 \<le> sint (rg_version (registered dcl ?r))" for dcl
  proof -
    have "unat v + 1 < 2 ^ 63"
      using assms(3) v by (simp add: head_nat_def)
    then have "unat (rg_version (registered dcl ?r)) < 2 ^ 63"
      using unat_plus_if' [of v 1] by (simp add: registered_def reg(2) split: if_splits)
    then show ?thesis
      by (rule unat_small_sint)
  qed
  have vecs: "\<forall>e. \<exists>m. pl_accepted_vec pl e = Ok m" "\<forall>e. \<exists>m. pl_rejected_vec pl e = Ok m"
    using assms(4) by (simp_all add: broker_accepts_def)
  note run = handle_delivery_def pipeline_handle_def max_attempts_declare_def
    handle_attempts.simps(2) [of pl command 4 w, simplified Suc_numeral semiring_norm] load_quiet [OF assms(1,2) v] judge_declaration_eq [OF reg(1)]
  show ?thesis
  proof (cases "declare_validate (ic_payload command)")
    case (Inl reason)
    obtain w' where "publish_rejected pl command (reply_service (identity_from_raw_key
        (rm_key (rd_manifest (ds_raw (ic_payload command)))))) reason w = (Ok (), w')" "iw_db w' = iw_db w"
      "confirmed pl (pl_rejected_vec pl) contract_rejected command \<lparr>sr_service = reply_service
           (identity_from_raw_key (rm_key (rd_manifest (ds_raw (ic_payload command))))), sr_reason = reason\<rparr> w'"
      unfolding publish_rejected_def by (rule publish_quiet [OF assms(4) vecs(2)])
    then show ?thesis
      using Inl by (simp add: run reject_def)
  next
    case (Inr dcl)
    then have "declaration_ok dcl"
      by (simp add: declare_validate_Ok_iff)
    from save_quiet [OF assms(1,2) this v small] obtain w1 where
      w1: "save (registered dcl ?r) v w = (Ok Persisted, w1)" "registration_at (iw_db w) dcl (iw_db w1)"
      by blast
    obtain w' where "publish_accepted pl command (sm_key (sd_manifest dcl)) w1 = (Ok (), w')" "iw_db w' = iw_db w1"
      "confirmed pl (pl_accepted_vec pl) contract_accepted command \<lparr>sa_service = sm_key (sd_manifest dcl)\<rparr> w'"
      unfolding publish_accepted_def by (rule publish_quiet [OF assms(4) vecs(1)])
    then show ?thesis
      using Inr w1 by (simp add: run)
  qed
qed

theorem calm_delivery_answered_witness:
  "\<exists>w'. handle_delivery counting_pipeline (declares ''a'') (world_at migrated_db []) = (Some OAck, w') \<and>
     registration_at migrated_db \<lparr>sd_manifest = \<lparr>sm_key = ServiceKey ''a'', sm_label_key = ''l'', sm_description_key = ''d''\<rparr>,
       sd_scopes = [\<lparr>ss_key = ScopeKey ''a:r'' 1, ss_label_key = ''l'', ss_description_key = ''d'', ss_platform_only = False\<rparr>]\<rparr>
       (iw_db w')"
proof -
  have "declare_validate (ic_payload (declares ''a'')) = Ok \<lparr>sd_manifest = \<lparr>sm_key = ServiceKey ''a'', sm_label_key = ''l'', sm_description_key = ''d''\<rparr>,
       sd_scopes = [\<lparr>ss_key = ScopeKey ''a:r'' 1, ss_label_key = ''l'', ss_description_key = ''d'', ss_platform_only = False\<rparr>]\<rparr>"
    by code_simp
  moreover have "quiet (world_at migrated_db [])" "head_nat migrated_db + 1 < 2 ^ 63" "broker_accepts counting_pipeline"
    by (simp_all add: quiet_def world_at_def head_nat_def migrated_db_def broker_accepts_def counting_pipeline_def)
  ultimately show ?thesis
    using calm_delivery_answered [of "world_at migrated_db []" counting_pipeline "declares ''a''"]
    by (auto simp: world_at_def)
qed

end
