(* ===== verification/Handshake_Correct.thy ===== *)
theory Handshake_Correct
  imports Handshake Identity_Calm
begin

text \<open>
  What the handshake guarantees: it ends with the first verdict on its own declaration and moves the
  readiness gate accordingly; and together with the identity context, a valid declaration leads to
  a service that is ready.
\<close>

section \<open>The first verdict\<close>

text \<open>The verdict an arrival carries for a handshake, if any: its correlation is the handshake's own, and
  it comes on the accepted subject or reads as a rejection.\<close>

definition settles :: "'b handshake_env \<Rightarrow> arrival \<Rightarrow> handshake_outcome option" where
  "settles he a = (case a of
     Arrived subject payload \<Rightarrow> (case he_probe he payload of
         Err _ \<Rightarrow> None
       | Ok metadata \<Rightarrow> if md_correlation_id metadata \<noteq> he_correlation he then None
           else if subject = event_subject (contract_coords contract_accepted) then Some ScopesAccepted
           else map_option (\<lambda>e. ScopesRejected (ie_payload e)) (ok (he_rejected he payload)))
   | _ \<Rightarrow> None)"

fun first_verdict :: "'b handshake_env \<Rightarrow> arrival list \<Rightarrow> (handshake_outcome, fabric_error) result option" where
  "first_verdict he [] = None"
| "first_verdict he (Closed # as) =
     Some (Err (FabConsume ConConsumerGone ''awaiter subscription ended (NATS connection closed)''))"
| "first_verdict he (a # as) = (case settles he a of Some oc \<Rightarrow> Some (Ok oc) | None \<Rightarrow> first_verdict he as)"

text \<open>What an outcome leaves at the gate.\<close>

definition gate :: "(handshake_outcome, fabric_error) result option \<Rightarrow> readiness \<Rightarrow> readiness" where
  "gate res r = (case res of
     Some (Ok (ScopesRejected x)) \<Rightarrow>
       NotReady (''scope declaration rejected: '' @ declaration_error_code (sr_reason x))
   | Some (Ok _) \<Rightarrow> Ready
   | _ \<Rightarrow> r)"

lemma gate_simps [simp]:
  "gate None r = r" "gate (Some (Err e)) r = r" "gate (Some (Ok ScopesAccepted)) r = Ready"
  "gate (Some (Ok ScopesDisabled)) r = Ready"
  by (simp_all add: gate_def)

lemma accepted_subject [simp]:
  "dco_accepted_subject declaration_coords_build = event_subject (contract_coords contract_accepted)"
  by (simp add: declaration_coords_build_def)

lemma resolve_match_eq:
  assumes "he_probe he payload = Ok metadata" and "md_correlation_id metadata = he_correlation he"
  shows "resolve_match he declaration_coords_build
      \<lparr>cm_subject = subject, cm_metadata = metadata, cm_payload = payload\<rparr> r =
    (settles he (Arrived subject payload), gate (map_option Ok (settles he (Arrived subject payload))) r)"
  using assms by (auto simp: resolve_match_def settles_def gate_def set_ready_def set_not_ready_def Let_def
      split: sum.split)

text \<open>A wait skips what is not its own and gives the rest of the loop what it has not read.\<close>

lemma first_verdict_await:
  "first_verdict he as = (case await_correlation (he_probe he) (he_correlation he) as of
     (None, _) \<Rightarrow> None
   | (Some (Err e), _) \<Rightarrow> Some (Err e)
   | (Some (Ok None), as') \<Rightarrow> first_verdict he as'
   | (Some (Ok (Some m)), as') \<Rightarrow> (case settles he (Arrived (cm_subject m) (cm_payload m)) of
        Some oc \<Rightarrow> Some (Ok oc) | None \<Rightarrow> first_verdict he as'))"
proof (induction as)
  case (Cons a as)
  show ?case
  proof (cases a)
    case (Arrived subject payload)
    show ?thesis
    proof (cases "\<exists>md. he_probe he payload = Ok md \<and> md_correlation_id md = he_correlation he")
      case True
      then show ?thesis
        by (auto simp: Arrived)
    next
      case False
      then have "settles he a = None"
        and "await_correlation (he_probe he) (he_correlation he) (a # as) =
          await_correlation (he_probe he) (he_correlation he) as"
        by (auto simp: settles_def Arrived split: sum.split)
      then show ?thesis
        using Cons.IH by (simp add: Arrived)
    qed
  qed (simp_all add: settles_def)
qed simp

lemma await_matched:
  "await_correlation probe correlation as = (Some (Ok (Some m)), as') \<Longrightarrow>
     probe (cm_payload m) = Ok (cm_metadata m) \<and> md_correlation_id (cm_metadata m) = correlation"
  by (induction probe correlation as rule: await_correlation.induct) (auto split: sum.splits if_splits)

lemma handshake_loop_outcome:
  "handshake_loop he declaration_coords_build command as r b = (res, r', b') \<Longrightarrow>
     res = first_verdict he as \<and> r' = gate res r"
proof (induction "length as" arbitrary: as b rule: less_induct)
  case less
  obtain q b1 where p: "publish_command (he_context he) (he_command_vec he)
      (dco_declare declaration_coords_build) command b = (q, b1)"
    by (metis surj_pair)
  obtain a as' where aw: "await_correlation (he_probe he) (he_correlation he) as = (a, as')"
    by (metis surj_pair)
  note run = less.prems [unfolded handshake_loop.simps [of _ _ _ as] p aw prod.case] first_verdict_await [of he as]
  show ?case
  proof (cases a)
    case None
    then show ?thesis
      using run by (simp add: aw gate_def)
  next
    case (Some res')
    then have shorter: "length as' < length as"
      using aw await_shorter by blast
    show ?thesis
    proof (cases res')
      case (Inl e)
      then show ?thesis
        using run Some by (simp add: aw) (metis gate_simps(2) prod.inject)
    next
      case (Inr m)
      show ?thesis
      proof (cases m)
        case None
        then show ?thesis
          using run Some Inr less.hyps [OF shorter] by (simp add: aw)
      next
        case m: (Some matched)
        have eq: "resolve_match he declaration_coords_build matched r =
            (settles he (Arrived (cm_subject matched) (cm_payload matched)),
             gate (map_option Ok (settles he (Arrived (cm_subject matched) (cm_payload matched)))) r)"
          using await_matched [of "he_probe he" "he_correlation he" as matched as'] aw Some Inr m resolve_match_eq [of he "cm_payload matched" "cm_metadata matched" "cm_subject matched" r]
          by (cases matched) simp
        show ?thesis
        proof (cases "settles he (Arrived (cm_subject matched) (cm_payload matched))")
          case None
          then have "gate (map_option Ok (settles he (Arrived (cm_subject matched) (cm_payload matched)))) r = r"
            by (simp add: gate_def)
          then show ?thesis
            using run Some Inr m None eq less.hyps [OF shorter] by (simp add: aw)
        next
          case (Some oc)
          then show ?thesis
            using run \<open>a = Some res'\<close> Inr m eq by (auto simp: aw)
        qed
      qed
    qed
  qed
qed

lemma first_verdict_accepted:
  "first_verdict he as = Some (Ok ScopesAccepted) \<Longrightarrow>
     \<exists>payload metadata. Arrived (event_subject (contract_coords contract_accepted)) payload \<in> set as \<and>
       he_probe he payload = Ok metadata \<and> md_correlation_id metadata = he_correlation he"
proof (induction as)
  case (Cons a as)
  show ?case
  proof (cases a)
    case (Arrived subject payload)
    then show ?thesis
      using Cons by (cases "settles he a") (auto simp: settles_def split: sum.splits if_splits)
  qed (use Cons in \<open>auto simp: settles_def\<close>)
qed simp

lemma first_verdict_never_disabled: "first_verdict he as \<noteq> Some (Ok ScopesDisabled)"
  by (induction he as rule: first_verdict.induct)
    (auto simp: settles_def split: sum.splits if_splits option.splits)

lemma handshake_outcome:
  assumes "declare_scopes he declaration config as r b = (res, r', b')"
  shows "res = (if \<not> dc_enabled config then Some (Ok ScopesDisabled)
      else case fst (await_events (he_client he) (confirmation_coords declaration_coords_build) b) of
        Err e \<Rightarrow> Some (Err e) | Ok _ \<Rightarrow> first_verdict he as) \<and> r' = gate res r"
proof -
  obtain q b1 where sub: "await_events (he_client he) (confirmation_coords declaration_coords_build) b = (q, b1)"
    by (metis surj_pair)
  show ?thesis
  proof (cases "dc_enabled config")
    case False
    then show ?thesis
      using assms by (auto simp: declare_scopes_def set_ready_def)
  next
    case True
    show ?thesis
    proof (cases q)
      case (Inl e)
      then show ?thesis
        using assms True by (auto simp: declare_scopes_def sub Let_def)
    next
      case (Inr u)
      then have loop: "handshake_loop he declaration_coords_build (build_command he (sm_key (sd_manifest declaration))
          (he_correlation he) declaration) as r b1 = (res, r', b')"
        using assms True by (simp add: declare_scopes_def sub Let_def)
      show ?thesis
        using handshake_loop_outcome [OF loop] True sub Inr by simp
    qed
  qed
qed

text \<open>C13: a handshake ends with the first verdict on its own declaration among the messages that arrive,
  whatever else arrives, however often it waits and whether its publications succeed; a switched off
  one ends at once, a failed subscription ends it with that error. The gate is left open by an
  acceptance, closed with the reason by a rejection and untouched otherwise, so a gate that was closed
  is opened only by the acceptance with the handshake's own correlation, or when it is switched off.
\<close>

theorem gate_opens_on_own_acceptance:
  assumes "declare_scopes he declaration config as r b = (res, r', b')"
  shows "res = (if \<not> dc_enabled config then Some (Ok ScopesDisabled)
      else case fst (await_events (he_client he) (confirmation_coords declaration_coords_build) b) of
        Err e \<Rightarrow> Some (Err e) | Ok _ \<Rightarrow> first_verdict he as) \<and>
    r' = gate res r \<and>
    (is_ready r' \<and> \<not> is_ready r \<longrightarrow> \<not> dc_enabled config \<or>
      (\<exists>payload metadata. Arrived (event_subject (contract_coords contract_accepted)) payload \<in> set as \<and>
        he_probe he payload = Ok metadata \<and> md_correlation_id metadata = he_correlation he))"
proof -
  note out = handshake_outcome [OF assms]
  have "res = Some (Ok ScopesAccepted)" if "is_ready r'" "\<not> is_ready r" "dc_enabled config"
    using that out first_verdict_never_disabled [of he as]
    by (auto simp: gate_def split: option.splits sum.splits handshake_outcome.splits)
  then show ?thesis
    using out first_verdict_accepted [of he as] by (auto split: sum.splits)
qed

section \<open>From the declaration to readiness\<close>

text \<open>The two sides write and read JSON text.\<close>

definition wired :: "json_text \<Rightarrow> wire_codec \<Rightarrow> 'b handshake_env \<Rightarrow> 'c pipeline \<Rightarrow> bool" where
  "wired t c he pl \<longleftrightarrow> codec_ok c \<and>
     he_command_vec he = (\<lambda>x. Ok (jt_print t (command_json c declare_json x))) \<and>
     he_probe he = (\<lambda>s. and_then (jt_parse t s) (probe_decoder c)) \<and>
     he_rejected he = (\<lambda>s. and_then (jt_parse t s) (event_decoder c rejected_decoder)) \<and>
     pl_accepted_vec pl = (\<lambda>x. Ok (jt_print t (event_json c accepted_json x))) \<and>
     pl_rejected_vec pl = (\<lambda>x. Ok (jt_print t (event_json c rejected_json x)))"

definition text_reads :: "json_text \<Rightarrow> json \<Rightarrow> bool" where
  "text_reads t j \<longleftrightarrow> jt_parse t (jt_print t j) = Ok j"

lemma probe_event: "codec_ok c \<Longrightarrow> probe_decoder c (event_json c enc e) = Ok (ie_metadata e)"
  by (simp add: probe_decoder_def event_json_def required_def metadata_decoder_json)

lemma confirmation_correlation:
  "md_correlation_id (ie_metadata (confirmation pl name command payload tick)) =
     md_correlation_id (ic_metadata command)"
  by (simp add: confirmation_def Let_def integration_event_new_def with_causation_def metadata_new_def split_def)

lemma build_command_simps [simp]:
  "ic_payload (build_command he service correlation dcl) = declare_new dcl"
  "md_correlation_id (ic_metadata (build_command he service correlation dcl)) = correlation"
  by (simp_all add: build_command_def integration_command_new_def metadata_new_def)

lemma first_verdict_skip:
  "list_all (\<lambda>a. a \<noteq> Closed \<and> settles he a = None) before \<Longrightarrow>
     first_verdict he (before @ as) = first_verdict he as"
proof (induction before)
  case (Cons a before)
  then show ?case by (cases a) auto
qed simp

lemma settles_confirmation:
  assumes "wired t c he pl" and "text_reads t (event_json c accepted_json e)"
    and "md_correlation_id (ie_metadata e) = he_correlation he"
  shows "settles he (Arrived (event_subject (contract_coords contract_accepted))
     (jt_print t (event_json c accepted_json e))) = Some ScopesAccepted"
  using assms by (simp add: settles_def wired_def text_reads_def probe_event)

text \<open>C5: a service that declares its scopes becomes ready. The command it publishes reads at the
  identity context as the command it built; when that context handles it without faults, it registers
  the declaration, acknowledges the delivery and publishes a confirmation; and when that confirmation
  reaches the service, however many waits and messages of others came before, the handshake ends
  accepted and the gate is open.
\<close>

theorem declared_service_becomes_ready:
  fixes dcl he
  defines "command \<equiv> build_command he (sm_key (sd_manifest dcl)) (he_correlation he) dcl"
  assumes "declaration_ok dcl" and "dc_enabled config" and "wired t c he pl"
    and "text_reads t (command_json c declare_json command)"
    and "\<And>tick. text_reads t (event_json c accepted_json (confirmation pl contract_accepted command
           \<lparr>sa_service = sm_key (sd_manifest dcl)\<rparr> tick))"
    and "quiet w" and "db_ok (iw_db w)" and "head_nat (iw_db w) + 1 < 2 ^ 63" and "broker_accepts pl"
    and "fst (await_events (he_client he) (confirmation_coords declaration_coords_build) b) = Ok ()"
    and "list_all (\<lambda>a. a \<noteq> Closed \<and> settles he a = None) before"
  shows "(\<exists>sent. he_command_vec he command = Ok sent \<and>
      and_then (jt_parse t sent) (command_decoder c declare_decoder) = Ok command) \<and>
    (\<exists>w' sent broker ack. handle_delivery pl command w = (Some OAck, w') \<and>
      registration_at (iw_db w) dcl (iw_db w') \<and>
      jc_publish (pl_context pl) (event_subject (contract_coords contract_accepted)) [] sent broker =
        (Ok (Ok ack), iw_bus w') \<and>
      (case declare_scopes he dcl config
          (before @ Arrived (event_subject (contract_coords contract_accepted)) sent # later) r b of
         (res, r', _) \<Rightarrow> res = Some (Ok ScopesAccepted) \<and> is_ready r'))"
proof
  show "\<exists>sent. he_command_vec he command = Ok sent \<and>
      and_then (jt_parse t sent) (command_decoder c declare_decoder) = Ok command"
    using assms(4,5) by (simp add: wired_def text_reads_def command_decoder_json declare_roundtrip)
next
  let ?subject = "event_subject (contract_coords contract_accepted)"
  have valid: "declare_validate (ic_payload command) = Ok dcl"
    using assms(2) by (simp add: command_def declare_validate_Ok_iff)
  obtain w' where w': "handle_delivery pl command w = (Some OAck, w')" "registration_at (iw_db w) dcl (iw_db w')"
    and "confirmed pl (pl_accepted_vec pl) contract_accepted command \<lparr>sa_service = sm_key (sd_manifest dcl)\<rparr> w'"
    using calm_delivery_answered [OF assms(7-10), of command] valid by auto
  then obtain tick sent broker ack where
    sent: "pl_accepted_vec pl (confirmation pl contract_accepted command
        \<lparr>sa_service = sm_key (sd_manifest dcl)\<rparr> tick) = Ok sent"
    and pub: "jc_publish (pl_context pl) ?subject [] sent broker = (Ok (Ok ack), iw_bus w')"
    by (auto simp: confirmed_def)
  let ?e = "confirmation pl contract_accepted command \<lparr>sa_service = sm_key (sd_manifest dcl)\<rparr> tick"
  have bytes: "sent = jt_print t (event_json c accepted_json ?e)"
    using sent assms(4) by (simp add: wired_def)
  have "settles he (Arrived ?subject sent) = Some ScopesAccepted"
    unfolding bytes using assms(4,6)
    by (intro settles_confirmation) (simp_all add: confirmation_correlation command_def)
  then have "first_verdict he (before @ Arrived ?subject sent # later) = Some (Ok ScopesAccepted)"
    using first_verdict_skip [OF assms(12)] by simp
  moreover obtain res r' b' where run: "declare_scopes he dcl config (before @ Arrived ?subject sent # later) r b = (res, r', b')"
    by (metis surj_pair)
  ultimately have "res = Some (Ok ScopesAccepted) \<and> r' = Ready"
    using handshake_outcome [OF run] assms(3,11) by simp
  then show "\<exists>w' sent broker ack. handle_delivery pl command w = (Some OAck, w') \<and>
      registration_at (iw_db w) dcl (iw_db w') \<and>
      jc_publish (pl_context pl) ?subject [] sent broker = (Ok (Ok ack), iw_bus w') \<and>
      (case declare_scopes he dcl config (before @ Arrived ?subject sent # later) r b of
         (res, r', _) \<Rightarrow> res = Some (Ok ScopesAccepted) \<and> is_ready r')"
    using w' pub run by force
qed

section \<open>A sample of both sides\<close>

definition sample_own :: scope_declaration where
  "sample_own = \<lparr>sd_manifest = \<lparr>sm_key = ServiceKey ''b'', sm_label_key = [], sm_description_key = []\<rparr>,
     sd_scopes = []\<rparr>"

text \<open>The client counts its publications in the state of the broker.\<close>

definition sample_service :: "json_text \<Rightarrow> nat handshake_env" where
  "sample_service t = \<lparr>
     he_context = \<lparr>jc_publish = \<lambda>subject headers bytes n. (Ok (Ok \<lparr>pa_sequence = 0, pa_duplicate = False\<rparr>), n + 1)\<rparr>,
     he_client = \<lparr>co_get_stream = \<lambda>_ _. Ok [], co_subscribe = \<lambda>_ n. (Ok (), n)\<rparr>,
     he_command_vec = (\<lambda>x. Ok (jt_print t (command_json decimal_codec declare_json x))),
     he_probe = (\<lambda>s. and_then (jt_parse t s) (probe_decoder decimal_codec)),
     he_rejected = (\<lambda>s. and_then (jt_parse t s) (event_decoder decimal_codec rejected_decoder)),
     he_uuid_v5 = (\<lambda>_ _. 5), he_correlation = 9, he_command_id = 7, he_now = 0\<rparr>"

definition sample_pipeline :: "json_text \<Rightarrow> nat pipeline" where
  "sample_pipeline t = \<lparr>pl_context = pl_context counting_pipeline,
     pl_accepted_vec = (\<lambda>x. Ok (jt_print t (event_json decimal_codec accepted_json x))),
     pl_rejected_vec = (\<lambda>x. Ok (jt_print t (event_json decimal_codec rejected_json x))),
     pl_stamp = (\<lambda>_. (3, 4))\<rparr>"

definition sample_command :: declare_command where
  "sample_command = integration_command_new 7 command_type contract_version 0
     (metadata_new (Service (ServiceAccountId 5)) 9) (declare_new sample_own)"

definition sample_confirmation :: "scopes_accepted integration_event" where
  "sample_confirmation = integration_event_new 3 (event_type contract_accepted) contract_version 4
     (with_causation 7 (metadata_new (Service (ServiceAccountId 5)) 9)) \<lparr>sa_service = ServiceKey ''b''\<rparr>"

definition two_texts :: json_text where
  "two_texts = \<lparr>jt_print = (\<lambda>j. if json_get ''command_id'' j = None then ''e'' else ''c''),
     jt_parse = (\<lambda>s. if s = ''e'' then Ok (event_json decimal_codec accepted_json sample_confirmation)
       else if s = ''c'' then Ok (command_json decimal_codec declare_json sample_command) else Err ''syntax'')\<rparr>"

lemma enabled [simp]: "dc_enabled config_enabled"
  by (simp add: config_enabled_def)

lemma sample_command_built:
  "build_command (sample_service t) (sm_key (sd_manifest sample_own)) (he_correlation (sample_service t)) sample_own =
     sample_command"
  by (simp add: build_command_def sample_service_def sample_command_def declaring_actor_def)

lemma sample_confirmed:
  "confirmation (sample_pipeline t) contract_accepted sample_command
     \<lparr>sa_service = sm_key (sd_manifest sample_own)\<rparr> tick = sample_confirmation"
  by (simp add: confirmation_def sample_pipeline_def sample_command_def sample_confirmation_def sample_own_def
      integration_command_new_def metadata_new_def)

lemma sample_reads:
  "text_reads two_texts (command_json decimal_codec declare_json sample_command)"
  "text_reads two_texts (event_json decimal_codec accepted_json sample_confirmation)"
  by (simp_all add: text_reads_def two_texts_def command_json_def event_json_def)

lemma sample_world: "quiet (world_at migrated_db [])" "iw_db (world_at migrated_db []) = migrated_db"
    "head_nat migrated_db + 1 < 2 ^ 63" "broker_accepts (sample_pipeline t)"
  by (simp_all add: quiet_def world_at_def head_nat_def migrated_db_def broker_accepts_def sample_pipeline_def
      counting_pipeline_def)

lemma sample_service_ok:
  "declaration_ok sample_own" "wired t decimal_codec (sample_service t) (sample_pipeline t)"
  "fst (await_events (he_client (sample_service t)) (confirmation_coords declaration_coords_build) 0) = Ok ()"
  by (simp_all add: declaration_ok_def sample_own_def specs_of_def key_eval wired_def sample_service_def
      sample_pipeline_def decimal_codec_ok await_events_def await_on_stream_def confirmation_coords_def)

theorem gate_opens_on_own_acceptance_witness:
  "case declare_scopes (sample_service two_texts) sample_own config_enabled [Deadline, Closed] (NotReady []) 0 of
     (res, r', b') \<Rightarrow> \<not> is_ready r' \<and> res = first_verdict (sample_service two_texts) [Deadline, Closed]"
proof -
  obtain res r' b' where run:
    "declare_scopes (sample_service two_texts) sample_own config_enabled [Deadline, Closed] (NotReady []) 0 = (res, r', b')"
    by (metis surj_pair)
  show ?thesis
    using gate_opens_on_own_acceptance [OF run] sample_service_ok(3) [of two_texts]
    by (auto simp: run settles_def)
qed

theorem declared_service_becomes_ready_witness:
  "\<exists>w' sent. handle_delivery (sample_pipeline two_texts) sample_command (world_at migrated_db []) = (Some OAck, w') \<and>
     registration_at migrated_db sample_own (iw_db w') \<and>
     (case declare_scopes (sample_service two_texts) sample_own config_enabled
        ([Deadline, Arrived ''integration.evt.identity.service_scope.rejected.v1'' ''noise''] @
          Arrived (event_subject (contract_coords contract_accepted)) sent # []) (NotReady []) 0 of
       (res, r', _) \<Rightarrow> res = Some (Ok ScopesAccepted) \<and> is_ready r')"
proof -
  have skip: "list_all (\<lambda>a. a \<noteq> Closed \<and> settles (sample_service two_texts) a = None)
      [Deadline, Arrived ''integration.evt.identity.service_scope.rejected.v1'' ''noise'']"
    by (simp add: settles_def sample_service_def two_texts_def)
  show ?thesis
    using declared_service_becomes_ready [of sample_own config_enabled two_texts decimal_codec
        "sample_service two_texts" "sample_pipeline two_texts" "world_at migrated_db []" 0
        "[Deadline, Arrived ''integration.evt.identity.service_scope.rejected.v1'' ''noise'']" "[]" "NotReady []",
        unfolded sample_command_built sample_confirmed sample_world(2),
        OF sample_service_ok(1) enabled sample_service_ok(2) sample_reads sample_world(1) migrated_db_ok
          sample_world(3,4) sample_service_ok(3) skip]
    by (elim conjE exE) (intro exI conjI, assumption+)
qed

end
