(* ===== verification/Passport.thy ===== *)
theory Passport
  imports Scope_Key Core_Types
begin

text \<open>
  The identity of a request, from \<^verbatim>\<open>br-core-auth\<close>: the passport with its strict JSON form
  (\<^verbatim>\<open>passport.rs\<close>, \<^verbatim>\<open>auth_method.rs\<close>, \<^verbatim>\<open>claims.rs\<close>), its header
  (\<^verbatim>\<open>header.rs\<close>), bearer tokens and the session cookie; and the middleware of
  \<^verbatim>\<open>br-util-axum-auth\<close> that admits a request by its header.
\<close>

section \<open>Authentication methods\<close>

datatype auth_method = Jwt | Pat (token_id: uuid)

fun auth_method_json :: "wire_codec \<Rightarrow> auth_method \<Rightarrow> json" where
  "auth_method_json c Jwt = json_obj [(''method'', JStr ''jwt'')]"
| "auth_method_json c (Pat t) = json_obj [(''method'', JStr ''pat''), (''token_id'', uuid_json c t)]"

definition auth_method_decoder :: "wire_codec \<Rightarrow> auth_method decoder" where
  "auth_method_decoder c v = and_then (tagged_content ''method'' v) (\<lambda>(t, rest).
     and_then (buffered_tag [''jwt'', ''pat''] t) (\<lambda>name.
       if name = ''jwt'' then and_then (strict_fields [] rest) (\<lambda>_. Ok Jwt)
       else if name = ''pat'' then and_then (strict_fields [''token_id''] rest) (\<lambda>fs.
         and_then (required (uuid_decoder c) ''token_id'' fs) (\<lambda>u. Ok (Pat u)))
       else Err ''unknown variant''))"

fun is_pat :: "auth_method \<Rightarrow> bool" where
  "is_pat (Pat _) = True"
| "is_pat Jwt = False"

fun pat_token_id :: "auth_method \<Rightarrow> uuid option" where
  "pat_token_id (Pat t) = Some t"
| "pat_token_id Jwt = None"

section \<open>Claims\<close>

type_synonym passport_claims = "(string, json) bmap"

definition claims_new :: passport_claims where "claims_new = []"
definition claims_get :: "string \<Rightarrow> passport_claims \<Rightarrow> json option" where "claims_get key cl = bm_get cl key"
definition claims_is_empty :: "passport_claims \<Rightarrow> bool" where "claims_is_empty cl \<longleftrightarrow> cl = []"
definition claims_len :: "passport_claims \<Rightarrow> nat" where "claims_len cl = length cl"
definition claims_json :: "passport_claims \<Rightarrow> json" where "claims_json cl = JObj cl"

fun claims_from_value :: "json \<Rightarrow> (passport_claims, json) result" where
  "claims_from_value (JObj m) = Ok m"
| "claims_from_value other = Err other"

definition claims_decoder :: "passport_claims decoder" where
  "claims_decoder v = map_err (\<lambda>_. ''claims must be a JSON object'') (claims_from_value v)"

section \<open>Passports\<close>

datatype passport =
  HumanPassport (hp_user_id: uuid) (hp_is_super_admin: bool) (hp_is_active: bool)
    (hp_auth_method: auth_method) (hp_impersonator: "uuid option") (hp_claims: passport_claims)
| ServicePassport (sp_service_account_id: uuid) (sp_claims: passport_claims)

definition human_fields :: "string list" where
  "human_fields = [''user_id'', ''is_super_admin'', ''is_active'', ''auth_method'', ''impersonator'', ''claims'']"

definition service_fields :: "string list" where
  "service_fields = [''service_account_id'', ''claims'']"

fun passport_json :: "wire_codec \<Rightarrow> passport \<Rightarrow> json" where
  "passport_json c (HumanPassport u admin active am imp cl) = json_obj [(''kind'', JStr ''human''),
     (''user_id'', uuid_json c u), (''is_super_admin'', JBool admin), (''is_active'', JBool active),
     (''auth_method'', auth_method_json c am),
     (''impersonator'', case imp of None \<Rightarrow> JNull | Some i \<Rightarrow> uuid_json c i), (''claims'', JObj cl)]"
| "passport_json c (ServicePassport u cl) = json_obj [(''kind'', JStr ''service''),
     (''service_account_id'', uuid_json c u), (''claims'', JObj cl)]"

definition human_decoder :: "wire_codec \<Rightarrow> passport decoder" where
  "human_decoder c v = and_then (strict_fields human_fields v) (\<lambda>fs.
     and_then (required (uuid_decoder c) ''user_id'' fs) (\<lambda>u.
     and_then (required bool_decoder ''is_super_admin'' fs) (\<lambda>admin.
     and_then (required bool_decoder ''is_active'' fs) (\<lambda>active.
     and_then (required (auth_method_decoder c) ''auth_method'' fs) (\<lambda>am.
     and_then (defaulted None (opt_decoder (uuid_decoder c)) ''impersonator'' fs) (\<lambda>imp.
     and_then (required claims_decoder ''claims'' fs) (\<lambda>cl.
       Ok (HumanPassport u admin active am imp cl))))))))"

definition service_decoder :: "wire_codec \<Rightarrow> passport decoder" where
  "service_decoder c v = and_then (strict_fields service_fields v) (\<lambda>fs.
     and_then (required (uuid_decoder c) ''service_account_id'' fs) (\<lambda>u.
     and_then (required claims_decoder ''claims'' fs) (\<lambda>cl. Ok (ServicePassport u cl))))"

definition passport_decoder :: "wire_codec \<Rightarrow> passport decoder" where
  "passport_decoder c v = and_then (tagged_content ''kind'' v) (\<lambda>(t, rest).
     and_then (str_decoder t) (\<lambda>kind.
       if kind = ''human'' then human_decoder c rest
       else if kind = ''service'' then service_decoder c rest
       else Err ''unknown variant''))"

fun with_impersonator :: "uuid \<Rightarrow> passport \<Rightarrow> passport" where
  "with_impersonator i (HumanPassport u admin active am imp cl) = HumanPassport u admin active am (Some i) cl"
| "with_impersonator i (ServicePassport u cl) = ServicePassport u cl"

fun passport_actor_id :: "passport \<Rightarrow> uuid" where
  "passport_actor_id (HumanPassport u _ _ _ _ _) = u"
| "passport_actor_id (ServicePassport u _) = u"

fun passport_user_id :: "passport \<Rightarrow> uuid option" where
  "passport_user_id (HumanPassport u _ _ _ _ _) = Some u"
| "passport_user_id (ServicePassport _ _) = None"

fun passport_service_account_id :: "passport \<Rightarrow> uuid option" where
  "passport_service_account_id (ServicePassport u _) = Some u"
| "passport_service_account_id (HumanPassport _ _ _ _ _ _) = None"

fun to_actor :: "passport \<Rightarrow> actor" where
  "to_actor (HumanPassport u _ _ _ _ _) = Human (UserId u)"
| "to_actor (ServicePassport u _) = Service (ServiceAccountId u)"

fun is_super_admin :: "passport \<Rightarrow> bool" where
  "is_super_admin (HumanPassport _ admin _ _ _ _) = admin"
| "is_super_admin (ServicePassport _ _) = False"

fun is_active :: "passport \<Rightarrow> bool" where
  "is_active (HumanPassport _ _ active _ _ _) = active"
| "is_active (ServicePassport _ _) = True"

fun passport_auth_method :: "passport \<Rightarrow> auth_method option" where
  "passport_auth_method (HumanPassport _ _ _ am _ _) = Some am"
| "passport_auth_method (ServicePassport _ _) = None"

definition passport_is_pat :: "passport \<Rightarrow> bool" where
  "passport_is_pat p = (case passport_auth_method p of Some am \<Rightarrow> is_pat am | None \<Rightarrow> False)"

fun impersonator_id :: "passport \<Rightarrow> uuid option" where
  "impersonator_id (HumanPassport _ _ _ _ imp _) = imp"
| "impersonator_id (ServicePassport _ _) = None"

definition is_impersonating :: "passport \<Rightarrow> bool" where
  "is_impersonating p \<longleftrightarrow> impersonator_id p \<noteq> None"

fun claims :: "passport \<Rightarrow> passport_claims" where
  "claims (HumanPassport _ _ _ _ _ cl) = cl"
| "claims (ServicePassport _ cl) = cl"

definition claim :: "'a decoder \<Rightarrow> string \<Rightarrow> passport \<Rightarrow> 'a option" where
  "claim d key p = (case bm_get (claims p) key of None \<Rightarrow> None | Some v \<Rightarrow> ok (d v))"

definition scopes_claim_key :: string where "scopes_claim_key = ''scopes''"

definition granted :: "passport \<Rightarrow> string list" where
  "granted p = (case claim (vec_decoder str_decoder) scopes_claim_key p of None \<Rightarrow> [] | Some xs \<Rightarrow> xs)"

definition scopes :: "passport \<Rightarrow> scope_key list" where
  "scopes p = List.map_filter (\<lambda>raw. ok (scope_key_new raw)) (granted p)"

definition has_scope :: "passport \<Rightarrow> scope_key \<Rightarrow> bool" where
  "has_scope p scope = list_ex (\<lambda>raw. raw = scope_str scope) (granted p)"

section \<open>The builder\<close>

record passport_builder =
  pb_user_id :: uuid
  pb_is_super_admin :: bool
  pb_is_active :: bool
  pb_auth_method :: auth_method
  pb_impersonator :: "uuid option"
  pb_claims :: passport_claims

text \<open>The fresh identifier is the argument.\<close>

definition builder_new :: "uuid \<Rightarrow> passport_builder" where
  "builder_new u = \<lparr>pb_user_id = u, pb_is_super_admin = False, pb_is_active = True, pb_auth_method = Jwt,
     pb_impersonator = None, pb_claims = []\<rparr>"

definition builder_user_id where "builder_user_id u b = (b :: passport_builder)\<lparr>pb_user_id := u\<rparr>"
definition builder_super_admin where "builder_super_admin f b = (b :: passport_builder)\<lparr>pb_is_super_admin := f\<rparr>"
definition builder_active where "builder_active f b = (b :: passport_builder)\<lparr>pb_is_active := f\<rparr>"
definition builder_pat where "builder_pat t b = (b :: passport_builder)\<lparr>pb_auth_method := Pat t\<rparr>"
definition builder_impersonator where
  "builder_impersonator i b = (b :: passport_builder)\<lparr>pb_impersonator := Some i\<rparr>"
definition builder_claim where
  "builder_claim k v b = (b :: passport_builder)\<lparr>pb_claims := bm_insert k v (pb_claims b)\<rparr>"
definition builder_claims where
  "builder_claims kvs b = (b :: passport_builder)\<lparr>pb_claims := bm_extend (pb_claims b) kvs\<rparr>"

definition builder_build :: "passport_builder \<Rightarrow> passport" where
  "builder_build b = HumanPassport (pb_user_id b) (pb_is_super_admin b) (pb_is_active b) (pb_auth_method b)
     (pb_impersonator b) (pb_claims b)"

definition build_service :: "passport_builder \<Rightarrow> passport" where
  "build_service b = ServicePassport (pb_user_id b) (pb_claims b)"

section \<open>The header\<close>

text \<open>What the header rests on: identifiers, JSON text and the standard base64 alphabet.\<close>

record header_format =
  hf_codec :: wire_codec
  hf_text :: json_text
  hf_encode :: "string \<Rightarrow> string"
  hf_decode :: "string \<Rightarrow> (string, string) result"

datatype passport_error = Malformed string

definition to_header :: "header_format \<Rightarrow> passport \<Rightarrow> string" where
  "to_header f p = hf_encode f (jt_print (hf_text f) (passport_json (hf_codec f) p))"

definition from_header :: "header_format \<Rightarrow> string \<Rightarrow> (passport, passport_error) result" where
  "from_header f header = (case hf_decode f header of
     Err e \<Rightarrow> Err (Malformed (''invalid base64 in X-Passport: '' @ e))
   | Ok bytes \<Rightarrow> map_err (\<lambda>e. Malformed (''invalid JSON in X-Passport: '' @ e))
       (and_then (jt_parse (hf_text f) bytes) (passport_decoder (hf_codec f))))"

section \<open>Bearer tokens\<close>

text \<open>A digest is a list of bytes; each is printed as two hexadecimal digits.\<close>

definition hex_digit :: "nat \<Rightarrow> char" where
  "hex_digit n = ''0123456789abcdef'' ! n"

definition hex_byte :: "u8 \<Rightarrow> string" where
  "hex_byte b = [hex_digit (unat b div 16), hex_digit (unat b mod 16)]"

definition bearer_token_key :: "(string \<Rightarrow> u8 list) \<Rightarrow> string \<Rightarrow> string" where
  "bearer_token_key sha256 plaintext = concat (map hex_byte (sha256 plaintext))"

record bearer_token_entry =
  bt_email :: string
  bt_token_id :: uuid

definition bearer_entry_decoder :: "wire_codec \<Rightarrow> bearer_token_entry decoder" where
  "bearer_entry_decoder c v = and_then (strict_fields [''email'', ''token_id''] v) (\<lambda>fs.
     and_then (required str_decoder ''email'' fs) (\<lambda>e.
     and_then (required (uuid_decoder c) ''token_id'' fs) (\<lambda>t. Ok \<lparr>bt_email = e, bt_token_id = t\<rparr>)))"

definition bearer_entry_json :: "wire_codec \<Rightarrow> bearer_token_entry \<Rightarrow> json" where
  "bearer_entry_json c e = json_obj [(''email'', JStr (bt_email e)), (''token_id'', uuid_json c (bt_token_id e))]"

section \<open>The session cookie\<close>

definition secure_name :: string where "secure_name = ''__Host-session_id''"
definition insecure_name :: string where "insecure_name = ''session_id''"

definition session_cookie_name :: "bool \<Rightarrow> string" where
  "session_cookie_name secure = (if secure then secure_name else insecure_name)"

fun find_session :: "string \<Rightarrow> string list \<Rightarrow> string option \<Rightarrow> string option" where
  "find_session name [] found = found"
| "find_session name (raw # rest) found =
     (let pair = trim raw; prefix_len = length name + 1 in
      if prefix_len < length pair \<and> pair ! length name = CHR ''='' \<and> take (length name) pair = name
      then (if found \<noteq> None then None else find_session name rest (Some (drop prefix_len pair)))
      else find_session name rest found)"

definition extract_session_id :: "string \<Rightarrow> bool \<Rightarrow> string option" where
  "extract_session_id cookie_header secure =
     find_session (session_cookie_name secure) (split_on (CHR '';'') cookie_header) None"

section \<open>Admission\<close>

record http_response =
  rs_status :: nat
  rs_content_type :: string
  rs_body :: string

definition unauthorized_body :: string where "unauthorized_body = ''unauthorized''"

definition unauthorized_graphql_body :: string where
  "unauthorized_graphql_body =
     ''{\"errors\":[{\"message\":\"unauthorized\",\"extensions\":{\"code\":\"UNAUTHENTICATED\"}}]}''"

definition text_unauthorized :: http_response where
  "text_unauthorized = \<lparr>rs_status = 401, rs_content_type = ''text/plain; charset=utf-8'',
     rs_body = unauthorized_body\<rparr>"

definition graphql_unauthorized :: http_response where
  "graphql_unauthorized = \<lparr>rs_status = 401, rs_content_type = ''application/json'',
     rs_body = unauthorized_graphql_body\<rparr>"

text \<open>A request with the values of its headers, by lower-case name, and the extension set by this
  middleware. A header value reads as text when its bytes are visible ASCII.\<close>

record http_request =
  rq_headers :: "(string \<times> string) list"
  rq_passport :: "passport option"

definition header_to_str :: "string \<Rightarrow> string option" where
  "header_to_str v = (if list_all (\<lambda>c. 32 \<le> byte c \<and> byte c < 127 \<or> byte c = 9) v then Some v else None)"

definition decode_passport :: "header_format \<Rightarrow> http_request \<Rightarrow> passport option" where
  "decode_passport f rq = (case map_of (rq_headers rq) ''x-passport'' of
     None \<Rightarrow> None
   | Some v \<Rightarrow> (case header_to_str v of
       None \<Rightarrow> None
     | Some s \<Rightarrow> if s = [] then None else ok (from_header f s)))"

definition admit :: "header_format \<Rightarrow> (http_request \<Rightarrow> 's \<Rightarrow> 'r \<times> 's) \<Rightarrow> 'r \<Rightarrow> http_request \<Rightarrow> 's \<Rightarrow> 'r \<times> 's" where
  "admit f next_run refuse rq s = (case decode_passport f rq of
     Some p \<Rightarrow> next_run (rq\<lparr>rq_passport := Some p\<rparr>) s
   | None \<Rightarrow> (refuse, s))"

definition passport_header_middleware where
  "passport_header_middleware f next_run rq s = admit f next_run text_unauthorized rq s"

definition passport_header_graphql_middleware where
  "passport_header_graphql_middleware f next_run rq s = admit f next_run graphql_unauthorized rq s"

section \<open>Reading what was written\<close>

lemma auth_method_decoder_json: "codec_ok c \<Longrightarrow> auth_method_decoder c (auth_method_json c am) = Ok am"
  by (cases am) (simp_all add: auth_method_decoder_def tagged_content_obj buffered_tag_def
      strict_fields_def bm_remove_def required_def)

lemma claims_decoder_obj [simp]: "claims_decoder (JObj m) = Ok m"
  by (simp add: claims_decoder_def)

lemma passport_decoder_json: "codec_ok c \<Longrightarrow> passport_decoder c (passport_json c p) = Ok p"
  by (cases p) (auto simp: passport_decoder_def tagged_content_obj human_decoder_def service_decoder_def
      strict_fields_def bm_remove_def human_fields_def service_fields_def required_def defaulted_def opt_decoder_def
      auth_method_decoder_json split: option.split)

text \<open>
  The forms of a passport that are accepted from an object, written out over the fields: the tag picks
  the variant, no other field is there, and every part is the value of its own field. The
  authentication method is an object too, or the list of its tag and its field, and its tag is the
  name or the index of the variant.
\<close>

definition uuid_stated :: "wire_codec \<Rightarrow> json option \<Rightarrow> uuid \<Rightarrow> bool" where
  "uuid_stated c v u \<longleftrightarrow> (\<exists>s. v = Some (JStr s) \<and> uuid_parse c s = Some u)"

fun method_stated :: "wire_codec \<Rightarrow> json \<Rightarrow> auth_method \<Rightarrow> bool" where
  "method_stated c v Jwt \<longleftrightarrow> (\<exists>t \<in> {JStr ''jwt'', JNat 0}. v = JArr [t] \<or>
     (\<exists>m. v = JObj m \<and> bm_get m ''method'' = Some t \<and> fst ` set m \<subseteq> {''method''}))"
| "method_stated c v (Pat u) \<longleftrightarrow> (\<exists>t \<in> {JStr ''pat'', JNat 1}. (\<exists>x. v = JArr [t, x] \<and> uuid_stated c (Some x) u) \<or>
     (\<exists>m. v = JObj m \<and> bm_get m ''method'' = Some t \<and> fst ` set m \<subseteq> {''method'', ''token_id''} \<and>
       uuid_stated c (bm_get m ''token_id'') u))"

definition states :: "wire_codec \<Rightarrow> (string, json) bmap \<Rightarrow> passport \<Rightarrow> bool" where
  "states c m p \<longleftrightarrow> (case p of
     HumanPassport u admin active am imp cl \<Rightarrow> bm_get m ''kind'' = Some (JStr ''human'') \<and>
       fst ` set m \<subseteq> {''kind'', ''user_id'', ''is_super_admin'', ''is_active'', ''auth_method'', ''impersonator'', ''claims''} \<and>
       uuid_stated c (bm_get m ''user_id'') u \<and>
       bm_get m ''is_super_admin'' = Some (JBool admin) \<and> bm_get m ''is_active'' = Some (JBool active) \<and>
       (\<exists>v. bm_get m ''auth_method'' = Some v \<and> method_stated c v am) \<and>
       (case imp of None \<Rightarrow> bm_get m ''impersonator'' \<in> {None, Some JNull}
        | Some i \<Rightarrow> uuid_stated c (bm_get m ''impersonator'') i) \<and>
       bm_get m ''claims'' = Some (JObj cl)
   | ServicePassport u cl \<Rightarrow> bm_get m ''kind'' = Some (JStr ''service'') \<and>
       fst ` set m \<subseteq> {''kind'', ''service_account_id'', ''claims''} \<and>
       uuid_stated c (bm_get m ''service_account_id'') u \<and> bm_get m ''claims'' = Some (JObj cl))"

lemma claims_decoder_Ok_iff: "claims_decoder v = Ok cl \<longleftrightarrow> v = JObj cl"
  by (cases v) (simp_all add: claims_decoder_def)

lemma uuid_decoder_Ok_iff: "uuid_decoder c v = Ok u \<longleftrightarrow> uuid_stated c (Some v) u"
  by (auto simp: uuid_decoder_def uuid_stated_def split: json.splits option.splits)

lemma required_uuid_iff: "required (uuid_decoder c) k fs = Ok u \<longleftrightarrow> uuid_stated c (fs k) u"
  by (cases "fs k") (auto simp: required_def uuid_decoder_Ok_iff, simp add: uuid_stated_def)

lemma impersonator_iff: "defaulted None (opt_decoder (uuid_decoder c)) k fs = Ok imp \<longleftrightarrow>
    (case imp of None \<Rightarrow> fs k \<in> {None, Some JNull} | Some i \<Rightarrow> uuid_stated c (fs k) i)"
  by (cases "fs k"; cases imp)
    (auto simp: defaulted_def opt_decoder_def uuid_decoder_def uuid_stated_def split: sum.splits json.splits option.splits)

lemma buffered_tag_iff: "buffered_tag [''jwt'', ''pat''] t = Ok name \<longleftrightarrow>
    (\<exists>s. t = JStr s \<and> name = s) \<or> t = JNat 0 \<and> name = ''jwt'' \<or> t = JNat 1 \<and> name = ''pat''"
  by (cases t) (auto simp: buffered_tag_def str_decoder_def less_Suc_eq nth_Cons')

lemmas decoder_iffs = and_then_Ok_iff required_Ok_iff bool_decoder_Ok_iff str_decoder_Ok_iff
  claims_decoder_Ok_iff tagged_content_Ok_iff strict_fields_Ok_iff

lemma auth_variant_iff:
  "(if name = ''jwt'' then and_then (strict_fields [] rest) (\<lambda>_. Ok Jwt)
     else if name = ''pat'' then and_then (strict_fields [''token_id''] rest) (\<lambda>fs.
       and_then (required (uuid_decoder c) ''token_id'' fs) (\<lambda>u. Ok (Pat u)))
     else Err ''unknown variant'') = Ok am \<longleftrightarrow>
   (case am of Jwt \<Rightarrow> name = ''jwt'' \<and> (\<exists>fs. strict_fields [] rest = Ok fs)
    | Pat u \<Rightarrow> name = ''pat'' \<and> (\<exists>fs. strict_fields [''token_id''] rest = Ok fs \<and> uuid_stated c (fs ''token_id'') u))"
  by (auto simp: and_then_Ok_iff required_uuid_iff split: auth_method.splits)

lemma auth_method_decoder_Ok_iff: "auth_method_decoder c v = Ok am \<longleftrightarrow> method_stated c v am"
proof -
  define variant where "variant = (\<lambda>name rest. if name = ''jwt'' then and_then (strict_fields [] rest) (\<lambda>_. Ok Jwt)
     else if name = ''pat'' then and_then (strict_fields [''token_id''] rest) (\<lambda>fs.
       and_then (required (uuid_decoder c) ''token_id'' fs) (\<lambda>u. Ok (Pat u)))
     else Err ''unknown variant'')"
  have "auth_method_decoder c v = and_then (tagged_content ''method'' v) (\<lambda>(t, rest).
      and_then (buffered_tag [''jwt'', ''pat''] t) (\<lambda>name. variant name rest))"
    by (simp add: auth_method_decoder_def variant_def)
  then have "auth_method_decoder c v = Ok am \<longleftrightarrow> (\<exists>t rest name. tagged_content ''method'' v = Ok (t, rest) \<and>
     buffered_tag [''jwt'', ''pat''] t = Ok name \<and> variant name rest = Ok am)"
    by (auto simp: and_then_Ok_iff)
  note split = this [unfolded variant_def auth_variant_iff]
  show ?thesis
  proof (cases v)
    case (JObj m)
    have "fst ` set (bm_remove ''method'' m) \<subseteq> A \<longleftrightarrow> fst ` set m \<subseteq> insert ''method'' A" for A
      by auto
    then show ?thesis
      unfolding split unfolding JObj tagged_content_Ok_iff
      by (cases am) (auto simp: buffered_tag_iff strict_fields_Ok_iff)
  next
    case (JArr xs)
    have fields: "strict_fields names (JArr ys) = Ok fs \<longleftrightarrow> length ys \<le> length names \<and> fs = map_of (zip names ys)"
      for names ys fs
      by (auto simp: strict_fields_def struct_fields_def)
    have none: "\<not> uuid_stated c None u" for u
      by (simp add: uuid_stated_def)
    show ?thesis
    proof (cases xs)
      case (Cons t ys)
      then have "tagged_content ''method'' v = Ok (t', rest) \<longleftrightarrow> t' = t \<and> rest = JArr ys" for t' rest
        by (auto simp: JArr tagged_content_def)
      then show ?thesis
        unfolding split by (cases am; cases ys) (auto simp: JArr Cons buffered_tag_iff fields none)
    qed (cases am; simp add: JArr auth_method_decoder_def tagged_content_def)
  qed (cases am; simp add: auth_method_decoder_def tagged_content_def)+
qed

lemma required_method_iff: "required (auth_method_decoder c) k fs = Ok am \<longleftrightarrow> (\<exists>v. fs k = Some v \<and> method_stated c v am)"
  by (simp add: required_Ok_iff auth_method_decoder_Ok_iff)

lemma human_decoder_iff:
  assumes "bm_get m ''kind'' = Some (JStr ''human'')"
  shows "human_decoder c (JObj (bm_remove ''kind'' m)) = Ok p \<longleftrightarrow> states c m p \<and> (\<exists>u admin active am imp cl.
    p = HumanPassport u admin active am imp cl)"
proof -
  have "fst ` set (bm_remove ''kind'' m) \<subseteq> A \<longleftrightarrow> fst ` set m \<subseteq> insert ''kind'' A" for A
    by auto
  then show ?thesis
    unfolding human_decoder_def and_then_Ok_iff strict_fields_Ok_iff required_uuid_iff required_method_iff impersonator_iff
    by (cases p) (auto simp: assms states_def required_Ok_iff bool_decoder_Ok_iff claims_decoder_Ok_iff human_fields_def
        cong: option.case_cong)
qed

lemma service_decoder_iff:
  assumes "bm_get m ''kind'' = Some (JStr ''service'')"
  shows "service_decoder c (JObj (bm_remove ''kind'' m)) = Ok p \<longleftrightarrow> states c m p \<and> (\<exists>u cl. p = ServicePassport u cl)"
proof -
  have "fst ` set (bm_remove ''kind'' m) \<subseteq> A \<longleftrightarrow> fst ` set m \<subseteq> insert ''kind'' A" for A
    by auto
  then show ?thesis
    unfolding service_decoder_def and_then_Ok_iff strict_fields_Ok_iff required_uuid_iff
    by (cases p) (auto simp: assms states_def required_Ok_iff claims_decoder_Ok_iff service_fields_def)
qed

lemma passport_decoder_iff: "passport_decoder c (JObj m) = Ok p \<longleftrightarrow> states c m p"
proof -
  define variant where "variant = (\<lambda>kind rest. if kind = ''human'' then human_decoder c rest
     else if kind = ''service'' then service_decoder c rest else Err ''unknown variant'')"
  have "passport_decoder c (JObj m) = and_then (tagged_content ''kind'' (JObj m)) (\<lambda>(t, rest).
      and_then (str_decoder t) (\<lambda>kind. variant kind rest))"
    by (simp add: passport_decoder_def variant_def)
  then have run: "passport_decoder c (JObj m) = Ok p \<longleftrightarrow>
      (\<exists>kind. bm_get m ''kind'' = Some (JStr kind) \<and> variant kind (JObj (bm_remove ''kind'' m)) = Ok p)"
    by (auto simp: and_then_Ok_iff tagged_content_Ok_iff str_decoder_Ok_iff)
  have "variant kind (JObj (bm_remove ''kind'' m)) = Ok p \<longleftrightarrow> states c m p" if "bm_get m ''kind'' = Some (JStr kind)" for kind
  proof (cases "kind = ''human''")
    case True
    then show ?thesis
      using that human_decoder_iff [of m c p] by (cases p) (simp_all add: variant_def states_def)
  next
    case False
    then show ?thesis
      using that service_decoder_iff [of m c p] by (cases p) (auto simp: variant_def states_def)
  qed
  moreover have "\<exists>kind. bm_get m ''kind'' = Some (JStr kind)" if "states c m p"
    using that by (auto simp: states_def split: passport.splits)
  ultimately show ?thesis
    unfolding run by blast
qed

text \<open>C11: a passport is accepted from a JSON object exactly when it is what the object says and the object
  says nothing more: the variant is the one its tag names, there is no field the variant does not
  have, and the identity, super-administration, activity, the authentication method with its token,
  the impersonator and the claims are each the value of its own field, which only the impersonator
  may lack. So a passport that calls itself a service has no privilege of a human, whatever else was
  sent with it.
\<close>

theorem passport_states_its_wire_form:
  "(passport_decoder c (JObj m) = Ok p \<longleftrightarrow> states c m p) \<and>
   (passport_decoder c (JObj m) = Ok p \<and> bm_get m ''kind'' = Some (JStr ''service'') \<longrightarrow>
     \<not> is_super_admin p \<and> impersonator_id p = None \<and> passport_auth_method p = None \<and> is_service (to_actor p) \<and>
     uuid_stated c (bm_get m ''service_account_id'') (passport_actor_id p) \<and>
     bm_get m ''is_super_admin'' = None \<and> bm_get m ''impersonator'' = None)"
proof -
  have "\<not> is_super_admin p \<and> impersonator_id p = None \<and> passport_auth_method p = None \<and> is_service (to_actor p) \<and>
      uuid_stated c (bm_get m ''service_account_id'') (passport_actor_id p) \<and>
      bm_get m ''is_super_admin'' = None \<and> bm_get m ''impersonator'' = None"
    if "states c m p" "bm_get m ''kind'' = Some (JStr ''service'')"
    using that by (cases p) (auto simp: states_def map_of_eq_None_iff)
  then show ?thesis
    by (auto simp: passport_decoder_iff)
qed

definition sample_passport :: passport where
  "sample_passport = ServicePassport 5 [(''scopes'', JArr [JStr ''a:r'', JStr ''nope''])]"

lemma sample_passport_json: "passport_json decimal_codec sample_passport = JObj
    [(''claims'', JObj [(''scopes'', JArr [JStr ''a:r'', JStr ''nope''])]), (''kind'', JStr ''service''),
     (''service_account_id'', uuid_json decimal_codec 5)]"
  by (simp add: sample_passport_def json_obj_def)

theorem passport_states_its_wire_form_witness:
  "states decimal_codec [(''claims'', JObj [(''scopes'', JArr [JStr ''a:r'', JStr ''nope''])]), (''kind'', JStr ''service''),
     (''service_account_id'', uuid_json decimal_codec 5)] sample_passport \<and> \<not> is_super_admin sample_passport"
  using passport_states_its_wire_form [of decimal_codec "[(''claims'', JObj [(''scopes'', JArr [JStr ''a:r'', JStr ''nope''])]),
      (''kind'', JStr ''service''), (''service_account_id'', uuid_json decimal_codec 5)]" sample_passport]
    passport_decoder_json [OF decimal_codec_ok, of sample_passport, unfolded sample_passport_json]
  by simp

section \<open>Grants\<close>

lemma map_filter_mem: "y \<in> set (List.map_filter f xs) \<longleftrightarrow> (\<exists>x \<in> set xs. f x = Some y)"
  by (induction xs) (auto simp: List.map_filter_def)

lemma scopes_iff: "k \<in> set (scopes p) \<longleftrightarrow> scope_key_ok k \<and> scope_str k \<in> set (granted p)"
  by (auto simp: scopes_def map_filter_mem ok_Some_iff scope_key_new_Ok_iff)

lemma granted_claim: "bm_get (claims p) scopes_claim_key = Some (JArr (map JStr raws)) \<Longrightarrow> granted p = raws"
  using vec_decoder_map [of raws str_decoder JStr]
  by (simp add: granted_def claim_def del: vec_decoder.simps)

text \<open>C21: the two readings of a grant agree and fail closed: a request holds a scope exactly when the
  scope is among its scopes, every one of which is well formed and was sent as it is; and a claim
  that is missing, or has anything but texts in it, grants nothing.
\<close>

theorem grants_fail_closed:
  assumes "scope_key_ok k"
  shows "(has_scope p k \<longleftrightarrow> k \<in> set (scopes p)) \<and> list_all scope_key_ok (scopes p) \<and>
    (has_scope p k \<longrightarrow> (\<exists>raws. bm_get (claims p) scopes_claim_key = Some (JArr (map JStr raws)) \<and>
       scope_str k \<in> set raws))"
proof -
  have "\<exists>raws. bm_get (claims p) scopes_claim_key = Some (JArr (map JStr raws)) \<and> scope_str k \<in> set raws"
    if has: "has_scope p k"
  proof -
    obtain v raws where v: "bm_get (claims p) scopes_claim_key = Some v" "vec_decoder str_decoder v = Ok raws"
      "scope_str k \<in> set raws"
      using has by (auto simp: has_scope_def granted_def claim_def list_ex_iff ok_Some_iff split: option.splits)
    then obtain xs where xs: "v = JArr xs" "collect_results (map str_decoder xs) = Ok raws"
      by (cases v) auto
    then have "map str_decoder xs = map Ok raws"
      by (simp add: collect_results_Ok_iff)
    then have "xs = map JStr raws"
      by (induction xs arbitrary: raws) (auto simp: str_decoder_Ok_iff Cons_eq_map_conv)
    then show ?thesis
      using v xs by blast
  qed
  then show ?thesis
    using assms by (auto simp: has_scope_def scopes_iff list_ex_iff list_all_iff)
qed

theorem grants_fail_closed_witness:
  "has_scope sample_passport (ScopeKey ''a:r'' 1) \<and> scopes sample_passport = [ScopeKey ''a:r'' 1]"
proof -
  have eq: "scopes sample_passport = [ScopeKey ''a:r'' 1]"
    by code_simp
  have "scope_key_ok (ScopeKey ''a:r'' 1)"
    using scope_key_new_Ok_iff [of "''a:r''" "ScopeKey ''a:r'' 1"] by (simp add: scopes_iff [symmetric])
      (code_simp)
  from grants_fail_closed [OF this, of sample_passport] show ?thesis
    by (simp add: eq)
qed

section \<open>From one service to the next\<close>

text \<open>
  What the formats promise for a passport: its text parses back, base64 decoding undoes encoding, and
  what it writes is text that is not empty.
\<close>

definition carries :: "header_format \<Rightarrow> passport \<Rightarrow> bool" where
  "carries f p \<longleftrightarrow> codec_ok (hf_codec f) \<and>
     jt_parse (hf_text f) (jt_print (hf_text f) (passport_json (hf_codec f) p)) = Ok (passport_json (hf_codec f) p) \<and>
     hf_decode f (to_header f p) = Ok (jt_print (hf_text f) (passport_json (hf_codec f) p)) \<and>
     header_to_str (to_header f p) = Some (to_header f p) \<and> to_header f p \<noteq> []"

lemma from_header_to_header: "carries f p \<Longrightarrow> from_header f (to_header f p) = Ok p"
  by (simp add: carries_def from_header_def passport_decoder_json)

lemma decode_own_header:
  "carries f p \<Longrightarrow> map_of (rq_headers rq) ''x-passport'' = Some (to_header f p) \<Longrightarrow> decode_passport f rq = Some p"
  using from_header_to_header [of f p] by (simp add: decode_passport_def carries_def)

text \<open>C16: the passport that one service puts in the header is the one the next service's handler runs
  with, whatever the request carried before, and the handler runs at most once; a request whose
  header is missing, empty, not text or not a passport is refused without running the handler, by
  both middlewares with the status 401.
\<close>

theorem passport_travels_in_header:
  assumes "carries f p"
  shows "(map_of (rq_headers rq) ''x-passport'' = Some (to_header f p) \<longrightarrow>
      passport_header_middleware f next_run rq s = next_run (rq\<lparr>rq_passport := Some p\<rparr>) s \<and>
      passport_header_graphql_middleware f next_run rq s = next_run (rq\<lparr>rq_passport := Some p\<rparr>) s) \<and>
    ((case map_of (rq_headers rq) ''x-passport'' of None \<Rightarrow> True
      | Some v \<Rightarrow> v = [] \<or> header_to_str v = None \<or> \<not> is_ok (from_header f v)) \<longrightarrow>
      passport_header_middleware f next_run rq s = (text_unauthorized, s) \<and>
      passport_header_graphql_middleware f next_run rq s = (graphql_unauthorized, s) \<and>
      rs_status text_unauthorized = 401 \<and> rs_status graphql_unauthorized = 401)"
proof -
  have "decode_passport f rq = None"
    if "case map_of (rq_headers rq) ''x-passport'' of None \<Rightarrow> True
      | Some v \<Rightarrow> v = [] \<or> header_to_str v = None \<or> \<not> is_ok (from_header f v)"
    using that by (auto simp: decode_passport_def header_to_str_def split: option.splits if_splits)
      (metis is_ok.elims(3) ok.simps(2))+
  then show ?thesis
    using decode_own_header [OF assms]
    by (auto simp: passport_header_middleware_def passport_header_graphql_middleware_def admit_def
        text_unauthorized_def graphql_unauthorized_def)
qed

definition sample_header :: header_format where
  "sample_header = \<lparr>hf_codec = decimal_codec,
     hf_text = \<lparr>jt_print = (\<lambda>_. ''p''), jt_parse = (\<lambda>_. Ok (passport_json decimal_codec sample_passport))\<rparr>,
     hf_encode = id, hf_decode = Ok\<rparr>"

theorem passport_travels_in_header_witness:
  "passport_header_middleware sample_header (\<lambda>rq s. (text_unauthorized\<lparr>rs_status := 200\<rparr>, s + (1::nat)))
     \<lparr>rq_headers = [(''x-passport'', ''p'')], rq_passport = None\<rparr> 0 = (text_unauthorized\<lparr>rs_status := 200\<rparr>, 1) \<and>
   passport_header_middleware sample_header (\<lambda>rq s. (text_unauthorized\<lparr>rs_status := 200\<rparr>, s + (1::nat)))
     \<lparr>rq_headers = [(''x-passport'', [])], rq_passport = None\<rparr> 0 = (text_unauthorized, 0)"
proof -
  have c: "carries sample_header sample_passport" and hdr: "to_header sample_header sample_passport = ''p''"
    by (simp_all add: carries_def sample_header_def to_header_def decimal_codec_ok header_to_str_def byte_def)
  note law = passport_travels_in_header [OF c, unfolded hdr]
  show ?thesis
    using law [of "\<lparr>rq_headers = [(''x-passport'', ''p'')], rq_passport = None\<rparr>"
        "\<lambda>rq s. (text_unauthorized\<lparr>rs_status := 200\<rparr>, s + (1::nat))" 0, THEN conjunct1]
      law [of "\<lparr>rq_headers = [(''x-passport'', [])], rq_passport = None\<rparr>"
        "\<lambda>rq s. (text_unauthorized\<lparr>rs_status := 200\<rparr>, s + (1::nat))" 0, THEN conjunct2] by simp
qed

section \<open>Keys of tokens\<close>

lemma hex_digit_inj: "a < 16 \<Longrightarrow> b < 16 \<Longrightarrow> hex_digit a = hex_digit b \<longleftrightarrow> a = b"
proof -
  have "\<forall>a < 16. \<forall>b < 16. hex_digit a = hex_digit b \<longrightarrow> a = b"
    by (simp add: hex_digit_def numeral_eq_Suc All_less_Suc)
  then show "a < 16 \<Longrightarrow> b < 16 \<Longrightarrow> hex_digit a = hex_digit b \<longleftrightarrow> a = b"
    by blast
qed

lemma hex_byte_inj: "hex_byte a = hex_byte b \<longleftrightarrow> a = b"
proof -
  have "unat x div 16 < 16" for x :: u8
    using unsigned_less [of x, where ?'a = nat] by simp
  then have "hex_byte a = hex_byte b \<longleftrightarrow> unat a div 16 = unat b div 16 \<and> unat a mod 16 = unat b mod 16"
    by (simp add: hex_byte_def hex_digit_inj)
  then show ?thesis
    by (metis div_mult_mod_eq word_unat_eq_iff)
qed

lemma hex_inj: "concat (map hex_byte xs) = concat (map hex_byte ys) \<longleftrightarrow> xs = ys"
proof (induction xs arbitrary: ys)
  case Nil
  then show ?case by (cases ys) (simp_all add: hex_byte_def)
next
  case (Cons x xs)
  then show ?case
    using hex_byte_inj [of x] by (cases ys) (auto simp: hex_byte_def)
qed

lemma bearer_key_faithful:
  "bearer_token_key sha256 a = bearer_token_key sha256 b \<longleftrightarrow> sha256 a = sha256 b"
  by (simp add: bearer_token_key_def hex_inj)

lemma bearer_entry_roundtrip: "codec_ok c \<Longrightarrow> bearer_entry_decoder c (bearer_entry_json c e) = Ok e"
  by (cases e) (simp add: bearer_entry_decoder_def bearer_entry_json_def json_obj_def strict_fields_def required_def)

section \<open>The session of a cookie\<close>

text \<open>A pair that carries a session under the name.\<close>

definition session_pair :: "string \<Rightarrow> string \<Rightarrow> bool" where
  "session_pair name pair \<longleftrightarrow> length name + 1 < length pair \<and> pair ! length name = CHR ''='' \<and>
     take (length name) pair = name"

lemma session_pair_iff: "session_pair name pair \<longleftrightarrow> (\<exists>v. v \<noteq> [] \<and> pair = name @ CHR ''='' # v)"
proof
  assume "session_pair name pair"
  then show "\<exists>v. v \<noteq> [] \<and> pair = name @ CHR ''='' # v"
    unfolding session_pair_def
    by (intro exI [of _ "drop (length name + 1) pair"]) (metis Suc_eq_plus1 add_lessD1 append_take_drop_id
        drop_eq_Nil id_take_nth_drop not_less)
qed (auto simp: session_pair_def)

lemma find_session_eq:
  "find_session name raws found = (case (found, filter (session_pair name) (map trim raws)) of
     (None, [pair]) \<Rightarrow> Some (drop (length name + 1) pair)
   | (Some v, []) \<Rightarrow> Some v
   | _ \<Rightarrow> None)"
proof (induction name raws found rule: find_session.induct)
  case (2 name raw rest found)
  show ?case
    using 2 by (cases found) (auto simp: Let_def session_pair_def split: list.splits)
qed (simp split: option.split)

text \<open>a cookie header has a session exactly when one of its pairs, and only one, carries a
  non-empty value under the name the mode asks for; a repeated name gives none, so a second cookie
  cannot replace the first, and in secure mode the plain name does not count.
\<close>

theorem session_id_is_unambiguous:
  "extract_session_id cookies secure = Some v \<longleftrightarrow> v \<noteq> [] \<and>
    filter (\<lambda>pair. \<exists>w. w \<noteq> [] \<and> pair = session_cookie_name secure @ ''='' @ w)
      (map trim (split_on (CHR '';'') cookies)) = [session_cookie_name secure @ ''='' @ v]"
proof -
  let ?name = "session_cookie_name secure"
  let ?found = "filter (session_pair ?name) (map trim (split_on (CHR '';'') cookies))"
  have "session_pair ?name = (\<lambda>pair. \<exists>w. w \<noteq> [] \<and> pair = ?name @ ''='' @ w)"
    by (simp add: fun_eq_iff session_pair_iff)
  moreover have "session_pair ?name p" if "?found = [p]" for p
    using that by (metis filter_eq_Cons_iff)
  then have "?found = [p] \<Longrightarrow> \<exists>w. w \<noteq> [] \<and> p = ?name @ CHR ''='' # w" for p
    by (simp add: session_pair_iff)
  then have "extract_session_id cookies secure = Some v \<longleftrightarrow> v \<noteq> [] \<and> ?found = [?name @ ''='' @ v]"
    by (fastforce simp: extract_session_id_def find_session_eq split: list.splits)
  ultimately show ?thesis
    by simp
qed

end
