(* ===== verification/Values.thy ===== *)
theory Values
  imports Json
begin

text \<open>
  The shared value objects of \<^verbatim>\<open>br-core-values\<close>: ISO currency and country codes, money
  (\<^verbatim>\<open>iso\<close>), localized texts (\<^verbatim>\<open>localized\<close>) and the errors of all of them with
  their JSON form (\<^verbatim>\<open>error\<close>).
\<close>

section \<open>Errors\<close>

datatype value_error =
  MalformedCode string nat
| UnknownCurrency string
| UnknownCountry string
| LocaleUnknown string
| LocalizedEmpty
| LocalizedPrimaryMissing
| LocalizedDuplicateLocale

fun value_error_code :: "value_error \<Rightarrow> string" where
  "value_error_code (MalformedCode _ _) = ''malformed_code''"
| "value_error_code (UnknownCurrency _) = ''unknown_currency''"
| "value_error_code (UnknownCountry _) = ''unknown_country''"
| "value_error_code (LocaleUnknown _) = ''locale_unknown''"
| "value_error_code LocalizedEmpty = ''localized_empty''"
| "value_error_code LocalizedPrimaryMissing = ''localized_primary_missing''"
| "value_error_code LocalizedDuplicateLocale = ''localized_duplicate_locale''"

text \<open>The entries are written in this order.\<close>

definition single_code :: "string \<Rightarrow> (string \<times> json) list" where
  "single_code code = [(''code'', JStr code)]"

fun value_error_entries :: "value_error \<Rightarrow> (string \<times> json) list" where
  "value_error_entries (MalformedCode v n) =
     [(''code'', JStr ''malformed_code''), (''value'', JStr v), (''expected_len'', JNat n)]"
| "value_error_entries (UnknownCurrency v) = [(''code'', JStr ''unknown_currency''), (''value'', JStr v)]"
| "value_error_entries (UnknownCountry v) = [(''code'', JStr ''unknown_country''), (''value'', JStr v)]"
| "value_error_entries (LocaleUnknown v) = [(''code'', JStr ''locale_unknown''), (''value'', JStr v)]"
| "value_error_entries LocalizedEmpty = single_code ''localized_empty''"
| "value_error_entries LocalizedPrimaryMissing = single_code ''localized_primary_missing''"
| "value_error_entries LocalizedDuplicateLocale = single_code ''localized_duplicate_locale''"

text \<open>The visitor reads the entries one by one, in any order, each name once; other names are skipped.\<close>

fun visit_entries :: "(string \<times> json) list \<Rightarrow> string option \<Rightarrow> string option \<Rightarrow> nat option
    \<Rightarrow> (string option \<times> string option \<times> nat option, string) result" where
  "visit_entries [] code val len = Ok (code, val, len)"
| "visit_entries ((key, v) # m) code val len =
     (if key = ''code'' then
        (if code \<noteq> None then Err ''duplicate field code''
         else and_then (str_decoder v) (\<lambda>s. visit_entries m (Some s) val len))
      else if key = ''value'' then
        (if val \<noteq> None then Err ''duplicate field value''
         else and_then (str_decoder v) (\<lambda>s. visit_entries m code (Some s) len))
      else if key = ''expected_len'' then
        (if len \<noteq> None then Err ''duplicate field expected_len''
         else and_then (usize_decoder v) (\<lambda>n. visit_entries m code val (Some n)))
      else visit_entries m code val len)"

definition need :: "string \<Rightarrow> 'a option \<Rightarrow> ('a, string) result" where
  "need name x = (case x of None \<Rightarrow> Err (''missing field '' @ name) | Some v \<Rightarrow> Ok v)"

definition value_error_of :: "string \<Rightarrow> string option \<Rightarrow> nat option \<Rightarrow> (value_error, string) result" where
  "value_error_of code val len =
     (if code = ''malformed_code'' then
        and_then (need ''value'' val) (\<lambda>v. and_then (need ''expected_len'' len) (\<lambda>n. Ok (MalformedCode v n)))
      else if code = ''unknown_currency'' then and_then (need ''value'' val) (\<lambda>v. Ok (UnknownCurrency v))
      else if code = ''unknown_country'' then and_then (need ''value'' val) (\<lambda>v. Ok (UnknownCountry v))
      else if code = ''locale_unknown'' then and_then (need ''value'' val) (\<lambda>v. Ok (LocaleUnknown v))
      else if code = ''localized_empty'' then Ok LocalizedEmpty
      else if code = ''localized_primary_missing'' then Ok LocalizedPrimaryMissing
      else if code = ''localized_duplicate_locale'' then Ok LocalizedDuplicateLocale
      else Err ''unknown variant'')"

definition value_error_decoder :: "value_error decoder" where
  "value_error_decoder v = (case v of
     JObj m \<Rightarrow> and_then (visit_entries m None None None) (\<lambda>(code, val, len).
       and_then (need ''code'' code) (\<lambda>c. value_error_of c val len))
   | _ \<Rightarrow> Err ''invalid type'')"

section \<open>ISO codes\<close>

definition country_rows :: "string list list" where
  "country_rows = [
     [''AD'', ''AE'', ''AF'', ''AG'', ''AI'', ''AL'', ''AM'', ''AO'', ''AQ'', ''AR'', ''AS'', ''AT'', ''AU'', ''AW'', ''AX'', ''AZ''],
     [''BA'', ''BB'', ''BD'', ''BE'', ''BF'', ''BG'', ''BH'', ''BI'', ''BJ'', ''BL'', ''BM'', ''BN'', ''BO'', ''BQ'', ''BR'', ''BS''],
     [''BT'', ''BV'', ''BW'', ''BY'', ''BZ'', ''CA'', ''CC'', ''CD'', ''CF'', ''CG'', ''CH'', ''CI'', ''CK'', ''CL'', ''CM'', ''CN''],
     [''CO'', ''CR'', ''CU'', ''CV'', ''CW'', ''CX'', ''CY'', ''CZ'', ''DE'', ''DJ'', ''DK'', ''DM'', ''DO'', ''DZ'', ''EC'', ''EE''],
     [''EG'', ''EH'', ''ER'', ''ES'', ''ET'', ''FI'', ''FJ'', ''FK'', ''FM'', ''FO'', ''FR'', ''GA'', ''GB'', ''GD'', ''GE'', ''GF''],
     [''GG'', ''GH'', ''GI'', ''GL'', ''GM'', ''GN'', ''GP'', ''GQ'', ''GR'', ''GS'', ''GT'', ''GU'', ''GW'', ''GY'', ''HK'', ''HM''],
     [''HN'', ''HR'', ''HT'', ''HU'', ''ID'', ''IE'', ''IL'', ''IM'', ''IN'', ''IO'', ''IQ'', ''IR'', ''IS'', ''IT'', ''JE'', ''JM''],
     [''JO'', ''JP'', ''KE'', ''KG'', ''KH'', ''KI'', ''KM'', ''KN'', ''KP'', ''KR'', ''KW'', ''KY'', ''KZ'', ''LA'', ''LB'', ''LC''],
     [''LI'', ''LK'', ''LR'', ''LS'', ''LT'', ''LU'', ''LV'', ''LY'', ''MA'', ''MC'', ''MD'', ''ME'', ''MF'', ''MG'', ''MH'', ''MK''],
     [''ML'', ''MM'', ''MN'', ''MO'', ''MP'', ''MQ'', ''MR'', ''MS'', ''MT'', ''MU'', ''MV'', ''MW'', ''MX'', ''MY'', ''MZ'', ''NA''],
     [''NC'', ''NE'', ''NF'', ''NG'', ''NI'', ''NL'', ''NO'', ''NP'', ''NR'', ''NU'', ''NZ'', ''OM'', ''PA'', ''PE'', ''PF'', ''PG''],
     [''PH'', ''PK'', ''PL'', ''PM'', ''PN'', ''PR'', ''PS'', ''PT'', ''PW'', ''PY'', ''QA'', ''RE'', ''RO'', ''RS'', ''RU'', ''RW''],
     [''SA'', ''SB'', ''SC'', ''SD'', ''SE'', ''SG'', ''SH'', ''SI'', ''SJ'', ''SK'', ''SL'', ''SM'', ''SN'', ''SO'', ''SR'', ''SS''],
     [''ST'', ''SV'', ''SX'', ''SY'', ''SZ'', ''TC'', ''TD'', ''TF'', ''TG'', ''TH'', ''TJ'', ''TK'', ''TL'', ''TM'', ''TN'', ''TO''],
     [''TR'', ''TT'', ''TV'', ''TW'', ''TZ'', ''UA'', ''UG'', ''UM'', ''US'', ''UY'', ''UZ'', ''VA'', ''VC'', ''VE'', ''VG'', ''VI''],
     [''VN'', ''VU'', ''WF'', ''WS'', ''YE'', ''YT'', ''ZA'', ''ZM'', ''ZW'']]"

definition country_codes :: "string list" where
  "country_codes = concat country_rows"

definition currency_rows :: "string list list" where
  "currency_rows = [
     [''AED'', ''AFN'', ''ALL'', ''AMD'', ''ANG'', ''AOA'', ''ARS'', ''AUD'', ''AWG'', ''AZN'', ''BAM'', ''BBD'', ''BDT''],
     [''BGN'', ''BHD'', ''BIF'', ''BMD'', ''BND'', ''BOB'', ''BOV'', ''BRL'', ''BSD'', ''BTN'', ''BWP'', ''BYN'', ''BZD''],
     [''CAD'', ''CDF'', ''CHE'', ''CHF'', ''CHW'', ''CLF'', ''CLP'', ''CNY'', ''COP'', ''COU'', ''CRC'', ''CUC'', ''CUP''],
     [''CVE'', ''CZK'', ''DJF'', ''DKK'', ''DOP'', ''DZD'', ''EGP'', ''ERN'', ''ETB'', ''EUR'', ''FJD'', ''FKP'', ''GBP''],
     [''GEL'', ''GHS'', ''GIP'', ''GMD'', ''GNF'', ''GTQ'', ''GYD'', ''HKD'', ''HNL'', ''HTG'', ''HUF'', ''IDR'', ''ILS''],
     [''INR'', ''IQD'', ''IRR'', ''ISK'', ''JMD'', ''JOD'', ''JPY'', ''KES'', ''KGS'', ''KHR'', ''KMF'', ''KPW'', ''KRW''],
     [''KWD'', ''KYD'', ''KZT'', ''LAK'', ''LBP'', ''LKR'', ''LRD'', ''LSL'', ''LYD'', ''MAD'', ''MDL'', ''MGA'', ''MKD''],
     [''MMK'', ''MNT'', ''MOP'', ''MRU'', ''MUR'', ''MVR'', ''MWK'', ''MXN'', ''MXV'', ''MYR'', ''MZN'', ''NAD'', ''NGN''],
     [''NIO'', ''NOK'', ''NPR'', ''NZD'', ''OMR'', ''PAB'', ''PEN'', ''PGK'', ''PHP'', ''PKR'', ''PLN'', ''PYG'', ''QAR''],
     [''RON'', ''RSD'', ''RUB'', ''RWF'', ''SAR'', ''SBD'', ''SCR'', ''SDG'', ''SEK'', ''SGD'', ''SHP'', ''SLE'', ''SOS''],
     [''SRD'', ''SSP'', ''STN'', ''SVC'', ''SYP'', ''SZL'', ''THB'', ''TJS'', ''TMT'', ''TND'', ''TOP'', ''TRY'', ''TTD''],
     [''TWD'', ''TZS'', ''UAH'', ''UGX'', ''USD'', ''USN'', ''UYI'', ''UYU'', ''UYW'', ''UZS'', ''VED'', ''VES'', ''VND''],
     [''VUV'', ''WST'', ''XAF'', ''XCD'', ''XDR'', ''XOF'', ''XPF'', ''XSU'', ''XUA'', ''YER'', ''ZAR'', ''ZMW'', ''ZWG'']]"

definition currency_codes :: "string list" where
  "currency_codes = concat currency_rows"

text \<open>
  \<^verbatim>\<open>to_uppercase\<close> maps characters by the rules of Unicode. These are the characters other
  than ASCII letters whose upper-case form is made of ASCII letters; any other character keeps a byte
  outside ASCII, which is all the sources look at, and is left as it is.
\<close>

definition upper_specials :: "(string \<times> string) list" where
  "upper_specials =
     [([CHR 0xC3, CHR 0x9F], ''SS''), ([CHR 0xC4, CHR 0xB1], ''I''), ([CHR 0xC5, CHR 0xBF], ''S''),
      ([CHR 0xEF, CHR 0xAC, CHR 0x80], ''FF''), ([CHR 0xEF, CHR 0xAC, CHR 0x81], ''FI''),
      ([CHR 0xEF, CHR 0xAC, CHR 0x82], ''FL''), ([CHR 0xEF, CHR 0xAC, CHR 0x83], ''FFI''),
      ([CHR 0xEF, CHR 0xAC, CHR 0x84], ''FFL''), ([CHR 0xEF, CHR 0xAC, CHR 0x85], ''ST''),
      ([CHR 0xEF, CHR 0xAC, CHR 0x86], ''ST'')]"

fun to_uppercase :: "string \<Rightarrow> string" where
  "to_uppercase [] = []"
| "to_uppercase (c # cs) = (case find (\<lambda>(lower, upper). starts_with lower (c # cs)) upper_specials of
     Some (lower, upper) \<Rightarrow> upper @ to_uppercase (drop (length lower - 1) cs)
   | None \<Rightarrow> to_ascii_uppercase c # to_uppercase cs)"

definition normalize_alpha_code :: "string \<Rightarrow> nat \<Rightarrow> (string, value_error) result" where
  "normalize_alpha_code raw len = (let upper = to_uppercase (trim raw) in
     if length upper = len \<and> list_all is_ascii_alphabetic upper then Ok upper
     else Err (MalformedCode raw len))"

text \<open>The binary search of slices.\<close>

fun search_base :: "'a::linorder list \<Rightarrow> 'a \<Rightarrow> nat \<Rightarrow> nat \<Rightarrow> nat" where
  "search_base xs x base n =
     (if n \<le> 1 then base
      else let half = n div 2; mid = base + half
        in search_base xs x (if x < xs ! mid then base else mid) (n - half))"

declare search_base.simps [simp del]

definition binary_search :: "'a::linorder list \<Rightarrow> 'a \<Rightarrow> (nat, nat) result" where
  "binary_search xs x = (if xs = [] then Err 0
     else let base = search_base xs x 0 (length xs)
       in if xs ! base = x then Ok base else Err (if xs ! base < x then base + 1 else base))"

datatype currency = Currency (currency_str: string)
datatype country_code = CountryCode (country_str: string)

definition currency_new :: "string \<Rightarrow> (currency, value_error) result" where
  "currency_new raw = and_then (normalize_alpha_code raw 3) (\<lambda>upper.
     if is_ok (binary_search currency_codes upper) then Ok (Currency upper) else Err (UnknownCurrency upper))"

definition country_new :: "string \<Rightarrow> (country_code, value_error) result" where
  "country_new raw = and_then (normalize_alpha_code raw 2) (\<lambda>upper.
     if is_ok (binary_search country_codes upper) then Ok (CountryCode upper) else Err (UnknownCountry upper))"

definition currency_json :: "currency \<Rightarrow> json" where
  "currency_json c = JStr (currency_str c)"

definition currency_decoder :: "currency decoder" where
  "currency_decoder v = and_then (str_decoder v) (\<lambda>s. map_err value_error_code (currency_new s))"

definition country_json :: "country_code \<Rightarrow> json" where
  "country_json c = JStr (country_str c)"

definition country_decoder :: "country_code decoder" where
  "country_decoder v = and_then (str_decoder v) (\<lambda>s. map_err value_error_code (country_new s))"

text \<open>An amount counts minor units in 64 bits.\<close>

record money =
  mo_amount :: "64 word"
  mo_currency :: currency

definition money_new :: "64 word \<Rightarrow> currency \<Rightarrow> money" where
  "money_new amount c = \<lparr>mo_amount = amount, mo_currency = c\<rparr>"

definition i64_json :: "64 word \<Rightarrow> json" where
  "i64_json w = (if 0 \<le> sint w then JNat (nat (sint w)) else JNeg (sint w))"

definition i64_decoder :: "(64 word) decoder" where
  "i64_decoder v = (case v of
     JNat n \<Rightarrow> if n < 2 ^ 63 then Ok (of_nat n) else Err ''invalid value''
   | JNeg i \<Rightarrow> if - (2 ^ 63) \<le> i then Ok (of_int i) else Err ''invalid value''
   | _ \<Rightarrow> Err ''invalid type'')"

definition money_json :: "money \<Rightarrow> json" where
  "money_json m = json_obj [(''amount'', i64_json (mo_amount m)), (''currency'', currency_json (mo_currency m))]"

definition money_decoder :: "money decoder" where
  "money_decoder v = and_then (struct_fields [''amount'', ''currency''] v) (\<lambda>fs.
     and_then (required i64_decoder ''amount'' fs) (\<lambda>a.
     and_then (required currency_decoder ''currency'' fs) (\<lambda>c. Ok (money_new a c))))"

section \<open>Localized texts\<close>

record 'l localized_entry =
  le_locale :: 'l
  le_content :: string

text \<open>The format is a phantom type; its tag is the text format of the content.\<close>

record 'l localized =
  lo_primary :: 'l
  lo_entries :: "'l localized_entry list"

definition localized_new :: "'l \<Rightarrow> string \<Rightarrow> 'l localized" where
  "localized_new primary content =
     \<lparr>lo_primary = primary, lo_entries = [\<lparr>le_locale = primary, le_content = trim content\<rparr>]\<rparr>"

definition from_parts :: "'l \<Rightarrow> 'l localized_entry list \<Rightarrow> ('l localized, value_error) result" where
  "from_parts primary entries =
     (if entries = [] then Err LocalizedEmpty
      else if list_ex (\<lambda>i. list_ex (\<lambda>prev. le_locale prev = le_locale (entries ! i)) (take i entries))
          [0..<length entries]
      then Err LocalizedDuplicateLocale
      else if \<not> list_ex (\<lambda>e. le_locale e = primary) entries then Err LocalizedPrimaryMissing
      else Ok \<lparr>lo_primary = primary,
        lo_entries = map (\<lambda>e. e\<lparr>le_content := trim (le_content e)\<rparr>) entries\<rparr>)"

fun set_entry :: "'l \<Rightarrow> string \<Rightarrow> 'l localized_entry list \<Rightarrow> 'l localized_entry list" where
  "set_entry locale content [] = [\<lparr>le_locale = locale, le_content = content\<rparr>]"
| "set_entry locale content (e # es) =
     (if le_locale e = locale then e\<lparr>le_content := content\<rparr> # es else e # set_entry locale content es)"

definition localized_set :: "'l \<Rightarrow> string \<Rightarrow> 'l localized \<Rightarrow> 'l localized" where
  "localized_set locale content t = t\<lparr>lo_entries := set_entry locale (trim content) (lo_entries t)\<rparr>"

definition localized_get :: "'l \<Rightarrow> 'l localized \<Rightarrow> string option" where
  "localized_get locale t = map_option le_content (find (\<lambda>e. le_locale e = locale) (lo_entries t))"

text \<open>\<open>None\<close> is the panic of the primary text.\<close>

definition primary_text :: "'l localized \<Rightarrow> string option" where
  "primary_text t = localized_get (lo_primary t) t"

definition entry_json :: "('l \<Rightarrow> json) \<Rightarrow> 'l localized_entry \<Rightarrow> json" where
  "entry_json enc e = json_obj [(''locale'', enc (le_locale e)), (''content'', JStr (le_content e))]"

definition entry_decoder :: "'l decoder \<Rightarrow> 'l localized_entry decoder" where
  "entry_decoder dec v = and_then (struct_fields [''locale'', ''content''] v) (\<lambda>fs.
     and_then (required dec ''locale'' fs) (\<lambda>l.
     and_then (required str_decoder ''content'' fs) (\<lambda>s. Ok \<lparr>le_locale = l, le_content = s\<rparr>)))"

definition localized_json :: "('l \<Rightarrow> json) \<Rightarrow> 'l localized \<Rightarrow> json" where
  "localized_json enc t = json_obj [(''primary'', enc (lo_primary t)),
     (''entries'', JArr (map (entry_json enc) (lo_entries t)))]"

definition localized_decoder :: "'l decoder \<Rightarrow> 'l localized decoder" where
  "localized_decoder dec v = and_then (struct_fields [''primary'', ''entries''] v) (\<lambda>fs.
     and_then (required dec ''primary'' fs) (\<lambda>p.
     and_then (required (vec_decoder (entry_decoder dec)) ''entries'' fs) (\<lambda>es.
       map_err value_error_code (from_parts p es))))"

datatype 'l localized_content = ContentMd "'l localized" | ContentHtml "'l localized"

definition content_md where "content_md primary content = ContentMd (localized_new primary content)"
definition content_html where "content_html primary content = ContentHtml (localized_new primary content)"

fun content_format :: "'l localized_content \<Rightarrow> string" where
  "content_format (ContentMd _) = ''md''"
| "content_format (ContentHtml _) = ''html''"

fun content_primary :: "'l localized_content \<Rightarrow> string option" where
  "content_primary (ContentMd t) = primary_text t"
| "content_primary (ContentHtml t) = primary_text t"

fun content_body :: "'l localized_content \<Rightarrow> 'l localized" where
  "content_body (ContentMd t) = t"
| "content_body (ContentHtml t) = t"

definition content_json :: "('l \<Rightarrow> json) \<Rightarrow> 'l localized_content \<Rightarrow> json" where
  "content_json enc c = json_obj [(''format'', JStr (content_format c)),
     (''body'', localized_json enc (content_body c))]"

definition content_decoder :: "'l decoder \<Rightarrow> 'l localized_content decoder" where
  "content_decoder dec v = and_then (struct_fields [''format'', ''body''] v) (\<lambda>fs.
     and_then (required (variant_decoder [(''md'', ContentMd), (''html'', ContentHtml)]) ''format'' fs) (\<lambda>con.
     and_then (required (localized_decoder dec) ''body'' fs) (\<lambda>t. Ok (con t))))"

definition parse_wire :: "(string \<Rightarrow> 'l option) \<Rightarrow> string \<Rightarrow> ('l, value_error) result" where
  "parse_wire from_wire s = (case from_wire s of None \<Rightarrow> Err (LocaleUnknown s) | Some l \<Rightarrow> Ok l)"

section \<open>Codes are normalized\<close>

lemma search_base_finds:
  assumes "sorted xs" and "base + n \<le> length xs" and "base \<le> i" "i < base + n" and "xs ! i = x"
  shows "xs ! search_base xs x base n = x"
  using assms
proof (induction xs x base n arbitrary: i rule: search_base.induct)
  case (1 xs x base n)
  show ?case
  proof (cases "n \<le> 1")
    case True
    then have "i = base"
      using "1.prems"(3,4) by simp
    then show ?thesis
      using True "1.prems"(5) by (simp add: search_base.simps [of xs x base n])
  next
    case False
    let ?half = "n div 2" and ?mid = "base + n div 2"
    have half: "1 \<le> ?half" "?half \<le> n - ?half" "?mid < length xs"
      using False "1.prems"(2) by auto
    show ?thesis
    proof (cases "x < xs ! ?mid")
      case True
      have "i < ?mid"
      proof (rule ccontr)
        assume "\<not> i < ?mid"
        then have "xs ! ?mid \<le> xs ! i"
          using "1.prems"(1-4) by (intro sorted_nth_mono) auto
        then show False
          using True "1.prems"(5) by simp
      qed
      then have "xs ! search_base xs x base (n - ?half) = x"
        using "1.IH" [OF False refl refl, of i] "1.prems" True half by simp
      then show ?thesis
        using False True by (simp add: search_base.simps [of xs x base n] Let_def)
    next
      case le: False
      define j where "j = max i ?mid"
      have "xs ! j = x"
      proof (cases "i < ?mid")
        case True
        then have "xs ! i \<le> xs ! ?mid"
          using "1.prems"(1) half by (intro sorted_nth_mono) auto
        then show ?thesis
          using le "1.prems"(5) True by (simp add: j_def max_def)
      qed (use "1.prems"(5) in \<open>simp add: j_def max_def\<close>)
      then have "xs ! search_base xs x ?mid (n - ?half) = x"
        using "1.IH" [OF False refl refl, of j] "1.prems" le half by (auto simp: j_def max_def)
      then show ?thesis
        using False le by (simp add: search_base.simps [of xs x base n] Let_def)
    qed
  qed
qed

lemma search_base_range: "0 < n \<Longrightarrow> search_base xs x base n < base + n"
proof (induction xs x base n rule: search_base.induct)
  case (1 xs x base n)
  show ?case
  proof (cases "n \<le> 1")
    case True
    then show ?thesis
      using "1.prems" by (simp add: search_base.simps [of xs x base n])
  next
    case False
    let ?b = "if x < xs ! (base + n div 2) then base else base + n div 2"
    have "search_base xs x base n = search_base xs x ?b (n - n div 2)"
      using False by (simp add: search_base.simps [of xs x base n] Let_def)
    also have "\<dots> < ?b + (n - n div 2)"
      using "1.IH" [OF False refl refl] False by simp
    also have "\<dots> \<le> base + n"
      by simp
    finally show ?thesis .
  qed
qed

lemma binary_search_iff:
  assumes "sorted xs"
  shows "is_ok (binary_search xs x) \<longleftrightarrow> x \<in> set xs"
proof
  assume "x \<in> set xs"
  then obtain i where "i < length xs" "xs ! i = x"
    by (auto simp: in_set_conv_nth)
  then have "xs ! search_base xs x 0 (length xs) = x"
    using assms by (intro search_base_finds [where i = i]) auto
  then show "is_ok (binary_search xs x)"
    using \<open>x \<in> set xs\<close> by (auto simp: binary_search_def Let_def)
next
  assume ok: "is_ok (binary_search xs x)"
  then have ne: "xs \<noteq> []" and eq: "xs ! search_base xs x 0 (length xs) = x"
    by (simp_all add: binary_search_def Let_def split: if_split_asm)
  have "search_base xs x 0 (length xs) < 0 + length xs"
    by (rule search_base_range) (simp add: ne)
  then show "x \<in> set xs"
    using nth_mem [of "search_base xs x 0 (length xs)" xs] eq by simp
qed

text \<open>The tables are checked row by row.\<close>

fun rows_sorted :: "'a::linorder list list \<Rightarrow> bool" where
  "rows_sorted [] \<longleftrightarrow> True"
| "rows_sorted [r] \<longleftrightarrow> sorted r"
| "rows_sorted (r # s # rs) \<longleftrightarrow> sorted r \<and> r \<noteq> [] \<and> s \<noteq> [] \<and> last r \<le> hd s \<and> rows_sorted (s # rs)"

lemma sorted_hd_le: "sorted r \<Longrightarrow> x \<in> set r \<Longrightarrow> hd r \<le> x"
  by (cases r) auto

lemma sorted_le_last: "sorted r \<Longrightarrow> x \<in> set r \<Longrightarrow> x \<le> last r"
  by (induction r) (auto split: if_splits)

lemma rows_sorted_head: "rows_sorted (r # rs) \<Longrightarrow> r \<noteq> [] \<Longrightarrow> x \<in> set (concat (r # rs)) \<Longrightarrow> hd r \<le> x"
proof (induction rs arbitrary: r)
  case Nil
  then show ?case
    by (simp add: sorted_hd_le)
next
  case (Cons s rs)
  then have row: "sorted r" "last r \<le> hd s" "s \<noteq> []" "rows_sorted (s # rs)"
    by simp_all
  show ?case
  proof (cases "x \<in> set r")
    case False
    have "hd r \<le> last r"
      using row(1) Cons.prems(2) by (simp add: sorted_hd_le)
    also have "\<dots> \<le> hd s"
      by (rule row(2))
    also have "\<dots> \<le> x"
      using Cons.IH [OF row(4,3)] Cons.prems(3) False by simp
    finally show ?thesis .
  qed (use row(1) in \<open>simp add: sorted_hd_le\<close>)
qed

lemma sorted_concat_rows: "rows_sorted rs \<Longrightarrow> sorted (concat rs)"
proof (induction rs rule: rows_sorted.induct)
  case (3 r s rs)
  then have row: "sorted r" "last r \<le> hd s" "s \<noteq> []" "rows_sorted (s # rs)"
    by simp_all
  have "x \<le> y" if "x \<in> set r" "y \<in> set (concat (s # rs))" for x y
    using sorted_le_last [OF row(1) that(1)] row(2) rows_sorted_head [OF row(4,3) that(2)] by simp
  then show ?case
    using "3.IH" [OF row(4)] row(1) by (simp add: sorted_append del: rows_sorted.simps)
qed simp_all

lemma country_codes_sorted: "sorted country_codes"
  unfolding country_codes_def by (rule sorted_concat_rows) code_simp

lemma currency_codes_sorted: "sorted currency_codes"
  unfolding currency_codes_def by (rule sorted_concat_rows) code_simp

end
