(* ===== verification/Values_Correct.thy ===== *)
theory Values_Correct
  imports Values
begin

text \<open>
  What the value objects promise: a code is accepted exactly when its normal form is in the table,
  every value reads back from its JSON form, and a localized text always has its primary text.
\<close>

section \<open>Codes\<close>

lemma list_all_concat: "list_all P (concat rs) \<longleftrightarrow> list_all (list_all P) rs"
  by (induction rs) auto

lemma country_codes_shape: "list_all (\<lambda>c. length c = 2 \<and> list_all is_ascii_uppercase c) country_codes"
  unfolding country_codes_def list_all_concat by code_simp

lemma currency_codes_shape: "list_all (\<lambda>c. length c = 3 \<and> list_all is_ascii_uppercase c) currency_codes"
  unfolding currency_codes_def list_all_concat by code_simp

lemma country_code_shape: "c \<in> set country_codes \<Longrightarrow> length c = 2 \<and> list_all is_ascii_uppercase c"
  using country_codes_shape by (simp add: list_all_iff)

lemma currency_code_shape: "c \<in> set currency_codes \<Longrightarrow> length c = 3 \<and> list_all is_ascii_uppercase c"
  using currency_codes_shape by (simp add: list_all_iff)

lemma white_space_bytes:
  "list_all (\<lambda>w. w \<noteq> [] \<and> \<not> is_ascii_uppercase (hd w) \<and> \<not> is_ascii_uppercase (last w)) white_space"
  by code_simp

lemma upper_specials_bytes: "list_all (\<lambda>(l, u). l \<noteq> [] \<and> \<not> is_ascii_uppercase (hd l)) upper_specials"
  by code_simp

lemma trim_upper:
  assumes "list_all is_ascii_uppercase s"
  shows "trim s = s"
proof -
  have "\<not> starts_with w s \<and> \<not> ends_with w s" if w: "w \<in> set white_space" for w
  proof -
    have up: "w \<noteq> []" "\<not> is_ascii_uppercase (hd w)" "\<not> is_ascii_uppercase (last w)"
      using white_space_bytes w by (auto simp: list_all_iff)
    have "hd w \<in> set s" if "starts_with w s"
      using that up(1) by (auto simp: starts_with_iff hd_append intro: hd_in_set)
    moreover have "last w \<in> set s" if "ends_with w s"
    proof -
      have "last w \<in> set (drop (length s - length w) s)"
        using that up(1) by (simp add: ends_with_def)
      then show ?thesis
        by (rule in_set_dropD)
    qed
    ultimately show ?thesis
      using assms up by (auto simp: list_all_iff)
  qed
  then have "leading_ws s = 0" "trailing_ws s = 0"
    by (simp_all add: leading_ws_0_iff trailing_ws_0_iff)
  then show ?thesis
    by (simp add: trim_def trim_start.simps [of s] trim_end.simps [of s])
qed

lemma upper_byte_upper: "is_ascii_uppercase c \<Longrightarrow> to_ascii_uppercase c = c"
  by (simp add: to_ascii_uppercase_def is_ascii_uppercase_def is_ascii_lowercase_def)

lemma no_special:
  assumes "is_ascii_uppercase c"
  shows "find (\<lambda>(lower, upper). starts_with lower (c # cs)) upper_specials = None"
proof -
  have "\<not> starts_with l (c # cs)" if "(l, u) \<in> set upper_specials" for l u
  proof -
    have "l \<noteq> []" "\<not> is_ascii_uppercase (hd l)"
      using upper_specials_bytes that by (auto simp: list_all_iff)
    then show ?thesis
      using assms by (cases l) (auto simp: starts_with_def)
  qed
  then show ?thesis
    by (auto simp: find_None_iff)
qed

lemma to_uppercase_upper: "list_all is_ascii_uppercase s \<Longrightarrow> to_uppercase s = s"
  by (induction s) (simp_all add: no_special upper_byte_upper)

lemma upper_alphabetic: "list_all is_ascii_uppercase s \<Longrightarrow> list_all is_ascii_alphabetic s"
  by (simp add: list_all_iff is_ascii_alphabetic_def)

lemma normalize_Ok_iff:
  "normalize_alpha_code raw n = Ok c \<longleftrightarrow>
     c = to_uppercase (trim raw) \<and> length c = n \<and> list_all is_ascii_alphabetic c"
  by (auto simp: normalize_alpha_code_def Let_def)

lemma currency_new_Ok_iff:
  "currency_new raw = Ok c \<longleftrightarrow>
     currency_str c = to_uppercase (trim raw) \<and> currency_str c \<in> set currency_codes"
  using binary_search_iff [OF currency_codes_sorted] currency_code_shape
  by (cases c) (auto simp: currency_new_def and_then_Ok_iff normalize_Ok_iff upper_alphabetic split: if_splits)

lemma country_new_Ok_iff:
  "country_new raw = Ok c \<longleftrightarrow>
     country_str c = to_uppercase (trim raw) \<and> country_str c \<in> set country_codes"
  using binary_search_iff [OF country_codes_sorted] country_code_shape
  by (cases c) (auto simp: country_new_def and_then_Ok_iff normalize_Ok_iff upper_alphabetic split: if_splits)

lemma currency_new_normal: "currency_str c \<in> set currency_codes \<Longrightarrow> currency_new (currency_str c) = Ok c"
  using currency_code_shape [of "currency_str c"] by (simp add: currency_new_Ok_iff trim_upper to_uppercase_upper)

lemma country_new_normal: "country_str c \<in> set country_codes \<Longrightarrow> country_new (country_str c) = Ok c"
  using country_code_shape [of "country_str c"] by (simp add: country_new_Ok_iff trim_upper to_uppercase_upper)

text \<open>A currency or country code is accepted exactly when its trimmed, upper-cased text is an entry of
  the table, though the table is only searched by halving; what is refused is refused as malformed or
  as unknown, with the offending text.
\<close>

theorem codes_admitted:
  "(currency_new raw = Ok c) = (currency_str c = to_uppercase (trim raw) \<and> currency_str c \<in> set currency_codes)
   \<and> (country_new raw = Ok k) = (country_str k = to_uppercase (trim raw) \<and> country_str k \<in> set country_codes)
   \<and> (currency_new raw = Err (MalformedCode v n)) =
       (v = raw \<and> n = 3 \<and> \<not> (length (to_uppercase (trim raw)) = 3
          \<and> list_all is_ascii_alphabetic (to_uppercase (trim raw))))
   \<and> (country_new raw = Err (MalformedCode v n)) =
       (v = raw \<and> n = 2 \<and> \<not> (length (to_uppercase (trim raw)) = 2
          \<and> list_all is_ascii_alphabetic (to_uppercase (trim raw))))"
  unfolding currency_new_Ok_iff country_new_Ok_iff
  by (auto simp: currency_new_def country_new_def normalize_alpha_code_def Let_def)

text \<open>Upper-casing by Unicode lets text that is not ASCII through: a sharp s is South Sudan.\<close>

lemma sharp_s_is_a_country:
  "country_new [CHR 0xC3, CHR 0x9F] = Ok (CountryCode ''SS'')
   \<and> country_new [CHR 0xEF, CHR 0xAC, CHR 0x81] = Ok (CountryCode ''FI'')"
proof -
  have "to_uppercase (trim [CHR 0xC3, CHR 0x9F]) = ''SS''"
      "to_uppercase (trim [CHR 0xEF, CHR 0xAC, CHR 0x81]) = ''FI''"
    by code_simp+
  moreover have "''SS'' \<in> set country_codes" "''FI'' \<in> set country_codes"
    by (simp_all add: country_codes_def country_rows_def)
  ultimately show ?thesis
    by (simp add: country_new_Ok_iff)
qed

section \<open>Money\<close>

lemma i64_decoder_json [simp]: "i64_decoder (i64_json w) = Ok w"
proof (cases "0 \<le> sint w")
  case True
  have "sint w < 2 ^ 63"
    using sint_lt [of w] by simp
  then show ?thesis
    using True by (simp add: i64_json_def i64_decoder_def nat_less_iff)
next
  case False
  have "- (2 ^ 63) \<le> sint w"
    using sint_ge [of w] by simp
  then show ?thesis
    using False by (simp add: i64_json_def i64_decoder_def)
qed

interpretation cur: wire_form currency_json currency_decoder "\<lambda>c. currency_str c \<in> set currency_codes"
  by unfold_locales
    (auto simp: currency_json_def currency_decoder_def currency_new_normal and_then_Ok_iff currency_new_Ok_iff)

interpretation cty: wire_form country_json country_decoder "\<lambda>c. country_str c \<in> set country_codes"
  by unfold_locales
    (auto simp: country_json_def country_decoder_def country_new_normal and_then_Ok_iff country_new_Ok_iff)

interpretation mny: wire_form money_json money_decoder "\<lambda>m. currency_str (mo_currency m) \<in> set currency_codes"
proof unfold_locales
  show "money_decoder (money_json m) = Ok m" if "currency_str (mo_currency m) \<in> set currency_codes" for m
    using that by (simp add: money_decoder_def money_json_def required_def cur.reads_back money_new_def)
  show "currency_str (mo_currency m) \<in> set currency_codes" if "money_decoder v = Ok m" for v m
    using that by (auto simp: money_decoder_def and_then_Ok_iff money_new_def dest: cur.field_reads_valid)
qed

text \<open>An amount of money of any accepted currency reads back from its JSON form, whatever its sign, and
  the currency of an amount that was read is an accepted one.
\<close>

theorem money_roundtrip:
  "(money_decoder (money_json m) = Ok m) = (currency_str (mo_currency m) \<in> set currency_codes)
   \<and> ((\<exists>v. money_decoder v = Ok m) = (currency_str (mo_currency m) \<in> set currency_codes))"
  using mny.reads_back_iff [of m] mny.readable_iff [of m] by simp

section \<open>Localized texts\<close>

definition localized_ok :: "'l localized \<Rightarrow> bool" where
  "localized_ok t \<longleftrightarrow> distinct (map le_locale (lo_entries t)) \<and> lo_primary t \<in> le_locale ` set (lo_entries t)
     \<and> list_all (\<lambda>e. trim (le_content e) = le_content e) (lo_entries t)"

lemma duplicate_scan:
  "list_ex (\<lambda>i. list_ex (\<lambda>prev. f prev = f (xs ! i)) (take i xs)) [0..<length xs] \<longleftrightarrow> \<not> distinct (map f xs)"
proof (induction xs rule: rev_induct)
  case (snoc x xs)
  have "list_ex (\<lambda>i. list_ex (\<lambda>prev. f prev = f ((xs @ [x]) ! i)) (take i (xs @ [x]))) [0..<length xs]
      = list_ex (\<lambda>i. list_ex (\<lambda>prev. f prev = f (xs ! i)) (take i xs)) [0..<length xs]"
    by (auto simp: list_ex_iff nth_append)
  then show ?case
    using snoc by (auto simp: list_ex_iff intro: rev_image_eqI)
qed simp

lemma from_parts_Ok_iff:
  "from_parts p es = Ok t \<longleftrightarrow> distinct (map le_locale es) \<and> p \<in> le_locale ` set es
     \<and> t = \<lparr>lo_primary = p, lo_entries = map (\<lambda>e. e\<lparr>le_content := trim (le_content e)\<rparr>) es\<rparr>"
  unfolding from_parts_def duplicate_scan by (auto simp: list_ex_iff)

lemma localized_ok_from_parts: "from_parts p es = Ok t \<Longrightarrow> localized_ok t"
  by (auto simp: from_parts_Ok_iff localized_ok_def list_all_iff comp_def image_image)

lemma from_parts_ok: "localized_ok t \<Longrightarrow> from_parts (lo_primary t) (lo_entries t) = Ok t"
  by (simp add: from_parts_Ok_iff localized_ok_def list_all_iff map_idI)

lemma set_entry_locales:
  "map le_locale (set_entry l s es) = (if l \<in> le_locale ` set es then map le_locale es else map le_locale es @ [l])"
  by (induction es) auto

lemma set_entry_contents: "e \<in> set (set_entry l s es) \<Longrightarrow> e \<in> set es \<or> le_content e = s"
  by (induction es) (auto split: if_splits)

lemma set_entry_get:
  "map_option le_content (find (\<lambda>e. le_locale e = k) (set_entry l s es))
   = (if k = l then Some s else map_option le_content (find (\<lambda>e. le_locale e = k) es))"
  by (induction es) auto

lemma localized_ok_set: "localized_ok t \<Longrightarrow> localized_ok (localized_set l s t)"
proof -
  assume ok: "localized_ok t"
  have "set (map le_locale (set_entry l (trim s) (lo_entries t))) = insert l (le_locale ` set (lo_entries t))"
    by (auto simp: set_entry_locales)
  then have "le_locale ` set (set_entry l (trim s) (lo_entries t)) = insert l (le_locale ` set (lo_entries t))"
    by simp
  then show ?thesis
    using ok by (auto simp: localized_ok_def localized_set_def set_entry_locales list_all_iff
        dest!: set_entry_contents)
qed

lemma primary_text_some: "localized_ok t \<Longrightarrow> primary_text t \<noteq> None"
  by (auto simp: localized_ok_def primary_text_def localized_get_def find_None_iff)

lemma localized_reads_back:
  assumes "localized_ok t" and "dec (enc (lo_primary t)) = Ok (lo_primary t)"
    and "\<forall>e\<in>set (lo_entries t). dec (enc (le_locale e)) = Ok (le_locale e)"
  shows "localized_decoder dec (localized_json enc t) = Ok t"
proof -
  have "vec_decoder (entry_decoder dec) (JArr (map (entry_json enc) (lo_entries t))) = Ok (lo_entries t)"
    using assms(3) by (intro vec_decoder_map) (simp add: entry_decoder_def entry_json_def required_def)
  then show ?thesis
    using assms(2) from_parts_ok [OF assms(1)]
    by (simp add: localized_decoder_def localized_json_def required_def del: vec_decoder.simps)
qed

text \<open>C28: Every way to make a localized text, new, from its parts, by setting a translation of one or by
  reading its JSON form, gives one whose locales are distinct, whose contents are trimmed and whose
  primary text exists, so reading it never panics; a translation that was set is the one read back,
  and no other translation changes.
\<close>

theorem localized_invariant:
  "localized_ok (localized_new p s)
   \<and> (from_parts p es = Ok t \<longrightarrow> localized_ok t)
   \<and> (localized_ok t \<longrightarrow> localized_ok (localized_set l s t) \<and> primary_text t \<noteq> None
        \<and> (dec (enc (lo_primary t)) = Ok (lo_primary t)
             \<and> (\<forall>e\<in>set (lo_entries t). dec (enc (le_locale e)) = Ok (le_locale e))
            \<longrightarrow> localized_decoder dec (localized_json enc t) = Ok t))
   \<and> (localized_decoder dec v = Ok t \<longrightarrow> localized_ok t)
   \<and> localized_get k (localized_set l s t) = (if k = l then Some (trim s) else localized_get k t)"
proof (intro conjI impI)
  show "localized_ok (localized_new p s)"
    by (simp add: localized_ok_def localized_new_def)
  show "localized_ok t" if "localized_decoder dec v = Ok t"
    using that by (auto simp: localized_decoder_def and_then_Ok_iff intro: localized_ok_from_parts)
  show "localized_get k (localized_set l s t) = (if k = l then Some (trim s) else localized_get k t)"
    by (simp add: localized_get_def localized_set_def set_entry_get)
qed (simp_all add: localized_ok_from_parts localized_ok_set primary_text_some localized_reads_back)

lemma localized_invariant_witness:
  "(case from_parts (0::nat) [\<lparr>le_locale = 0, le_content = '' a ''\<rparr>] of
      Ok t \<Rightarrow> localized_ok t \<and> localized_ok (localized_set 1 ''b'' t)
        \<and> localized_decoder usize_decoder (localized_json JNat t) = Ok t
    | Err e \<Rightarrow> False)"
proof -
  define t where "t = (\<lparr>lo_primary = 0, lo_entries = [\<lparr>le_locale = 0, le_content = ''a''\<rparr>]\<rparr> :: nat localized)"
  have parts: "from_parts (0::nat) [\<lparr>le_locale = 0, le_content = '' a ''\<rparr>] = Ok t"
    unfolding t_def by code_simp
  have dec: "usize_decoder (JNat n) = Ok n" for n
    by (simp add: usize_decoder_def)
  show ?thesis
    using localized_invariant [where p = "0 :: nat" and s = "''b''" and t = t and l = 1 and k = 0 and v = JNull
        and dec = usize_decoder and enc = JNat and es = "[\<lparr>le_locale = 0, le_content = '' a ''\<rparr>]"]
    by (simp add: parts dec)
qed

section \<open>Errors\<close>

lemma visit_entries_map:
  "visit_entries (value_error_entries e) None None None =
     Ok (Some (value_error_code e),
         (case e of MalformedCode v n \<Rightarrow> Some v | UnknownCurrency v \<Rightarrow> Some v | UnknownCountry v \<Rightarrow> Some v
          | LocaleUnknown v \<Rightarrow> Some v | _ \<Rightarrow> None),
         (case e of MalformedCode v n \<Rightarrow> Some n | _ \<Rightarrow> None))"
  by (cases e) (simp_all add: single_code_def usize_decoder_def)

text \<open>Every error of the value objects reads back from the entries it is written as, and the code in
  its JSON form is the text it displays.
\<close>

theorem value_error_roundtrip:
  "value_error_decoder (JObj (value_error_entries e)) = Ok e
   \<and> map_of (value_error_entries e) ''code'' = Some (JStr (value_error_code e))"
  by (cases e) (simp_all add: value_error_decoder_def visit_entries_map need_def value_error_of_def single_code_def
      usize_decoder_def)

end
