(* ===== verification/Boot.thy ===== *)
theory Boot
  imports Rust_Str
begin

text \<open>
  The boot environment of a service (\<^verbatim>\<open>br-util-boot\<close>): the variables it reads,
  typed and checked, with every problem reported at once, and the two URLs that carry credentials.
  The \<^verbatim>\<open>url\<close> crate and the debug form of strings are parameters; the parsers of
  numbers and addresses of the standard library are defined.
\<close>

section \<open>The parser of addresses\<close>

datatype ip_addr = IpV4 u8 u8 u8 u8 | IpV6 "u16 list"

type_synonym 'a reader = "string \<Rightarrow> ('a \<times> string) option"

definition to_digit :: "nat \<Rightarrow> char \<Rightarrow> nat option" where
  "to_digit radix c = (let b = byte c;
       d = (if 48 \<le> b \<and> b \<le> 57 then b - 48
            else if 97 \<le> b \<and> b \<le> 122 then b - 87
            else if 65 \<le> b \<and> b \<le> 90 then b - 55 else radix)
     in if d < radix then Some d else None)"

definition read_given_char :: "char \<Rightarrow> string \<Rightarrow> string option" where
  "read_given_char c s = (case s of [] \<Rightarrow> None | x # xs \<Rightarrow> if x = c then Some xs else None)"

definition read_number :: "nat \<Rightarrow> nat \<Rightarrow> bool \<Rightarrow> nat \<Rightarrow> nat reader" where
  "read_number radix max_digits zero_prefix limit s =
     (let ds = takeWhile (\<lambda>c. to_digit radix c \<noteq> None) s;
          n = foldl (\<lambda>v c. v * radix + the (to_digit radix c)) 0 ds
      in if ds = [] \<or> max_digits < length ds \<or> limit < n
            \<or> \<not> zero_prefix \<and> hd ds = CHR ''0'' \<and> 1 < length ds
         then None else Some (n, drop (length ds) s))"

definition read_separator :: "char \<Rightarrow> nat \<Rightarrow> 'a reader \<Rightarrow> 'a reader" where
  "read_separator sep i f s =
     (if 0 < i then Option.bind (read_given_char sep s) f else f s)"

definition read_octet :: "nat \<Rightarrow> nat reader" where
  "read_octet i = read_separator CHR ''.'' i (read_number 10 3 False 255)"

definition read_ipv4 :: "(u8 \<times> u8 \<times> u8 \<times> u8) reader" where
  "read_ipv4 s = Option.bind (read_octet 0 s) (\<lambda>(a, s).
     Option.bind (read_octet 1 s) (\<lambda>(b, s).
     Option.bind (read_octet 2 s) (\<lambda>(c, s).
     Option.bind (read_octet 3 s) (\<lambda>(d, s).
       Some ((of_nat a, of_nat b, of_nat c, of_nat d), s)))))"

definition be_bytes :: "u8 \<Rightarrow> u8 \<Rightarrow> u16" where
  "be_bytes a b = of_nat (unat a * 256 + unat b)"

text \<open>The groups that were read, whether they end in an IPv4 address, and the rest.\<close>

function read_groups :: "nat \<Rightarrow> nat \<Rightarrow> string \<Rightarrow> u16 list \<times> bool \<times> string" where
  "read_groups i limit s =
     (if limit \<le> i then ([], False, s)
      else case (if i < limit - 1 then read_separator CHR '':'' i read_ipv4 s else None) of
        Some ((a, b, c, d), s') \<Rightarrow> ([be_bytes a b, be_bytes c d], True, s')
      | None \<Rightarrow> (case read_separator CHR '':'' i (read_number 16 4 True 65535) s of
          None \<Rightarrow> ([], False, s)
        | Some (g, s') \<Rightarrow> (case read_groups (i + 1) limit s' of
            (gs, v4, s'') \<Rightarrow> (of_nat g # gs, v4, s''))))"
  by pat_completeness auto
termination
  by (relation "measure (\<lambda>(i, limit, _). limit - i)") auto

declare read_groups.simps [simp del]

definition read_ipv6 :: "u16 list reader" where
  "read_ipv6 s = (case read_groups 0 8 s of (head, v4, r) \<Rightarrow>
     if length head = 8 then Some (head, r)
     else if v4 then None
     else Option.bind (read_given_char CHR '':'' r) (\<lambda>r.
       Option.bind (read_given_char CHR '':'' r) (\<lambda>r.
         case read_groups 0 (8 - (length head + 1)) r of (tail, _, r) \<Rightarrow>
           Some (head @ replicate (8 - length head - length tail) 0 @ tail, r))))"

definition read_ip_addr :: "ip_addr reader" where
  "read_ip_addr s = (case read_ipv4 s of
     Some ((a, b, c, d), r) \<Rightarrow> Some (IpV4 a b c d, r)
   | None \<Rightarrow> map_option (apfst IpV6) (read_ipv6 s))"

definition parse_ip_addr :: "string \<Rightarrow> ip_addr option" where
  "parse_ip_addr s = (case read_ip_addr s of Some (ip, []) \<Rightarrow> Some ip | _ \<Rightarrow> None)"

section \<open>Problems\<close>

type_synonym invalid_value = string

datatype var_problem =
  Missing string
| Empty string
| NotUnicode string
| Invalid string invalid_value

fun problem_var :: "var_problem \<Rightarrow> string" where
  "problem_var (Missing v) = v"
| "problem_var (Empty v) = v"
| "problem_var (NotUnicode v) = v"
| "problem_var (Invalid v _) = v"

fun problem_display :: "var_problem \<Rightarrow> string" where
  "problem_display (Missing v) = v @ '' is not set''"
| "problem_display (Empty v) = v @ '' is set but empty''"
| "problem_display (NotUnicode v) = v @ '' is not valid UTF-8''"
| "problem_display (Invalid v r) = v @ '' is invalid: '' @ r"

type_synonym boot_env_error = "var_problem list"

definition boot_error_display :: "boot_env_error \<Rightarrow> string" where
  "boot_error_display ps = ''invalid boot environment: '' @ join_on ''; '' (map problem_display ps)"

section \<open>The environment's name\<close>

datatype environment = EnvLocal | EnvDev | EnvTest | EnvUat | EnvProd

definition all_environments :: "environment list" where
  "all_environments = [EnvLocal, EnvDev, EnvTest, EnvUat, EnvProd]"

fun environment_str :: "environment \<Rightarrow> string" where
  "environment_str EnvLocal = ''local''"
| "environment_str EnvDev = ''dev''"
| "environment_str EnvTest = ''test''"
| "environment_str EnvUat = ''uat''"
| "environment_str EnvProd = ''prod''"

text \<open>The debug form of a string is the parameter \<open>dbg\<close>.\<close>

definition environment_of :: "(string \<Rightarrow> string) \<Rightarrow> string \<Rightarrow> (environment, invalid_value) result" where
  "environment_of dbg s = (case find (\<lambda>e. environment_str e = s) all_environments of
     Some e \<Rightarrow> Ok e
   | None \<Rightarrow> Err (''unknown environment '' @ dbg s @ '': expected one of local, dev, test, uat, prod''))"

section \<open>URLs\<close>

text \<open>
  What the sources use of the \<^verbatim>\<open>url\<close> crate, over its type of parsed URLs. A setter
  that fails leaves the URL and is \<open>None\<close>; the last two are the clearing of the query
  followed by its extension, and the text.
\<close>

datatype url_host = HostDomain string | HostAddr ip_addr

record 'u url_crate =
  ur_parse :: "string \<Rightarrow> ('u, string) result"
  ur_scheme :: "'u \<Rightarrow> string"
  ur_username :: "'u \<Rightarrow> string"
  ur_password :: "'u \<Rightarrow> string option"
  ur_host :: "'u \<Rightarrow> url_host option"
  ur_host_str :: "'u \<Rightarrow> string option"
  ur_query_pairs :: "'u \<Rightarrow> (string \<times> string) list"
  ur_set_password :: "string option \<Rightarrow> 'u \<Rightarrow> 'u option"
  ur_set_username :: "string \<Rightarrow> 'u \<Rightarrow> 'u option"
  ur_replace_pairs :: "(string \<times> string) list \<Rightarrow> 'u \<Rightarrow> 'u"
  ur_text :: "'u \<Rightarrow> string"

definition redacted_mark :: string where
  "redacted_mark = ''***''"

definition no_host :: "'u url_crate \<Rightarrow> 'u \<Rightarrow> bool" where
  "no_host U u \<longleftrightarrow> (case ur_host_str U u of None \<Rightarrow> True | Some h \<Rightarrow> h = [])"

record 'u database_url =
  du_raw :: string
  du_parsed :: 'u

definition database_url_of ::
    "'u url_crate \<Rightarrow> (string \<Rightarrow> string) \<Rightarrow> string \<Rightarrow> ('u database_url, invalid_value) result" where
  "database_url_of U dbg s =
     and_then (map_err (\<lambda>e. ''not a Postgres URL ('' @ e @ '')'') (ur_parse U s)) (\<lambda>u.
       if \<not> (ur_scheme U u = ''postgres'' \<or> ur_scheme U u = ''postgresql'')
       then Err (''the scheme must be postgres or postgresql, got '' @ dbg (ur_scheme U u))
       else if no_host U u then Err ''the URL names no host''
       else Ok \<lparr>du_raw = s, du_parsed = u\<rparr>)"

definition mask_pairs :: "(string \<times> string) list \<Rightarrow> (string \<times> string) list" where
  "mask_pairs ps = map (\<lambda>(k, v). (k, if k = ''password'' then redacted_mark else v)) ps"

definition redact_query :: "'u url_crate \<Rightarrow> 'u \<Rightarrow> 'u" where
  "redact_query U u =
     (if list_ex (\<lambda>(k, _). k = ''password'') (ur_query_pairs U u)
      then ur_replace_pairs U (mask_pairs (ur_query_pairs U u)) u else u)"

definition database_url_redacted :: "'u url_crate \<Rightarrow> 'u database_url \<Rightarrow> string" where
  "database_url_redacted U d = (let u = du_parsed d in
     if ur_password U u \<noteq> None
     then (case ur_set_password U (Some redacted_mark) u of
         None \<Rightarrow> ur_scheme U u @ ''://'' @ redacted_mark
       | Some u \<Rightarrow> ur_text U (redact_query U u))
     else ur_text U (redact_query U u))"

definition database_url_debug :: "'u url_crate \<Rightarrow> (string \<Rightarrow> string) \<Rightarrow> 'u database_url \<Rightarrow> string" where
  "database_url_debug U dbg d = ''DatabaseUrl('' @ dbg (database_url_redacted U d) @ '')''"

record 'u nats_url =
  nu_raw :: string
  nu_parsed :: 'u

definition nats_url_of ::
    "'u url_crate \<Rightarrow> (string \<Rightarrow> string) \<Rightarrow> string \<Rightarrow> ('u nats_url, invalid_value) result" where
  "nats_url_of U dbg s =
     and_then (map_err (\<lambda>e. ''not a NATS URL ('' @ e @ '')'') (ur_parse U s)) (\<lambda>u.
       if ur_scheme U u \<notin> {''nats'', ''tls'', ''ws'', ''wss''}
       then Err (''the scheme must be nats, tls, ws or wss, got '' @ dbg (ur_scheme U u))
       else if no_host U u then Err ''the URL names no host''
       else Ok \<lparr>nu_raw = s, nu_parsed = u\<rparr>)"

definition nats_url_redacted :: "'u url_crate \<Rightarrow> 'u nats_url \<Rightarrow> string" where
  "nats_url_redacted U n = (let u = nu_parsed n in
     if ur_username U u \<noteq> [] \<or> ur_password U u \<noteq> None
     then (case Option.bind (ur_set_password U None u) (ur_set_username U redacted_mark) of
         None \<Rightarrow> ur_scheme U u @ ''://'' @ redacted_mark
       | Some u \<Rightarrow> ur_text U u)
     else ur_text U u)"

definition nats_url_debug :: "'u url_crate \<Rightarrow> (string \<Rightarrow> string) \<Rightarrow> 'u nats_url \<Rightarrow> string" where
  "nats_url_debug U dbg n = ''NatsUrl('' @ dbg (nats_url_redacted U n) @ '')''"

section \<open>The boot environment\<close>

definition ENVIRONMENT :: string where "ENVIRONMENT = ''ENVIRONMENT''"
definition PORT :: string where "PORT = ''PORT''"
definition HOST :: string where "HOST = ''HOST''"
definition DATABASE_URL :: string where "DATABASE_URL = ''DATABASE_URL''"
definition NATS_URL :: string where "NATS_URL = ''NATS_URL''"

definition default_host :: ip_addr where
  "default_host = IpV4 0 0 0 0"

record 'u boot_env =
  be_environment :: environment
  be_host :: ip_addr
  be_port :: u16
  be_database_url :: "'u database_url"
  be_nats_url :: "'u nats_url"

datatype var_error = VarNotPresent | VarNotUnicode

type_synonym env_lookup = "string \<Rightarrow> (string, var_error) result"

definition parse_port :: "(string \<Rightarrow> string) \<Rightarrow> string \<Rightarrow> (u16, invalid_value) result" where
  "parse_port dbg raw = (let bad = Err (''expected a TCP port from 1 to 65535, got '' @ dbg raw)
     in case parse_uint 65535 raw of None \<Rightarrow> bad | Some n \<Rightarrow> if n = 0 then bad else Ok (of_nat n))"

definition parse_host :: "(string \<Rightarrow> string) \<Rightarrow> string \<Rightarrow> (ip_addr, invalid_value) result" where
  "parse_host dbg raw = (case parse_ip_addr raw of
     Some ip \<Rightarrow> Ok ip
   | None \<Rightarrow> Err (''expected an IP address such as 0.0.0.0 or ::, got '' @ dbg raw))"

datatype looked_up = Unset | IsSet string | Unusable

text \<open>The reader threads the problems found so far.\<close>

definition lookup_var :: "env_lookup \<Rightarrow> string \<Rightarrow> var_problem list \<Rightarrow> looked_up \<times> var_problem list" where
  "lookup_var env var ps = (case env var of
     Err VarNotPresent \<Rightarrow> (Unset, ps)
   | Err VarNotUnicode \<Rightarrow> (Unusable, ps @ [NotUnicode var])
   | Ok v \<Rightarrow> if v = [] then (Unusable, ps @ [Empty var]) else (IsSet v, ps))"

definition parse_var ::
    "string \<Rightarrow> string \<Rightarrow> (string \<Rightarrow> ('a, invalid_value) result) \<Rightarrow> var_problem list
     \<Rightarrow> 'a option \<times> var_problem list" where
  "parse_var var raw parse ps = (case parse raw of
     Ok v \<Rightarrow> (Some v, ps)
   | Err reason \<Rightarrow> (None, ps @ [Invalid var reason]))"

definition required_var ::
    "env_lookup \<Rightarrow> string \<Rightarrow> (string \<Rightarrow> ('a, invalid_value) result) \<Rightarrow> var_problem list
     \<Rightarrow> 'a option \<times> var_problem list" where
  "required_var env var parse ps = (case lookup_var env var ps of
     (IsSet raw, ps) \<Rightarrow> parse_var var raw parse ps
   | (Unset, ps) \<Rightarrow> (None, ps @ [Missing var])
   | (Unusable, ps) \<Rightarrow> (None, ps))"

definition optional_var ::
    "env_lookup \<Rightarrow> string \<Rightarrow> 'a \<Rightarrow> (string \<Rightarrow> ('a, invalid_value) result) \<Rightarrow> var_problem list
     \<Rightarrow> 'a option \<times> var_problem list" where
  "optional_var env var dflt parse ps = (case lookup_var env var ps of
     (IsSet raw, ps) \<Rightarrow> parse_var var raw parse ps
   | (Unset, ps) \<Rightarrow> (Some dflt, ps)
   | (Unusable, ps) \<Rightarrow> (None, ps))"

definition from_lookup ::
    "'u url_crate \<Rightarrow> (string \<Rightarrow> string) \<Rightarrow> env_lookup \<Rightarrow> ('u boot_env, boot_env_error) result" where
  "from_lookup U dbg env =
     (case required_var env ENVIRONMENT (environment_of dbg) [] of (environment, ps) \<Rightarrow>
      case optional_var env HOST default_host (parse_host dbg) ps of (host, ps) \<Rightarrow>
      case required_var env PORT (parse_port dbg) ps of (port, ps) \<Rightarrow>
      case required_var env DATABASE_URL (database_url_of U dbg) ps of (database, ps) \<Rightarrow>
      case required_var env NATS_URL (nats_url_of U dbg) ps of (nats, ps) \<Rightarrow>
      case (environment, host, port, database, nats) of
        (Some e, Some h, Some p, Some d, Some n) \<Rightarrow>
          Ok \<lparr>be_environment = e, be_host = h, be_port = p, be_database_url = d, be_nats_url = n\<rparr>
      | _ \<Rightarrow> Err ps)"

definition listen_addr :: "'u boot_env \<Rightarrow> ip_addr \<times> u16" where
  "listen_addr b = (be_host b, be_port b)"

end
