(* ===== verification/Postgres.thy ===== *)
theory Postgres
  imports Boot
begin

text \<open>
  Access to Postgres (\<^verbatim>\<open>br-util-postgres\<close>): the check that a connection is encrypted
  or stays on a trusted network, the pools it guards, the roles and grants a service sets up in
  retried transactions, and the status of its migrations. The server, \<^verbatim>\<open>sqlx\<close>, the
  \<^verbatim>\<open>url\<close> crate and SCRAM are parameters.
\<close>

section \<open>Errors\<close>

text \<open>An error of the driver; one of the server has its SQLSTATE, if it sent one.\<close>

datatype pg_error = PgDatabase "string option" | PgOther string

datatype postgres_error = PgConfig string | InvalidRoleName string | PgDb pg_error

section \<open>The host of a DSN\<close>

definition trim_start_char :: "char \<Rightarrow> string \<Rightarrow> string" where
  "trim_start_char c s = dropWhile (\<lambda>x. x = c) s"

definition trim_end_char :: "char \<Rightarrow> string \<Rightarrow> string" where
  "trim_end_char c s = rev (dropWhile (\<lambda>x. x = c) (rev s))"

text \<open>The messages have a dash outside ASCII.\<close>

definition em_dash :: string where "em_dash = [CHR 0xE2, CHR 0x80, CHR 0x94]"

definition no_authority_host :: string where
  "no_authority_host = ''the DSN authority has no host; TLS validation cannot vouch for the real target ''
     @ em_dash @ '' put an explicit host in the URL authority''"

definition host_overridden :: string where
  "host_overridden = ''the DSN overrides the target host via a host=/hostaddr= query parameter; ''
     @ ''TLS validation cannot vouch for the real target '' @ em_dash @ '' put the host in the URL authority''"

record 'u dsn =
  dsn_url :: 'u
  dsn_host :: string

definition dsn_parse :: "'u url_crate \<Rightarrow> string \<Rightarrow> ('u dsn, postgres_error) result" where
  "dsn_parse U raw =
     and_then (map_err (\<lambda>e. PgConfig (''could not parse the DSN to read its host for TLS validation: '' @ e))
         (ur_parse U raw)) (\<lambda>u.
       if \<not> (ur_scheme U u = ''postgres'' \<or> ur_scheme U u = ''postgresql'')
       then Err (PgConfig ''the DSN scheme must be postgres:// or postgresql://'')
       else (case ur_host U u of
           None \<Rightarrow> Err (PgConfig no_authority_host)
         | Some h \<Rightarrow> if h = HostDomain [] then Err (PgConfig no_authority_host)
             else Ok \<lparr>dsn_url = u, dsn_host = trim_end_char CHR '']'' (trim_start_char CHR ''[''
               (case ur_host_str U u of None \<Rightarrow> [] | Some s \<Rightarrow> s))\<rparr>))"

definition overrides_host :: "'u url_crate \<Rightarrow> 'u dsn \<Rightarrow> bool" where
  "overrides_host U d = list_ex (\<lambda>(k, _). k = ''host'' \<or> k = ''hostaddr'') (ur_query_pairs U (dsn_url d))"

section \<open>Trusted networks\<close>

definition TRUSTED_NETWORK_HOSTS :: string where "TRUSTED_NETWORK_HOSTS = ''TRUSTED_NETWORK_HOSTS''"
definition DATABASE_URL_OWNER :: string where "DATABASE_URL_OWNER = ''DATABASE_URL_OWNER''"

definition is_loopback :: "string \<Rightarrow> bool" where
  "is_loopback host \<longleftrightarrow> host = ''localhost'' \<or> host = ''127.0.0.1'' \<or> host = ''::1''"

definition is_on_trusted_network :: "string \<Rightarrow> string list \<Rightarrow> bool" where
  "is_on_trusted_network host trusted \<longleftrightarrow> is_loopback host \<or> list_ex (\<lambda>h. h = host) trusted"

definition resolve_trusted_network_hosts :: "env_lookup \<Rightarrow> string list" where
  "resolve_trusted_network_hosts env = (case ok (env TRUSTED_NETWORK_HOSTS) of
     None \<Rightarrow> []
   | Some val \<Rightarrow> filter (\<lambda>h. h \<noteq> []) (map trim (split_on CHR '','' val)))"

section \<open>Encryption\<close>

datatype ssl_mode = SslDisable | SslAllow | SslPrefer | SslRequire | SslVerifyCa | SslVerifyFull

text \<open>The mode that \<^verbatim>\<open>sqlx\<close> reads from a DSN is the parameter \<open>mode_of\<close>.\<close>

type_synonym mode_reader = "string \<Rightarrow> (ssl_mode, string) result"

definition parse_sslmode :: "mode_reader \<Rightarrow> string \<Rightarrow> (ssl_mode, postgres_error) result" where
  "parse_sslmode mode_of url =
     map_err (\<lambda>e. PgConfig (''could not parse the DSN for TLS validation: '' @ e)) (mode_of url)"

definition validate_database_tls ::
    "'u url_crate \<Rightarrow> mode_reader \<Rightarrow> env_lookup \<Rightarrow> string \<Rightarrow> (unit, postgres_error) result" where
  "validate_database_tls U mode_of env url =
     and_then (dsn_parse U url) (\<lambda>dsn.
       if overrides_host U dsn
       then Err (PgConfig host_overridden)
       else let host = dsn_host dsn in
         and_then (parse_sslmode mode_of url) (\<lambda>ssl_mode.
           if is_loopback host then Ok ()
           else if is_on_trusted_network host (resolve_trusted_network_hosts env) then Ok ()
           else let has_tls = (ssl_mode = SslRequire \<or> ssl_mode = SslVerifyCa \<or> ssl_mode = SslVerifyFull)
             in if \<not> has_tls then Err (PgConfig (''remote database connection to '' @ [CHR 0x27] @ host
                  @ [CHR 0x27] @ '' requires TLS: add sslmode=require (or verify-ca/verify-full) to the DSN, or declare the host in ''
                  @ TRUSTED_NETWORK_HOSTS @ '' if it sits on a trusted network segment''))
                else Ok ()))"

section \<open>Pools\<close>

text \<open>An option that is not set keeps the default of the driver.\<close>

record pool_options =
  po_max :: nat
  po_min :: "nat option"
  po_acquire_timeout :: "duration option"

definition runtime_pool_options :: pool_options where
  "runtime_pool_options = \<lparr>po_max = 20, po_min = Some 2, po_acquire_timeout = Some (from_secs 8)\<rparr>"

definition migration_pool_options :: pool_options where
  "migration_pool_options = \<lparr>po_max = 2, po_min = None, po_acquire_timeout = None\<rparr>"

text \<open>A pool is opened by the parameter \<open>connect\<close>; the attempts are listed beside the outcome.\<close>

type_synonym 'p opened = "(pool_options \<times> string) list \<times> ('p, postgres_error) result"

definition init_pool :: "'u url_crate \<Rightarrow> mode_reader \<Rightarrow> env_lookup
    \<Rightarrow> (pool_options \<Rightarrow> string \<Rightarrow> ('p, pg_error) result) \<Rightarrow> string \<Rightarrow> 'p opened" where
  "init_pool U mode_of env connect url = (case validate_database_tls U mode_of env url of
     Err e \<Rightarrow> ([], Err e)
   | Ok _ \<Rightarrow> ([(runtime_pool_options, url)], map_err PgDb (connect runtime_pool_options url)))"

definition init_migration_pool :: "'u url_crate \<Rightarrow> mode_reader \<Rightarrow> env_lookup
    \<Rightarrow> (pool_options \<Rightarrow> string \<Rightarrow> ('p, pg_error) result) \<Rightarrow> 'p opened" where
  "init_migration_pool U mode_of env connect =
     (case (case env DATABASE_URL_OWNER of Ok url \<Rightarrow> Ok url | Err _ \<Rightarrow> env DATABASE_URL) of
        Err _ \<Rightarrow> ([], Err (PgConfig (DATABASE_URL_OWNER @ '' or '' @ DATABASE_URL
           @ '' must be set for migrations'')))
      | Ok url \<Rightarrow> (case validate_database_tls U mode_of env url of
          Err e \<Rightarrow> ([], Err e)
        | Ok _ \<Rightarrow> ([(migration_pool_options, url)], map_err PgDb (connect migration_pool_options url))))"

section \<open>Roles and their passwords\<close>

definition max_role_name_len :: nat where "max_role_name_len = 63"

definition is_valid_role_name :: "string \<Rightarrow> bool" where
  "is_valid_role_name name = (case name of
     [] \<Rightarrow> False
   | first # chars \<Rightarrow> length name \<le> max_role_name_len \<and> is_ascii_lowercase first
       \<and> list_all (\<lambda>c. is_ascii_lowercase c \<or> is_ascii_digit c \<or> c = CHR ''_'') chars)"

definition validate_role_name :: "string \<Rightarrow> (unit, postgres_error) result" where
  "validate_role_name name = (if is_valid_role_name name then Ok () else Err (InvalidRoleName name))"

definition verifier_prefix :: string where "verifier_prefix = ''SCRAM-SHA-256$''"

definition is_safe_verifier :: "string \<Rightarrow> bool" where
  "is_safe_verifier v \<longleftrightarrow> starts_with verifier_prefix v
     \<and> list_all (\<lambda>c. is_ascii_alphanumeric c \<or> c \<in> set ''+/=$:-'') v"

text \<open>The SCRAM digest, salt included, is the parameter \<open>scram\<close>.\<close>

definition scram_verifier :: "(string \<Rightarrow> string) \<Rightarrow> string \<Rightarrow> (string, postgres_error) result" where
  "scram_verifier scram password =
     (if password = [] then Err (PgConfig ''role password must not be empty'')
      else if CHR 0x00 \<in> set password then Err (PgConfig ''role password must not contain a NUL byte'')
      else let verifier = scram password in
        if \<not> is_safe_verifier verifier
        then Err (PgConfig ''generated SCRAM verifier is not a plain verifier literal'')
        else Ok verifier)"

definition alter_role_verifier_sql :: "string \<Rightarrow> string \<Rightarrow> (string, postgres_error) result" where
  "alter_role_verifier_sql role verifier =
     and_then (validate_role_name role) (\<lambda>_.
       if \<not> is_safe_verifier verifier
       then Err (PgConfig ''SCRAM verifier contains characters outside the verifier alphabet'')
       else Ok (''ALTER ROLE \"'' @ role @ ''\" PASSWORD '' @ [CHR 0x27] @ verifier @ [CHR 0x27]))"

section \<open>Transactions\<close>

text \<open>A statement with its bound values; the server is a state with these operations.\<close>

type_synonym sql = "string \<times> string list"

record 'w pg_server =
  pg_begin :: "'w \<Rightarrow> (unit, pg_error) result \<times> 'w"
  pg_execute :: "sql \<Rightarrow> 'w \<Rightarrow> (unit, pg_error) result \<times> 'w"
  pg_commit :: "'w \<Rightarrow> (unit, pg_error) result \<times> 'w"
  pg_rollback :: "'w \<Rightarrow> 'w"

definition lock_transaction_scope :: "string \<Rightarrow> sql" where
  "lock_transaction_scope key = (''SELECT pg_advisory_xact_lock(hashtextextended($1, 0))'', [key])"

fun run_statements :: "'w pg_server \<Rightarrow> sql list \<Rightarrow> 'w \<Rightarrow> (unit, pg_error) result \<times> 'w" where
  "run_statements pg [] w = (Ok (), w)"
| "run_statements pg (q # qs) w = (case pg_execute pg q w of
     (Err e, w) \<Rightarrow> (Err e, w)
   | (Ok _, w) \<Rightarrow> run_statements pg qs w)"

text \<open>A transaction that is dropped is rolled back.\<close>

definition in_transaction :: "'w pg_server \<Rightarrow> sql list \<Rightarrow> 'w \<Rightarrow> (unit, pg_error) result \<times> 'w" where
  "in_transaction pg qs w = (case pg_begin pg w of
     (Err e, w) \<Rightarrow> (Err e, w)
   | (Ok _, w) \<Rightarrow> (case run_statements pg qs w of
       (Err e, w) \<Rightarrow> (Err e, pg_rollback pg w)
     | (Ok _, w) \<Rightarrow> pg_commit pg w))"

section \<open>Retries\<close>

definition max_attempts :: nat where "max_attempts = 6"
definition backoff_step :: duration where "backoff_step = from_millis 25"

fun is_concurrent_catalog_ddl :: "pg_error \<Rightarrow> bool" where
  "is_concurrent_catalog_ddl (PgDatabase code) \<longleftrightarrow>
     code = Some ''42710'' \<or> code = Some ''23505'' \<or> code = Some ''XX000''"
| "is_concurrent_catalog_ddl (PgOther _) \<longleftrightarrow> False"

text \<open>The pauses are listed beside the outcome.\<close>

type_synonym 'w attempt = "'w \<Rightarrow> (unit, pg_error) result \<times> 'w"

function retry_from :: "'w attempt \<Rightarrow> nat \<Rightarrow> duration list \<Rightarrow> 'w
    \<Rightarrow> (unit, postgres_error) result \<times> 'w \<times> duration list" where
  "retry_from attempt attempts sleeps w = (let attempts = attempts + 1 in
     case attempt w of
       (Ok _, w) \<Rightarrow> (Ok (), w, sleeps)
     | (Err e, w) \<Rightarrow> if attempts < max_attempts \<and> is_concurrent_catalog_ddl e
         then retry_from attempt attempts (sleeps @ [backoff_step * attempts]) w
         else (Err (PgDb e), w, sleeps))"
  by pat_completeness auto
termination
  by (relation "measure (\<lambda>(_, attempts, _). max_attempts - attempts)") auto

declare retry_from.simps [simp del]

definition retry_concurrent_catalog_ddl ::
    "'w attempt \<Rightarrow> 'w \<Rightarrow> (unit, postgres_error) result \<times> 'w \<times> duration list" where
  "retry_concurrent_catalog_ddl attempt w = retry_from attempt 0 [] w"

section \<open>The application's role and its grants\<close>

definition create_role_sql :: "string \<Rightarrow> string" where
  "create_role_sql role = ''DO $$ BEGIN IF NOT EXISTS (SELECT 1 FROM pg_roles WHERE rolname = ''
     @ [CHR 0x27] @ role @ [CHR 0x27] @ '') THEN CREATE ROLE \"'' @ role
     @ ''\" LOGIN; END IF; END $$''"

definition ensure_app_role_once :: "'w pg_server \<Rightarrow> string \<Rightarrow> string \<Rightarrow> 'w attempt" where
  "ensure_app_role_once pg role alter_sql = in_transaction pg
     [lock_transaction_scope (''br_util_postgres.ensure_app_role:'' @ role),
      (create_role_sql role, []), (alter_sql, [])]"

definition ensure_app_role :: "(string \<Rightarrow> string) \<Rightarrow> 'w pg_server \<Rightarrow> string \<Rightarrow> string \<Rightarrow> 'w
    \<Rightarrow> (unit, postgres_error) result \<times> 'w \<times> duration list" where
  "ensure_app_role scram pg role password w =
     (case and_then (validate_role_name role) (\<lambda>_.
         and_then (scram_verifier scram password) (alter_role_verifier_sql role)) of
        Err e \<Rightarrow> (Err e, w, [])
      | Ok alter_sql \<Rightarrow> retry_concurrent_catalog_ddl (ensure_app_role_once pg role alter_sql) w)"

definition grant_lock_key :: string where
  "grant_lock_key = ''br_util_postgres.grant_app_access:public''"

definition grant_statements :: "string \<Rightarrow> string list" where
  "grant_statements role =
     [''GRANT USAGE ON SCHEMA public TO \"'' @ role @ ''\"'',
      ''GRANT SELECT, INSERT, UPDATE, DELETE ON ALL TABLES IN SCHEMA public TO \"'' @ role @ ''\"'',
      ''GRANT USAGE, SELECT ON ALL SEQUENCES IN SCHEMA public TO \"'' @ role @ ''\"'',
      ''ALTER DEFAULT PRIVILEGES IN SCHEMA public GRANT SELECT, INSERT, UPDATE, DELETE ON TABLES TO \"''
        @ role @ ''\"'',
      ''ALTER DEFAULT PRIVILEGES IN SCHEMA public GRANT USAGE, SELECT ON SEQUENCES TO \"'' @ role @ ''\"'']"

definition grant_app_access_once :: "'w pg_server \<Rightarrow> string \<Rightarrow> 'w attempt" where
  "grant_app_access_once pg role = in_transaction pg
     (lock_transaction_scope grant_lock_key # map (\<lambda>q. (q, [])) (grant_statements role))"

definition grant_app_access :: "'w pg_server \<Rightarrow> string \<Rightarrow> 'w
    \<Rightarrow> (unit, postgres_error) result \<times> 'w \<times> duration list" where
  "grant_app_access pg role w = (case validate_role_name role of
     Err e \<Rightarrow> (Err e, w, [])
   | Ok _ \<Rightarrow> retry_concurrent_catalog_ddl (grant_app_access_once pg role) w)"

section \<open>Migrations\<close>

record migration =
  mg_version :: int
  mg_checksum :: string
  mg_down :: bool

record applied_migration =
  am_version :: int
  am_checksum :: string

record migrations_status =
  ms_applied :: nat
  ms_pending :: "int list"
  ms_checksum_mismatch :: "int list"
  ms_applied_not_embedded :: "int list"
  ms_dirty :: "int option"

definition embedded_applied :: "migrations_status \<Rightarrow> bool" where
  "embedded_applied s \<longleftrightarrow> ms_pending s = [] \<and> ms_checksum_mismatch s = [] \<and> ms_dirty s = None"

definition is_current :: "migrations_status \<Rightarrow> bool" where
  "is_current s \<longleftrightarrow> embedded_applied s \<and> ms_applied_not_embedded s = []"

text \<open>The rows are a hash map: of two rows with one version the last stands.\<close>

fun compare_loop :: "(int \<rightharpoonup> string) \<Rightarrow> migration list \<Rightarrow> int set \<times> nat \<times> int list \<times> int list
    \<Rightarrow> int set \<times> nat \<times> int list \<times> int list" where
  "compare_loop rows [] acc = acc"
| "compare_loop rows (m # ms) (versions, applied, pending, mismatch) =
     (let versions = insert (mg_version m) versions in
      if mg_down m then compare_loop rows ms (versions, applied, pending, mismatch)
      else case rows (mg_version m) of
          None \<Rightarrow> compare_loop rows ms (versions, applied, pending @ [mg_version m], mismatch)
        | Some checksum \<Rightarrow> compare_loop rows ms (versions, applied + 1, pending,
            if checksum \<noteq> mg_checksum m then mismatch @ [mg_version m] else mismatch))"

definition compare_migrations ::
    "migration list \<Rightarrow> applied_migration list \<Rightarrow> int option \<Rightarrow> migrations_status" where
  "compare_migrations embedded applied dirty =
     (let rows = map_of (rev (map (\<lambda>a. (am_version a, am_checksum a)) applied)) in
      case compare_loop rows embedded ({}, 0, [], []) of (versions, n, pending, mismatch) \<Rightarrow>
        \<lparr>ms_applied = n, ms_pending = sort pending, ms_checksum_mismatch = sort mismatch,
         ms_applied_not_embedded = sort (filter (\<lambda>v. v \<notin> versions) (remdups (map am_version applied))),
         ms_dirty = dirty\<rparr>)"

datatype migrate_error = MigrateExecute pg_error | MigrateOther pg_error

fun is_missing_migrations_table :: "migrate_error \<Rightarrow> bool" where
  "is_missing_migrations_table (MigrateExecute (PgDatabase code)) \<longleftrightarrow> code = Some ''42P01''"
| "is_missing_migrations_table _ \<longleftrightarrow> False"

text \<open>The driver turns a migration error into one of its own.\<close>

fun as_postgres_error :: "migrate_error \<Rightarrow> postgres_error" where
  "as_postgres_error (MigrateExecute e) = PgDb e"
| "as_postgres_error (MigrateOther e) = PgDb e"

definition migrations_status_of :: "(unit, pg_error) result \<Rightarrow> (applied_migration list, migrate_error) result
    \<Rightarrow> (int option, migrate_error) result \<Rightarrow> migration list \<Rightarrow> (migrations_status, postgres_error) result" where
  "migrations_status_of acquired listed dirty_version embedded =
     and_then (map_err PgDb acquired) (\<lambda>_. case listed of
       Err e \<Rightarrow> if is_missing_migrations_table e then Ok (compare_migrations embedded [] None)
                else Err (as_postgres_error e)
     | Ok applied \<Rightarrow> and_then (map_err as_postgres_error dirty_version) (\<lambda>dirty.
         Ok (compare_migrations embedded applied dirty)))"

end
