(* ===== verification/Postgres_Correct.thy ===== *)
theory Postgres_Correct
  imports Postgres "HOL-Library.Multiset"
begin

text \<open>
  No connection is tried that is neither encrypted nor on a trusted network; roles are quoted
  safely; catalog changes are retried a bounded number of times; and a migration status says what
  it compares.
\<close>

section \<open>Connections\<close>

definition pg_scheme :: "string \<Rightarrow> bool" where
  "pg_scheme s \<longleftrightarrow> s = ''postgres'' \<or> s = ''postgresql''"

definition target_host :: "'u url_crate \<Rightarrow> 'u \<Rightarrow> string" where
  "target_host U u = trim_end_char CHR '']'' (trim_start_char CHR ''['' (case ur_host_str U u of None \<Rightarrow> [] | Some s \<Rightarrow> s))"

definition names_host :: "'u url_crate \<Rightarrow> 'u \<Rightarrow> bool" where
  "names_host U u \<longleftrightarrow> ur_host U u \<noteq> None \<and> ur_host U u \<noteq> Some (HostDomain [])"

definition vouched :: "'u url_crate \<Rightarrow> mode_reader \<Rightarrow> env_lookup \<Rightarrow> string \<Rightarrow> bool" where
  "vouched U mode_of env url \<longleftrightarrow> (case (ur_parse U url, mode_of url) of
     (Ok u, Ok m) \<Rightarrow> pg_scheme (ur_scheme U u) \<and> names_host U u
       \<and> ''host'' \<notin> fst ` set (ur_query_pairs U u) \<and> ''hostaddr'' \<notin> fst ` set (ur_query_pairs U u)
       \<and> (target_host U u \<in> {''localhost'', ''127.0.0.1'', ''::1''} \<union> set (resolve_trusted_network_hosts env)
          \<or> m \<in> {SslRequire, SslVerifyCa, SslVerifyFull})
   | _ \<Rightarrow> False)"

lemma dsn_parse_cases:
  "ur_parse U url = Ok u \<Longrightarrow> pg_scheme (ur_scheme U u) \<Longrightarrow> names_host U u
    \<Longrightarrow> dsn_parse U url = Ok \<lparr>dsn_url = u, dsn_host = target_host U u\<rparr>"
  "ur_parse U url = Ok u \<Longrightarrow> \<not> (pg_scheme (ur_scheme U u) \<and> names_host U u) \<Longrightarrow> \<exists>e. dsn_parse U url = Err e"
  "ur_parse U url = Err x \<Longrightarrow> \<exists>e. dsn_parse U url = Err e"
  unfolding dsn_parse_def pg_scheme_def [symmetric] target_host_def [symmetric] names_host_def
  by (auto split: option.split)

lemma overrides_host_iff: "overrides_host U d \<longleftrightarrow>
   ''host'' \<in> fst ` set (ur_query_pairs U (dsn_url d)) \<or> ''hostaddr'' \<in> fst ` set (ur_query_pairs U (dsn_url d))"
  unfolding overrides_host_def list_ex_iff by force

lemma trusted_host_iff: "is_on_trusted_network host trusted \<longleftrightarrow>
   host \<in> {''localhost'', ''127.0.0.1'', ''::1''} \<union> set trusted"
  by (auto simp: is_on_trusted_network_def is_loopback_def list_ex_iff)

lemma validate_Ok_iff: "validate_database_tls U mode_of env url = Ok () \<longleftrightarrow> vouched U mode_of env url"
proof (cases "ur_parse U url")
  case (Inr u)
  show ?thesis
  proof (cases "pg_scheme (ur_scheme U u) \<and> names_host U u")
    case True
    have "validate_database_tls U mode_of env url = Ok () \<longleftrightarrow> \<not> overrides_host U \<lparr>dsn_url = u, dsn_host = target_host U u\<rparr>
        \<and> (\<exists>m. mode_of url = Ok m \<and> (is_on_trusted_network (target_host U u) (resolve_trusted_network_hosts env)
            \<or> m \<in> {SslRequire, SslVerifyCa, SslVerifyFull}))"
      using dsn_parse_cases(1) [OF Inr] True
      by (simp add: validate_database_tls_def parse_sslmode_def Let_def and_then_Ok_iff is_on_trusted_network_def)
        blast
    then show ?thesis
      using Inr True by (auto simp: vouched_def overrides_host_iff trusted_host_iff split: sum.split)
  next
    case False
    then show ?thesis
      using dsn_parse_cases(2) [OF Inr False] Inr by (auto simp: validate_database_tls_def vouched_def split: sum.split)
  qed
next
  case (Inl x)
  then show ?thesis
    using dsn_parse_cases(3) [OF Inl] by (auto simp: validate_database_tls_def vouched_def)
qed

text \<open>C18: Neither pool ever tries a connection, however the server answers, unless the URL names a
  Postgres host that its query does not override and the connection is encrypted or its host is
  the machine itself or declared as trusted; a vouched URL is always tried, with the pool's own
  options.
\<close>

theorem connections_are_vouched:
  "fst (init_pool U mode_of env connect url) =
     (if vouched U mode_of env url then [(runtime_pool_options, url)] else [])
   \<and> fst (init_migration_pool U mode_of env connect) =
     (let own = (case env DATABASE_URL_OWNER of Ok u \<Rightarrow> Some u | Err _ \<Rightarrow> ok (env DATABASE_URL))
      in case own of None \<Rightarrow> []
         | Some u \<Rightarrow> if vouched U mode_of env u then [(migration_pool_options, u)] else [])"
proof -
  have refused: "validate_database_tls U mode_of env url = Err e \<Longrightarrow> \<not> vouched U mode_of env url" for url e
    using validate_Ok_iff [of U mode_of env url] by auto
  have accepted: "validate_database_tls U mode_of env url = Ok x \<Longrightarrow> vouched U mode_of env url" for url x
    using validate_Ok_iff [of U mode_of env url] by simp
  have "fst (init_pool U mode_of env connect url) = (if vouched U mode_of env url then [(runtime_pool_options, url)] else [])"
    by (auto simp: init_pool_def dest: refused accepted split: sum.split)
  moreover have "fst (init_migration_pool U mode_of env connect) =
     (let own = (case env DATABASE_URL_OWNER of Ok u \<Rightarrow> Some u | Err _ \<Rightarrow> ok (env DATABASE_URL))
      in case own of None \<Rightarrow> []
         | Some u \<Rightarrow> if vouched U mode_of env u then [(migration_pool_options, u)] else [])"
    by (auto simp: init_migration_pool_def Let_def dest: refused accepted split: sum.split)
  ultimately show ?thesis ..
qed

section \<open>Roles\<close>

lemma role_chars:
  assumes "is_valid_role_name r" and "c \<in> set r"
  shows "is_ascii_lowercase c \<or> is_ascii_digit c \<or> c = CHR ''_''"
  using assms by (cases r) (auto simp: is_valid_role_name_def list_all_iff)

lemma role_free:
  assumes "is_valid_role_name r"
  shows "CHR 0x22 \<notin> set r" and "CHR 0x27 \<notin> set r"
  using role_chars [OF assms, of "CHR 0x22"] role_chars [OF assms, of "CHR 0x27"]
  by (auto simp: is_ascii_lowercase_def is_ascii_digit_def byte_def)

lemma verifier_free:
  assumes "is_safe_verifier v"
  shows "CHR 0x22 \<notin> set v" and "CHR 0x27 \<notin> set v"
  using assms by (auto simp: is_safe_verifier_def list_all_iff ascii_defs)

lemma split_on_around:
  "d \<notin> set p \<Longrightarrow> d \<notin> set x \<Longrightarrow> d \<notin> set q \<Longrightarrow> split_on d (p @ d # x @ d # q) = [p, x, q]"
  by (simp add: split_on_append split_on_free)

lemma alter_Ok_iff: "alter_role_verifier_sql r v = Ok q \<longleftrightarrow> is_valid_role_name r \<and> is_safe_verifier v
    \<and> q = ''ALTER ROLE '' @ CHR 0x22 # r @ CHR 0x22 # '' PASSWORD '' @ CHR 0x27 # v @ [CHR 0x27]"
  by (auto simp: alter_role_verifier_sql_def validate_role_name_def)

lemma role_statements_split:
  assumes "alter_role_verifier_sql r v = Ok q"
  shows "split_on CHR 0x22 q = [''ALTER ROLE '', r, '' PASSWORD '' @ CHR 0x27 # v @ [CHR 0x27]]"
    and "split_on CHR 0x27 q = [''ALTER ROLE '' @ CHR 0x22 # r @ CHR 0x22 # '' PASSWORD '', v, []]"
    and "\<exists>a b. split_on CHR 0x22 (create_role_sql r) = [a, r, b]"
    and "\<exists>a b. split_on CHR 0x27 (create_role_sql r) = [a, r, b]"
    and "list_all (\<lambda>g. \<exists>p. split_on CHR 0x22 g = [p, r, []]) (grant_statements r)"
proof -
  have q: "q = ''ALTER ROLE '' @ CHR 0x22 # r @ CHR 0x22 # '' PASSWORD '' @ CHR 0x27 # v @ [CHR 0x27]"
    and role: "is_valid_role_name r" and safe: "is_safe_verifier v"
    using assms by (simp_all add: alter_Ok_iff)
  note free = role_free [OF role] verifier_free [OF safe]
  show "split_on CHR 0x22 q = [''ALTER ROLE '', r, '' PASSWORD '' @ CHR 0x27 # v @ [CHR 0x27]]"
    unfolding q using free by (intro split_on_around) auto
  have "split_on CHR 0x27 ((''ALTER ROLE '' @ CHR 0x22 # r @ CHR 0x22 # '' PASSWORD '') @ CHR 0x27 # v @ CHR 0x27 # [])
      = [''ALTER ROLE '' @ CHR 0x22 # r @ CHR 0x22 # '' PASSWORD '', v, []]"
    using free by (intro split_on_around) auto
  then show "split_on CHR 0x27 q = [''ALTER ROLE '' @ CHR 0x22 # r @ CHR 0x22 # '' PASSWORD '', v, []]"
    unfolding q by simp
  let ?front = "''DO $$ BEGIN IF NOT EXISTS (SELECT 1 FROM pg_roles WHERE rolname = ''"
  let ?mid = "'') THEN CREATE ROLE ''" and ?rear = "'' LOGIN; END IF; END $$''"
  have "create_role_sql r = (?front @ CHR 0x27 # r @ CHR 0x27 # ?mid) @ CHR 0x22 # r @ CHR 0x22 # ?rear"
    by (simp add: create_role_sql_def)
  moreover have "split_on CHR 0x22 ((?front @ CHR 0x27 # r @ CHR 0x27 # ?mid) @ CHR 0x22 # r @ CHR 0x22 # ?rear)
      = [?front @ CHR 0x27 # r @ CHR 0x27 # ?mid, r, ?rear]"
    using free by (intro split_on_around) auto
  ultimately show "\<exists>a b. split_on CHR 0x22 (create_role_sql r) = [a, r, b]"
    by auto
  have "create_role_sql r = ?front @ CHR 0x27 # r @ CHR 0x27 # (?mid @ CHR 0x22 # r @ CHR 0x22 # ?rear)"
    by (simp add: create_role_sql_def)
  moreover have "split_on CHR 0x27 (?front @ CHR 0x27 # r @ CHR 0x27 # (?mid @ CHR 0x22 # r @ CHR 0x22 # ?rear))
      = [?front, r, ?mid @ CHR 0x22 # r @ CHR 0x22 # ?rear]"
    using free by (intro split_on_around) auto
  ultimately show "\<exists>a b. split_on CHR 0x27 (create_role_sql r) = [a, r, b]"
    by auto
  have grant: "\<exists>p. split_on CHR 0x22 (a @ CHR 0x22 # r @ [CHR 0x22]) = [p, r, []]" if "CHR 0x22 \<notin> set a" for a
    using free that by (intro exI [of _ a] split_on_around) auto
  show "list_all (\<lambda>g. \<exists>p. split_on CHR 0x22 g = [p, r, []]) (grant_statements r)"
    using grant [of "''GRANT USAGE ON SCHEMA public TO ''"]
      grant [of "''GRANT SELECT, INSERT, UPDATE, DELETE ON ALL TABLES IN SCHEMA public TO ''"]
      grant [of "''GRANT USAGE, SELECT ON ALL SEQUENCES IN SCHEMA public TO ''"]
      grant [of "''ALTER DEFAULT PRIVILEGES IN SCHEMA public GRANT SELECT, INSERT, UPDATE, DELETE ON TABLES TO ''"]
      grant [of "''ALTER DEFAULT PRIVILEGES IN SCHEMA public GRANT USAGE, SELECT ON SEQUENCES TO ''"]
    by (simp add: grant_statements_def del: split_on.simps)
qed

text \<open>C40: In every statement about a role the name stands alone between two double quotes, and in the one
  that sets its password the verifier stands alone between two single quotes: neither can end its
  literal, whatever name, password and digest were given.
\<close>

theorem role_statements_delimited:
  assumes "alter_role_verifier_sql r v = Ok q"
  shows "split_on CHR 0x22 q = [''ALTER ROLE '', r, '' PASSWORD '' @ CHR 0x27 # v @ [CHR 0x27]]
    \<and> split_on CHR 0x27 q = [''ALTER ROLE '' @ CHR 0x22 # r @ CHR 0x22 # '' PASSWORD '', v, []]
    \<and> (\<exists>a b. split_on CHR 0x22 (create_role_sql r) = [a, r, b])
    \<and> (\<exists>a b. split_on CHR 0x27 (create_role_sql r) = [a, r, b])
    \<and> list_all (\<lambda>g. \<exists>p. split_on CHR 0x22 g = [p, r, []]) (grant_statements r)"
  by (intro conjI role_statements_split [OF assms])

lemma role_statements_delimited_witness:
  "case alter_role_verifier_sql ''app'' (verifier_prefix @ ''4096:aa==$bb'') of
     Ok q \<Rightarrow> split_on CHR 0x27 q = [''ALTER ROLE '' @ CHR 0x22 # ''app'' @ CHR 0x22 # '' PASSWORD '',
            verifier_prefix @ ''4096:aa==$bb'', []]
   | Err e \<Rightarrow> False"
proof -
  have valid: "is_valid_role_name ''app''" "is_safe_verifier (verifier_prefix @ ''4096:aa==$bb'')"
    by (simp_all add: is_valid_role_name_def max_role_name_len_def is_safe_verifier_def verifier_prefix_def
        starts_with_def ascii_defs)
  then obtain q where q: "alter_role_verifier_sql ''app'' (verifier_prefix @ ''4096:aa==$bb'') = Ok q"
    by (simp add: alter_Ok_iff)
  show ?thesis
    using role_statements_delimited [OF q] by (simp only: q sum.case)
qed

text \<open>
  A role whose name or password is refused is refused before the server is asked anything: its
  state is untouched and nothing is retried.
\<close>

theorem refused_role_touches_nothing:
  "(\<not> is_valid_role_name r \<longrightarrow> ensure_app_role scram pg r pw w = (Err (InvalidRoleName r), w, [])
      \<and> grant_app_access pg r w = (Err (InvalidRoleName r), w, []))
   \<and> (pw = [] \<or> CHR 0x00 \<in> set pw \<or> \<not> is_safe_verifier (scram pw) \<longrightarrow>
      (\<exists>e. ensure_app_role scram pg r pw w = (Err e, w, [])))"
  by (auto simp: ensure_app_role_def grant_app_access_def validate_role_name_def scram_verifier_def Let_def)

text \<open>A server that records what it is asked.\<close>

definition recording_server :: "sql list pg_server" where
  "recording_server = \<lparr>pg_begin = (\<lambda>w. (Ok (), w)), pg_execute = (\<lambda>q w. (Ok (), w @ [q])),
     pg_commit = (\<lambda>w. (Ok (), w)), pg_rollback = (\<lambda>w. [])\<rparr>"

lemma refused_role_touches_nothing_witness:
  "ensure_app_role id recording_server ''App'' ''secret'' [] = (Err (InvalidRoleName ''App''), [], [])
   \<and> (\<exists>e. ensure_app_role id recording_server ''app'' [] [] = (Err e, [], []))"
proof -
  have bad: "\<not> is_valid_role_name ''App''"
    by (simp add: is_valid_role_name_def ascii_defs)
  show ?thesis
    using refused_role_touches_nothing [of "''App''" id recording_server "''secret''" "[]"]
      refused_role_touches_nothing [of "''app''" id recording_server "[]" "[]"] bad by simp
qed

section \<open>Retries\<close>

text \<open>The server as it is before an attempt, counted from zero, and that attempt's outcome.\<close>

definition before_attempt :: "'w attempt \<Rightarrow> 'w \<Rightarrow> nat \<Rightarrow> 'w" where
  "before_attempt attempt w k = ((\<lambda>w. snd (attempt w)) ^^ k) w"

definition outcome_of :: "'w attempt \<Rightarrow> 'w \<Rightarrow> nat \<Rightarrow> (unit, pg_error) result" where
  "outcome_of attempt w k = fst (attempt (before_attempt attempt w k))"

definition retryable :: "(unit, pg_error) result \<Rightarrow> bool" where
  "retryable r = (case r of Err e \<Rightarrow> is_concurrent_catalog_ddl e | Ok _ \<Rightarrow> False)"

lemma before_attempt_Suc: "before_attempt attempt w (Suc k) = before_attempt attempt (snd (attempt w)) k"
  by (simp only: before_attempt_def funpow_Suc_right o_apply)

lemma outcome_of_Suc: "outcome_of attempt w (Suc k) = outcome_of attempt (snd (attempt w)) k"
  by (simp add: outcome_of_def before_attempt_Suc)

lemma outcome_of_0: "outcome_of attempt w 0 = fst (attempt w)"
  by (simp add: outcome_of_def before_attempt_def)

lemma retry_from_stops:
  assumes "\<forall>j<k. retryable (outcome_of attempt w j)" and "n + k < max_attempts"
    and "n + k + 1 < max_attempts \<Longrightarrow> \<not> retryable (outcome_of attempt w k)"
  shows "retry_from attempt n sleeps w = (map_err PgDb (outcome_of attempt w k),
     before_attempt attempt w (Suc k), sleeps @ map (\<lambda>j. backoff_step * (n + j + 1)) [0..<k])"
  using assms
proof (induction k arbitrary: n sleeps w)
  case 0
  then show ?case
    by (cases "attempt w"; cases "fst (attempt w)")
      (auto simp: retry_from.simps [of attempt n] Let_def outcome_of_0 before_attempt_def retryable_def)
next
  case (Suc k)
  obtain e w' where step: "attempt w = (Err e, w')" and again: "is_concurrent_catalog_ddl e"
    using Suc.prems(1) [rule_format, of 0]
    by (cases "attempt w") (auto simp: outcome_of_0 retryable_def split: sum.splits)
  have later: "outcome_of attempt w (Suc j) = outcome_of attempt w' j" for j
    by (simp add: outcome_of_Suc step)
  have rest: "retryable (outcome_of attempt w' j)" if "j < k" for j
    using Suc.prems(1) [rule_format, of "Suc j"] that by (simp add: later)
  have "retry_from attempt (n + 1) (sleeps @ [backoff_step * (n + 1)]) w' =
      (map_err PgDb (outcome_of attempt w' k), before_attempt attempt w' (Suc k),
       (sleeps @ [backoff_step * (n + 1)]) @ map (\<lambda>j. backoff_step * (n + 1 + j + 1)) [0..<k])"
    by (rule Suc.IH) (use Suc.prems(2,3) rest in \<open>simp_all add: later\<close>)
  moreover have "map (\<lambda>j. backoff_step * (n + j + 1)) [0..<Suc k]
      = backoff_step * (n + 1) # map (\<lambda>j. backoff_step * (n + 1 + j + 1)) [0..<k]"
    by (simp add: upt_conv_Cons map_Suc_upt [symmetric] comp_def del: upt_Suc)
  ultimately show ?case
    using Suc.prems(2) by (simp add: retry_from.simps [of attempt n] Let_def step again later before_attempt_Suc [of attempt w])
qed

lemma retry_stops_somewhere:
  "\<exists>k<max_attempts. (\<forall>j<k. retryable (f j)) \<and> (k + 1 < max_attempts \<longrightarrow> \<not> retryable (f k))"
proof (cases "\<exists>j<max_attempts. \<not> retryable (f j)")
  case True
  then show ?thesis
    by (metis (no_types, lifting) order.strict_trans exists_least_iff [of "\<lambda>j. j < max_attempts \<and> \<not> retryable (f j)"])
next
  case False
  then show ?thesis
    by (intro exI [of _ "max_attempts - 1"]) (auto simp: max_attempts_def)
qed

text \<open>A catalog change is attempted at most six times: it ends with the first attempt that succeeds or
  fails in another way than by a concurrent change, or else with the sixth; before each new
  attempt it pauses 25 milliseconds longer than before the last one, and every attempt runs on the
  state its predecessor left.
\<close>

theorem catalog_retry_exact:
  "\<exists>k<6. (\<forall>j<k. retryable (outcome_of attempt w j)) \<and> (k < 5 \<longrightarrow> \<not> retryable (outcome_of attempt w k))
     \<and> retry_concurrent_catalog_ddl attempt w =
         (map_err PgDb (outcome_of attempt w k), before_attempt attempt w (k + 1),
          map (\<lambda>j. from_millis (25 * (j + 1))) [0..<k])"
proof -
  obtain k where k: "k < max_attempts" "\<forall>j<k. retryable (outcome_of attempt w j)"
      "k + 1 < max_attempts \<longrightarrow> \<not> retryable (outcome_of attempt w k)"
    using retry_stops_somewhere [of "outcome_of attempt w"] by blast
  have "retry_concurrent_catalog_ddl attempt w =
         (map_err PgDb (outcome_of attempt w k), before_attempt attempt w (Suc k),
          map (\<lambda>j. backoff_step * (0 + j + 1)) [0..<k])"
    unfolding retry_concurrent_catalog_ddl_def
    using retry_from_stops [OF k(2), of 0 "[]"] k(1,3) by simp
  then show ?thesis
    using k by (intro exI [of _ k]) (simp add: max_attempts_def backoff_step_def from_millis_def algebra_simps)
qed

lemma catalog_retry_exact_witness:
  "\<exists>k<6. retry_concurrent_catalog_ddl
      (\<lambda>n. (if n < 2 then Err (PgDatabase (Some ''23505'')) else Ok (), n + (1 :: nat))) 0
     = (Ok (), k + 1, map (\<lambda>j. from_millis (25 * (j + 1))) [0..<k])"
proof -
  let ?f = "\<lambda>n. (if n < 2 then Err (PgDatabase (Some ''23505'')) else Ok () :: (unit, pg_error) result, n + (1 :: nat))"
  have before: "before_attempt ?f 0 k = k" for k
    by (induction k) (simp_all add: before_attempt_def)
  have outcome: "outcome_of ?f 0 k = fst (?f k)" for k
    by (simp only: outcome_of_def before)
  obtain k where k: "k < 6" "k < 5 \<longrightarrow> \<not> retryable (outcome_of ?f 0 k)"
      "retry_concurrent_catalog_ddl ?f 0 = (map_err PgDb (outcome_of ?f 0 k), before_attempt ?f 0 (k + 1),
        map (\<lambda>j. from_millis (25 * (j + 1))) [0..<k])"
    using catalog_retry_exact [of ?f 0] by blast
  have "2 \<le> k"
    using k(1,2) unfolding outcome by (auto simp: retryable_def split: if_splits)
  then show ?thesis
    using k(1,3) unfolding outcome before by auto
qed

section \<open>Migrations\<close>

definition up_migrations :: "migration list \<Rightarrow> migration list" where
  "up_migrations ms = filter (\<lambda>m. \<not> mg_down m) ms"

definition row_of :: "applied_migration list \<Rightarrow> int \<rightharpoonup> string" where
  "row_of applied = map_of (rev (map (\<lambda>a. (am_version a, am_checksum a)) applied))"

lemma compare_loop_exact:
  "compare_loop rows ms (vs, n, ps, xs) =
     (vs \<union> mg_version ` set ms, n + length (filter (\<lambda>m. rows (mg_version m) \<noteq> None) (up_migrations ms)),
      ps @ map mg_version (filter (\<lambda>m. rows (mg_version m) = None) (up_migrations ms)),
      xs @ map mg_version (filter (\<lambda>m. \<exists>c. rows (mg_version m) = Some c \<and> c \<noteq> mg_checksum m) (up_migrations ms)))"
  by (induction ms arbitrary: vs n ps xs) (auto simp: Let_def up_migrations_def split: option.splits)

lemma compare_exact:
  "compare_migrations embedded applied dirty =
     \<lparr>ms_applied = length (filter (\<lambda>m. row_of applied (mg_version m) \<noteq> None) (up_migrations embedded)),
      ms_pending = sort (map mg_version (filter (\<lambda>m. row_of applied (mg_version m) = None) (up_migrations embedded))),
      ms_checksum_mismatch = sort (map mg_version
        (filter (\<lambda>m. \<exists>c. row_of applied (mg_version m) = Some c \<and> c \<noteq> mg_checksum m) (up_migrations embedded))),
      ms_applied_not_embedded = sort (filter (\<lambda>v. v \<notin> mg_version ` set embedded) (remdups (map am_version applied))),
      ms_dirty = dirty\<rparr>"
  by (simp add: compare_migrations_def compare_loop_exact row_of_def [symmetric] Let_def)

lemma sort_Nil_iff: "sort xs = [] \<longleftrightarrow> xs = []"
  by (metis set_empty set_sort)

lemma current_iff:
  "is_current (compare_migrations embedded applied dirty) = (dirty = None
     \<and> (\<forall>m\<in>set (up_migrations embedded). row_of applied (mg_version m) = Some (mg_checksum m))
     \<and> am_version ` set applied \<subseteq> mg_version ` set embedded)"
  by (auto simp: compare_exact is_current_def embedded_applied_def filter_empty_conv sort_Nil_iff)

text \<open>The status is current exactly when no migration is half applied, every embedded migration that
  goes up is recorded with its checksum, and every recorded one is embedded; the embedded ones
  split into the applied and the pending, and the lists name the exceptions in order.
\<close>

theorem migrations_status_exact:
  "is_current (compare_migrations embedded applied dirty) = (dirty = None
       \<and> (\<forall>m\<in>set (up_migrations embedded). row_of applied (mg_version m) = Some (mg_checksum m))
       \<and> am_version ` set applied \<subseteq> mg_version ` set embedded)
   \<and> ms_applied (compare_migrations embedded applied dirty)
         + length (ms_pending (compare_migrations embedded applied dirty)) = length (up_migrations embedded)
   \<and> set (ms_pending (compare_migrations embedded applied dirty))
         = {mg_version m |m. m \<in> set (up_migrations embedded) \<and> row_of applied (mg_version m) = None}
   \<and> sorted (ms_pending (compare_migrations embedded applied dirty))
   \<and> sorted (ms_checksum_mismatch (compare_migrations embedded applied dirty))
   \<and> sorted (ms_applied_not_embedded (compare_migrations embedded applied dirty))"
proof (intro conjI current_iff)
  show "ms_applied (compare_migrations embedded applied dirty)
         + length (ms_pending (compare_migrations embedded applied dirty)) = length (up_migrations embedded)"
    using sum_length_filter_compl [of "\<lambda>m. row_of applied (mg_version m) = None" "up_migrations embedded"]
    by (simp add: compare_exact)
qed (auto simp: compare_exact)

lemma migrations_status_exact_witness:
  "is_current (compare_migrations [\<lparr>mg_version = 1, mg_checksum = ''a'', mg_down = False\<rparr>]
     [\<lparr>am_version = 1, am_checksum = ''a''\<rparr>] None)"
  using migrations_status_exact [of "[\<lparr>mg_version = 1, mg_checksum = ''a'', mg_down = False\<rparr>]"
      "[\<lparr>am_version = 1, am_checksum = ''a''\<rparr>]" None]
  by (simp add: up_migrations_def row_of_def)

end
