(* ===== verification/Graphql.thy ===== *)
theory Graphql
  imports Values
begin

text \<open>
  The edge kit (\<^verbatim>\<open>br-util-graphql\<close>): the published error codes and the two
  renderings of an error, affordances, pages, the mutation acknowledgement, subscription payloads,
  and the conversions of value objects that come from or go to a client. What
  \<^verbatim>\<open>async-graphql\<close> and \<^verbatim>\<open>axum\<close> do with the values is outside; a
  panic is \<open>None\<close>.
\<close>

section \<open>Error codes\<close>

datatype error_code =
  Unauthenticated | Forbidden | NotFound | Conflict | BadUserInput | InvalidState | Internal

fun error_code_str :: "error_code \<Rightarrow> string" where
  "error_code_str Unauthenticated = ''UNAUTHENTICATED''"
| "error_code_str Forbidden = ''FORBIDDEN''"
| "error_code_str NotFound = ''NOT_FOUND''"
| "error_code_str Conflict = ''CONFLICT''"
| "error_code_str BadUserInput = ''BAD_USER_INPUT''"
| "error_code_str InvalidState = ''INVALID_STATE''"
| "error_code_str Internal = ''INTERNAL''"

fun http_status :: "error_code \<Rightarrow> nat" where
  "http_status Unauthenticated = 401"
| "http_status Forbidden = 403"
| "http_status NotFound = 404"
| "http_status Conflict = 409"
| "http_status BadUserInput = 400"
| "http_status InvalidState = 422"
| "http_status Internal = 500"

section \<open>Reason codes\<close>

definition is_lower_snake :: "string \<Rightarrow> bool" where
  "is_lower_snake candidate = (case candidate of
     [] \<Rightarrow> False
   | first # _ \<Rightarrow> is_ascii_lowercase first
       \<and> list_all (\<lambda>c. is_ascii_lowercase c \<or> is_ascii_digit c \<or> c = CHR ''_'') candidate)"

definition assert_lower_snake_reason :: "string \<Rightarrow> unit option" where
  "assert_lower_snake_reason reason = (if is_lower_snake reason then Some () else None)"

section \<open>Errors of the edge\<close>

type_synonym params = "(string \<times> string) list"

record edge_error =
  ee_code :: error_code
  ee_reason_code :: "string option"
  ee_params :: params
  ee_detail :: "string option"

definition bare :: "error_code \<Rightarrow> edge_error" where
  "bare code = \<lparr>ee_code = code, ee_reason_code = None, ee_params = [], ee_detail = None\<rparr>"

definition unauthenticated where "unauthenticated = bare Unauthenticated"
definition forbidden where "forbidden = bare Forbidden"
definition not_found where "not_found = bare NotFound"
definition conflict where "conflict = bare Conflict"
definition bad_user_input where "bad_user_input = bare BadUserInput"
definition invalid_state where "invalid_state = bare InvalidState"

definition internal :: "string \<Rightarrow> edge_error" where
  "internal detail = \<lparr>ee_code = Internal, ee_reason_code = None, ee_params = [], ee_detail = Some detail\<rparr>"

definition with_reason :: "string \<Rightarrow> edge_error \<Rightarrow> edge_error option" where
  "with_reason reason e = Option.bind (assert_lower_snake_reason reason)
     (\<lambda>_. Some (e\<lparr>ee_reason_code := Some reason\<rparr>))"

definition with_contract_reason :: "string \<Rightarrow> edge_error \<Rightarrow> edge_error" where
  "with_contract_reason reason e = e\<lparr>ee_reason_code := Some reason\<rparr>"

definition edge_with_param :: "string \<Rightarrow> string \<Rightarrow> edge_error \<Rightarrow> edge_error" where
  "edge_with_param key v e = e\<lparr>ee_params := bm_insert key v (ee_params e)\<rparr>"

text \<open>A rendering gives what is sent and what is logged.\<close>

record rest_response =
  rr_status :: nat
  rr_body :: json

definition rest_log :: "edge_error \<Rightarrow> string list" where
  "rest_log e = (if ee_code e = Internal
     then (case ee_detail e of Some detail \<Rightarrow> [detail] | None \<Rightarrow> []) else [])"

definition rest_params :: "params \<Rightarrow> json" where
  "rest_params ps = JObj (map (\<lambda>(k, v). (k, JStr v)) ps)"

definition into_response :: "edge_error \<Rightarrow> rest_response \<times> string list" where
  "into_response e =
     (let status = http_status (ee_code e);
          error = bm_insert ''code'' (JStr (error_code_str (ee_code e))) [];
          error = (case ee_reason_code e of Some r \<Rightarrow> bm_insert ''reason'' (JStr r) error | None \<Rightarrow> error);
          error = (if ee_params e \<noteq> [] then bm_insert ''params'' (rest_params (ee_params e)) error else error)
      in (\<lparr>rr_status = status, rr_body = json_obj [(''error'', JObj error)]\<rparr>, rest_log e))"

record gql_error =
  ge_message :: string
  ge_extensions :: "(string \<times> json) list"

definition gql_log :: "edge_error \<Rightarrow> string list" where
  "gql_log e = (if ee_code e = Internal
     then (case ee_detail e of Some detail \<Rightarrow> [detail] | None \<Rightarrow> []) else [])"

definition gql_params :: "params \<Rightarrow> json option" where
  "gql_params ps = (if ps \<noteq> [] then Some (JObj (map (\<lambda>(k, v). (k, JStr v)) ps)) else None)"

definition into_gql :: "edge_error \<Rightarrow> gql_error \<times> string list" where
  "into_gql e =
     (let params = gql_params (ee_params e);
          ext = bm_insert ''code'' (JStr (error_code_str (ee_code e))) [];
          ext = (case ee_reason_code e of Some r \<Rightarrow> bm_insert ''reason'' (JStr r) ext | None \<Rightarrow> ext);
          ext = (case params of Some p \<Rightarrow> bm_insert ''params'' p ext | None \<Rightarrow> ext)
      in (\<lparr>ge_message = error_code_str (ee_code e), ge_extensions = ext\<rparr>, gql_log e))"

section \<open>Affordances\<close>

record affordance =
  af_action :: string
  af_allowed :: bool
  af_reason_code :: "string option"
  af_params :: "params option"

definition allow :: "string \<Rightarrow> affordance" where
  "allow action = \<lparr>af_action = action, af_allowed = True, af_reason_code = None, af_params = None\<rparr>"

definition block :: "string \<Rightarrow> string \<Rightarrow> affordance option" where
  "block action reason = Option.bind (assert_lower_snake_reason reason) (\<lambda>_.
     Some \<lparr>af_action = action, af_allowed = False, af_reason_code = Some reason, af_params = None\<rparr>)"

definition params_or_new :: "affordance \<Rightarrow> params" where
  "params_or_new a = (case af_params a of None \<Rightarrow> [] | Some m \<Rightarrow> m)"

definition affordance_with_param :: "string \<Rightarrow> string \<Rightarrow> affordance \<Rightarrow> affordance" where
  "affordance_with_param key v a = a\<lparr>af_params := Some (bm_insert key v (params_or_new a))\<rparr>"

definition affordance_with_params :: "(string \<times> string) list \<Rightarrow> affordance \<Rightarrow> affordance" where
  "affordance_with_params ps a =
     a\<lparr>af_params := Some (fold (\<lambda>(k, v) m. bm_insert k v m) ps (params_or_new a))\<rparr>"

section \<open>Pages, acknowledgements, pushes\<close>

record 't edge =
  ed_node :: 't
  ed_cursor :: string

record page_info =
  pi_has_next_page :: bool
  pi_has_previous_page :: bool
  pi_start_cursor :: "string option"
  pi_end_cursor :: "string option"

record 't connection =
  cn_edges :: "'t edge list"
  cn_page_info :: page_info

definition edge_new :: "'t \<Rightarrow> string \<Rightarrow> 't edge" where
  "edge_new node cursor = \<lparr>ed_node = node, ed_cursor = cursor\<rparr>"

definition connection_new :: "'t edge list \<Rightarrow> page_info \<Rightarrow> 't connection" where
  "connection_new edges info = \<lparr>cn_edges = edges, cn_page_info = info\<rparr>"

definition forward :: "'t edge list \<Rightarrow> bool \<Rightarrow> 't connection" where
  "forward edges has_next_page =
     (let start_cursor = (case edges of [] \<Rightarrow> None | e # _ \<Rightarrow> Some (ed_cursor e));
          end_cursor = (if edges = [] then None else Some (ed_cursor (last edges)))
      in \<lparr>cn_edges = edges, cn_page_info = \<lparr>pi_has_next_page = has_next_page, pi_has_previous_page = False,
            pi_start_cursor = start_cursor, pi_end_cursor = end_cursor\<rparr>\<rparr>)"

definition connection_type_name :: "string \<Rightarrow> string" where
  "connection_type_name t = t @ ''Connection''"
definition edge_type_name :: "string \<Rightarrow> string" where
  "edge_type_name t = t @ ''Edge''"

record mutation_result =
  mr_success :: bool

definition mutation_ok :: mutation_result where
  "mutation_ok = \<lparr>mr_success = True\<rparr>"

record ('e, 't) subscription_payload =
  sp_event :: 'e
  sp_entity :: 't
  sp_affordances :: "affordance list"

definition subscription_payload_new :: "'e \<Rightarrow> 't \<Rightarrow> affordance list \<Rightarrow> ('e, 't) subscription_payload" where
  "subscription_payload_new event entity affs = \<lparr>sp_event = event, sp_entity = entity, sp_affordances = affs\<rparr>"

section \<open>Value objects at the edge\<close>

datatype gql_value_error =
  GqlLocaleUnknown string
| MoneyOutOfRange string
| PrimaryContentMissing
| ValueRejected value_error

fun gql_reason_code :: "gql_value_error \<Rightarrow> string" where
  "gql_reason_code (GqlLocaleUnknown _) = ''locale_unknown''"
| "gql_reason_code (MoneyOutOfRange _) = ''money_out_of_range''"
| "gql_reason_code PrimaryContentMissing = ''primary_content_missing''"
| "gql_reason_code (ValueRejected e) = value_error_code e"

definition edge_error_of_value :: "gql_value_error \<Rightarrow> edge_error" where
  "edge_error_of_value err =
     (let edge = with_contract_reason (gql_reason_code err) bad_user_input in
      case err of
        GqlLocaleUnknown v \<Rightarrow> edge_with_param ''value'' v edge
      | MoneyOutOfRange amount \<Rightarrow> edge_with_param ''amount'' amount edge
      | PrimaryContentMissing \<Rightarrow> edge
      | ValueRejected e \<Rightarrow> edge_with_param ''value'' (value_error_code e) edge)"

text \<open>The decimal text of a signed integer and its parser, of the standard library.\<close>

definition show_i64 :: "64 word \<Rightarrow> string" where
  "show_i64 w = (if sint w < 0 then CHR ''-'' # show_nat (nat (- sint w)) else show_nat (nat (sint w)))"

definition parse_i64 :: "string \<Rightarrow> 64 word option" where
  "parse_i64 s =
     (let digits = (\<lambda>ds. ds \<noteq> [] \<and> list_all is_ascii_digit ds) in
      case s of
        [] \<Rightarrow> None
      | c # cs \<Rightarrow>
          if c = CHR ''-'' then
            (if digits cs \<and> digits_value cs \<le> 2 ^ 63 then Some (of_int (- int (digits_value cs))) else None)
          else let ds = (if c = CHR ''+'' then cs else s) in
            if digits ds \<and> digits_value ds < 2 ^ 63 then Some (of_nat (digits_value ds)) else None)"

text \<open>An amount crosses the edge as a decimal string; \<open>None\<close> is the refusal of another type.\<close>

definition money_amount_parse :: "json \<Rightarrow> (64 word, string option) result" where
  "money_amount_parse v = (case v of
     JStr s \<Rightarrow> (case parse_i64 s of
         Some w \<Rightarrow> Ok w | None \<Rightarrow> Err (Some (gql_reason_code (MoneyOutOfRange s))))
   | _ \<Rightarrow> Err None)"

definition money_amount_value :: "64 word \<Rightarrow> json" where
  "money_amount_value w = JStr (show_i64 w)"

record gql_money =
  gm_amount :: "64 word"
  gm_currency :: string

definition gql_money_of :: "money \<Rightarrow> gql_money" where
  "gql_money_of m = \<lparr>gm_amount = mo_amount m, gm_currency = currency_str (mo_currency m)\<rparr>"

definition money_of_input :: "gql_money \<Rightarrow> (money, gql_value_error) result" where
  "money_of_input i = and_then (map_err ValueRejected (currency_new (gm_currency i)))
     (\<lambda>c. Ok (money_new (gm_amount i) c))"

record gql_localized_entry =
  gl_locale :: string
  gl_content :: string

record gql_localized =
  gl_primary :: string
  gl_entries :: "gql_localized_entry list"

fun map_localized_error :: "value_error \<Rightarrow> gql_value_error" where
  "map_localized_error (LocaleUnknown v) = GqlLocaleUnknown v"
| "map_localized_error LocalizedPrimaryMissing = PrimaryContentMissing"
| "map_localized_error e = ValueRejected e"

fun read_entries :: "(string \<Rightarrow> 'l option) \<Rightarrow> gql_localized_entry list
    \<Rightarrow> ('l localized_entry list, gql_value_error) result" where
  "read_entries from_wire [] = Ok []"
| "read_entries from_wire (e # es) =
     and_then (map_err map_localized_error (parse_wire from_wire (gl_locale e))) (\<lambda>l.
       and_then (read_entries from_wire es) (\<lambda>rest.
         Ok (\<lparr>le_locale = l, le_content = gl_content e\<rparr> # rest)))"

definition into_localized :: "(string \<Rightarrow> 'l option) \<Rightarrow> gql_localized \<Rightarrow> ('l localized, gql_value_error) result" where
  "into_localized from_wire i =
     and_then (map_err map_localized_error (parse_wire from_wire (gl_primary i))) (\<lambda>primary.
       and_then (read_entries from_wire (gl_entries i)) (\<lambda>entries.
         map_err map_localized_error (from_parts primary entries)))"

definition from_localized :: "('l \<Rightarrow> string) \<Rightarrow> 'l localized \<Rightarrow> gql_localized" where
  "from_localized as_wire t = \<lparr>gl_primary = as_wire (lo_primary t),
     gl_entries = map (\<lambda>e. \<lparr>gl_locale = as_wire (le_locale e), gl_content = le_content e\<rparr>) (lo_entries t)\<rparr>"

end
