(* ===== verification/Graphql_Correct.thy ===== *)
theory Graphql_Correct
  imports Graphql Values_Correct
begin

text \<open>
  Both renderings of an error send the same object and never its detail; amounts and localized texts
  cross the edge unchanged; and a refused value carries a reason that the edge accepts.
\<close>

section \<open>Renderings\<close>

text \<open>C34: An error has one form on both edges: the body of the response is the extensions of the query's
  error under one key, both carry its code, its reason and its parameters when it has some and
  nothing else, and both log the same.
\<close>

theorem edges_render_alike:
  "rr_body (fst (into_response e)) = json_obj [(''error'', JObj (ge_extensions (fst (into_gql e))))]
   \<and> rr_status (fst (into_response e)) = http_status (ee_code e)
   \<and> ge_message (fst (into_gql e)) = error_code_str (ee_code e)
   \<and> snd (into_response e) = snd (into_gql e)
   \<and> bm_get (ge_extensions (fst (into_gql e))) = (\<lambda>k.
       if k = ''code'' then Some (JStr (error_code_str (ee_code e)))
       else if k = ''reason'' then map_option JStr (ee_reason_code e)
       else if k = ''params'' \<and> ee_params e \<noteq> [] then Some (JObj (map (\<lambda>(k, v). (k, JStr v)) (ee_params e))) else None)"
proof (intro conjI)
  show "rr_body (fst (into_response e)) = json_obj [(''error'', JObj (ge_extensions (fst (into_gql e))))]"
    by (cases "ee_reason_code e"; cases "ee_params e = []")
      (simp_all add: into_response_def into_gql_def rest_params_def gql_params_def Let_def del: bm_insert.simps)
  show "bm_get (ge_extensions (fst (into_gql e))) = (\<lambda>k.
       if k = ''code'' then Some (JStr (error_code_str (ee_code e)))
       else if k = ''reason'' then map_option JStr (ee_reason_code e)
       else if k = ''params'' \<and> ee_params e \<noteq> [] then Some (JObj (map (\<lambda>(k, v). (k, JStr v)) (ee_params e))) else None)"
    by (cases "ee_reason_code e"; cases "ee_params e = []"; rule ext)
      (simp_all add: into_gql_def gql_params_def Let_def del: bm_insert.simps)
qed (simp_all add: into_response_def into_gql_def rest_log_def gql_log_def Let_def)

text \<open>C29: The detail of an error reaches the log of an internal error and nothing else: whatever the detail,
  the same is sent on both edges.
\<close>

theorem detail_is_only_logged:
  "fst (into_response (e\<lparr>ee_detail := d\<rparr>)) = fst (into_response (e\<lparr>ee_detail := d'\<rparr>))
   \<and> fst (into_gql (e\<lparr>ee_detail := d\<rparr>)) = fst (into_gql (e\<lparr>ee_detail := d'\<rparr>))
   \<and> snd (into_response (internal x)) = [x] \<and> snd (into_gql (internal x)) = [x]
   \<and> (ee_code e = Internal \<or> snd (into_response e) = [] \<and> snd (into_gql e) = [])"
  by (auto simp: into_response_def into_gql_def Let_def internal_def rest_log_def gql_log_def)

section \<open>Amounts\<close>

lemma parse_i64_digits: "c # cs = show_nat n \<Longrightarrow> n < 2 ^ 63 \<Longrightarrow> parse_i64 (c # cs) = Some (of_nat n)"
proof -
  assume eq: "c # cs = show_nat n" and n: "n < 2 ^ 63"
  have digits: "list_all is_ascii_digit (c # cs)" and number: "digits_value (c # cs) = n"
    unfolding eq by (rule show_nat_digits, rule digits_value_show_nat)
  then have "c \<noteq> CHR ''-''" "c \<noteq> CHR ''+''"
    by (auto simp: is_ascii_digit_def byte_def)
  then show ?thesis
    using n digits number by (simp add: parse_i64_def Let_def)
qed

lemma parse_show_i64: "parse_i64 (show_i64 w) = Some w"
proof (cases "sint w < 0")
  case True
  have "- (2 ^ 63) \<le> sint w"
    using sint_ge [of w] by simp
  then have "nat (- sint w) \<le> 2 ^ 63"
    by simp
  moreover have "of_int (- int (nat (- sint w))) = w"
    using True by simp
  ultimately show ?thesis
    using True by (simp add: show_i64_def parse_i64_def Let_def show_nat_digits digits_value_show_nat)
next
  case False
  have "sint w < 2 ^ 63"
    using sint_lt [of w] by simp
  then have small: "nat (sint w) < 2 ^ 63"
    using False by (simp add: nat_less_iff)
  obtain c cs where "c # cs = show_nat (nat (sint w))"
    using show_nat_nonempty [of "nat (sint w)"] by (metis list.exhaust)
  then show ?thesis
    using parse_i64_digits [OF _ small] False by (simp add: show_i64_def)
qed

text \<open>An amount crosses the edge unchanged, over the whole range of 64 bits, as a decimal string; text
  that is no number of that range is refused with its own reason and any other type as such, so
  nothing is ever truncated.
\<close>

theorem money_amount_exact:
  "money_amount_parse (money_amount_value w) = Ok w
   \<and> money_of_input (gql_money_of m) = map_err ValueRejected (and_then (currency_new (currency_str (mo_currency m)))
       (\<lambda>c. Ok (money_new (mo_amount m) c)))
   \<and> (money_amount_parse (JStr s) = Err (Some ''money_out_of_range'')) = (parse_i64 s = None)
   \<and> (\<forall>n < 2 ^ 63. parse_i64 (show_nat n) = Some (of_nat n))
   \<and> (\<forall>n \<ge> 2 ^ 63. parse_i64 (show_nat n) = None)"
proof (intro conjI allI impI)
  show "money_amount_parse (money_amount_value w) = Ok w"
    by (simp add: money_amount_parse_def money_amount_value_def parse_show_i64)
  show "money_of_input (gql_money_of m) = map_err ValueRejected (and_then (currency_new (currency_str (mo_currency m)))
       (\<lambda>c. Ok (money_new (mo_amount m) c)))"
    by (cases "currency_new (currency_str (mo_currency m))") (simp_all add: money_of_input_def gql_money_of_def)
  show "(money_amount_parse (JStr s) = Err (Some ''money_out_of_range'')) = (parse_i64 s = None)"
    by (simp add: money_amount_parse_def split: option.split)
next
  fix n :: nat assume "n < 2 ^ 63"
  then show "parse_i64 (show_nat n) = Some (of_nat n)"
    using parse_i64_digits show_nat_nonempty [of n] by (metis list.exhaust)
next
  fix n :: nat assume big: "2 ^ 63 \<le> n"
  obtain c cs where eq: "show_nat n = c # cs"
    using show_nat_nonempty [of n] by (metis list.exhaust)
  then have "c \<noteq> CHR ''-''" "c \<noteq> CHR ''+''"
    using show_nat_digits [of n] by (auto simp: is_ascii_digit_def byte_def)
  then show "parse_i64 (show_nat n) = None"
    using big digits_value_show_nat [of n] by (simp add: parse_i64_def Let_def eq)
qed

lemma money_amount_exact_witness:
  "parse_i64 (show_nat 7) = Some 7 \<and> parse_i64 (show_nat (2 ^ 63)) = None"
proof -
  note exact = money_amount_exact [of 0 "money_new 0 (Currency ''EUR'')" "''1''"]
  show ?thesis
    using exact [THEN conjunct2, THEN conjunct2, THEN conjunct2, THEN conjunct1, rule_format, of 7]
      exact [THEN conjunct2, THEN conjunct2, THEN conjunct2, THEN conjunct2, rule_format, of "2 ^ 63"] by simp
qed

section \<open>Localized texts\<close>

lemma read_entries_back:
  assumes "\<forall>e\<in>set es. from_wire (as_wire (le_locale e)) = Some (le_locale e)"
  shows "read_entries from_wire (map (\<lambda>e. \<lparr>gl_locale = as_wire (le_locale e), gl_content = le_content e\<rparr>) es) = Ok es"
  using assms by (induction es) (simp_all add: parse_wire_def)

text \<open>
  What the edge reads is a localized text that keeps the invariant, or an error in the edge's
  words; and what it writes of such a text reads back as that text, when the locale reads back what
  it writes.
\<close>

theorem localized_crosses_edge:
  "(into_localized from_wire i = Ok t \<longrightarrow> localized_ok t)
   \<and> (localized_ok t \<and> (\<forall>e\<in>set (lo_entries t). from_wire (as_wire (le_locale e)) = Some (le_locale e))
      \<longrightarrow> into_localized from_wire (from_localized as_wire t) = Ok t)
   \<and> (from_wire (gl_primary i) = None \<longrightarrow> into_localized from_wire i = Err (GqlLocaleUnknown (gl_primary i)))"
proof (intro conjI impI)
  show "localized_ok t" if "into_localized from_wire i = Ok t"
    using that by (auto simp: into_localized_def and_then_Ok_iff intro: localized_ok_from_parts)
  show "into_localized from_wire i = Err (GqlLocaleUnknown (gl_primary i))" if "from_wire (gl_primary i) = None"
    using that by (simp add: into_localized_def parse_wire_def)
next
  assume wire: "localized_ok t \<and> (\<forall>e\<in>set (lo_entries t). from_wire (as_wire (le_locale e)) = Some (le_locale e))"
  then have ok: "localized_ok t" and wires: "\<forall>e\<in>set (lo_entries t). from_wire (as_wire (le_locale e)) = Some (le_locale e)"
    by auto
  then have "from_wire (as_wire (lo_primary t)) = Some (lo_primary t)"
    by (auto simp: localized_ok_def)
  then show "into_localized from_wire (from_localized as_wire t) = Ok t"
    by (simp add: into_localized_def from_localized_def parse_wire_def read_entries_back [OF wires] from_parts_ok [OF ok])
qed

lemma localized_crosses_edge_witness:
  "into_localized (\<lambda>s. Some s) (from_localized id (localized_new ''en'' ''hi'')) = Ok (localized_new ''en'' ''hi'')"
proof -
  have "localized_ok (localized_new ''en'' ''hi'')"
    by (simp add: localized_ok_def localized_new_def)
  then show ?thesis
    using localized_crosses_edge [of "\<lambda>s. Some s" "from_localized id (localized_new ''en'' ''hi'')"
        "localized_new ''en'' ''hi''" id] by simp
qed

section \<open>Refused values\<close>

text \<open>C38: A refused value becomes a bad user input whose reason is in the casing that the edge enforces, so
  the conversion, which does not check it, never lets another one through; the parameter is the
  offending text for a locale or an amount, but for any other value it repeats the reason.
\<close>

theorem refused_values_have_reasons:
  "ee_code (edge_error_of_value g) = BadUserInput
   \<and> ee_reason_code (edge_error_of_value g) = Some (gql_reason_code g)
   \<and> is_lower_snake (gql_reason_code g)
   \<and> with_reason (gql_reason_code g) bad_user_input = Some (with_contract_reason (gql_reason_code g) bad_user_input)
   \<and> ee_params (edge_error_of_value g) = (case g of
        GqlLocaleUnknown v \<Rightarrow> [(''value'', v)] | MoneyOutOfRange a \<Rightarrow> [(''amount'', a)]
      | PrimaryContentMissing \<Rightarrow> [] | ValueRejected e \<Rightarrow> [(''value'', gql_reason_code g)])"
proof -
  have snake: "is_lower_snake (value_error_code e)" for e
    by (cases e) (simp_all add: is_lower_snake_def is_ascii_lowercase_def is_ascii_digit_def byte_def)
  have reason: "is_lower_snake (gql_reason_code g)"
    by (cases g) (simp_all add: snake, simp_all add: is_lower_snake_def is_ascii_lowercase_def is_ascii_digit_def byte_def)
  show ?thesis
    using reason by (cases g) (simp_all add: edge_error_of_value_def edge_with_param_def with_contract_reason_def
        with_reason_def assert_lower_snake_reason_def bad_user_input_def bare_def)
qed

end
