(* ===== verification/Broadcast.thy ===== *)
theory Broadcast
  imports Prelude
begin

text \<open>
  The in-process bus of events (\<^verbatim>\<open>br-util-broadcast\<close>): the events a command buffers
  and their fan-out after its commit, over a channel that is a parameter.
\<close>

section \<open>The buffer\<close>

type_synonym 't pending = "'t list"

definition pending_new :: "'t pending" where "pending_new = []"
definition from_events :: "'t list \<Rightarrow> 't pending" where "from_events events = events"
definition pending_push :: "'t \<Rightarrow> 't pending \<Rightarrow> 't pending" where "pending_push e p = p @ [e]"
definition pending_extend :: "'t list \<Rightarrow> 't pending \<Rightarrow> 't pending" where "pending_extend es p = p @ es"
definition pending_len :: "'t pending \<Rightarrow> nat" where "pending_len p = length p"
definition pending_is_empty :: "'t pending \<Rightarrow> bool" where "pending_is_empty p = (p = [])"

section \<open>The bus\<close>

datatype broadcast_error = NoSubscribers nat

text \<open>
  The channel is a state with its operations; sending fails when it has no receiver. A bus
  without capacity is a panic, \<open>None\<close>.
\<close>

record ('t, 'c) channel_ops =
  ch_channel :: "nat \<Rightarrow> 'c"
  ch_send :: "'t \<Rightarrow> 'c \<Rightarrow> bool \<times> 'c"
  ch_subscribe :: "'c \<Rightarrow> nat \<times> 'c"
  ch_receiver_count :: "'c \<Rightarrow> nat"

definition bus_new :: "('t, 'c) channel_ops \<Rightarrow> nat \<Rightarrow> 'c option" where
  "bus_new ops capacity = (if 0 < capacity then Some (ch_channel ops capacity) else None)"

definition bus_subscribe :: "('t, 'c) channel_ops \<Rightarrow> 'c \<Rightarrow> nat \<times> 'c" where
  "bus_subscribe ops c = ch_subscribe ops c"

definition subscriber_count :: "('t, 'c) channel_ops \<Rightarrow> 'c \<Rightarrow> nat" where
  "subscriber_count ops c = ch_receiver_count ops c"

fun publish_loop :: "('t, 'c) channel_ops \<Rightarrow> nat \<Rightarrow> nat \<Rightarrow> 't list \<Rightarrow> 'c
    \<Rightarrow> (unit, broadcast_error) result \<times> 'c" where
  "publish_loop ops batch sent [] c = (Ok (), c)"
| "publish_loop ops batch sent (e # es) c = (case ch_send ops e c of
     (False, c) \<Rightarrow> (Err (NoSubscribers (batch - sent)), c)
   | (True, c) \<Rightarrow> publish_loop ops batch (sent + 1) es c)"

definition publish_after_commit :: "('t, 'c) channel_ops \<Rightarrow> 't pending \<Rightarrow> 'c
    \<Rightarrow> (unit, broadcast_error) result \<times> 'c" where
  "publish_after_commit ops p c = publish_loop ops (length p) 0 p c"

section \<open>What is heard\<close>

text \<open>The channel after it was sent some events, and whether it accepted the next one.\<close>

definition after_sends :: "('t, 'c) channel_ops \<Rightarrow> 't list \<Rightarrow> 'c \<Rightarrow> 'c" where
  "after_sends ops es c = fold (\<lambda>e c. snd (ch_send ops e c)) es c"

definition accepts :: "('t, 'c) channel_ops \<Rightarrow> 't list \<Rightarrow> 'c \<Rightarrow> nat \<Rightarrow> bool" where
  "accepts ops es c k = fst (ch_send ops (es ! k) (after_sends ops (take k es) c))"

lemma publish_loop_exact:
  assumes "batch = sent + length es"
  shows "\<exists>k \<le> length es. (\<forall>j<k. accepts ops es c j)
    \<and> (if k = length es then publish_loop ops batch sent es c = (Ok (), after_sends ops es c)
       else \<not> accepts ops es c k \<and> publish_loop ops batch sent es c
          = (Err (NoSubscribers (length es - k)), after_sends ops (take (k + 1) es) c))"
  using assms
proof (induction es arbitrary: sent c)
  case Nil
  then show ?case
    by (simp add: after_sends_def)
next
  case (Cons e es)
  obtain b c' where send: "ch_send ops e c = (b, c')"
    by (cases "ch_send ops e c")
  have first: "accepts ops (e # es) c 0 = b"
    by (simp add: accepts_def after_sends_def send)
  have rest: "accepts ops (e # es) c (Suc j) = accepts ops es c' j" for j
    by (simp add: accepts_def after_sends_def send)
  show ?case
  proof (cases b)
    case False
    then show ?thesis
      using first send Cons.prems by (intro exI [of _ 0]) (simp add: after_sends_def)
  next
    case True
    obtain k where k: "k \<le> length es" "\<forall>j<k. accepts ops es c' j"
        "if k = length es then publish_loop ops batch (sent + 1) es c' = (Ok (), after_sends ops es c')
         else \<not> accepts ops es c' k \<and> publish_loop ops batch (sent + 1) es c'
          = (Err (NoSubscribers (length es - k)), after_sends ops (take (k + 1) es) c')"
      using Cons.IH [of "sent + 1" c'] Cons.prems by auto
    have "\<forall>j<Suc k. accepts ops (e # es) c j"
      using k(2) first rest True by (auto simp: less_Suc_eq_0_disj)
    then show ?thesis
      using k send True rest [of k]
      by (intro exI [of _ "Suc k"]) (auto simp: after_sends_def split: if_splits)
  qed
qed

text \<open>The events of a commit are sent one by one in their order up to the first that nobody hears: the
  result is an error exactly when there is one, with the number of events from it on, none of
  which was heard, and what was sent before stands.
\<close>

theorem publish_stops_unheard:
  "\<exists>k \<le> pending_len p. (\<forall>j<k. accepts ops p c j)
    \<and> (if k = pending_len p then publish_after_commit ops p c = (Ok (), after_sends ops p c)
       else \<not> accepts ops p c k \<and> publish_after_commit ops p c
          = (Err (NoSubscribers (pending_len p - k)), after_sends ops (take (k + 1) p) c))"
  unfolding publish_after_commit_def pending_len_def by (rule publish_loop_exact) simp

text \<open>A channel whose receivers leave after a number of events; it keeps what was heard.\<close>

definition leaving_channel :: "nat \<Rightarrow> (nat, nat list) channel_ops" where
  "leaving_channel n = \<lparr>ch_channel = (\<lambda>_. []),
     ch_send = (\<lambda>e heard. if length heard < n then (True, heard @ [e]) else (False, heard)),
     ch_subscribe = (\<lambda>c. (0, c)), ch_receiver_count = (\<lambda>c. if length c < n then 1 else 0)\<rparr>"

lemma publish_stops_unheard_witness:
  "publish_after_commit (leaving_channel 2) [1, 2, 3, 4, 5] [] = (Err (NoSubscribers 3), [1, 2])"
proof -
  let ?p = "[1, 2, 3, 4, 5] :: nat list"
  have len: "pending_len ?p = 5"
    by (simp add: pending_len_def)
  have heard: "accepts (leaving_channel 2) ?p [] 0" "accepts (leaving_channel 2) ?p [] 1"
      "\<not> accepts (leaving_channel 2) ?p [] 2"
    by (simp_all add: accepts_def after_sends_def leaving_channel_def)
  obtain k where k: "k \<le> 5" "\<forall>j<k. accepts (leaving_channel 2) ?p [] j"
      "if k = 5 then publish_after_commit (leaving_channel 2) ?p [] = (Ok (), after_sends (leaving_channel 2) ?p [])
       else \<not> accepts (leaving_channel 2) ?p [] k \<and> publish_after_commit (leaving_channel 2) ?p []
          = (Err (NoSubscribers (5 - k)), after_sends (leaving_channel 2) (take (k + 1) ?p) [])"
    using publish_stops_unheard [of ?p "leaving_channel 2" "[]", unfolded len] by blast
  have "k \<le> 2"
    using k(2) heard(3) by (metis not_le)
  moreover have "k \<noteq> 0" "k \<noteq> 1"
    by (rule notI, use k(3) heard(1,2) in simp)+
  ultimately have "k = 2"
    by simp
  then show ?thesis
    using k(3) by (simp add: after_sends_def leaving_channel_def)
qed

end
