(* ===== verification/Observability.thy ===== *)
theory Observability
  imports Values
begin

text \<open>
  Observability (\<^verbatim>\<open>br-util-observability\<close>): the JSON log line of an event, the
  liveness and metrics routes, and the metrics of requests as a state machine over the requests
  that are in flight. The clock, the recorder and the
  serialiser are parameters.
\<close>

section \<open>The visitor of an event's fields\<close>

text \<open>A value as it is recorded; an error and a debug value come with their text, a float with its bits.\<close>

datatype field_value =
  FStr string | FBool bool | FI64 "64 word" | FU64 "64 word" | FF64 u64 | FError string | FDebug string

record json_visitor =
  jv_message :: "string option"
  jv_fields :: "(string \<times> json) list"

definition visitor_default :: json_visitor where
  "visitor_default = \<lparr>jv_message = None, jv_fields = []\<rparr>"

definition record_field :: "string \<Rightarrow> json \<Rightarrow> json_visitor \<Rightarrow> json_visitor" where
  "record_field name v j = j\<lparr>jv_fields := bm_insert name v (jv_fields j)\<rparr>"

definition record_message :: "string \<Rightarrow> json_visitor \<Rightarrow> json_visitor" where
  "record_message s j = (if jv_message j = None then j\<lparr>jv_message := Some s\<rparr>
     else record_field ''message'' (JStr s) j)"

definition f64_finite :: "u64 \<Rightarrow> bool" where
  "f64_finite bits \<longleftrightarrow> unat bits div 2 ^ 52 mod 2 ^ 11 \<noteq> 2047"

definition record_f64 :: "string \<Rightarrow> u64 \<Rightarrow> json_visitor \<Rightarrow> json_visitor" where
  "record_f64 name bits = record_field name (if f64_finite bits then JFloat bits else JNull)"

fun record_value :: "string \<Rightarrow> field_value \<Rightarrow> json_visitor \<Rightarrow> json_visitor" where
  "record_value name (FStr s) = (if name = ''message'' then record_message s else record_field name (JStr s))"
| "record_value name (FBool b) = record_field name (JBool b)"
| "record_value name (FI64 w) = record_field name (i64_json w)"
| "record_value name (FU64 w) = record_field name (JNat (unat w))"
| "record_value name (FF64 bits) = record_f64 name bits"
| "record_value name (FError s) = record_field name (JStr s)"
| "record_value name (FDebug s) = (if name = ''message'' then record_message s else record_field name (JStr s))"

definition record_event :: "(string \<times> field_value) list \<Rightarrow> json_visitor" where
  "record_event event = fold (\<lambda>(name, v). record_value name v) event visitor_default"

section \<open>The log line\<close>

definition reserved_keys :: "string list" where
  "reserved_keys = [''ts'', ''level'', ''component'', ''msg'']"

datatype level = LevelError | LevelWarn | LevelInfo | LevelDebug | LevelTrace

fun level_code :: "level \<Rightarrow> string" where
  "level_code LevelError = ''ERROR''"
| "level_code LevelWarn = ''WARN''"
| "level_code LevelInfo = ''INFO''"
| "level_code LevelDebug = ''DEBUG''"
| "level_code LevelTrace = ''TRACE''"

definition canonical_keys :: "string \<Rightarrow> string \<Rightarrow> string \<Rightarrow> string option \<Rightarrow> (string \<times> json) list" where
  "canonical_keys ts component level msg =
     (let m = bm_insert ''component'' (JStr component) (bm_insert ''level'' (JStr level) (bm_insert ''ts'' (JStr ts) []))
      in case msg of Some s \<Rightarrow> bm_insert ''msg'' (JStr s) m | None \<Rightarrow> m)"

fun carry_field :: "string \<times> json \<Rightarrow> (string \<times> json) list \<Rightarrow> (string \<times> json) list" where
  "carry_field (k, x) m = (if k \<in> set reserved_keys then m else bm_insert k x m)"

definition render_line :: "string \<Rightarrow> string \<Rightarrow> string \<Rightarrow> json_visitor \<Rightarrow> json" where
  "render_line ts component level v =
     JObj (fold carry_field (jv_fields v) (canonical_keys ts component level (jv_message v)))"

text \<open>The serialiser may fail; the text of the fallback cannot.\<close>

definition format_event :: "(json \<Rightarrow> string option) \<Rightarrow> (json \<Rightarrow> string) \<Rightarrow> string \<Rightarrow> string \<Rightarrow> string
    \<Rightarrow> level \<Rightarrow> (string \<times> field_value) list \<Rightarrow> string" where
  "format_event to_string display ts later component lvl event =
     (let line = (case to_string (render_line ts component (level_code lvl) (record_event event)) of
         Some s \<Rightarrow> s
       | None \<Rightarrow> display (json_obj [(''ts'', JStr later), (''level'', JStr ''ERROR''),
           (''component'', JStr component), (''msg'', JStr ''log serialisation failed'')]))
      in line @ [CHR 0x0A])"

text \<open>
  The process has at most one global subscriber, here its filter and the component of its
  formatter; setting it a second time fails. What the environment holds of a filter, and the filter
  of a level, are parameters.
\<close>

record 'f logging_process =
  lg_subscriber :: "('f \<times> string) option"
  lg_stderr :: "string list"

definition init_logging :: "('f, string) result \<Rightarrow> (string \<Rightarrow> 'f) \<Rightarrow> string \<Rightarrow> 'f logging_process
    \<Rightarrow> 'f logging_process" where
  "init_logging from_env filter_of component p =
     (let chosen = (case from_env of Ok f \<Rightarrow> f | Err _ \<Rightarrow> filter_of ''info'') in
      if lg_subscriber p = None then p\<lparr>lg_subscriber := Some (chosen, component)\<rparr>
      else p\<lparr>lg_stderr := lg_stderr p @ [component @ '': tracing subscriber already initialised, continuing'']\<rparr>)"

section \<open>Routes\<close>

definition LIVENESS_PATH :: string where "LIVENESS_PATH = ''/livez''"
definition METRICS_PATH :: string where "METRICS_PATH = ''/metrics''"
definition prometheus_content_type :: string where "prometheus_content_type = ''text/plain; version=0.0.4''"

definition liveness_route :: "nat \<times> string" where
  "liveness_route = (200, ''alive'')"

definition liveness_router :: "string \<times> nat \<times> string" where
  "liveness_router = (LIVENESS_PATH, liveness_route)"

text \<open>Rendering collects from the process, then upkeeps and renders the recorder.\<close>

definition metrics_render :: "('p \<Rightarrow> 'r \<Rightarrow> 'r) \<Rightarrow> ('r \<Rightarrow> 'r) \<Rightarrow> ('r \<Rightarrow> string) \<Rightarrow> 'p \<Rightarrow> 'r \<Rightarrow> string \<times> 'r" where
  "metrics_render collect upkeep text process recorder =
     (let recorder = upkeep (collect process recorder) in (text recorder, recorder))"

definition metrics_route :: "('r \<Rightarrow> string \<times> 'r) \<Rightarrow> 'r \<Rightarrow> (nat \<times> string \<times> string) \<times> 'r" where
  "metrics_route render recorder = (case render recorder of (body, recorder) \<Rightarrow>
     ((200, prometheus_content_type, body), recorder))"

definition metrics_router :: "('r \<Rightarrow> string \<times> 'r) \<Rightarrow> string \<times> ('r \<Rightarrow> (nat \<times> string \<times> string) \<times> 'r)" where
  "metrics_router render = (METRICS_PATH, metrics_route render)"

datatype metrics_error = MetricsBuckets string | MetricsInstall string

section \<open>The metrics of requests\<close>

definition unmatched_route :: string where "unmatched_route = ''<unmatched>''"

text \<open>The latency buckets, in milliseconds.\<close>

definition latency_buckets :: "nat list" where
  "latency_buckets = [5, 10, 25, 50, 100, 250, 500, 1000, 2500, 5000, 10000]"

text \<open>The descriptions of the metrics, in the order they are given.\<close>

definition REQUESTS_TOTAL :: string where "REQUESTS_TOTAL = ''http_requests_total''"
definition REQUEST_DURATION_SECONDS :: string where "REQUEST_DURATION_SECONDS = ''http_request_duration_seconds''"
definition REQUESTS_IN_FLIGHT :: string where "REQUESTS_IN_FLIGHT = ''http_requests_in_flight''"

datatype metric_unit = UnitCount | UnitSeconds

datatype description =
  DescribeCounter string metric_unit string
| DescribeHistogram string metric_unit string
| DescribeGauge string metric_unit string

definition describe_http_metrics :: "description list" where
  "describe_http_metrics =
     [DescribeCounter REQUESTS_TOTAL UnitCount
        ''Total HTTP requests by method, matched route template and status.'',
      DescribeHistogram REQUEST_DURATION_SECONDS UnitSeconds
        ''HTTP request latency by method, matched route template and status.'',
      DescribeGauge REQUESTS_IN_FLIGHT UnitCount
        ''In-flight HTTP requests by method and matched route template.'']"

text \<open>
  The builder of the recorder and the installed recorder are the exporter's; the last operation is
  the description of the process collector's own metrics.
\<close>

record ('b, 'r) recorder_crate =
  rc_new :: 'b
  rc_add_label :: "string \<Rightarrow> string \<Rightarrow> 'b \<Rightarrow> 'b"
  rc_set_buckets :: "string \<Rightarrow> nat list \<Rightarrow> 'b \<Rightarrow> ('b, string) result"
  rc_install :: "'b \<Rightarrow> ('r, string) result"
  rc_describe :: "description \<Rightarrow> 'r \<Rightarrow> 'r"
  rc_describe_process :: "'r \<Rightarrow> 'r"

definition init_metrics :: "('b, 'r) recorder_crate \<Rightarrow> string \<Rightarrow> ('r, metrics_error) result" where
  "init_metrics rc component =
     and_then (map_err MetricsBuckets (rc_set_buckets rc REQUEST_DURATION_SECONDS latency_buckets
         (rc_add_label rc ''component'' component (rc_new rc)))) (\<lambda>b.
     and_then (map_err MetricsInstall (rc_install rc b)) (\<lambda>recorder.
       Ok (fold (rc_describe rc) describe_http_metrics (rc_describe_process rc recorder))))"

text \<open>A request with its method, path and, when a route matched, the template of the route.\<close>

record request =
  rq_method :: string
  rq_path :: string
  rq_matched :: "string option"

definition route_label :: "request \<Rightarrow> string" where
  "route_label r = (case rq_matched r of None \<Rightarrow> unmatched_route | Some p \<Rightarrow> p)"

type_synonym label = "string \<times> string"

definition labels :: "request \<Rightarrow> label" where
  "labels r = (rq_method r, route_label r)"

record http_metrics =
  hm_in_flight :: "label \<Rightarrow> int"
  hm_total :: "label \<times> nat \<Rightarrow> nat"
  hm_seconds :: "label \<times> nat \<Rightarrow> duration list"

definition enter_flight :: "label \<Rightarrow> http_metrics \<Rightarrow> http_metrics" where
  "enter_flight l m = m\<lparr>hm_in_flight := (hm_in_flight m)(l := hm_in_flight m l + 1)\<rparr>"

definition leave_flight :: "label \<Rightarrow> http_metrics \<Rightarrow> http_metrics" where
  "leave_flight l m = m\<lparr>hm_in_flight := (hm_in_flight m)(l := hm_in_flight m l - 1)\<rparr>"

definition record_response :: "label \<Rightarrow> nat \<Rightarrow> duration \<Rightarrow> http_metrics \<Rightarrow> http_metrics" where
  "record_response l status elapsed m =
     m\<lparr>hm_total := (hm_total m)((l, status) := hm_total m (l, status) + 1),
       hm_seconds := (hm_seconds m)((l, status) := hm_seconds m (l, status) @ [elapsed])\<rparr>"

text \<open>
  A call makes a future. Its first poll enters the guard; it leaves the guard when it ends, however
  it ends: with a response, with an error of the inner service, by a panic, or because it is dropped.
\<close>

record http_server =
  hs_metrics :: http_metrics
  hs_called :: "request list"
  hs_running :: "request list"

definition http_start :: http_server where
  "http_start = \<lparr>hs_metrics = \<lparr>hm_in_flight = (\<lambda>_. 0), hm_total = (\<lambda>_. 0), hm_seconds = (\<lambda>_. [])\<rparr>,
     hs_called = [], hs_running = []\<rparr>"

datatype ending = Responded nat duration | Failed | Abandoned

definition call_request :: "request \<Rightarrow> http_server \<Rightarrow> http_server" where
  "call_request r s = s\<lparr>hs_called := r # hs_called s\<rparr>"

definition drop_unpolled :: "request \<Rightarrow> http_server \<Rightarrow> http_server" where
  "drop_unpolled r s = s\<lparr>hs_called := remove1 r (hs_called s)\<rparr>"

definition first_poll :: "request \<Rightarrow> http_server \<Rightarrow> http_server" where
  "first_poll r s = s\<lparr>hs_called := remove1 r (hs_called s), hs_running := r # hs_running s,
     hs_metrics := enter_flight (labels r) (hs_metrics s)\<rparr>"

definition end_request :: "request \<Rightarrow> ending \<Rightarrow> http_server \<Rightarrow> http_server" where
  "end_request r e s = s\<lparr>hs_running := remove1 r (hs_running s),
     hs_metrics := leave_flight (labels r) (case e of
         Responded status elapsed \<Rightarrow> record_response (labels r) status elapsed (hs_metrics s)
       | _ \<Rightarrow> hs_metrics s)\<rparr>"

inductive http_step :: "http_server \<Rightarrow> http_server \<Rightarrow> bool" where
  called: "http_step s (call_request r s)"
| dropped: "r \<in> set (hs_called s) \<Longrightarrow> http_step s (drop_unpolled r s)"
| polled: "r \<in> set (hs_called s) \<Longrightarrow> http_step s (first_poll r s)"
| ended: "r \<in> set (hs_running s) \<Longrightarrow> http_step s (end_request r e s)"

inductive http_reachable :: "http_server \<Rightarrow> bool" where
  start: "http_reachable http_start"
| later: "http_reachable s \<Longrightarrow> http_step s t \<Longrightarrow> http_reachable t"

end
