(* ===== verification/Observability_Correct.thy ===== *)
theory Observability_Correct
  imports Observability
begin

text \<open>
  A log line's canonical keys are the formatter's own, the gauge of requests in flight counts exactly
  the requests that are, and initialising logging again changes nothing.
\<close>

section \<open>Log lines\<close>

lemma canonical_get:
  "bm_get (canonical_keys ts component lvl msg) = (\<lambda>k.
     if k = ''ts'' then Some (JStr ts) else if k = ''level'' then Some (JStr lvl)
     else if k = ''component'' then Some (JStr component)
     else if k = ''msg'' then map_option JStr msg else None)"
  by (cases msg; rule ext) (simp_all add: canonical_keys_def del: bm_insert.simps)

lemma canonical_other: "k \<notin> set reserved_keys \<Longrightarrow> bm_get (canonical_keys ts component lvl msg) k = None"
  by (simp add: canonical_get reserved_keys_def)

lemma reserved_names: "''ts'' \<in> set reserved_keys" "''level'' \<in> set reserved_keys"
    "''component'' \<in> set reserved_keys" "''msg'' \<in> set reserved_keys"
  by (simp_all add: reserved_keys_def)

lemma canonical_ok: "bm_ok (canonical_keys ts component lvl msg)"
  by (cases msg) (auto simp: canonical_keys_def simp del: bm_insert.simps)

lemma fold_fields:
  assumes "bm_ok m" and "distinct (map fst fs)"
  shows "bm_ok (fold carry_field fs m)"
    and "bm_get (fold carry_field fs m)
      = (\<lambda>k. if k \<in> set reserved_keys then bm_get m k
             else case bm_get fs k of Some x \<Rightarrow> Some x | None \<Rightarrow> bm_get m k)"
proof -
  show "bm_ok (fold carry_field fs m)"
    using assms(1) by (induction fs arbitrary: m) (auto simp del: bm_insert.simps)
  show "bm_get (fold carry_field fs m)
      = (\<lambda>k. if k \<in> set reserved_keys then bm_get m k
             else case bm_get fs k of Some x \<Rightarrow> Some x | None \<Rightarrow> bm_get m k)"
    using assms(2)
  proof (induction fs arbitrary: m)
    case (Cons f fs)
    obtain k x where f: "f = (k, x)"
      by (cases f)
    have fresh: "bm_get fs k = None"
      using Cons.prems by (simp add: f map_of_eq_None_iff)
    have "distinct (map fst fs)"
      using Cons.prems by simp
    note ih = Cons.IH [OF this]
    show ?case
      using fresh by (cases "k \<in> set reserved_keys") (auto simp: f fun_eq_iff ih simp del: bm_insert.simps
          split: option.split)
  qed (simp add: fun_eq_iff)
qed

lemma record_value_ok: "bm_ok (jv_fields j) \<Longrightarrow> bm_ok (jv_fields (record_value name v j))"
  by (cases v) (auto simp: record_message_def record_field_def record_f64_def simp del: bm_insert.simps)

lemma record_event_ok: "bm_ok (jv_fields (record_event event))"
proof -
  have "bm_ok (jv_fields j) \<Longrightarrow> bm_ok (jv_fields (fold (\<lambda>(name, v). record_value name v) event j))" for j
    by (induction event arbitrary: j) (auto simp: record_value_ok)
  then show ?thesis
    by (simp add: record_event_def visitor_default_def)
qed

text \<open>
  Whatever fields an event carries, its line is an object whose time, level and component are the
  formatter's and whose message is the one recorded first; every other field is carried as
  recorded, and a field of one of those names is dropped.
\<close>

theorem log_line_exact:
  "\<exists>m. render_line ts component lvl (record_event event) = JObj m \<and> bm_ok m
     \<and> bm_get m ''ts'' = Some (JStr ts) \<and> bm_get m ''level'' = Some (JStr lvl)
     \<and> bm_get m ''component'' = Some (JStr component)
     \<and> bm_get m ''msg'' = map_option JStr (jv_message (record_event event))
     \<and> bm_get (filter (\<lambda>(k, _). k \<notin> set reserved_keys) m)
        = bm_get (filter (\<lambda>(k, _). k \<notin> set reserved_keys) (jv_fields (record_event event)))"
proof -
  let ?fs = "jv_fields (record_event event)"
  let ?m = "fold carry_field ?fs
     (canonical_keys ts component lvl (jv_message (record_event event)))"
  note ok = fold_fields [OF canonical_ok [of ts component lvl "jv_message (record_event event)"]
      bm_ok_distinct [OF record_event_ok [of event]]]
  have only: "bm_get (filter (\<lambda>(k, _). P k) fs) k = (if P k then bm_get fs k else None)" for P fs and k :: string
    by (induction fs) auto
  show ?thesis
  proof (intro exI [of _ ?m] conjI)
    show "bm_get (filter (\<lambda>(k, _). k \<notin> set reserved_keys) ?m) = bm_get (filter (\<lambda>(k, _). k \<notin> set reserved_keys) ?fs)"
      by (rule ext) (simp add: only ok(2) canonical_other split: option.split)
  qed (simp_all add: render_line_def ok canonical_get reserved_names)
qed

lemma first_message:
  "record_event ((''message'', FStr s) # event) = fold (\<lambda>(name, v). record_value name v) event
     \<lparr>jv_message = Some s, jv_fields = []\<rparr>"
  by (simp add: record_event_def visitor_default_def record_message_def)

section \<open>Requests in flight\<close>

definition flying :: "request list \<Rightarrow> label \<Rightarrow> nat" where
  "flying rs l = length (filter (\<lambda>r. labels r = l) rs)"

definition flight_inv :: "http_server \<Rightarrow> bool" where
  "flight_inv s \<longleftrightarrow> (\<forall>l. hm_in_flight (hs_metrics s) l = int (flying (hs_running s) l))
     \<and> (\<forall>k. hm_total (hs_metrics s) k = length (hm_seconds (hs_metrics s) k))"

lemma flight_inv_start: "flight_inv http_start"
  by (simp add: flight_inv_def http_start_def flying_def)

lemma flying_remove1:
  assumes "r \<in> set rs"
  shows "int (flying (remove1 r rs) l) = int (flying rs l) - (if l = labels r then 1 else 0)"
proof -
  have "flying (remove1 r rs) l = (if l = labels r then flying rs l - 1 else flying rs l)"
    using assms by (auto simp: flying_def filter_remove1 length_remove1)
  moreover have "0 < flying rs (labels r)"
    using assms by (auto simp: flying_def filter_empty_conv)
  ultimately show ?thesis
    by auto
qed

lemma flying_Cons: "flying (r # rs) l = flying rs l + (if l = labels r then 1 else 0)"
  by (simp add: flying_def)

lemma flight_inv_step: "http_step s t \<Longrightarrow> flight_inv s \<Longrightarrow> flight_inv t"
proof (induction rule: http_step.induct)
  case (ended r s e)
  then show ?case
    by (cases e) (simp_all add: flight_inv_def end_request_def leave_flight_def record_response_def flying_remove1
        del: split_paired_All)
qed (simp_all add: flight_inv_def call_request_def drop_unpolled_def first_poll_def enter_flight_def flying_Cons
    del: split_paired_All)

lemma flight_inv_reachable: "http_reachable s \<Longrightarrow> flight_inv s"
  by (induction rule: http_reachable.induct) (auto intro: flight_inv_start flight_inv_step)

text \<open>C22: In every state the server reaches, the gauge of each method and route is the number of requests of
  that method and route being served, whatever way others ended, by an answer, an error, a panic or
  by being dropped; so it is zero when none is; and each counter is the number of latencies recorded.
\<close>

theorem in_flight_is_exact:
  "http_reachable s \<Longrightarrow>
     hm_in_flight (hs_metrics s) l = int (length (filter (\<lambda>r. labels r = l) (hs_running s)))
     \<and> (hs_running s = [] \<longrightarrow> hm_in_flight (hs_metrics s) l = 0)
     \<and> hm_total (hs_metrics s) (l, status) = length (hm_seconds (hs_metrics s) (l, status))"
proof -
  assume "http_reachable s"
  then have inv: "flight_inv s"
    by (rule flight_inv_reachable)
  then show ?thesis
    by (simp add: flight_inv_def flying_def del: split_paired_All)
qed

lemma in_flight_is_exact_witness:
  "hm_in_flight (hs_metrics (end_request \<lparr>rq_method = ''GET'', rq_path = ''/a'', rq_matched = None\<rparr> Failed
     (first_poll \<lparr>rq_method = ''GET'', rq_path = ''/a'', rq_matched = None\<rparr>
       (call_request \<lparr>rq_method = ''GET'', rq_path = ''/a'', rq_matched = None\<rparr> http_start)))) (''GET'', unmatched_route) = 0"
proof -
  let ?r = "\<lparr>rq_method = ''GET'', rq_path = ''/a'', rq_matched = None\<rparr>"
  let ?s = "end_request ?r Failed (first_poll ?r (call_request ?r http_start))"
  have "http_reachable (call_request ?r http_start)"
    by (rule http_reachable.later [OF http_reachable.start http_step.called])
  then have "http_reachable (first_poll ?r (call_request ?r http_start))"
    by (rule http_reachable.later) (rule http_step.polled, simp add: call_request_def)
  then have "http_reachable ?s"
    by (rule http_reachable.later) (rule http_step.ended, simp add: first_poll_def)
  moreover have "hs_running ?s = []"
    by (simp add: end_request_def first_poll_def call_request_def http_start_def)
  ultimately show ?thesis
    using in_flight_is_exact [of ?s] by blast
qed

section \<open>Labels\<close>

lemma reach_methods:
  "distinct ms \<Longrightarrow> \<exists>s. http_reachable s \<and> hs_called s = []
     \<and> hs_running s = map (\<lambda>m. \<lparr>rq_method = m, rq_path = ''/'', rq_matched = None\<rparr>) ms"
proof (induction ms)
  case Nil
  then show ?case
    by (intro exI [of _ http_start] conjI http_reachable.start) (simp_all add: http_start_def)
next
  case (Cons m ms)
  then obtain s where s: "http_reachable s" "hs_called s = []"
      "hs_running s = map (\<lambda>m. \<lparr>rq_method = m, rq_path = ''/'', rq_matched = None\<rparr>) ms"
    by auto
  let ?r = "\<lparr>rq_method = m, rq_path = ''/'', rq_matched = None\<rparr>"
  have "http_reachable (call_request ?r s)"
    using s(1) by (rule http_reachable.later) (rule http_step.called)
  then have "http_reachable (first_poll ?r (call_request ?r s))"
    by (rule http_reachable.later) (rule http_step.polled, simp add: call_request_def)
  then show ?case
    using s(2,3) by (intro exI [of _ "first_poll ?r (call_request ?r s)"])
      (simp add: first_poll_def call_request_def)
qed

text \<open>C33: The route of a label is a template or the one sentinel, whatever the path; but its method is the
  client's own word: any number of series exists in some reachable state, one for each method sent.
\<close>

theorem labels_follow_methods:
  "(rq_method r = rq_method r' \<and> rq_matched r = rq_matched r' \<longrightarrow> labels r = labels r')
   \<and> (\<exists>s. http_reachable s \<and> n \<le> card {l. hm_in_flight (hs_metrics s) l \<noteq> 0})"
proof
  show "rq_method r = rq_method r' \<and> rq_matched r = rq_matched r' \<longrightarrow> labels r = labels r'"
    by (simp add: labels_def route_label_def)
  let ?ms = "map (\<lambda>i. replicate i CHR ''A'') [1..<n + 1]"
  have "inj_on (\<lambda>i. replicate i CHR ''A'') {1..<n + 1}"
    by (rule inj_onI) (metis length_replicate)
  then have "distinct ?ms"
    by (simp only: distinct_map set_upt distinct_upt)
  then obtain s where s: "http_reachable s"
      "hs_running s = map (\<lambda>m. \<lparr>rq_method = m, rq_path = ''/'', rq_matched = None\<rparr>) ?ms"
    using reach_methods by blast
  have inv: "flight_inv s"
    using s(1) by (rule flight_inv_reachable)
  then have shown: "{l. hm_in_flight (hs_metrics s) l \<noteq> 0} = labels ` set (hs_running s)"
    by (auto simp: flight_inv_def flying_def filter_empty_conv simp del: split_paired_All intro: rev_image_eqI)
  have "labels ` set (hs_running s) = (\<lambda>m. (m, unmatched_route)) ` set ?ms"
    by (auto simp: s(2) labels_def route_label_def image_image)
  also have "card \<dots> = card (set ?ms)"
    by (rule card_image) (simp add: inj_on_def)
  also have "\<dots> = n"
    using distinct_card [OF \<open>distinct ?ms\<close>] by simp
  finally have "n \<le> card {l. hm_in_flight (hs_metrics s) l \<noteq> 0}"
    by (simp add: shown)
  then show "\<exists>s. http_reachable s \<and> n \<le> card {l. hm_in_flight (hs_metrics s) l \<noteq> 0}"
    using s(1) by blast
qed

lemma labels_follow_methods_witness:
  "labels \<lparr>rq_method = ''GET'', rq_path = ''/users/1'', rq_matched = Some ''/users/{id}''\<rparr>
     = labels \<lparr>rq_method = ''GET'', rq_path = ''/users/2'', rq_matched = Some ''/users/{id}''\<rparr>"
  using labels_follow_methods [of "\<lparr>rq_method = ''GET'', rq_path = ''/users/1'', rq_matched = Some ''/users/{id}''\<rparr>"
      "\<lparr>rq_method = ''GET'', rq_path = ''/users/2'', rq_matched = Some ''/users/{id}''\<rparr>" 0] by simp

section \<open>Initialisation\<close>

text \<open>However often logging is initialised, the first call decides, and each later one says so once.\<close>

lemma first_logging_stands:
  "fold (init_logging from_env filter_of) (c # cs) \<lparr>lg_subscriber = None, lg_stderr = out\<rparr>
     = \<lparr>lg_subscriber = Some (case from_env of Ok f \<Rightarrow> f | Err _ \<Rightarrow> filter_of ''info'', c),
        lg_stderr = out @ map (\<lambda>c. c @ '': tracing subscriber already initialised, continuing'') cs\<rparr>"
proof -
  have "fold (init_logging from_env filter_of) cs \<lparr>lg_subscriber = Some s, lg_stderr = out\<rparr>
      = \<lparr>lg_subscriber = Some s,
         lg_stderr = out @ map (\<lambda>c. c @ '': tracing subscriber already initialised, continuing'') cs\<rparr>" for s
    by (induction cs arbitrary: out) (simp_all add: init_logging_def)
  then show ?thesis
    by (simp add: init_logging_def)
qed

text \<open>The exporter refuses an empty list of buckets only, so what can fail is the installation.\<close>

lemma init_metrics_fails_on_install:
  assumes "\<And>name bs b. bs \<noteq> [] \<Longrightarrow> \<exists>b'. rc_set_buckets rc name bs b = Ok b'"
    and "init_metrics rc component = Err e"
  shows "\<exists>x. e = MetricsInstall x"
proof -
  obtain b where "rc_set_buckets rc REQUEST_DURATION_SECONDS latency_buckets
      (rc_add_label rc ''component'' component (rc_new rc)) = Ok b"
    using assms(1) by (metis latency_buckets_def list.distinct(1))
  then show ?thesis
    using assms(2) by (cases "rc_install rc b") (auto simp: init_metrics_def)
qed

lemma latency_buckets_sorted: "sorted_wrt (<) latency_buckets"
  by (simp add: latency_buckets_def)

end
