(* ===== verification/Conformance.thy ===== *)
theory Conformance
  imports Values_Correct
begin

text \<open>
  The conformance check of a product's locale (\<^verbatim>\<open>br-core-values/src/conformance.rs\<close>):
  the serialiser that captures a single string, the assertion, and what a locale that passes it
  gives. The locale's serde implementations are parameters.
\<close>

section \<open>Values of serde\<close>

text \<open>What a value asks its serialiser for; the contents of the refused forms do not matter.\<close>

datatype serde_value =
  SerBool | SerI8 | SerI16 | SerI32 | SerI64 | SerU8 | SerU16 | SerU32 | SerU64 | SerF32 | SerF64
| SerChar | SerStr string | SerBytes | SerNone | SerSome serde_value | SerUnit | SerUnitStruct
| SerUnitVariant string | SerNewtypeStruct serde_value | SerNewtypeVariant | SerSeq | SerTuple
| SerTupleStruct | SerTupleVariant | SerMap | SerStruct | SerStructVariant

definition not_a_string :: "string \<Rightarrow> string" where
  "not_a_string what = ''expected a single string, got '' @ what"

fun serialize_to_string :: "serde_value \<Rightarrow> (string, string) result" where
  "serialize_to_string (SerStr v) = Ok v"
| "serialize_to_string (SerUnitVariant v) = Ok v"
| "serialize_to_string SerBool = Err (not_a_string ''a bool'')"
| "serialize_to_string SerI8 = Err (not_a_string ''an integer'')"
| "serialize_to_string SerI16 = Err (not_a_string ''an integer'')"
| "serialize_to_string SerI32 = Err (not_a_string ''an integer'')"
| "serialize_to_string SerI64 = Err (not_a_string ''an integer'')"
| "serialize_to_string SerU8 = Err (not_a_string ''an integer'')"
| "serialize_to_string SerU16 = Err (not_a_string ''an integer'')"
| "serialize_to_string SerU32 = Err (not_a_string ''an integer'')"
| "serialize_to_string SerU64 = Err (not_a_string ''an integer'')"
| "serialize_to_string SerF32 = Err (not_a_string ''a float'')"
| "serialize_to_string SerF64 = Err (not_a_string ''a float'')"
| "serialize_to_string SerChar = Err (not_a_string ''a char'')"
| "serialize_to_string SerBytes = Err (not_a_string ''bytes'')"
| "serialize_to_string SerNone = Err (not_a_string ''none'')"
| "serialize_to_string (SerSome _) = Err (not_a_string ''some'')"
| "serialize_to_string SerUnit = Err (not_a_string ''unit'')"
| "serialize_to_string SerUnitStruct = Err (not_a_string ''a unit struct'')"
| "serialize_to_string (SerNewtypeStruct v) = serialize_to_string v"
| "serialize_to_string SerNewtypeVariant = Err (not_a_string ''a newtype variant'')"
| "serialize_to_string SerSeq = Err (not_a_string ''a sequence'')"
| "serialize_to_string SerTuple = Err (not_a_string ''a tuple'')"
| "serialize_to_string SerTupleStruct = Err (not_a_string ''a tuple struct'')"
| "serialize_to_string SerTupleVariant = Err (not_a_string ''a tuple variant'')"
| "serialize_to_string SerMap = Err (not_a_string ''a map'')"
| "serialize_to_string SerStruct = Err (not_a_string ''a struct'')"
| "serialize_to_string SerStructVariant = Err (not_a_string ''a struct variant'')"

section \<open>The assertion\<close>

text \<open>A panic is \<open>None\<close>.\<close>

fun assert_lowercase_roundtrip ::
    "('l \<Rightarrow> serde_value) \<Rightarrow> (string \<Rightarrow> ('l, string) result) \<Rightarrow> 'l list \<Rightarrow> unit option" where
  "assert_lowercase_roundtrip serialize deserialize [] = Some ()"
| "assert_lowercase_roundtrip serialize deserialize (locale # locales) =
     (case serialize_to_string (serialize locale) of
        Err _ \<Rightarrow> None
      | Ok wire \<Rightarrow>
          if \<not> (wire \<noteq> [] \<and> list_all is_ascii_lowercase wire) then None
          else (case deserialize wire of
              Err _ \<Rightarrow> None
            | Ok read \<Rightarrow> if read = locale then assert_lowercase_roundtrip serialize deserialize locales
                else None))"

definition conforms :: "('l \<Rightarrow> serde_value) \<Rightarrow> (string \<Rightarrow> ('l, string) result) \<Rightarrow> 'l \<Rightarrow> bool" where
  "conforms serialize deserialize l \<longleftrightarrow> (\<exists>wire. serialize_to_string (serialize l) = Ok wire
     \<and> wire \<noteq> [] \<and> list_all is_ascii_lowercase wire \<and> deserialize wire = Ok l)"

lemma assert_iff:
  "assert_lowercase_roundtrip serialize deserialize ls = Some () \<longleftrightarrow> (\<forall>l\<in>set ls. conforms serialize deserialize l)"
  by (induction ls) (auto simp: conforms_def split: sum.splits)

text \<open>
  The JSON form of a value is a string when the value asks for one, and a string is read as the
  deserialiser of strings reads it: what \<^verbatim>\<open>serde_json\<close> documents.
\<close>

definition json_agrees ::
    "('l \<Rightarrow> serde_value) \<Rightarrow> (string \<Rightarrow> ('l, string) result) \<Rightarrow> ('l \<Rightarrow> json) \<Rightarrow> 'l decoder \<Rightarrow> bool" where
  "json_agrees serialize deserialize enc dec \<longleftrightarrow>
     (\<forall>l w. serialize_to_string (serialize l) = Ok w \<longrightarrow> enc l = JStr w) \<and> (\<forall>s. dec (JStr s) = deserialize s)"

lemma conforms_reads_back:
  "json_agrees serialize deserialize enc dec \<Longrightarrow> conforms serialize deserialize l \<Longrightarrow> dec (enc l) = Ok l"
  by (auto simp: json_agrees_def conforms_def)

text \<open>C37: The check passes exactly when every listed locale has a lower-case text that reads back as itself;
  a locale that passes it for all its values makes every localized text over them read back from
  its JSON form, and no two of them share a text.
\<close>

theorem conformance_is_enough:
  assumes "json_agrees serialize deserialize enc dec"
    and "assert_lowercase_roundtrip serialize deserialize ls = Some ()"
  shows "(\<forall>l\<in>set ls. conforms serialize deserialize l) \<and> inj_on enc (set ls)
    \<and> (\<forall>t. localized_ok t \<and> le_locale ` set (lo_entries t) \<subseteq> set ls
          \<longrightarrow> localized_decoder dec (localized_json enc t) = Ok t)"
proof -
  have conform: "\<forall>l\<in>set ls. conforms serialize deserialize l"
    using assms(2) by (simp add: assert_iff)
  then have same: "dec (enc l) = Ok l" if "l \<in> set ls" for l
    using conforms_reads_back [OF assms(1)] that by blast
  have "inj_on enc (set ls)"
    by (rule inj_onI) (metis same sum.inject(2))
  moreover have "localized_decoder dec (localized_json enc t) = Ok t"
    if "localized_ok t" "le_locale ` set (lo_entries t) \<subseteq> set ls" for t
    using that same by (intro localized_reads_back) (auto simp: localized_ok_def)
  ultimately show ?thesis
    using conform by blast
qed

lemma conformance_is_enough_witness:
  "localized_decoder str_decoder (localized_json JStr (localized_set ''fr'' ''b'' (localized_new ''en'' ''a'')))
     = Ok (localized_set ''fr'' ''b'' (localized_new ''en'' ''a''))"
proof -
  have agrees: "json_agrees SerStr Ok JStr str_decoder"
    by (simp add: json_agrees_def)
  have passes: "assert_lowercase_roundtrip SerStr Ok [''en'', ''fr''] = Some ()"
    by (simp add: is_ascii_lowercase_def byte_def)
  have ok: "localized_ok (localized_set ''fr'' ''b'' (localized_new ''en'' ''a''))"
    by (rule localized_ok_set) (simp add: localized_ok_def localized_new_def)
  have "le_locale ` set (lo_entries (localized_set ''fr'' ''b'' (localized_new ''en'' ''a''))) \<subseteq> set [''en'', ''fr'']"
    by (simp add: localized_set_def localized_new_def)
  then show ?thesis
    using conformance_is_enough [OF agrees passes] ok by blast
qed

end
