(* ===== verification/Relay_Metric.thy ===== *)
theory Relay_Metric
  imports Outbox_Correct
begin

text \<open>
  The counter of duplicate publishes (\<^verbatim>\<open>br-util-nats-fabric/src/outbox/duplicate_counter.rs\<close>)
  beside the passes of the relay. An iteration counts a duplicate when its commit went through and the
  acknowledgement was a duplicate, which is when its pass counts one.
\<close>

text \<open>Whether the counter was described, and its value.\<close>

record duplicate_metric =
  dm_described :: bool
  dm_total :: u64

definition OUTBOX_RELAY_DUPLICATES_TOTAL :: string where
  "OUTBOX_RELAY_DUPLICATES_TOTAL = ''outbox_relay_duplicates_total''"

definition register_duplicates :: "duplicate_metric \<Rightarrow> duplicate_metric" where
  "register_duplicates m = m\<lparr>dm_described := True, dm_total := dm_total m + 0\<rparr>"

definition record_duplicate :: "duplicate_metric \<Rightarrow> duplicate_metric" where
  "record_duplicate m = m\<lparr>dm_total := dm_total m + 1\<rparr>"

definition metered_one :: "'b relay \<Rightarrow> relay_env \<Rightarrow> uuid \<Rightarrow> outbox_table \<Rightarrow> 'b \<Rightarrow> relay_pass \<Rightarrow> duplicate_metric
    \<Rightarrow> (uuid option, store_error) result \<times> outbox_table \<times> 'b \<times> relay_pass \<times> duplicate_metric" where
  "metered_one rl env after t b pass m =
     (case process_one rl env after t b pass of (res, t', b', pass') \<Rightarrow>
        (res, t', b', pass', if p_duplicates pass < p_duplicates pass' then record_duplicate m else m))"

fun metered_loop :: "'b relay \<Rightarrow> (nat \<Rightarrow> relay_env) \<Rightarrow> nat \<Rightarrow> nat \<Rightarrow> uuid \<Rightarrow> outbox_table \<Rightarrow> 'b
    \<Rightarrow> relay_pass \<Rightarrow> duplicate_metric
    \<Rightarrow> ((relay_pass, store_error) result \<times> outbox_table \<times> 'b) \<times> duplicate_metric" where
  "metered_loop rl envs i 0 cursor t b pass m = ((Ok pass, t, b), m)"
| "metered_loop rl envs i (Suc n) cursor t b pass m =
     (case metered_one rl (envs i) cursor t b pass m of
        (Err e, t', b', _, m') \<Rightarrow> ((Err e, t', b'), m')
      | (Ok None, t', b', pass', m') \<Rightarrow> ((Ok pass', t', b'), m')
      | (Ok (Some k), t', b', pass', m') \<Rightarrow> metered_loop rl envs (Suc i) n k t' b' pass' m')"

definition metered_pass :: "'b relay \<Rightarrow> (nat \<Rightarrow> relay_env) \<Rightarrow> outbox_table \<Rightarrow> 'b \<Rightarrow> duplicate_metric
    \<Rightarrow> ((relay_pass, store_error) result \<times> outbox_table \<times> 'b) \<times> duplicate_metric" where
  "metered_pass rl envs t b m = metered_loop rl envs 0 (relay_cap rl) 0 t b pass_default m"

text \<open>How many duplicates were counted since another value.\<close>

definition counted_since :: "relay_pass \<Rightarrow> duplicate_metric \<Rightarrow> relay_pass \<Rightarrow> duplicate_metric \<Rightarrow> bool" where
  "counted_since pass m pass' m' \<longleftrightarrow> p_duplicates pass \<le> p_duplicates pass'
     \<and> m' = m\<lparr>dm_total := dm_total m + of_nat (p_duplicates pass' - p_duplicates pass)\<rparr>"

lemma counted_duplicates:
  "p_duplicates (counted_pass rl p pr pass) = p_duplicates pass
     \<or> p_duplicates (counted_pass rl p pr pass) = p_duplicates pass + 1"
  by (cases pr; cases pass) (auto simp: counted_pass_def classify_pass_def Let_def split: option.splits)

lemma metered_one_counts:
  assumes "metered_one rl env after t b pass m = (res, t', b', pass', m')"
  shows "process_one rl env after t b pass = (res, t', b', pass') \<and> counted_since pass m pass' m'"
proof -
  have one: "process_one rl env after t b pass = (res, t', b', pass')"
    and m': "m' = (if p_duplicates pass < p_duplicates pass' then record_duplicate m else m)"
    using assms by (auto simp: metered_one_def split: prod.splits)
  have "p_duplicates pass' = p_duplicates pass \<or> p_duplicates pass' = p_duplicates pass + 1"
    using one by (cases rule: process_one_cases) (use counted_duplicates in \<open>metis+\<close>)
  then show ?thesis
    using one by (auto simp: counted_since_def m' record_duplicate_def)
qed

lemma counted_since_trans:
  "counted_since p m p1 m1 \<Longrightarrow> counted_since p1 m1 p2 m2 \<Longrightarrow> counted_since p m p2 m2"
  by (auto simp: counted_since_def of_nat_diff)

lemma metered_loop_counts:
  assumes "metered_loop rl envs i n cursor t b pass m = ((res, t', b'), m')"
  shows "relay_loop rl envs i n cursor t b pass = (res, t', b')
    \<and> (\<exists>pass'. counted_since pass m pass' m' \<and> (\<forall>p. res = Ok p \<longrightarrow> p = pass'))"
  using assms
proof (induction n arbitrary: i cursor t b pass m)
  case 0
  then show ?case
    by (auto simp: counted_since_def)
next
  case (Suc n)
  obtain res1 t1 b1 pass1 m1 where one: "metered_one rl (envs i) cursor t b pass m = (res1, t1, b1, pass1, m1)"
    by (cases "metered_one rl (envs i) cursor t b pass m")
  note count = metered_one_counts [OF one]
  show ?case
  proof (cases "\<exists>k. res1 = Ok (Some k)")
    case True
    then obtain k where k: "res1 = Ok (Some k)" by blast
    then have rest: "metered_loop rl envs (Suc i) n k t1 b1 pass1 m1 = ((res, t', b'), m')"
      using Suc.prems one by simp
    show ?thesis
      using Suc.IH [OF rest] count k counted_since_trans by fastforce
  next
    case False
    then show ?thesis
      using Suc.prems one count by (auto split: sum.splits option.splits)
  qed
qed

text \<open>
  Counting changes nothing of a pass, and the counter moves by exactly the duplicates that the report
  of the pass names; when a pass fails, what it had counted before stands.
\<close>

theorem duplicate_metric_exact:
  assumes "metered_pass rl envs t b m = ((res, t', b'), m')"
  shows "run_once_detailed rl envs t b = (res, t', b') \<and> dm_described m' = dm_described m
    \<and> (\<exists>k. dm_total m' = dm_total m + of_nat k \<and> (\<forall>pass. res = Ok pass \<longrightarrow> k = p_duplicates pass))"
  using metered_loop_counts [OF assms [unfolded metered_pass_def]]
  by (auto simp: run_once_detailed_def counted_since_def pass_default_def)

lemma duplicate_metric_exact_witness:
  "dm_total (snd (metered_pass log_relay (\<lambda>_. calm_env) [] [] (register_duplicates \<lparr>dm_described = False, dm_total = 7\<rparr>))) = 7"
proof -
  obtain res t' b' m' where run: "metered_pass log_relay (\<lambda>_. calm_env) [] [] (register_duplicates \<lparr>dm_described = False, dm_total = 7\<rparr>)
      = ((res, t', b'), m')"
    by (metis surj_pair)
  have idle: "run_once_detailed log_relay (\<lambda>_. calm_env) [] [] = (Ok pass_default, [], [])"
    by (simp add: run_once_detailed_def relay_cap_def log_relay_def process_one_def calm_env_def fetch_one_pending_def commit_def)
  have "res = Ok pass_default"
    using duplicate_metric_exact [OF run] idle by simp
  then show ?thesis
    using duplicate_metric_exact [OF run] run by (auto simp: pass_default_def register_duplicates_def)
qed

end
