(* ===== verification/Event_Path.thy ===== *)
theory Event_Path
  imports Outbox_Correct Consumer_Correct
begin

text \<open>
  The way of an event across the crates: staged in the outbox of one service, relayed to the broker,
  decoded by the consumer of another and handed to its handler.
\<close>

section \<open>What the broker stores\<close>

text \<open>
  The messages that were ever stored, each with its subject, its message id and its payload. A publish
  adds at most its own message, and one that is acknowledged leaves a message under its id: its own,
  or the earlier one it was a duplicate of.
\<close>

type_synonym stored_message = "string \<times> string \<times> string"

definition broker_stores :: "'b jet_context \<Rightarrow> ('b \<Rightarrow> stored_message set) \<Rightarrow> bool" where
  "broker_stores ctx stored \<longleftrightarrow> (\<forall>subject mid bytes b.
     case jc_publish ctx subject [(nats_message_id, mid)] bytes b of (r, b') \<Rightarrow>
       stored b \<subseteq> stored b' \<and> stored b' \<subseteq> insert (subject, mid, bytes) (stored b)
       \<and> (\<forall>a. r = Ok (Ok a) \<longrightarrow> (\<exists>s bs. (s, mid, bs) \<in> stored b')))"

lemma publish_row_stores:
  assumes "broker_stores (rl_context rl) stored" and "publish_row rl p b = (pr, b')"
  defines "mid \<equiv> uuid_show (rl_codec rl) (fst (message_id_for (rl_codec rl) (po_id p) (po_payload p)))"
  shows "stored b \<subseteq> stored b'"
    and "x \<in> stored b' \<Longrightarrow> x \<in> stored b
      \<or> (\<exists>bytes. rl_to_vec rl (po_payload p) = Ok bytes \<and> x = (event_subject (po_destination p), mid, bytes))"
    and "is_ok pr \<Longrightarrow> \<exists>s bs. (s, mid, bs) \<in> stored b'"
proof -
  have "stored b \<subseteq> stored b' \<and> (\<forall>x\<in>stored b'. x \<in> stored b
      \<or> (\<exists>bytes. rl_to_vec rl (po_payload p) = Ok bytes \<and> x = (event_subject (po_destination p), mid, bytes)))
    \<and> (is_ok pr \<longrightarrow> (\<exists>s bs. (s, mid, bs) \<in> stored b'))"
  proof (cases "rl_to_vec rl (po_payload p)")
    case (Inl e)
    then have "b' = b \<and> pr = Err (FabSerialization e)"
      using assms(2) by (auto simp: publish_row_def publish_event_value_with_id_def publish_with_id_def)
    then show ?thesis
      by simp
  next
    case (Inr bytes)
    obtain r b1 where pub: "jc_publish (rl_context rl) (event_subject (po_destination p)) [(nats_message_id, mid)] bytes b = (r, b1)"
      by (cases "jc_publish (rl_context rl) (event_subject (po_destination p)) [(nats_message_id, mid)] bytes b")
    have "case jc_publish (rl_context rl) (event_subject (po_destination p)) [(nats_message_id, mid)] bytes b of (r, b') \<Rightarrow>
        stored b \<subseteq> stored b' \<and> stored b' \<subseteq> insert (event_subject (po_destination p), mid, bytes) (stored b)
        \<and> (\<forall>a. r = Ok (Ok a) \<longrightarrow> (\<exists>s bs. (s, mid, bs) \<in> stored b'))"
      using assms(1) unfolding broker_stores_def by (elim allE)
    then have law: "stored b \<subseteq> stored b1" "stored b1 \<subseteq> insert (event_subject (po_destination p), mid, bytes) (stored b)"
        "\<forall>a. r = Ok (Ok a) \<longrightarrow> (\<exists>s bs. (s, mid, bs) \<in> stored b1)"
      unfolding pub prod.case by - (elim conjE, assumption)+
    have "b' = b1 \<and> (is_ok pr \<longrightarrow> (\<exists>a. r = Ok (Ok a)))"
      using assms(2) Inr pub
      by (auto simp: publish_row_def publish_event_value_with_id_def publish_with_id_def mid_def split: sum.splits)
    then show ?thesis
      using law Inr by blast
  qed
  then show "stored b \<subseteq> stored b'"
    and "x \<in> stored b' \<Longrightarrow> x \<in> stored b
      \<or> (\<exists>bytes. rl_to_vec rl (po_payload p) = Ok bytes \<and> x = (event_subject (po_destination p), mid, bytes))"
    and "is_ok pr \<Longrightarrow> \<exists>s bs. (s, mid, bs) \<in> stored b'"
    by blast+
qed

section \<open>The row of the event\<close>

text \<open>
  The row \<open>i\<close> keeps its destination and payload; its message id is no other pending row's; what is
  stored under that id is its message; and something is stored once the row is published.
\<close>

definition on_its_way :: "'b relay \<Rightarrow> ('b \<Rightarrow> stored_message set) \<Rightarrow> uuid \<Rightarrow> event_coords \<Rightarrow> json
    \<Rightarrow> outbox_table \<Rightarrow> 'b \<Rightarrow> bool" where
  "on_its_way rl stored i coords payload t b \<longleftrightarrow>
     (let mid = uuid_show (rl_codec rl) (fst (message_id_for (rl_codec rl) i payload)) in
       bm_ok t
       \<and> (\<exists>r. bm_get t i = Some r \<and> row_subject r = event_subject coords \<and> row_payload r = payload
            \<and> (row_status r = ''PUBLISHED'' \<longrightarrow> (\<exists>s bs. (s, mid, bs) \<in> stored b)))
       \<and> (\<forall>k r. bm_get t k = Some r \<and> row_status r = ''PENDING'' \<and> relayed_id (rl_codec rl) k r = mid \<longrightarrow> k = i)
       \<and> (\<forall>s bs. (s, mid, bs) \<in> stored b \<longrightarrow> s = event_subject coords \<and> rl_to_vec rl payload = Ok bs))"

lemma on_its_way_step:
  assumes stores: "broker_stores (rl_context rl) stored" and wf: "event_coords_wf coords"
    and way: "on_its_way rl stored i coords payload t b"
    and one: "process_one rl env cursor t b pass = (res, t', b', pass')"
  shows "on_its_way rl stored i coords payload t' b'"
  using one
proof (cases rule: process_one_cases)
  case idle
  then show ?thesis
    using way by simp
next
  case (attempt k q p pr)
  define mid where "mid = uuid_show (rl_codec rl) (fst (message_id_for (rl_codec rl) i payload))"
  obtain r where ok: "bm_ok t" and r: "bm_get t i = Some r" "row_subject r = event_subject coords" "row_payload r = payload"
    and published: "row_status r = ''PUBLISHED'' \<longrightarrow> (\<exists>s bs. (s, mid, bs) \<in> stored b)"
    and alone: "\<forall>k r. bm_get t k = Some r \<and> row_status r = ''PENDING'' \<and> relayed_id (rl_codec rl) k r = mid \<longrightarrow> k = i"
    and own: "\<forall>s bs. (s, mid, bs) \<in> stored b \<longrightarrow> s = event_subject coords \<and> rl_to_vec rl payload = Ok bs"
    using way unfolding on_its_way_def mid_def Let_def by auto
  note q = find_selectableD [OF attempt(1) ok] and p = into_pendingD [OF attempt(2)]
  have q_id: "uuid_show (rl_codec rl) (fst (message_id_for (rl_codec rl) (po_id p) (po_payload p))) = relayed_id (rl_codec rl) k q"
    using p by (simp add: relayed_id_def)
  note stored = publish_row_stores [OF stores attempt(3), unfolded q_id]
  have mine: "k = i \<and> q = r" if "relayed_id (rl_codec rl) k q = mid"
    using alone q(1,3) that r(1) by auto
  have own': "\<forall>s bs. (s, mid, bs) \<in> stored b' \<longrightarrow> s = event_subject coords \<and> rl_to_vec rl payload = Ok bs"
  proof (intro allI impI)
    fix s bs
    assume "(s, mid, bs) \<in> stored b'"
    from stored(2) [OF this] show "s = event_subject coords \<and> rl_to_vec rl payload = Ok bs"
    proof
      assume "\<exists>bytes. rl_to_vec rl (po_payload p) = Ok bytes
          \<and> (s, mid, bs) = (event_subject (po_destination p), relayed_id (rl_codec rl) k q, bytes)"
      then have "relayed_id (rl_codec rl) k q = mid" and msg: "rl_to_vec rl (po_payload p) = Ok bs" "s = event_subject (po_destination p)"
        by auto
      then have "q = r"
        using mine by simp
      moreover from this have "po_destination p = coords"
        using p r(2) event_subject_roundtrip [OF wf] by simp
      ultimately show ?thesis
        using msg p r(3) by simp
    qed (use own in blast)
  qed
  have row': "\<exists>r'. bm_get t' i = Some r' \<and> row_subject r' = event_subject coords \<and> row_payload r' = payload
      \<and> (row_status r' = ''PUBLISHED'' \<longrightarrow> (\<exists>s bs. (s, mid, bs) \<in> stored b'))"
  proof (cases "t' = update_row k (written_row rl env p pr) t \<and> k = i")
    case True
    have "q = r"
      using q(1) r(1) True by simp
    then have "relayed_id (rl_codec rl) k q = mid"
      using True r(3) by (simp add: relayed_id_def mid_def)
    then show ?thesis
      using True r stored(3) by (auto simp: get_update_row written_row_status)
  next
    case False
    then have "bm_get t' i = Some r"
      using attempt(4) r(1) by (auto simp: get_update_row)
    then show ?thesis
      using r(2,3) published stored(1) by blast
  qed
  have "\<exists>r0. bm_get t x = Some r0 \<and> row_status r0 = ''PENDING'' \<and> relayed_id (rl_codec rl) x r0 = relayed_id (rl_codec rl) x y"
    if "bm_get t' x = Some y" "row_status y = ''PENDING''" for x y
    using that attempt(4) q(1,3) by (auto simp: get_update_row relayed_id_def split: if_splits)
  then have alone': "\<forall>k r. bm_get t' k = Some r \<and> row_status r = ''PENDING'' \<and> relayed_id (rl_codec rl) k r = mid \<longrightarrow> k = i"
    using alone by metis
  have "bm_ok t'"
    using attempt(4) ok by auto
  then show ?thesis
    using row' alone' own' unfolding on_its_way_def mid_def Let_def by blast
qed

lemma on_its_way_loop:
  assumes "broker_stores (rl_context rl) stored" and "event_coords_wf coords"
    and "on_its_way rl stored i coords payload t b" and "relay_loop rl envs j n cursor t b pass = (res, t', b')"
  shows "on_its_way rl stored i coords payload t' b'"
  using assms(3,4)
proof (induction n arbitrary: j cursor t b pass)
  case 0
  then show ?case by simp
next
  case (Suc n)
  obtain res1 t1 b1 pass1 where one: "process_one rl (envs j) cursor t b pass = (res1, t1, b1, pass1)"
    by (cases "process_one rl (envs j) cursor t b pass")
  note way = on_its_way_step [OF assms(1,2) Suc.prems(1) one]
  show ?case
    using Suc.prems(2) one way Suc.IH [OF way] by (auto split: sum.splits option.splits)
qed

section \<open>From the outbox to the handler\<close>

lemma length_bm_insert: "length (bm_insert k v m) \<le> Suc (length m)"
  by (induction k v m rule: bm_insert.induct) auto

lemma staged_event:
  assumes "codec_ok cd" and "rl_codec rl = cd" and "event_coords_wf coords"
    and "record_stage_event (\<lambda>x. Ok (event_json cd enc x)) i coords e = Ok rec" and "stage None rec db = (Ok (), db')"
    and "\<not> bm_contains (db_outbox db) i" and "bm_ok (db_outbox db)"
    and "\<forall>(k, r)\<in>set (db_outbox db). row_status r = ''PENDING'' \<longrightarrow> routable r \<and> relayed_id cd k r \<noteq> uuid_show cd (ie_event_id e)"
    and "\<forall>s bs. (s, uuid_show cd (ie_event_id e), bs) \<notin> stored b"
  shows "on_its_way rl stored i coords (event_json cd enc e) (db_outbox db') b"
    and "bm_get (db_outbox db') i = Some (row_of_record rec)" and "row_status (row_of_record rec) = ''PENDING''"
    and "\<forall>(k, r)\<in>set (db_outbox db'). row_status r = ''PENDING'' \<longrightarrow> routable r"
    and "length (db_outbox db') \<le> Suc (length (db_outbox db))" and "bm_ok (db_outbox db')"
proof -
  let ?row = "row_of_record rec"
  have rec: "rec = record_stage i coords (event_json cd enc e)"
    using assms(4) by (simp add: record_stage_event_def)
  have row: "row_subject ?row = event_subject coords" "row_payload ?row = event_json cd enc e" "row_status ?row = ''PENDING''"
    by (simp_all add: rec row_of_record_def record_stage_def record_subject_def)
  have t: "db_outbox db' = bm_insert i ?row (db_outbox db)"
    using assms(5,6) by (auto simp: stage_def rec record_stage_def)
  have mid: "message_id_for cd i (event_json cd enc e) = (ie_event_id e, Envelope)"
    by (rule message_id_of_event [OF assms(1)])
  have "routable ?row"
    using event_subject_roundtrip [OF assms(3)] row(1) by (simp add: routable_def)
  then show "\<forall>(k, r)\<in>set (db_outbox db'). row_status r = ''PENDING'' \<longrightarrow> routable r"
    using assms(8) set_bm_insert [of i ?row "db_outbox db"] unfolding t by blast
  show "bm_get (db_outbox db') i = Some ?row" "row_status ?row = ''PENDING''"
    "length (db_outbox db') \<le> Suc (length (db_outbox db))" and ok: "bm_ok (db_outbox db')"
    using assms(7) row(3) by (simp_all add: t length_bm_insert)
  have "k = i" if "bm_get (db_outbox db') k = Some r" "row_status r = ''PENDING''"
      "relayed_id cd k r = uuid_show cd (ie_event_id e)" for k r
  proof (rule ccontr)
    assume "k \<noteq> i"
    then have "(k, r) \<in> set (db_outbox db)"
      using that(1) assms(7) by (simp add: t bm_get_Some_iff)
    then show False
      using that(2,3) assms(8) by fastforce
  qed
  then have alone: "\<forall>k r. bm_get (db_outbox db') k = Some r \<and> row_status r = ''PENDING''
      \<and> relayed_id cd k r = uuid_show cd (ie_event_id e) \<longrightarrow> k = i"
    by blast
  have held: "\<exists>r. bm_get (db_outbox db') i = Some r \<and> row_subject r = event_subject coords
      \<and> row_payload r = event_json cd enc e \<and> (row_status r = ''PUBLISHED'' \<longrightarrow> X)" for X
    by (rule exI [of _ ?row]) (simp add: t row)
  show "on_its_way rl stored i coords (event_json cd enc e) (db_outbox db') b"
    unfolding on_its_way_def assms(2) mid fst_conv Let_def
    by (intro conjI ok held alone) (use assms(9) in simp)
qed

text \<open>C6: An event staged in the outbox of a service reaches the handler of a consumer as it was. With a
  calm database and a broker that accepts and stores, one pass publishes it; under its event id the
  broker then holds exactly one message, on the subject of its coordinates; and a consumer that
  takes this message decodes it, gives its handler that very event, once, and acknowledges it with
  the handler's verdict.
\<close>

theorem event_reaches_handler:
  assumes "codec_ok cd" and "rl_codec rl = cd" and "dec (enc (ie_payload e)) = Ok (ie_payload e)"
    and "rl_to_vec rl = (\<lambda>v. Ok (jt_print tx v))"
    and "jt_parse tx (jt_print tx (event_json cd enc e)) = Ok (event_json cd enc e)"
    and "event_coords_wf coords"
    and "record_stage_event (\<lambda>x. Ok (event_json cd enc x)) i coords e = Ok rec" and "stage None rec db = (Ok (), db')"
    and "i \<noteq> 0" and "\<not> bm_contains (db_outbox db) i" and "bm_ok (db_outbox db)" and "length (db_outbox db) < relay_cap rl"
    and "\<forall>(k, r)\<in>set (db_outbox db). row_status r = ''PENDING'' \<longrightarrow> routable r \<and> relayed_id cd k r \<noteq> uuid_show cd (ie_event_id e)"
    and "accepting rl" and "\<forall>j. calm (envs j)" and "broker_stores (rl_context rl) stored"
    and "\<forall>s bs. (s, uuid_show cd (ie_event_id e), bs) \<notin> stored b"
  shows "\<exists>pass t' b' bytes. run_once_detailed rl envs (db_outbox db') b = (Ok pass, t', b')
    \<and> {(s, bs). (s, uuid_show cd (ie_event_id e), bs) \<in> stored b'} = {(event_subject coords, bytes)}
    \<and> (let L = pull_loop ja (\<lambda>s. and_then (jt_parse tx s) (event_decoder cd dec)) handler poison;
           f = \<lparr>fr_subject = event_subject coords, fr_payload = bytes, fr_reply = reply, fr_delivered = at\<rparr>;
           (verdict, h) = handler \<lparr>dv_subject = event_subject coords, dv_envelope = e\<rparr> (ls_env st);
           st' = handle_frame L f st
       in ls_env st' = h \<and> ls_log st' = ls_log st @ [EvHandled f verdict, EvAcked f (ack_kind_of verdict)])"
proof -
  note row = staged_event [where stored = stored and b = b, OF assms(1,2,6,7,8,10,11,13,17)]
  let ?mid = "uuid_show cd (ie_event_id e)" and ?bytes = "jt_print tx (event_json cd enc e)"
  have small: "length (ahead [] 0 (db_outbox db')) \<le> relay_cap rl"
    using row(5) assms(12) length_filter_le [of "selectable [] 0" "db_outbox db'"] by linarith
  have routable: "\<forall>(k, r)\<in>set (ahead [] 0 (db_outbox db')). routable r"
    using row(4) by (auto simp: selectable_def)
  obtain pass t' b' where loop: "relay_loop rl envs 0 (relay_cap rl) 0 (db_outbox db') b pass_default = (Ok pass, t', b')"
    and drained: "\<forall>k\<in>fst ` set (ahead [] 0 (db_outbox db')). \<exists>r'. bm_get t' k = Some r' \<and> row_status r' = ''PUBLISHED''"
    using relay_loop_drains [OF assms(14) _ row(6) small routable, of envs 0 b pass_default] assms(15) by blast
  have "(i, row_of_record rec) \<in> set (ahead [] 0 (db_outbox db'))"
    using row(2,3) assms(9) by (auto simp: selectable_def word_neq_0_conv dest: map_of_SomeD)
  then obtain r' where r': "bm_get t' i = Some r'" "row_status r' = ''PUBLISHED''"
    using drained by force
  have mid: "message_id_for cd i (event_json cd enc e) = (ie_event_id e, Envelope)"
    by (rule message_id_of_event [OF assms(1)])
  have "on_its_way rl stored i coords (event_json cd enc e) t' b'"
    by (rule on_its_way_loop [where stored = stored, OF assms(16,6) row(1) loop])
  then have "\<exists>s bs. (s, ?mid, bs) \<in> stored b'"
    and "\<forall>s bs. (s, ?mid, bs) \<in> stored b' \<longrightarrow> s = event_subject coords \<and> bs = ?bytes"
    using r' assms(2,4) by (auto simp: on_its_way_def mid Let_def)
  then have one: "{(s, bs). (s, ?mid, bs) \<in> stored b'} = {(event_subject coords, ?bytes)}"
    by auto
  have "event_decoder cd dec (event_json cd enc e) = Ok e"
    by (rule event_decoder_json [OF assms(1)]) (rule assms(3))
  then have decoded: "and_then (jt_parse tx ?bytes) (event_decoder cd dec) = Ok e"
    using assms(5) by simp
  show ?thesis
    using loop one decoded
    by (intro exI [of _ pass] exI [of _ t'] exI [of _ b'] exI [of _ ?bytes])
      (simp add: run_once_detailed_def handle_frame_def pull_loop_def apply_ack_def case_prod_unfold Let_def)
qed

text \<open>A broker that stores what it is sent, and an event that goes its way.\<close>

definition storing_context :: "stored_message list jet_context" where
  "storing_context = \<lparr>jc_publish = \<lambda>subject hs bytes b.
     (Ok (Ok \<lparr>pa_sequence = of_nat (length b + 1), pa_duplicate = False\<rparr>),
      b @ map (\<lambda>(_, mid). (subject, mid, bytes)) hs)\<rparr>"

definition sample_event :: "json integration_event" where
  "sample_event = integration_event_new 7 ''identity.user.registered'' 1 0 (metadata_new (Service (ServiceAccountId 7)) 9) JNull"

definition one_text :: json_text where
  "one_text = \<lparr>jt_print = (\<lambda>_. ''{}''), jt_parse = (\<lambda>_. Ok (event_json decimal_codec id sample_event))\<rparr>"

definition storing_relay :: "stored_message list relay" where
  "storing_relay = \<lparr>rl_context = storing_context, rl_to_vec = (\<lambda>v. Ok (jt_print one_text v)), rl_codec = decimal_codec,
     rl_dbg = id, rl_policy = \<lparr>max_attempts = 5, max_messages = 1\<rparr>\<rparr>"

definition sample_coords :: event_coords where
  "sample_coords = \<lparr>evt_producer = Bc ''identity'', evt_aggregate = Aggregate ''user'',
     evt_fact = PastFact ''registered'', evt_version = 1\<rparr>"

lemma event_reaches_handler_witness:
  "\<exists>bytes b'. {(s, bs). (s, uuid_show decimal_codec 7, bs) \<in> set b'} = {(event_subject sample_coords, bytes)}
   \<and> ls_env (handle_frame (pull_loop absent_admin (\<lambda>s. and_then (jt_parse one_text s) (event_decoder decimal_codec Ok))
         (\<lambda>d h. (OAck, h @ [ie_event_id (dv_envelope d)])) (\<lambda>_ h. h))
       \<lparr>fr_subject = event_subject sample_coords, fr_payload = bytes, fr_reply = [], fr_delivered = None\<rparr>
       \<lparr>ls_source = (\<lparr>ps_messages = (), ps_stream = integration_evt, ps_durable = ''d'',
           ps_filter = event_subject sample_coords, ps_tuning = tuning_default\<rparr>, ()), ls_env = [],
        ls_recovery = recovery_new backoff_production, ls_mode = Polling, ls_log = []\<rparr>) = [7]"
proof -
  let ?rec = "record_stage 3 sample_coords (event_json decimal_codec id sample_event)"
  have wf: "event_coords_wf sample_coords"
    by (simp add: event_coords_wf_def sample_coords_def valid_segment_def segment_char_def ascii_defs)
  have accepting: "accepting storing_relay" "broker_stores (rl_context storing_relay) set"
    by (auto simp: accepting_def broker_stores_def storing_relay_def storing_context_def)
  have staged: "record_stage_event (\<lambda>x. Ok (event_json decimal_codec id x)) 3 sample_coords sample_event = Ok ?rec"
    by (simp add: record_stage_event_def)
  have reads: "jt_parse one_text (jt_print one_text (event_json decimal_codec id sample_event))
      = Ok (event_json decimal_codec id sample_event)"
    by (simp add: one_text_def)
  have relay: "rl_codec storing_relay = decimal_codec" "rl_to_vec storing_relay = (\<lambda>v. Ok (jt_print one_text v))"
      "relay_cap storing_relay = 1"
    by (simp_all add: storing_relay_def relay_cap_def)
  obtain pass t' b' bytes where
    "{(s, bs). (s, uuid_show decimal_codec (ie_event_id sample_event), bs) \<in> set b'} = {(event_subject sample_coords, bytes)}"
    and "(let L = pull_loop absent_admin (\<lambda>s. and_then (jt_parse one_text s) (event_decoder decimal_codec Ok))
             (\<lambda>d h. (OAck, h @ [ie_event_id (dv_envelope d)])) (\<lambda>_ h. h);
           f = \<lparr>fr_subject = event_subject sample_coords, fr_payload = bytes, fr_reply = [], fr_delivered = None\<rparr>;
           (verdict, h) = (OAck, [] @ [ie_event_id sample_event]);
           st' = handle_frame L f \<lparr>ls_source = (\<lparr>ps_messages = (), ps_stream = integration_evt, ps_durable = ''d'',
             ps_filter = event_subject sample_coords, ps_tuning = tuning_default\<rparr>, ()), ls_env = [],
             ls_recovery = recovery_new backoff_production, ls_mode = Polling, ls_log = []\<rparr>
       in ls_env st' = h \<and> ls_log st' = [] @ [EvHandled f verdict, EvAcked f (ack_kind_of verdict)])"
    using event_reaches_handler [where tx = one_text and rl = storing_relay and db = "\<lparr>db_outbox = [], db_notified = []\<rparr>"
        and stored = set and b = "[]" and ja = absent_admin and dec = Ok and enc = id and envs = "\<lambda>_. calm_env"
        and handler = "\<lambda>d h. (OAck, h @ [ie_event_id (dv_envelope d)])" and poison = "\<lambda>_ h. h"
        and reply = "[]" and at = None
        and st = "\<lparr>ls_source = (\<lparr>ps_messages = (), ps_stream = integration_evt, ps_durable = ''d'',
           ps_filter = event_subject sample_coords, ps_tuning = tuning_default\<rparr>, ()), ls_env = [],
           ls_recovery = recovery_new backoff_production, ls_mode = Polling, ls_log = []\<rparr>",
        OF decimal_codec_ok relay(1) _ relay(2) reads wf staged _ _ _ _ _ _ accepting(1) _ accepting(2)]
    by (fastforce simp: stage_def bm_contains_def bm_ok_def relay(3))
  then show ?thesis
    by (intro exI [of _ bytes] exI [of _ b']) (simp add: Let_def sample_event_def integration_event_new_def)
qed

end
