(* ===== verification/Deployment.thy ===== *)
theory Deployment
  imports Handshake_Correct Boot_Correct Postgres_Correct Observability_Correct
begin

text \<open>
  What a deployment relies on across the crates: the names the crates own and the chart renders
  (\<^verbatim>\<open>tools/br-ops-contract\<close> against
  \<^verbatim>\<open>charts/br-rust-common-chart/ci/ops-contract.json\<close>), the routes of the probes, and the
  way of a database URL from the environment to the pool.
\<close>

section \<open>The ops contract\<close>

text \<open>A map ordered by its keys: of two entries with one key the last stands.\<close>

definition owned_names :: "(string \<times> string) list" where
  "owned_names = [
     (''br_util_boot::env::ENVIRONMENT'', ENVIRONMENT),
     (''br_util_boot::env::PORT'', PORT),
     (''br_util_boot::env::HOST'', HOST),
     (''br_util_boot::env::DATABASE_URL'', DATABASE_URL),
     (''br_util_boot::env::NATS_URL'', NATS_URL),
     (''br_util_postgres::env::DATABASE_URL_OWNER'', DATABASE_URL_OWNER),
     (''br_util_postgres::env::TRUSTED_NETWORK_HOSTS'', TRUSTED_NETWORK_HOSTS),
     (''br_util_observability::LIVENESS_PATH'', LIVENESS_PATH),
     (''br_util_observability::METRICS_PATH'', METRICS_PATH),
     (''br_util_axum_readiness::READINESS_PATH'', readiness_path)]"

definition contract :: "(string, string) bmap" where
  "contract = fold (\<lambda>(k, v). bm_insert k v) owned_names []"

text \<open>The pretty text of the map: the quotes and the escapes of a string are the parameter \<open>quote\<close>.\<close>

fun render_entries :: "(string \<Rightarrow> string) \<Rightarrow> (string \<times> string) list \<Rightarrow> string" where
  "render_entries quote [] = []"
| "render_entries quote [(k, v)] = ''  '' @ quote k @ '': '' @ quote v @ [CHR 0x0A]"
| "render_entries quote ((k, v) # es) = ''  '' @ quote k @ '': '' @ quote v @ '','' @ [CHR 0x0A] @ render_entries quote es"

definition render_contract :: "(string \<Rightarrow> string) \<Rightarrow> string" where
  "render_contract quote = ''{'' @ [CHR 0x0A] @ render_entries quote contract @ ''}'' @ [CHR 0x0A]"

text \<open>The file as it is committed.\<close>

definition committed_contract :: "(string \<times> string) list" where
  "committed_contract = [
     (''br_util_axum_readiness::READINESS_PATH'', ''/readyz''),
     (''br_util_boot::env::DATABASE_URL'', ''DATABASE_URL''),
     (''br_util_boot::env::ENVIRONMENT'', ''ENVIRONMENT''),
     (''br_util_boot::env::HOST'', ''HOST''),
     (''br_util_boot::env::NATS_URL'', ''NATS_URL''),
     (''br_util_boot::env::PORT'', ''PORT''),
     (''br_util_observability::LIVENESS_PATH'', ''/livez''),
     (''br_util_observability::METRICS_PATH'', ''/metrics''),
     (''br_util_postgres::env::DATABASE_URL_OWNER'', ''DATABASE_URL_OWNER''),
     (''br_util_postgres::env::TRUSTED_NETWORK_HOSTS'', ''TRUSTED_NETWORK_HOSTS'')]"

lemmas owned_name_defs = ENVIRONMENT_def PORT_def HOST_def DATABASE_URL_def NATS_URL_def DATABASE_URL_OWNER_def
  TRUSTED_NETWORK_HOSTS_def LIVENESS_PATH_def METRICS_PATH_def readiness_path_def

lemma contract_entries: "contract = committed_contract"
  by (simp add: contract_def owned_names_def committed_contract_def owned_name_defs)

definition is_variable_name :: "string \<Rightarrow> bool" where
  "is_variable_name v \<longleftrightarrow> v \<noteq> [] \<and> list_all (\<lambda>c. is_ascii_uppercase c \<or> is_ascii_digit c \<or> c = CHR ''_'') v
     \<and> \<not> is_ascii_digit (hd v)"

text \<open>
  The committed contract is what the constants of the crates say, in the order of the keys: every
  owned name is in it once, no two constants own one name, and each is the name of a variable or an
  absolute path, so the text the tool renders is that of the committed entries.
\<close>

theorem ops_contract_is_current:
  "contract = committed_contract \<and> set contract = set owned_names \<and> sorted_wrt (<) (map fst contract)
   \<and> distinct (map snd contract)
   \<and> list_all (\<lambda>(_, v). is_variable_name v \<or> starts_with ''/'' v) contract
   \<and> render_contract quote = ''{'' @ [CHR 0x0A] @ render_entries quote committed_contract @ ''}'' @ [CHR 0x0A]"
proof -
  have "set contract = set owned_names"
    unfolding contract_entries by (simp add: committed_contract_def owned_names_def owned_name_defs insert_commute)
  moreover have "sorted_wrt (<) (map fst committed_contract)"
    by (simp add: committed_contract_def)
  moreover have "distinct (map snd committed_contract)"
    by (simp add: committed_contract_def)
  moreover have "list_all (\<lambda>(_, v). is_variable_name v \<or> starts_with ''/'' v) committed_contract"
    by (simp add: committed_contract_def is_variable_name_def starts_with_def ascii_defs)
  ultimately show ?thesis
    by (simp add: contract_entries render_contract_def)
qed

section \<open>From the environment to the pool\<close>

text \<open>
  The documented relation of the two views of a host: the text is that of the host, and only the
  empty domain has an empty text.
\<close>

definition host_law :: "'u url_crate \<Rightarrow> bool" where
  "host_law U \<longleftrightarrow> (\<forall>u h. ur_host_str U u = Some h \<longrightarrow>
     (case ur_host U u of None \<Rightarrow> False | Some x \<Rightarrow> x = HostDomain [] \<longrightarrow> h = []))"

lemma booted_host:
  "host_law U \<Longrightarrow> \<not> no_host U u \<Longrightarrow> names_host U u"
  by (auto simp: host_law_def no_host_def names_host_def split: option.splits)

text \<open>The refusals that are left to a URL whose scheme and host were already checked.\<close>

lemma validate_booted:
  assumes "ur_parse U raw = Ok u" and "pg_scheme (ur_scheme U u)" and "names_host U u"
  shows "validate_database_tls U mode_of env raw =
    (if ''host'' \<in> fst ` set (ur_query_pairs U u) \<or> ''hostaddr'' \<in> fst ` set (ur_query_pairs U u)
     then Err (PgConfig host_overridden)
     else case mode_of raw of
        Err e \<Rightarrow> Err (PgConfig (''could not parse the DSN for TLS validation: '' @ e))
      | Ok m \<Rightarrow> if m \<in> {SslRequire, SslVerifyCa, SslVerifyFull}
            \<or> target_host U u \<in> {''localhost'', ''127.0.0.1'', ''::1''} \<union> set (resolve_trusted_network_hosts env)
          then Ok ()
          else Err (PgConfig (''remote database connection to '' @ [CHR 0x27] @ target_host U u
            @ [CHR 0x27] @ '' requires TLS: add sslmode=require (or verify-ca/verify-full) to the DSN, or declare the host in ''
            @ ''TRUSTED_NETWORK_HOSTS'' @ '' if it sits on a trusted network segment'')))"
  using dsn_parse_cases(1) [OF assms]
  by (auto simp: validate_database_tls_def parse_sslmode_def Let_def is_on_trusted_network_def is_loopback_def
      overrides_host_iff TRUSTED_NETWORK_HOSTS_def list_ex_iff split: sum.splits)

text \<open>C39: What becomes of the database URL of an environment that was read. The pool tries it once, with its
  own options, and hands on what the connection answers, unless one of three checks refuses it: its
  query overrides the host; the driver cannot read it, whatever its host; or the mode the driver
  reads is not encrypted and the host is neither the machine itself nor one that the same
  environment declares as trusted. It is never refused as no URL, for its scheme, or for lack of a
  host, and a refused one is not tried.
\<close>

theorem booted_url_reaches_pool:
  assumes "host_law U" and "from_lookup U dbg env = Ok b"
  shows "init_pool U mode_of env connect (du_raw (be_database_url b)) =
    (let raw = du_raw (be_database_url b); u = du_parsed (be_database_url b);
         keys = fst ` set (ur_query_pairs U u)
     in if ''host'' \<in> keys \<or> ''hostaddr'' \<in> keys then ([], Err (PgConfig host_overridden))
        else case mode_of raw of
           Err e \<Rightarrow> ([], Err (PgConfig (''could not parse the DSN for TLS validation: '' @ e)))
         | Ok m \<Rightarrow> if m \<in> {SslRequire, SslVerifyCa, SslVerifyFull}
               \<or> target_host U u \<in> {''localhost'', ''127.0.0.1'', ''::1''} \<union> set (resolve_trusted_network_hosts env)
             then ([(runtime_pool_options, raw)], map_err PgDb (connect runtime_pool_options raw))
             else ([], Err (PgConfig (''remote database connection to '' @ [CHR 0x27] @ target_host U u
               @ [CHR 0x27] @ '' requires TLS: add sslmode=require (or verify-ca/verify-full) to the DSN, or declare the host in ''
               @ ''TRUSTED_NETWORK_HOSTS'' @ '' if it sits on a trusted network segment''))))"
proof -
  define raw u where "raw = du_raw (be_database_url b)" and "u = du_parsed (be_database_url b)"
  note fields = boot_env_fields(5) [OF assms(2), folded raw_def u_def]
  have "ur_parse U raw = Ok u" "pg_scheme (ur_scheme U u)" "names_host U u"
    using fields booted_host [OF assms(1)] by (auto simp: pg_scheme_def)
  from validate_booted [OF this, of mode_of env] show ?thesis
    unfolding raw_def [symmetric] u_def [symmetric] Let_def init_pool_def
    by (simp split: sum.split)
qed

lemma booted_url_reaches_pool_witness:
  "init_pool sample_crate (\<lambda>_. Ok SslRequire) sample_env (\<lambda>_ _. Ok ()) ''postgres://app:secret@pg''
     = ([(runtime_pool_options, ''postgres://app:secret@pg'')], Ok ())"
proof -
  have law: "host_law sample_crate"
    by (simp add: host_law_def sample_crate_def)
  have "ur_query_pairs sample_crate (du_parsed (be_database_url sample_boot)) = []"
    and "du_raw (be_database_url sample_boot) = ''postgres://app:secret@pg''"
    by (simp_all add: sample_boot_def sample_crate_def)
  then show ?thesis
    using booted_url_reaches_pool [OF law sample_boot_read, of "\<lambda>_. Ok SslRequire" "\<lambda>_ _. Ok ()"] by simp
qed

end
