(* ===== verification/Test_Support.thy ===== *)
theory Test_Support
  imports Postgres_Correct
begin

text \<open>
  The helpers of the end-to-end suites (\<^verbatim>\<open>br-test-support\<close>): names, environment readers,
  roles and databases made for one test, and the world that tears them down however the test ends.
  The server, the pools, the digest and the identifiers are parameters.
\<close>

section \<open>Names and variables\<close>

text \<open>The simple form of an identifier is its 32 hexadecimal digits.\<close>

definition unique_suffix :: "string \<Rightarrow> string" where
  "unique_suffix simple = take 24 simple"

definition role_name_of :: "string \<Rightarrow> string" where
  "role_name_of simple = ''br_test_'' @ unique_suffix simple"

definition table_name_of :: "string \<Rightarrow> string" where
  "table_name_of simple = ''br_test_tbl_'' @ unique_suffix simple"

definition password_of :: "string \<Rightarrow> string" where
  "password_of simple = ''pw_'' @ simple"

definition is_plain_identifier :: "string \<Rightarrow> bool" where
  "is_plain_identifier name \<longleftrightarrow> name \<noteq> []
     \<and> list_all (\<lambda>c. is_ascii_lowercase c \<or> is_ascii_digit c \<or> c = CHR ''_'') name"

definition test_db_url :: "env_lookup \<Rightarrow> string option" where
  "test_db_url env = ok (env ''TEST_DATABASE_URL'')"

definition test_tls_db_url :: "env_lookup \<Rightarrow> string option" where
  "test_tls_db_url env = ok (env ''TEST_TLS_DATABASE_URL'')"

definition test_nats_url :: "env_lookup \<Rightarrow> string option" where
  "test_nats_url env = ok (env ''NATS_URL'')"

text \<open>A panic is its message; the error that some messages end with is left out.\<close>

type_synonym panic = string

definition expected :: "string \<Rightarrow> 'a option \<Rightarrow> ('a, panic) result" where
  "expected msg x = (case x of None \<Rightarrow> Err msg | Some v \<Rightarrow> Ok v)"

definition require_test_db_url :: "env_lookup \<Rightarrow> (string, panic) result" where
  "require_test_db_url env = expected ''TEST_DATABASE_URL is required for this ignored suite'' (test_db_url env)"

definition require_test_tls_db_url :: "env_lookup \<Rightarrow> (string, panic) result" where
  "require_test_tls_db_url env =
     expected ''TEST_TLS_DATABASE_URL is required for this ignored suite'' (test_tls_db_url env)"

definition require_nats_url :: "env_lookup \<Rightarrow> (string, panic) result" where
  "require_nats_url env = expected ''NATS_URL is required for this ignored suite'' (test_nats_url env)"

section \<open>Runs\<close>

record isolated_database =
  id_name :: string
  id_url :: string

record caller =
  ca_url :: string
  ca_role :: string
  ca_password :: string

text \<open>
  The server, how many identifiers were drawn, and the registry of what is to be torn down. A run
  that panics keeps what it did.
\<close>

record 'w world =
  tw_server :: 'w
  tw_drawn :: nat
  tw_databases :: "isolated_database list"
  tw_roles :: "string list"

type_synonym ('a, 'w) run = "'w world \<Rightarrow> ('a, panic) result \<times> 'w world"

definition bind_run :: "('a, 'w) run \<Rightarrow> ('a \<Rightarrow> ('b, 'w) run) \<Rightarrow> ('b, 'w) run" where
  "bind_run f g w = (case f w of (Err p, w) \<Rightarrow> (Err p, w) | (Ok x, w) \<Rightarrow> g x w)"

definition lift_run :: "('a, panic) result \<Rightarrow> ('a, 'w) run" where
  "lift_run r w = (r, w)"

text \<open>A call whose result is returned, and one whose failure is a panic.\<close>

definition on_server :: "('w \<Rightarrow> 'a \<times> 'w) \<Rightarrow> ('a, 'w) run" where
  "on_server f w = (case f (tw_server w) of (r, s) \<Rightarrow> (Ok r, w\<lparr>tw_server := s\<rparr>))"

definition expecting :: "string \<Rightarrow> ('w \<Rightarrow> (unit, pg_error) result \<times> 'w) \<Rightarrow> (unit, 'w) run" where
  "expecting msg f = bind_run (on_server f) (\<lambda>r. lift_run (map_err (\<lambda>_. msg) r))"

text \<open>
  The pool of an administrator and the connections are taken by URL; the options read from a URL
  are replaced in their user and password by \<open>te_connect_as\<close>.
\<close>

record 'w test_env =
  te_pool :: "string \<Rightarrow> 'w pg_server"
  te_connect :: "string \<Rightarrow> nat \<Rightarrow> 'w \<Rightarrow> (unit, pg_error) result \<times> 'w"
  te_connect_as :: "string \<Rightarrow> string \<Rightarrow> string \<Rightarrow> nat \<Rightarrow> 'w \<Rightarrow> (unit, pg_error) result \<times> 'w"
  te_close :: "string \<Rightarrow> 'w \<Rightarrow> 'w"
  te_options_ok :: "string \<Rightarrow> bool"
  te_with_path :: "string \<Rightarrow> string \<Rightarrow> string option"
  te_scram :: "string \<Rightarrow> string"
  te_uuid :: "nat \<Rightarrow> string"

definition draw :: "'w test_env \<Rightarrow> (string \<Rightarrow> string) \<Rightarrow> (string, 'w) run" where
  "draw E f w = (Ok (f (te_uuid E (tw_drawn w))), w\<lparr>tw_drawn := tw_drawn w + 1\<rparr>)"

definition assert_plain_identifier :: "string \<Rightarrow> (unit, 'w) run" where
  "assert_plain_identifier name =
     lift_run (if is_plain_identifier name then Ok () else Err ''identifier must match [a-z0-9_]+'')"

definition test_scram_verifier :: "(string \<Rightarrow> string) \<Rightarrow> string \<Rightarrow> (string, panic) result" where
  "test_scram_verifier scram password = (let verifier = scram password in
     if starts_with verifier_prefix verifier
        \<and> list_all (\<lambda>c. is_ascii_alphanumeric c \<or> c \<in> set ''+/=$:-'') verifier
     then Ok verifier else Err ''SCRAM verifier is not a plain verifier literal'')"

section \<open>Catalog races\<close>

definition race_attempts :: nat where "race_attempts = 20"
definition race_backoff :: duration where "race_backoff = from_millis 25"

fun is_catalog_race :: "pg_error \<Rightarrow> bool" where
  "is_catalog_race (PgDatabase code) \<longleftrightarrow>
     code = Some ''XX000'' \<or> code = Some ''23505'' \<or> code = Some ''42710''"
| "is_catalog_race (PgOther _) \<longleftrightarrow> False"

function race_from :: "'w attempt \<Rightarrow> nat \<Rightarrow> duration list \<Rightarrow> 'w
    \<Rightarrow> (unit, pg_error) result \<times> 'w \<times> duration list" where
  "race_from attempt attempts sleeps w = (let attempts = attempts + 1 in
     case attempt w of
       (Err e, w) \<Rightarrow> if attempts < race_attempts \<and> is_catalog_race e
         then race_from attempt attempts (sleeps @ [race_backoff]) w
         else (Err e, w, sleeps)
     | (Ok _, w) \<Rightarrow> (Ok (), w, sleeps))"
  by pat_completeness auto
termination
  by (relation "measure (\<lambda>(_, attempts, _). race_attempts - attempts)") auto

declare race_from.simps [simp del]

definition retry_catalog_race :: "'w attempt \<Rightarrow> 'w \<Rightarrow> (unit, pg_error) result \<times> 'w" where
  "retry_catalog_race attempt w = (case race_from attempt 0 [] w of (r, w, _) \<Rightarrow> (r, w))"

section \<open>Databases, pools and roles\<close>

definition default_max_connections :: nat where "default_max_connections = 2"

definition open_pool_as :: "'w test_env \<Rightarrow> string \<Rightarrow> string \<Rightarrow> string \<Rightarrow> nat
    \<Rightarrow> ((unit, pg_error) result, 'w) run" where
  "open_pool_as E url role password max_connections =
     bind_run (lift_run (if te_options_ok E url then Ok ()
         else Err ''TEST_DATABASE_URL must parse as a Postgres URL'')) (\<lambda>_.
       on_server (te_connect_as E url role password max_connections))"

definition wide_caller_pool :: "'w test_env \<Rightarrow> string \<Rightarrow> string \<Rightarrow> string \<Rightarrow> nat \<Rightarrow> (unit, 'w) run" where
  "wide_caller_pool E url role password max_connections =
     bind_run (open_pool_as E url role password max_connections) (\<lambda>r.
       lift_run (map_err (\<lambda>_. ''connect as caller'') r))"

definition create_database_sql :: "string \<Rightarrow> string" where
  "create_database_sql name = ''CREATE DATABASE \"'' @ name @ ''\"''"

definition drop_database_sql :: "string \<Rightarrow> string" where
  "drop_database_sql name = ''DROP DATABASE IF EXISTS \"'' @ name @ ''\" WITH (FORCE)''"

definition create_isolated_database :: "'w test_env \<Rightarrow> string \<Rightarrow> (isolated_database, 'w) run" where
  "create_isolated_database E admin_url =
     bind_run (draw E role_name_of) (\<lambda>name.
     bind_run (assert_plain_identifier name) (\<lambda>_.
     bind_run (lift_run (expected ''TEST_DATABASE_URL must parse as a URL''
         (te_with_path E admin_url (''/'' @ name)))) (\<lambda>url.
     bind_run (expecting ''create isolated database''
         (pg_execute (te_pool E admin_url) (create_database_sql name, []))) (\<lambda>_.
       lift_run (Ok \<lparr>id_name = name, id_url = url\<rparr>)))))"

definition drop_isolated_database :: "'w test_env \<Rightarrow> string \<Rightarrow> isolated_database
    \<Rightarrow> ((unit, pg_error) result, 'w) run" where
  "drop_isolated_database E admin_url db =
     bind_run (assert_plain_identifier (id_name db)) (\<lambda>_.
       on_server (pg_execute (te_pool E admin_url) (drop_database_sql (id_name db), [])))"

definition drop_owned_sql :: "string \<Rightarrow> string" where
  "drop_owned_sql role = ''DROP OWNED BY \"'' @ role @ ''\" CASCADE''"

definition drop_role_sql :: "string \<Rightarrow> string" where
  "drop_role_sql role = ''DROP ROLE IF EXISTS \"'' @ role @ ''\"''"

definition cleanup_role :: "'w test_env \<Rightarrow> string \<Rightarrow> string \<Rightarrow> (unit, 'w) run" where
  "cleanup_role E admin_url role =
     bind_run (assert_plain_identifier role) (\<lambda>_.
     bind_run (on_server (retry_catalog_race (pg_execute (te_pool E admin_url) (drop_owned_sql role, [])))) (\<lambda>_.
     bind_run (on_server (pg_execute (te_pool E admin_url) (drop_role_sql role, []))) (\<lambda>_.
       lift_run (Ok ()))))"

definition create_caller_sql :: "string \<Rightarrow> string \<Rightarrow> string" where
  "create_caller_sql role verifier = ''CREATE ROLE \"'' @ role @ ''\" LOGIN CREATEROLE NOSUPERUSER PASSWORD ''
     @ [CHR 0x27] @ verifier @ [CHR 0x27]"

definition grant_create_sql :: "string \<Rightarrow> string" where
  "grant_create_sql role = ''GRANT CREATE ON SCHEMA public TO \"'' @ role @ ''\"''"

text \<open>The lock's key, as it is bound.\<close>

definition public_schema_acl_lock :: string where
  "public_schema_acl_lock = show_nat 0x62725f7465737431"

definition caller_grant :: "string \<Rightarrow> sql list" where
  "caller_grant role = [(''SELECT pg_advisory_xact_lock($1)'', [public_schema_acl_lock]), (grant_create_sql role, [])]"

definition create_caller :: "'w test_env \<Rightarrow> string \<Rightarrow> string \<Rightarrow> string \<Rightarrow> (caller, 'w) run" where
  "create_caller E pool_url admin_url role =
     bind_run (assert_plain_identifier role) (\<lambda>_.
     bind_run (draw E password_of) (\<lambda>password.
     bind_run (lift_run (test_scram_verifier (te_scram E) password)) (\<lambda>verifier.
     bind_run (expecting ''create caller role''
         (pg_execute (te_pool E pool_url) (create_caller_sql role verifier, []))) (\<lambda>_.
     bind_run (expecting ''grant CREATE on public to caller''
         (retry_catalog_race (in_transaction (te_pool E pool_url) (caller_grant role)))) (\<lambda>_.
     bind_run (open_pool_as E admin_url role password default_max_connections) (\<lambda>r.
     bind_run (lift_run (map_err (\<lambda>_. ''connect as caller'') r)) (\<lambda>_.
       lift_run (Ok \<lparr>ca_url = admin_url, ca_role = role, ca_password = password\<rparr>))))))))"

definition setup_caller :: "'w test_env \<Rightarrow> string \<Rightarrow> (caller, 'w) run" where
  "setup_caller E admin_url = bind_run (draw E role_name_of) (create_caller E admin_url admin_url)"

section \<open>The world of a test\<close>

definition register_role :: "string \<Rightarrow> (unit, 'w) run" where
  "register_role role w = (Ok (), w\<lparr>tw_roles := tw_roles w @ [role]\<rparr>)"

definition register_database :: "isolated_database \<Rightarrow> (unit, 'w) run" where
  "register_database db w = (Ok (), w\<lparr>tw_databases := tw_databases w @ [db]\<rparr>)"

definition unique_role :: "'w test_env \<Rightarrow> (string, 'w) run" where
  "unique_role E = bind_run (draw E role_name_of) (\<lambda>role.
     bind_run (register_role role) (\<lambda>_. lift_run (Ok role)))"

definition world_caller :: "'w test_env \<Rightarrow> string \<Rightarrow> (caller, 'w) run" where
  "world_caller E url = bind_run (unique_role E) (create_caller E url url)"

definition world_database :: "'w test_env \<Rightarrow> string \<Rightarrow> (isolated_database, 'w) run" where
  "world_database E url = bind_run (create_isolated_database E url) (\<lambda>db.
     bind_run (register_database db) (\<lambda>_. lift_run (Ok db)))"

definition world_caller_in :: "'w test_env \<Rightarrow> isolated_database \<Rightarrow> (caller, 'w) run" where
  "world_caller_in E db =
     bind_run (unique_role E) (\<lambda>role.
     bind_run (expecting ''connect as admin to the isolated database'' (te_connect E (id_url db) 2)) (\<lambda>_.
     bind_run (create_caller E (id_url db) (id_url db) role) (\<lambda>caller.
     bind_run (on_server (\<lambda>s. ((), te_close E (id_url db) s))) (\<lambda>_. lift_run (Ok caller)))))"

text \<open>The teardown goes on after a drop that failed and reports the first failure.\<close>

fun drop_databases :: "'w test_env \<Rightarrow> string \<Rightarrow> isolated_database list \<Rightarrow> pg_error option
    \<Rightarrow> (pg_error option, 'w) run" where
  "drop_databases E url [] first_error = lift_run (Ok first_error)"
| "drop_databases E url (db # dbs) first_error =
     bind_run (drop_isolated_database E url db) (\<lambda>r. drop_databases E url dbs
       (case (first_error, r) of (None, Err e) \<Rightarrow> Some e | _ \<Rightarrow> first_error))"

fun cleanup_roles :: "'w test_env \<Rightarrow> string \<Rightarrow> string list \<Rightarrow> (unit, 'w) run" where
  "cleanup_roles E url [] = lift_run (Ok ())"
| "cleanup_roles E url (role # roles) = bind_run (cleanup_role E url role) (\<lambda>_. cleanup_roles E url roles)"

definition teardown :: "'w test_env \<Rightarrow> string \<Rightarrow> ((unit, pg_error) result, 'w) run" where
  "teardown E url w =
     bind_run (drop_databases E url (rev (tw_databases w)) None) (\<lambda>first_error.
     bind_run (cleanup_roles E url (rev (tw_roles w))) (\<lambda>_.
       lift_run (Ok (case first_error of None \<Rightarrow> Ok () | Some e \<Rightarrow> Err e))))
     (w\<lparr>tw_databases := [], tw_roles := []\<rparr>)"

text \<open>
  What a test asks of its world, in order, and how it ends itself: a test that looks at results
  before it goes on takes one such path.
\<close>

datatype world_op = UniqueRole | NewCaller | NewDatabase | NewCallerIn isolated_database

fun run_op :: "'w test_env \<Rightarrow> string \<Rightarrow> world_op \<Rightarrow> (unit, 'w) run" where
  "run_op E url UniqueRole = bind_run (unique_role E) (\<lambda>_. lift_run (Ok ()))"
| "run_op E url NewCaller = bind_run (world_caller E url) (\<lambda>_. lift_run (Ok ()))"
| "run_op E url NewDatabase = bind_run (world_database E url) (\<lambda>_. lift_run (Ok ()))"
| "run_op E url (NewCallerIn db) = bind_run (world_caller_in E db) (\<lambda>_. lift_run (Ok ()))"

fun run_body :: "'w test_env \<Rightarrow> string \<Rightarrow> world_op list \<Rightarrow> ('t, panic) result \<Rightarrow> ('t, 'w) run" where
  "run_body E url [] ending = lift_run ending"
| "run_body E url (op # ops) ending = bind_run (run_op E url op) (\<lambda>_. run_body E url ops ending)"

text \<open>The panic of the body is held until the teardown is done.\<close>

definition finish_world :: "'w test_env \<Rightarrow> string \<Rightarrow> ('t, panic) result \<Rightarrow> ('t, 'w) run" where
  "finish_world E url outcome =
     bind_run (teardown E url) (\<lambda>torn_down.
     bind_run (on_server (\<lambda>s. ((), te_close E url s))) (\<lambda>_.
       lift_run (case outcome of
           Err p \<Rightarrow> Err p
         | Ok v \<Rightarrow> and_then (map_err (\<lambda>_. ''drop isolated database'') torn_down) (\<lambda>_. Ok v))))"

definition with_test_world :: "'w test_env \<Rightarrow> env_lookup \<Rightarrow> world_op list \<Rightarrow> ('t, panic) result \<Rightarrow> ('t, 'w) run" where
  "with_test_world E env ops ending =
     bind_run (lift_run (require_test_db_url env)) (\<lambda>url.
     bind_run (expecting ''connect as admin'' (te_connect E url 2)) (\<lambda>_ w.
       case run_body E url ops ending (w\<lparr>tw_databases := [], tw_roles := []\<rparr>) of
         (outcome, w) \<Rightarrow> finish_world E url outcome w))"

end
