(* ===== verification/Test_Support_Correct.thy ===== *)
theory Test_Support_Correct
  imports Test_Support
begin

text \<open>
  The names that are made are plain and valid as names of roles; a catalog race is retried at most
  nineteen times; and the world of a test leaves no database and no role behind.
\<close>

section \<open>Names\<close>

definition lower_hex :: "char \<Rightarrow> bool" where
  "lower_hex c \<longleftrightarrow> is_ascii_digit c \<or> c \<in> set ''abcdef''"

text \<open>What the simple form of an identifier is documented to be.\<close>

definition hex_supply :: "'w test_env \<Rightarrow> bool" where
  "hex_supply E \<longleftrightarrow> (\<forall>n. length (te_uuid E n) = 32 \<and> list_all lower_hex (te_uuid E n))"

lemma hex_plain: "lower_hex c \<Longrightarrow> is_ascii_lowercase c \<or> is_ascii_digit c \<or> c = CHR ''_''"
  by (auto simp: lower_hex_def is_ascii_lowercase_def byte_def)

lemma role_name_ok:
  assumes "length s = 32" and "list_all lower_hex s"
  shows "is_plain_identifier (role_name_of s) \<and> is_plain_identifier (table_name_of s)
    \<and> is_valid_role_name (role_name_of s)"
proof -
  have "list_all lower_hex (take 24 s)"
    using assms(2) by (auto simp: list_all_iff dest: in_set_takeD)
  then have "list_all (\<lambda>c. is_ascii_lowercase c \<or> is_ascii_digit c \<or> c = CHR ''_'') (take 24 s)"
    using hex_plain by (auto simp: list_all_iff)
  then show ?thesis
    using assms(1) by (simp add: is_plain_identifier_def role_name_of_def table_name_of_def unique_suffix_def
        is_valid_role_name_def max_role_name_len_def is_ascii_lowercase_def byte_def)
qed

lemma drawn_plain: "hex_supply E \<Longrightarrow> is_plain_identifier (role_name_of (te_uuid E n))"
  using role_name_ok by (simp add: hex_supply_def)

lemma test_verifier_iff: "test_scram_verifier scram pw = Ok v \<longleftrightarrow> v = scram pw \<and> is_safe_verifier v"
  by (auto simp: test_scram_verifier_def is_safe_verifier_def Let_def)

section \<open>Catalog races\<close>

text \<open>
  A race is tried at most twenty times, each retry after the same pause, and whatever an attempt
  keeps is kept by the retries.
\<close>

lemma race_from_keeps:
  assumes keeps: "\<And>w. P w \<Longrightarrow> P (snd (attempt w))"
  shows "P w \<Longrightarrow> race_from attempt n sleeps w = (r, w', sleeps') \<Longrightarrow> P w'
     \<and> (\<exists>k. k \<le> race_attempts - 1 - n \<and> sleeps' = sleeps @ replicate k race_backoff)"
proof (induction "race_attempts - n" arbitrary: n sleeps w rule: less_induct)
  case less
  obtain o1 w1 where one: "attempt w = (o1, w1)"
    by (cases "attempt w")
  have w1: "P w1"
    using keeps [OF less.prems(1)] one by simp
  show ?case
  proof (cases "\<exists>e. o1 = Err e \<and> n + 1 < race_attempts \<and> is_catalog_race e")
    case True
    then have more: "n + 1 < race_attempts"
      and next_: "race_from attempt (n + 1) (sleeps @ [race_backoff]) w1 = (r, w', sleeps')"
      using less.prems(2) one by (auto simp: race_from.simps [of attempt n])
    have "race_attempts - (n + 1) < race_attempts - n"
      using more by simp
    then obtain k where "P w'" "k \<le> race_attempts - 1 - (n + 1)"
        "sleeps' = (sleeps @ [race_backoff]) @ replicate k race_backoff"
      using less.hyps [OF _ w1 next_] by blast
    then show ?thesis
      using more by (intro conjI exI [of _ "Suc k"]) auto
  next
    case False
    then have "w' = w1" "sleeps' = sleeps"
      using less.prems(2) one by (auto simp: race_from.simps [of attempt n] split: sum.splits if_splits)
    then show ?thesis
      using w1 by (intro conjI exI [of _ 0]) auto
  qed
qed

lemma retry_catalog_race_keeps:
  assumes "\<And>w. P w \<Longrightarrow> P (snd (attempt w))" and "P w"
  shows "P (snd (retry_catalog_race attempt w))"
proof -
  obtain r w' sleeps where "race_from attempt 0 [] w = (r, w', sleeps)"
    by (cases "race_from attempt 0 [] w")
  then show ?thesis
    using race_from_keeps [OF assms] by (simp add: retry_catalog_race_def)
qed

section \<open>Runs\<close>

text \<open>
  From a world with \<open>P\<close> a run ends with a value and a world related by \<open>Q\<close>, or panics in a
  world with \<open>I\<close>.
\<close>

definition runs :: "('w world \<Rightarrow> bool) \<Rightarrow> ('w world \<Rightarrow> bool) \<Rightarrow> ('a, 'w) run \<Rightarrow> ('a \<Rightarrow> 'w world \<Rightarrow> bool) \<Rightarrow> bool" where
  "runs I P f Q \<longleftrightarrow> (\<forall>w. P w \<longrightarrow> (case f w of (Ok x, w') \<Rightarrow> Q x w' | (Err p, w') \<Rightarrow> I w'))"

lemma runs_bind:
  "runs I P f Q \<Longrightarrow> (\<And>x. runs I (Q x) (g x) S) \<Longrightarrow> runs I P (bind_run f g) S"
  unfolding runs_def bind_run_def by (fastforce split: prod.splits sum.splits)

lemma runs_lift: "(\<And>w p. P w \<Longrightarrow> r = Err p \<Longrightarrow> I w) \<Longrightarrow> (\<And>w x. P w \<Longrightarrow> r = Ok x \<Longrightarrow> Q x w) \<Longrightarrow> runs I P (lift_run r) Q"
  unfolding runs_def lift_run_def by (auto split: sum.splits)

lemma runs_pure: "runs I I (lift_run r) (\<lambda>_. I)"
  by (rule runs_lift)

lemma runs_discard: "runs I I f (\<lambda>_. I) \<Longrightarrow> runs I I (bind_run f (\<lambda>_. lift_run r)) (\<lambda>_. I)"
  by (erule runs_bind) (rule runs_pure)

lemma runs_server:
  "(\<And>w. P w \<Longrightarrow> Q (fst (f (tw_server w))) (w\<lparr>tw_server := snd (f (tw_server w))\<rparr>)) \<Longrightarrow> runs I P (on_server f) Q"
  by (simp add: runs_def on_server_def case_prod_unfold)

lemma runs_weaken: "runs I P f Q \<Longrightarrow> (\<And>w. P' w \<Longrightarrow> P w) \<Longrightarrow> (\<And>x w. Q x w \<Longrightarrow> Q' x w) \<Longrightarrow> runs I P' f Q'"
  unfolding runs_def by (fastforce split: prod.splits sum.splits)

lemma runs_expecting:
  "(\<And>w. P w \<Longrightarrow> P' (w\<lparr>tw_server := snd (f (tw_server w))\<rparr>))
    \<Longrightarrow> (\<And>w. P' w \<Longrightarrow> I w) \<Longrightarrow> runs I P (expecting msg f) (\<lambda>_. P')"
  unfolding expecting_def
  by (rule runs_bind [OF runs_server [where Q = "\<lambda>_. P'"]]) (auto intro: runs_lift)

lemma runs_draw: "(\<And>w. P w \<Longrightarrow> Q (f (te_uuid E (tw_drawn w))) (w\<lparr>tw_drawn := tw_drawn w + 1\<rparr>)) \<Longrightarrow> runs I P (draw E f) Q"
  by (simp add: runs_def draw_def)

lemma runs_assert_plain:
  "(\<And>w. P w \<Longrightarrow> I w) \<Longrightarrow> runs I P (assert_plain_identifier name) (\<lambda>_ w. P w \<and> is_plain_identifier name)"
  unfolding assert_plain_identifier_def by (rule runs_lift) (auto split: if_splits)

section \<open>Nothing is left\<close>

text \<open>
  What the server is documented to do with the databases and the roles it has: a database is added
  by its creation when that succeeds, a role by its creation at most, a drop that succeeds removes
  its object, and the other statements, the connections and their ends add nothing.
\<close>

definition no_more :: "('w \<Rightarrow> string set) \<Rightarrow> ('w \<Rightarrow> string set) \<Rightarrow> 'w \<Rightarrow> 'w \<Rightarrow> bool" where
  "no_more dbs roles s s' \<longleftrightarrow> dbs s' \<subseteq> dbs s \<and> roles s' \<subseteq> roles s"

definition statement_laws :: "'w pg_server \<Rightarrow> ('w \<Rightarrow> string set) \<Rightarrow> ('w \<Rightarrow> string set)
    \<Rightarrow> string \<Rightarrow> string \<Rightarrow> 'w \<Rightarrow> bool" where
  "statement_laws pg dbs roles n v s \<longleftrightarrow>
     (case pg_execute pg (create_database_sql n, []) s of (r, s') \<Rightarrow>
        dbs s' \<subseteq> dbs s \<union> (if r = Ok () then {n} else {}) \<and> roles s' \<subseteq> roles s)
     \<and> (case pg_execute pg (create_caller_sql n v, []) s of (r, s') \<Rightarrow>
        dbs s' \<subseteq> dbs s \<and> roles s' \<subseteq> insert n (roles s))
     \<and> (case pg_execute pg (drop_database_sql n, []) s of (r, s') \<Rightarrow>
        no_more dbs roles s s' \<and> (r = Ok () \<longrightarrow> n \<notin> dbs s'))
     \<and> no_more dbs roles s (snd (pg_execute pg (drop_owned_sql n, []) s))
     \<and> (case pg_execute pg (drop_role_sql n, []) s of (r, s') \<Rightarrow>
        no_more dbs roles s s' \<and> (r = Ok () \<longrightarrow> n \<notin> roles s'))
     \<and> no_more dbs roles s (snd (in_transaction pg (caller_grant n) s))"

definition server_laws :: "'w test_env \<Rightarrow> ('w \<Rightarrow> string set) \<Rightarrow> ('w \<Rightarrow> string set) \<Rightarrow> bool" where
  "server_laws E dbs roles \<longleftrightarrow>
     (\<forall>url n v s. is_plain_identifier n \<longrightarrow> statement_laws (te_pool E url) dbs roles n v s)
   \<and> (\<forall>url a b k s. no_more dbs roles s (snd (te_connect E url k s))
     \<and> no_more dbs roles s (snd (te_connect_as E url a b k s)) \<and> no_more dbs roles s (te_close E url s))"

text \<open>A drop that the server refuses in some state.\<close>

definition refusable :: "'w test_env \<Rightarrow> string \<Rightarrow> bool" where
  "refusable E q \<longleftrightarrow> (\<exists>url s. fst (pg_execute (te_pool E url) (q, []) s) \<noteq> Ok ())"

text \<open>
  While the body runs, what is new on the server is registered and every registered name is plain.
\<close>

definition accounted :: "('w \<Rightarrow> string set) \<Rightarrow> ('w \<Rightarrow> string set) \<Rightarrow> string set \<Rightarrow> string set \<Rightarrow> 'w world \<Rightarrow> bool" where
  "accounted dbs roles D R w \<longleftrightarrow> dbs (tw_server w) \<subseteq> D \<union> id_name ` set (tw_databases w)
     \<and> roles (tw_server w) \<subseteq> R \<union> set (tw_roles w)
     \<and> (\<forall>d\<in>set (tw_databases w). is_plain_identifier (id_name d)) \<and> (\<forall>r\<in>set (tw_roles w). is_plain_identifier r)"

lemma accounted_no_more:
  "accounted dbs roles D R w \<Longrightarrow> no_more dbs roles (tw_server w) s' \<Longrightarrow> accounted dbs roles D R (w\<lparr>tw_server := s'\<rparr>)"
  by (auto simp: accounted_def no_more_def)

lemma server_lawsD:
  assumes "server_laws E dbs roles"
  shows "is_plain_identifier n \<Longrightarrow> pg_execute (te_pool E url) (create_database_sql n, []) s = (r, s')
      \<Longrightarrow> dbs s' \<subseteq> dbs s \<union> (if r = Ok () then {n} else {}) \<and> roles s' \<subseteq> roles s"
    and "is_plain_identifier n \<Longrightarrow> pg_execute (te_pool E url) (create_caller_sql n v, []) s = (r, s')
      \<Longrightarrow> dbs s' \<subseteq> dbs s \<and> roles s' \<subseteq> insert n (roles s)"
    and "is_plain_identifier n \<Longrightarrow> pg_execute (te_pool E url) (drop_database_sql n, []) s = (r, s')
      \<Longrightarrow> no_more dbs roles s s' \<and> (r = Ok () \<longrightarrow> n \<notin> dbs s')"
    and "is_plain_identifier n \<Longrightarrow> no_more dbs roles s (snd (pg_execute (te_pool E url) (drop_owned_sql n, []) s))"
    and "is_plain_identifier n \<Longrightarrow> pg_execute (te_pool E url) (drop_role_sql n, []) s = (r, s')
      \<Longrightarrow> no_more dbs roles s s' \<and> (r = Ok () \<longrightarrow> n \<notin> roles s')"
    and "is_plain_identifier n \<Longrightarrow> no_more dbs roles s (snd (in_transaction (te_pool E url) (caller_grant n) s))"
    and "no_more dbs roles s (snd (te_connect E url k s))"
    and "no_more dbs roles s (snd (te_connect_as E url a b k s))"
    and "no_more dbs roles s (te_close E url s)"
proof -
  have one: "is_plain_identifier n \<Longrightarrow> statement_laws (te_pool E url) dbs roles n v s" for n v url s
    using assms by (simp add: server_laws_def)
  show "is_plain_identifier n \<Longrightarrow> pg_execute (te_pool E url) (create_database_sql n, []) s = (r, s')
      \<Longrightarrow> dbs s' \<subseteq> dbs s \<union> (if r = Ok () then {n} else {}) \<and> roles s' \<subseteq> roles s"
    "is_plain_identifier n \<Longrightarrow> pg_execute (te_pool E url) (create_caller_sql n v, []) s = (r, s')
      \<Longrightarrow> dbs s' \<subseteq> dbs s \<and> roles s' \<subseteq> insert n (roles s)"
    "is_plain_identifier n \<Longrightarrow> pg_execute (te_pool E url) (drop_database_sql n, []) s = (r, s')
      \<Longrightarrow> no_more dbs roles s s' \<and> (r = Ok () \<longrightarrow> n \<notin> dbs s')"
    "is_plain_identifier n \<Longrightarrow> no_more dbs roles s (snd (pg_execute (te_pool E url) (drop_owned_sql n, []) s))"
    "is_plain_identifier n \<Longrightarrow> pg_execute (te_pool E url) (drop_role_sql n, []) s = (r, s')
      \<Longrightarrow> no_more dbs roles s s' \<and> (r = Ok () \<longrightarrow> n \<notin> roles s')"
    "is_plain_identifier n \<Longrightarrow> no_more dbs roles s (snd (in_transaction (te_pool E url) (caller_grant n) s))"
    using one [of n url v s] by (auto simp: statement_laws_def)
qed (use assms in \<open>auto simp: server_laws_def\<close>)

subsection \<open>The body\<close>

text \<open>A name in the registry stays there while the server is called.\<close>

definition holds_role :: "('w \<Rightarrow> string set) \<Rightarrow> ('w \<Rightarrow> string set) \<Rightarrow> string set \<Rightarrow> string set \<Rightarrow> string
    \<Rightarrow> 'w world \<Rightarrow> bool" where
  "holds_role dbs roles D R role w \<longleftrightarrow> accounted dbs roles D R w \<and> role \<in> set (tw_roles w)"

lemma holds_role_accounted: "holds_role dbs roles D R role w \<Longrightarrow> accounted dbs roles D R w"
  by (simp add: holds_role_def)

lemma holds_role_plain: "holds_role dbs roles D R role w \<Longrightarrow> is_plain_identifier role"
  by (simp add: holds_role_def accounted_def)

lemma holds_role_no_more:
  "holds_role dbs roles D R role w \<Longrightarrow> no_more dbs roles (tw_server w) s' \<Longrightarrow> holds_role dbs roles D R role (w\<lparr>tw_server := s'\<rparr>)"
  by (simp add: holds_role_def accounted_no_more)

lemma retry_no_more:
  assumes "\<And>s. no_more dbs roles s (snd (attempt s))"
  shows "no_more dbs roles s (snd (retry_catalog_race attempt s))"
proof (rule retry_catalog_race_keeps)
  show "no_more dbs roles s (snd (attempt w))" if "no_more dbs roles s w" for w
    using that assms [of w] by (auto simp: no_more_def)
qed (simp add: no_more_def)

lemma runs_unique_role:
  assumes "hex_supply E"
  shows "runs (accounted dbs roles D R) (accounted dbs roles D R) (unique_role E) (holds_role dbs roles D R)"
  unfolding runs_def unique_role_def bind_run_def draw_def register_role_def lift_run_def
  using drawn_plain [OF assms] by (auto simp: holds_role_def accounted_def)

lemma runs_create_caller:
  assumes laws: "server_laws E dbs roles"
  shows "runs (accounted dbs roles D R) (holds_role dbs roles D R role) (create_caller E pool_url admin_url role)
    (\<lambda>_. accounted dbs roles D R)"
proof -
  let ?A = "accounted dbs roles D R" and ?H = "holds_role dbs roles D R role"
  note law = server_lawsD [OF laws]
  have create: "?H (w\<lparr>tw_server := snd (pg_execute (te_pool E pool_url) (create_caller_sql role v, []) (tw_server w))\<rparr>)"
    if "?H w" for w v
    using law(2) [OF holds_role_plain [OF that], of pool_url v "tw_server w"] that
    by (cases "pg_execute (te_pool E pool_url) (create_caller_sql role v, []) (tw_server w)")
      (auto simp: holds_role_def accounted_def)
  have grant: "?H (w\<lparr>tw_server := snd (retry_catalog_race (in_transaction (te_pool E pool_url) (caller_grant role)) (tw_server w))\<rparr>)"
    if "?H w" for w
    using law(6) [OF holds_role_plain [OF that]] that by (intro holds_role_no_more retry_no_more) auto
  have assert: "runs ?A ?H (assert_plain_identifier role) (\<lambda>_. ?H)"
    by (rule runs_weaken [OF runs_assert_plain [where P = ?H]]) (auto dest: holds_role_accounted)
  have drawn: "runs ?A ?H (draw E password_of) (\<lambda>_. ?H)"
    by (rule runs_draw) (simp add: holds_role_def accounted_def)
  have verifier: "runs ?A ?H (lift_run r) (\<lambda>_. ?H)" for r :: "(string, panic) result"
    by (rule runs_lift) (simp_all add: holds_role_accounted)
  have created: "runs ?A ?H (expecting msg (pg_execute (te_pool E pool_url) (create_caller_sql role v, []))) (\<lambda>_. ?H)" for msg v
    by (rule runs_expecting) (simp_all add: create holds_role_accounted)
  have granted: "runs ?A ?H (expecting msg (retry_catalog_race (in_transaction (te_pool E pool_url) (caller_grant role))))
      (\<lambda>_. ?H)" for msg
    by (rule runs_expecting) (simp_all add: grant holds_role_accounted)
  have options: "runs ?A ?H (lift_run r) (\<lambda>_. ?A)" for r :: "(unit, panic) result"
    by (rule runs_lift) (simp_all add: holds_role_accounted)
  have opened: "runs ?A ?H (open_pool_as E admin_url role pw k) (\<lambda>_. ?A)" for pw k
    unfolding open_pool_as_def
    by (rule runs_bind [OF options runs_server]) (simp add: accounted_no_more law(8))
  show ?thesis
    unfolding create_caller_def
    by (rule runs_bind [OF assert], rule runs_bind [OF drawn], rule runs_bind [OF verifier],
        rule runs_bind [OF created], rule runs_bind [OF granted], rule runs_bind [OF opened],
        rule runs_bind [OF runs_pure], rule runs_pure)
qed

lemma runs_world_database:
  assumes laws: "server_laws E dbs roles" and hex: "hex_supply E"
  shows "runs (accounted dbs roles D R) (accounted dbs roles D R) (world_database E url) (\<lambda>_. accounted dbs roles D R)"
  unfolding runs_def
proof (intro allI impI)
  fix w
  assume w: "accounted dbs roles D R w"
  define name where "name = role_name_of (te_uuid E (tw_drawn w))"
  have plain: "is_plain_identifier name"
    by (simp add: name_def drawn_plain [OF hex])
  obtain r s' where ex: "pg_execute (te_pool E url) (create_database_sql name, []) (tw_server w) = (r, s')"
    by (cases "pg_execute (te_pool E url) (create_database_sql name, []) (tw_server w)")
  note law = server_lawsD(1) [OF laws plain ex]
  show "case world_database E url w of (Err p, w') \<Rightarrow> accounted dbs roles D R w'
      | (Ok x, w') \<Rightarrow> accounted dbs roles D R w'"
    using w law ex plain
    by (cases "te_with_path E url (''/'' @ name)"; cases r)
      (auto simp: world_database_def create_isolated_database_def bind_run_def draw_def lift_run_def
        assert_plain_identifier_def expected_def expecting_def on_server_def register_database_def
        name_def [symmetric] accounted_def)
qed

lemma runs_op:
  assumes laws: "server_laws E dbs roles" and hex: "hex_supply E"
  shows "runs (accounted dbs roles D R) (accounted dbs roles D R) (run_op E url op) (\<lambda>_. accounted dbs roles D R)"
proof -
  let ?A = "accounted dbs roles D R"
  note role = runs_unique_role [OF hex, of dbs roles D R]
  note caller = runs_create_caller [OF laws]
  have opened: "runs ?A (holds_role dbs roles D R r) (expecting msg (te_connect E u k)) (\<lambda>_. holds_role dbs roles D R r)" for r msg u k
    by (rule runs_expecting) (simp_all add: holds_role_no_more server_lawsD(7) [OF laws] holds_role_accounted)
  have closed: "runs ?A ?A (on_server (\<lambda>s. ((), te_close E u s))) (\<lambda>_. ?A)" for u
    by (rule runs_server) (simp add: accounted_no_more server_lawsD(9) [OF laws])
  show ?thesis
  proof (cases op)
    case UniqueRole
    have "runs ?A ?A (unique_role E) (\<lambda>_. ?A)"
      by (rule runs_weaken [OF role]) (simp_all add: holds_role_accounted)
    then show ?thesis
      by (simp add: UniqueRole runs_discard)
  next
    case NewCaller
    have "runs ?A ?A (world_caller E url) (\<lambda>_. ?A)"
      unfolding world_caller_def by (rule runs_bind [OF role caller])
    then show ?thesis
      by (simp add: NewCaller runs_discard)
  next
    case NewDatabase
    show ?thesis
      using runs_world_database [OF laws hex] by (simp add: NewDatabase runs_discard)
  next
    case (NewCallerIn db)
    have "runs ?A ?A (world_caller_in E db) (\<lambda>_. ?A)"
      unfolding world_caller_in_def
      by (rule runs_bind [OF role], rule runs_bind [OF opened], rule runs_bind [OF caller],
          rule runs_bind [OF closed], rule runs_pure)
    then show ?thesis
      by (simp add: NewCallerIn runs_discard)
  qed
qed

lemma body_accounted:
  assumes "server_laws E dbs roles" and "hex_supply E" and "accounted dbs roles D R w"
  shows "accounted dbs roles D R (snd (run_body E url ops ending w))"
  using assms(3)
proof (induction ops arbitrary: w)
  case Nil
  then show ?case
    by (simp add: lift_run_def)
next
  case (Cons op ops)
  then show ?case
    using runs_op [OF assms(1,2), of D R url op]
    by (fastforce simp: runs_def bind_run_def split: prod.splits sum.splits)
qed

lemma body_value: "run_body E url ops ending w = (Ok v, w') \<Longrightarrow> ending = Ok v"
  by (induction ops arbitrary: w) (auto simp: lift_run_def bind_run_def split: prod.splits sum.splits)

subsection \<open>The teardown\<close>

lemma drop_isolated_plain:
  "is_plain_identifier (id_name db) \<Longrightarrow> pg_execute (te_pool E url) (drop_database_sql (id_name db), []) (tw_server w) = (r, s')
    \<Longrightarrow> drop_isolated_database E url db w = (Ok r, w\<lparr>tw_server := s'\<rparr>)"
  by (simp add: drop_isolated_database_def bind_run_def assert_plain_identifier_def lift_run_def on_server_def)

lemma drop_databases_drops:
  assumes laws: "server_laws E dbs roles"
  shows "\<forall>d\<in>set ds. is_plain_identifier (id_name d) \<Longrightarrow>
    \<exists>first' s'. drop_databases E url ds first w = (Ok first', w\<lparr>tw_server := s'\<rparr>)
      \<and> no_more dbs roles (tw_server w) s' \<and> (first \<noteq> None \<longrightarrow> first' \<noteq> None)
      \<and> (\<forall>n\<in>id_name ` set ds \<inter> dbs s'. refusable E (drop_database_sql n) \<and> first' \<noteq> None)"
proof (induction ds arbitrary: first w)
  case Nil
  then show ?case
    by (intro exI [of _ first] exI [of _ "tw_server w"]) (simp add: lift_run_def no_more_def)
next
  case (Cons d ds)
  let ?n = "id_name d"
  have plain: "is_plain_identifier ?n"
    using Cons.prems by simp
  obtain r s1 where ex: "pg_execute (te_pool E url) (drop_database_sql ?n, []) (tw_server w) = (r, s1)"
    by (cases "pg_execute (te_pool E url) (drop_database_sql ?n, []) (tw_server w)")
  define next_first where "next_first = (case (first, r) of (None, Err e) \<Rightarrow> Some e | _ \<Rightarrow> first)"
  obtain first' s' where rest: "drop_databases E url ds next_first (w\<lparr>tw_server := s1\<rparr>) = (Ok first', w\<lparr>tw_server := s'\<rparr>)"
      "no_more dbs roles s1 s'" "next_first \<noteq> None \<longrightarrow> first' \<noteq> None"
      "\<forall>n\<in>id_name ` set ds \<inter> dbs s'. refusable E (drop_database_sql n) \<and> first' \<noteq> None"
    using Cons.IH [of next_first "w\<lparr>tw_server := s1\<rparr>"] Cons.prems by auto
  have law: "no_more dbs roles (tw_server w) s1" "r = Ok () \<longrightarrow> ?n \<notin> dbs s1"
    using server_lawsD(3) [OF laws plain ex] by blast+
  have step: "drop_databases E url (d # ds) first w = (Ok first', w\<lparr>tw_server := s'\<rparr>)"
    using rest(1) by (simp add: bind_run_def drop_isolated_plain [OF plain ex] next_first_def)
  have this_one: "refusable E (drop_database_sql ?n) \<and> first' \<noteq> None" if "?n \<in> dbs s'"
  proof -
    have r: "r \<noteq> Ok ()"
      using that law(2) rest(2) by (auto simp: no_more_def)
    then obtain e where "r = Err e"
      by (cases r) auto
    then show ?thesis
      using r ex rest(3) by (cases first) (auto simp: refusable_def next_first_def intro!: exI [of _ url] exI [of _ "tw_server w"])
  qed
  have kept: "first \<noteq> None \<longrightarrow> first' \<noteq> None"
    using rest(3) by (auto simp: next_first_def)
  have "no_more dbs roles (tw_server w) s'"
    using law(1) rest(2) by (auto simp: no_more_def)
  then show ?case
    using step kept this_one rest(4) by (intro exI [of _ first'] exI [of _ s']) auto
qed

lemma cleanup_role_drops:
  assumes laws: "server_laws E dbs roles" and plain: "is_plain_identifier role"
  shows "\<exists>s'. cleanup_role E url role w = (Ok (), w\<lparr>tw_server := s'\<rparr>) \<and> no_more dbs roles (tw_server w) s'
    \<and> (role \<in> roles s' \<longrightarrow> refusable E (drop_role_sql role))"
proof -
  obtain r1 s1 where owned: "retry_catalog_race (pg_execute (te_pool E url) (drop_owned_sql role, [])) (tw_server w) = (r1, s1)"
    by (cases "retry_catalog_race (pg_execute (te_pool E url) (drop_owned_sql role, [])) (tw_server w)")
  obtain r s' where ex: "pg_execute (te_pool E url) (drop_role_sql role, []) s1 = (r, s')"
    by (cases "pg_execute (te_pool E url) (drop_role_sql role, []) s1")
  have first: "no_more dbs roles (tw_server w) s1"
    using retry_no_more [of dbs roles "pg_execute (te_pool E url) (drop_owned_sql role, [])" "tw_server w"]
      server_lawsD(4) [OF laws plain] owned by simp
  have second: "no_more dbs roles s1 s'" "r = Ok () \<longrightarrow> role \<notin> roles s'"
    using server_lawsD(5) [OF laws plain ex] by blast+
  have "cleanup_role E url role w = (Ok (), w\<lparr>tw_server := s'\<rparr>)"
    using owned ex plain
    by (simp add: cleanup_role_def bind_run_def assert_plain_identifier_def lift_run_def on_server_def)
  moreover have "refusable E (drop_role_sql role)" if "role \<in> roles s'"
    using that second(2) ex by (auto simp: refusable_def intro!: exI [of _ url] exI [of _ s1])
  moreover have "no_more dbs roles (tw_server w) s'"
    using first second(1) by (auto simp: no_more_def)
  ultimately show ?thesis
    by blast
qed

lemma cleanup_roles_drops:
  assumes laws: "server_laws E dbs roles"
  shows "\<forall>r\<in>set rs. is_plain_identifier r \<Longrightarrow>
    \<exists>s'. cleanup_roles E url rs w = (Ok (), w\<lparr>tw_server := s'\<rparr>) \<and> no_more dbs roles (tw_server w) s'
      \<and> (\<forall>n\<in>set rs \<inter> roles s'. refusable E (drop_role_sql n))"
proof (induction rs arbitrary: w)
  case Nil
  then show ?case
    by (intro exI [of _ "tw_server w"]) (simp add: lift_run_def no_more_def)
next
  case (Cons role rs)
  obtain s1 where one: "cleanup_role E url role w = (Ok (), w\<lparr>tw_server := s1\<rparr>)"
      "no_more dbs roles (tw_server w) s1" "role \<in> roles s1 \<longrightarrow> refusable E (drop_role_sql role)"
    using cleanup_role_drops [OF laws, of role url w] Cons.prems by auto
  obtain s' where rest: "cleanup_roles E url rs (w\<lparr>tw_server := s1\<rparr>) = (Ok (), w\<lparr>tw_server := s'\<rparr>)"
      "no_more dbs roles s1 s'" "\<forall>n\<in>set rs \<inter> roles s'. refusable E (drop_role_sql n)"
    using Cons.IH [of "w\<lparr>tw_server := s1\<rparr>"] Cons.prems by auto
  have "cleanup_roles E url (role # rs) w = (Ok (), w\<lparr>tw_server := s'\<rparr>)"
    by (simp add: bind_run_def one(1) rest(1))
  then show ?case
    using one(2,3) rest(2,3) by (intro exI [of _ s']) (auto simp: no_more_def)
qed

lemma finish_world_drops:
  assumes laws: "server_laws E dbs roles" and acc: "accounted dbs roles D R w"
    and run: "finish_world E url outcome w = (r, w')"
  shows "dbs (tw_server w') \<subseteq> D \<union> {n. refusable E (drop_database_sql n)}
    \<and> roles (tw_server w') \<subseteq> R \<union> {n. refusable E (drop_role_sql n)}
    \<and> tw_databases w' = [] \<and> tw_roles w' = []
    \<and> (\<forall>p. outcome = Err p \<longrightarrow> r = Err p)
    \<and> (\<forall>v. r = Ok v \<longrightarrow> outcome = Ok v \<and> dbs (tw_server w') \<subseteq> D)"
proof -
  let ?w0 = "w\<lparr>tw_databases := [], tw_roles := []\<rparr>"
  have plain: "\<forall>d\<in>set (rev (tw_databases w)). is_plain_identifier (id_name d)"
      "\<forall>x\<in>set (rev (tw_roles w)). is_plain_identifier x"
    using acc by (auto simp: accounted_def)
  obtain first s1 where dropped: "drop_databases E url (rev (tw_databases w)) None ?w0 = (Ok first, ?w0\<lparr>tw_server := s1\<rparr>)"
      "no_more dbs roles (tw_server w) s1"
      "\<forall>n\<in>id_name ` set (tw_databases w) \<inter> dbs s1. refusable E (drop_database_sql n) \<and> first \<noteq> None"
    using drop_databases_drops [OF laws plain(1), of url None ?w0] by auto
  obtain s2 where cleaned: "cleanup_roles E url (rev (tw_roles w)) (?w0\<lparr>tw_server := s1\<rparr>) = (Ok (), ?w0\<lparr>tw_server := s2\<rparr>)"
      "no_more dbs roles s1 s2" "\<forall>n\<in>set (tw_roles w) \<inter> roles s2. refusable E (drop_role_sql n)"
    using cleanup_roles_drops [OF laws plain(2), of url "?w0\<lparr>tw_server := s1\<rparr>"] by auto
  define torn_down where "torn_down = (case first of None \<Rightarrow> Ok () | Some e \<Rightarrow> Err e)"
  have "teardown E url w = (Ok torn_down, ?w0\<lparr>tw_server := s2\<rparr>)"
    using dropped(1) cleaned(1) by (simp add: teardown_def bind_run_def lift_run_def torn_down_def)
  then have w': "w' = ?w0\<lparr>tw_server := te_close E url s2\<rparr>"
    and r: "r = (case outcome of Err p \<Rightarrow> Err p
      | Ok v \<Rightarrow> and_then (map_err (\<lambda>_. ''drop isolated database'') torn_down) (\<lambda>_. Ok v))"
    using run by (simp_all add: finish_world_def bind_run_def on_server_def lift_run_def)
  have closed: "no_more dbs roles s2 (te_close E url s2)"
    by (rule server_lawsD(9) [OF laws])
  have left: "no_more dbs roles (tw_server w) (tw_server w')" "no_more dbs roles s1 (tw_server w')" "no_more dbs roles s2 (tw_server w')"
    using closed cleaned(2) dropped(2) unfolding w' no_more_def by auto
  have "dbs (tw_server w') \<subseteq> D \<union> {n \<in> id_name ` set (tw_databases w). n \<in> dbs s1}"
    using left(1,2) acc by (auto simp: no_more_def accounted_def)
  moreover have "roles (tw_server w') \<subseteq> R \<union> {n \<in> set (tw_roles w). n \<in> roles s2}"
    using left(1,3) acc by (auto simp: no_more_def accounted_def)
  moreover have "outcome = Ok v \<and> first = None" if "r = Ok v" for v
    using that r by (cases first; cases outcome) (auto simp: torn_down_def)
  ultimately show ?thesis
    using dropped(3) cleaned(3) r w' by fastforce
qed

text \<open>
  Whatever a test asks of its world and however it ends, by its value, by its panic or by the panic
  of a helper in the middle, the server is left with no database and no role that it did not have,
  except where it refuses to drop one; and a value is returned only when that is the test's own
  and no database is left at all.
\<close>

theorem test_world_leaves_nothing:
  assumes "server_laws E dbs roles" and "hex_supply E"
    and "with_test_world E env ops ending w = (r, w')"
  shows "dbs (tw_server w') \<subseteq> dbs (tw_server w) \<union> {n. refusable E (drop_database_sql n)}
    \<and> roles (tw_server w') \<subseteq> roles (tw_server w) \<union> {n. refusable E (drop_role_sql n)}
    \<and> (\<forall>v. r = Ok v \<longrightarrow> ending = Ok v \<and> dbs (tw_server w') \<subseteq> dbs (tw_server w))"
proof (cases "require_test_db_url env")
  case (Inl p)
  then show ?thesis
    using assms(3) by (auto simp: with_test_world_def bind_run_def lift_run_def)
next
  case (Inr url)
  obtain c s1 where con: "te_connect E url 2 (tw_server w) = (c, s1)"
    by (cases "te_connect E url 2 (tw_server w)")
  have con_law: "no_more dbs roles (tw_server w) s1"
    using server_lawsD(7) [OF assms(1), of "tw_server w" url 2] con by simp
  show ?thesis
  proof (cases c)
    case (Inl e)
    then show ?thesis
      using assms(3) Inr con con_law
      by (auto simp: with_test_world_def bind_run_def lift_run_def expecting_def on_server_def no_more_def)
  next
    case (Inr u)
    let ?w1 = "w\<lparr>tw_server := s1, tw_databases := [], tw_roles := []\<rparr>"
    obtain outcome w2 where body: "run_body E url ops ending ?w1 = (outcome, w2)"
      by (cases "run_body E url ops ending ?w1")
    have fin: "finish_world E url outcome w2 = (r, w')"
      using assms(3) \<open>require_test_db_url env = Ok url\<close> con Inr body
      by (simp add: with_test_world_def bind_run_def lift_run_def expecting_def on_server_def)
    have "accounted dbs roles (dbs (tw_server w)) (roles (tw_server w)) ?w1"
      using con_law by (auto simp: accounted_def no_more_def)
    then have "accounted dbs roles (dbs (tw_server w)) (roles (tw_server w)) w2"
      using body_accounted [OF assms(1,2), of _ _ ?w1 url ops ending] body by simp
    note finish_world_drops [OF assms(1) this fin]
    moreover have "ending = Ok v" if "outcome = Ok v" for v
      using body_value [OF body [unfolded that]] .
    ultimately show ?thesis
      by blast
  qed
qed

text \<open>A server that keeps its databases and roles and reads the quoted name of a statement.\<close>

definition quoted_name :: "string \<Rightarrow> string" where
  "quoted_name q = takeWhile (\<lambda>c. c \<noteq> CHR 0x22) (tl (dropWhile (\<lambda>c. c \<noteq> CHR 0x22) q))"

fun keeping_execute :: "sql \<Rightarrow> string set \<times> string set \<Rightarrow> (unit, pg_error) result \<times> string set \<times> string set" where
  "keeping_execute (q, _) (ds, rs) = (Ok (),
     if starts_with ''CREATE DATABASE'' q then (insert (quoted_name q) ds, rs)
     else if starts_with ''CREATE ROLE'' q then (ds, insert (quoted_name q) rs)
     else if starts_with ''DROP DATABASE'' q then (ds - {quoted_name q}, rs)
     else if starts_with ''DROP ROLE'' q then (ds, rs - {quoted_name q})
     else (ds, rs))"

definition keeping_server :: "(string set \<times> string set) pg_server" where
  "keeping_server = \<lparr>pg_begin = Pair (Ok ()), pg_execute = keeping_execute, pg_commit = Pair (Ok ()), pg_rollback = id\<rparr>"

definition keeping_env :: "(string set \<times> string set) test_env" where
  "keeping_env = \<lparr>te_pool = (\<lambda>_. keeping_server), te_connect = (\<lambda>_ _. Pair (Ok ())),
     te_connect_as = (\<lambda>_ _ _ _. Pair (Ok ())), te_close = (\<lambda>_. id), te_options_ok = (\<lambda>_. True),
     te_with_path = (\<lambda>u p. Some (u @ p)), te_scram = (\<lambda>_. verifier_prefix), te_uuid = (\<lambda>_. replicate 32 CHR ''a'')\<rparr>"

lemma quoted_name_plain:
  assumes "is_plain_identifier n" and "CHR 0x22 \<notin> set pre"
  shows "quoted_name (pre @ CHR 0x22 # n @ CHR 0x22 # post) = n"
proof -
  have "CHR 0x22 \<notin> set n"
    using assms(1) by (auto simp: is_plain_identifier_def list_all_iff is_ascii_lowercase_def is_ascii_digit_def byte_def)
  then have "takeWhile (\<lambda>c. c \<noteq> CHR 0x22) (n @ CHR 0x22 # post) = n"
    by (subst takeWhile_append2) auto
  moreover have "dropWhile (\<lambda>c. c \<noteq> CHR 0x22) (pre @ CHR 0x22 # n @ CHR 0x22 # post) = CHR 0x22 # n @ CHR 0x22 # post"
    using assms(2) by (subst dropWhile_append2) auto
  ultimately show ?thesis
    by (simp add: quoted_name_def)
qed

lemma quoted_names:
  assumes "is_plain_identifier n"
  shows "quoted_name (create_database_sql n) = n" "quoted_name (create_caller_sql n v) = n"
    "quoted_name (drop_database_sql n) = n" "quoted_name (drop_role_sql n) = n"
  using quoted_name_plain [OF assms, of "''CREATE DATABASE ''" "[]"]
    quoted_name_plain [OF assms, of "''CREATE ROLE ''"]
    quoted_name_plain [OF assms, of "''DROP DATABASE IF EXISTS ''"]
    quoted_name_plain [OF assms, of "''DROP ROLE IF EXISTS ''" "[]"]
  by (simp_all add: create_database_sql_def create_caller_sql_def drop_database_sql_def drop_role_sql_def)

lemma keeping_env_laws: "server_laws keeping_env fst snd"
proof -
  have "statement_laws keeping_server fst snd n v s" if n: "is_plain_identifier n" for n v s
  proof (cases s)
    case (Pair ds rs)
    have "keeping_execute (create_database_sql n, []) s = (Ok (), insert n ds, rs)"
      "keeping_execute (create_caller_sql n v, []) s = (Ok (), ds, insert n rs)"
      "keeping_execute (drop_database_sql n, []) s = (Ok (), ds - {n}, rs)"
      "keeping_execute (drop_role_sql n, []) s = (Ok (), ds, rs - {n})"
      "keeping_execute (drop_owned_sql n, []) s = (Ok (), ds, rs)"
      "in_transaction keeping_server (caller_grant n) s = (Ok (), s)"
      using quoted_names [OF n]
      by (simp_all add: Pair starts_with_def create_database_sql_def create_caller_sql_def drop_database_sql_def
          drop_role_sql_def drop_owned_sql_def caller_grant_def grant_create_sql_def in_transaction_def keeping_server_def)
    then show ?thesis
      by (auto simp: statement_laws_def keeping_server_def no_more_def Pair)
  qed
  then show ?thesis
    by (simp add: server_laws_def keeping_env_def no_more_def)
qed

lemma test_world_leaves_nothing_witness:
  "fst (tw_server (snd (with_test_world keeping_env (\<lambda>_. Ok ''postgres://pg/postgres'') [NewDatabase, NewCaller]
      (Err ''assertion failed'' :: (nat, panic) result)
      \<lparr>tw_server = ({''postgres''}, {''admin''}), tw_drawn = 0, tw_databases = [], tw_roles = []\<rparr>))) \<subseteq> {''postgres''}"
proof -
  have hex: "hex_supply keeping_env"
    by (simp add: hex_supply_def keeping_env_def lower_hex_def list_all_iff)
  have calm: "\<not> refusable keeping_env q" for q
    by (simp add: refusable_def keeping_env_def keeping_server_def split_paired_all)
  show ?thesis
    using test_world_leaves_nothing [OF keeping_env_laws hex prod.collapse [symmetric], of "\<lambda>_. Ok ''postgres://pg/postgres''"
        "[NewDatabase, NewCaller]" "Err ''assertion failed'' :: (nat, panic) result"
        "\<lparr>tw_server = ({''postgres''}, {''admin''}), tw_drawn = 0, tw_databases = [], tw_roles = []\<rparr>"] calm by simp
qed

end
