(* ===== verification/Spec2Isabelle.thy ===== *)
theory Spec2Isabelle
  imports Coords Ord_Map Outbox_Correct Consumer_Correct Mirror_Correct Directory_Sync_Correct
    Directory_State Directory_Ledger Handshake_Correct Passport Values_Correct Boot_Correct Postgres_Correct
    Graphql_Correct Broadcast Observability_Correct Conformance Relay_Metric Event_Path Deployment Test_Support_Correct
begin

text \<open>
  A model of \<^verbatim>\<open>br-rust-common\<close>, the Rust crates the services of one platform share, with the
  properties that make them correct. Definitions are translated from \<^verbatim>\<open>src/crates\<close> and
  \<^verbatim>\<open>src/tools\<close>; the paths below are relative to these.

  \<^bold>\<open>The program.\<close> A service writes its tables and, in the same transaction, rows of an
  outbox; a relay publishes the rows to JetStream, and durable consumers of other services take the
  messages and acknowledge them. Reference data travels through key-value buckets: a publisher makes
  a bucket equal to what its source desires, and the mirrors of other services follow the bucket into
  tables of their own, which is how users, groups and service accounts are known everywhere. A
  service announces its scopes when it starts; the identity context registers them and confirms, and
  the service is ready once it hears that its declaration was accepted. Requests carry a passport
  that states who acts. Around this stand the value objects, the boot environment, the access to
  Postgres, the edge kit for GraphQL and REST, logs and metrics, and an in-process bus.

  \<^bold>\<open>Shared theories.\<close> Prelude: results, machine integers (words; saturation written out),
  durations, the faults of remote calls. Rust_Str: the operations of \<^verbatim>\<open>str\<close> on UTF-8 bytes, and
  the locale \<open>checked_string\<close> of the newtypes that only a validating constructor makes.
  Ord_Map: \<^verbatim>\<open>BTreeMap\<close> and \<^verbatim>\<open>BTreeSet\<close> as ordered association lists. Json:
  \<^verbatim>\<open>serde_json::Value\<close>, the rules of the derived decoders, and the locale \<open>wire_form\<close> of the
  values that read back from their JSON form.

  \<^bold>\<open>Messages.\<close> Coords: segments and coordinates (\<^verbatim>\<open>br-core-integration/src/coords\<close>),
  rendering and parsing of subjects and the coverage of filters
  (\<^verbatim>\<open>br-util-nats-fabric/src/coords\<close>, \<^verbatim>\<open>consumer/coverage.rs\<close>). Core_Types: identifiers,
  actors, metadata, envelopes (\<^verbatim>\<open>br-core-kernel\<close>, \<^verbatim>\<open>br-core-events\<close>,
  \<^verbatim>\<open>br-core-integration\<close>). Fabric_Error and Fabric: errors, their classification, and the
  publish calls (\<^verbatim>\<open>br-util-nats-fabric/src/error.rs\<close>, \<^verbatim>\<open>classify.rs\<close>, \<^verbatim>\<open>fabric\<close>).

  \<^bold>\<open>Outbox.\<close> Outbox_State: statuses, transitions and the retry schedule
  (\<^verbatim>\<open>br-core-integration/src/outbox\<close>). Outbox_Relay: the table, the statements, one pass, the
  driver with its health (\<^verbatim>\<open>br-util-nats-fabric/src/outbox\<close>). Outbox_Correct: a pass refines the
  abstract step \<open>row_attempt\<close> of one row at most once per row; a row is marked published only
  after an acknowledgement; a calm pass publishes all; the counters add up; the two ways the relay
  gets stuck. Relay_Metric: the counter of duplicates beside the passes.

  \<^bold>\<open>Consumers.\<close> Consumer_Bind: create or bind, verification, explicit acknowledgement.
  Consumer_Loop: the managed loop with its recovery (\<^verbatim>\<open>consumer/run.rs\<close>, \<^verbatim>\<open>recovery.rs\<close>,
  \<^verbatim>\<open>backoff.rs\<close>). Consumer_Correct: the histories of calls a run of the loop
  leaves, with one acknowledgement per frame and the verdict its handler returned; what in the history
  makes the loop return; and, from the locale \<open>message_source\<close> interpreted on the pull source,
  that recovery ends and how an outage exhausts the budget. Event_Path composes both ends: an event
  staged in the outbox of one service reaches the handler of another as it was.

  \<^bold>\<open>Buckets and mirrors.\<close> Kv_Key, Kv_Store and Kv_Correct: keys, codec, scans, the
  reconciliation plan and the publisher that converges (\<^verbatim>\<open>br-util-nats-fabric/src/kv\<close>).
  Kv_Mirror and Mirror_Correct: the mirror, its supervisor and the ephemeral-auth watch; the locales
  \<open>projection_sink\<close> and \<open>reliable_sink\<close> state what a mirror needs of a sink.

  \<^bold>\<open>Directory.\<close> Directory_Types: the published values (\<^verbatim>\<open>br-core-directory\<close>).
  Directory_Sinks, Directory_Sync, Directory_State and Directory_Ledger: the sinks over the tables
  with impacts staged in the same transaction, publisher and projector, stream health and snapshot,
  and the migration ledger (\<^verbatim>\<open>br-util-directory\<close>). Directory_Correct and Directory_Live interpret
  the sink locales on the three sinks; Directory_Sync_Correct composes publisher and projector: the
  copy is what the source desires.

  \<^bold>\<open>Scopes.\<close> Scope_Key and Scope_Wire: keys, declarations and their JSON forms
  (\<^verbatim>\<open>br-core-scope\<close>). Scope_Registry: the aggregate (\<^verbatim>\<open>br-identity-domain\<close>). Identity_Store
  and Identity_Pipeline: load and save under read committed, the confirmations and the retry loop
  (\<^verbatim>\<open>br-identity-app\<close>, \<^verbatim>\<open>br-scope-declaration-contract\<close>). Identity_Valid, Identity_Steps,
  Identity_Correct, Identity_Guarantees and Identity_Calm: the valid stores, a save as one step of
  the abstract registry, verdicts that are atomic although other replicas interfere, when exactly a
  load takes a valid store for corrupt, and answers when nothing fails. Handshake and Handshake_Correct: the readiness gate, the correlated awaiter and
  the declaration at the start (\<^verbatim>\<open>br-util-axum-readiness\<close>, \<^verbatim>\<open>awaiter.rs\<close>,
  \<^verbatim>\<open>br-util-scope-declaration\<close>), up to the whole way from a declaration through the identity
  context to a service that is ready.

  \<^bold>\<open>Requests and edges.\<close> Passport: passports and exactly the objects they are read from,
  grants, header, tokens, cookies and both middlewares (\<^verbatim>\<open>br-core-auth\<close>, \<^verbatim>\<open>br-util-axum-auth\<close>). Values, Values_Correct and
  Conformance: ISO codes with their tables, money, localized texts, errors, and the check of a
  product's locale (\<^verbatim>\<open>br-core-values\<close>). Graphql and Graphql_Correct: errors with both renderings,
  affordances, pages, conversions (\<^verbatim>\<open>br-util-graphql\<close>). Boot and Boot_Correct: the variables, the
  two URLs and their redaction (\<^verbatim>\<open>br-util-boot\<close>). Postgres and Postgres_Correct: encryption,
  pools, roles, grants, catalog retries, migration status (\<^verbatim>\<open>br-util-postgres\<close>). Observability
  and Observability_Correct: log lines, routes, metrics (\<^verbatim>\<open>br-util-observability\<close>). Broadcast:
  the bus (\<^verbatim>\<open>br-util-broadcast\<close>). Deployment: the ops contract (\<^verbatim>\<open>tools/br-ops-contract\<close>) and
  the way of a database URL from the environment to the pool, with each way it can be refused. Test_Support and Test_Support_Correct:
  the world of an end-to-end test and its teardown (\<^verbatim>\<open>br-test-support\<close>).

  \<^bold>\<open>State and effects.\<close> A component's state is a record that its operations take and return.
  A call that may fail returns a \<open>result\<close>; a panic is a value too. A handler that acts on a
  remote party takes that party as a record of functions over a state of its own, so every order of
  calls and every failure is in the model. Interleaving is explicit: the table a pass finds, the
  commits of other replicas between two statements, the events a driver picks, the arrivals an
  awaiter sees are arguments. Requests in flight, the rows of the outbox, the registry and the
  health of streams are step relations with invariants by rule induction.

  \<^bold>\<open>Bounds and fuel.\<close> Loops that have to end are functions with a measure: a pass of the relay
  by its cap, retries by their attempts, the handshake by the arrivals, the parsers by their input.
  The consumer loop and the supervisor need not end. They are step functions iterated with fuel, and
  a run that has used its fuel is one that is still going; what is claimed of their return is claimed
  with a number of turns (twelve for a recovery on the pull source, thirteen for an outage, any
  number for the flapping broker), and what is claimed of their traces holds for every fuel.

  \<^bold>\<open>Parameters.\<close> Not under \<^verbatim>\<open>src\<close> and so arguments of the model, with what is relied on as
  named hypotheses: the NATS client and JetStream, Postgres and \<^verbatim>\<open>sqlx\<close>, \<^verbatim>\<open>url\<close> and the debug
  form of strings, the text of JSON and base64, the codecs of \<^verbatim>\<open>uuid\<close> and \<^verbatim>\<open>chrono\<close>, SHA-256
  and SCRAM, the channels of \<^verbatim>\<open>tokio\<close>, the clock and fresh identifiers, the exporter of metrics,
  the locale of a product, the services behind a middleware.

  \<^bold>\<open>Findings.\<close> A broker that misses heartbeats while every re-bind succeeds is never counted
  against the budget. Loading the registry with two statements under read committed raises a false
  alarm when another replica registers a service in between. Every accepted declaration touches the
  last-seen time of all scopes. Codes are upper-cased by the rules of Unicode before they are
  checked, so some text outside ASCII is accepted. A refused value reports its own code instead of
  the offending text. The method label of the metrics is the client's.

  \<^bold>\<open>Not modelled.\<close> The charts, the release scripts and the SQL of the migrations are not Rust;
  the tables they make are the records of the stores. The schema derivations of \<^verbatim>\<open>async-graphql\<close>,
  the routers of \<^verbatim>\<open>axum\<close>, opening a connection and dropping it are calls of libraries. Log lines
  that the code writes on its way are left out where nothing is decided by them. Messages of the
  decoders are left out of some errors. Memory, performance and the scheduler are outside.
\<close>

end
